(* ===== verification/WA_Prelude.thy ===== *)
theory WA_Prelude
  imports Complex_Main "HOL-Library.Char_ord" "HOL-Library.List_Lexorder" "HOL-Library.Product_Lexorder"
begin

text \<open>
  Shared vocabulary of the development: the Python exceptions of the modelled code as a
  datatype, instants and durations, the text helpers of the source (\<^verbatim>\<open>str.strip\<close>,
  \<^verbatim>\<open>str.lower\<close>, decimal rendering), SQL statements over tables that are lists of rows, and
  the generic lemmas that the component theories use through the collections declared here.
\<close>

named_theorems table_simps \<open>how SQL statements act on tables\<close>
named_theorems text_simps \<open>facts about normalised text\<close>

section \<open>Exceptions, instants, durations\<close>

text \<open>
  One constructor per exception class that the modelled code raises itself or lets through.
  \<open>DomainErr cls\<close> is a \<^verbatim>\<open>DomainError\<close> subclass, named by its class.
\<close>

datatype exn =
    ValueError string
  | TypeError string
  | KeyError string
  | OverflowError
  | RuntimeErr string
  | IntegrityError string
  | HookRaised string
  | DomainErr string

text \<open>Instants are microseconds of UTC (the resolution of \<^verbatim>\<open>datetime\<close>).\<close>

type_synonym time = int
type_synonym seconds = rat

text \<open>\<^verbatim>\<open>timedelta(seconds=x)\<close> rounds to the nearest microsecond, ties to even.\<close>

definition round_half_even :: "rat \<Rightarrow> int" where
  "round_half_even x =
     (let f = \<lfloor>x\<rfloor>; d = x - of_int f
      in if d < 1 / 2 then f else if 1 / 2 < d then f + 1 else if even f then f else f + 1)"

definition timedelta_us :: "seconds \<Rightarrow> int" where
  "timedelta_us x = round_half_even (x * 1000000)"

lemma round_half_even_of_int [simp]: "round_half_even (of_int n) = n"
  by (simp add: round_half_even_def)

lemma round_half_even_nonneg:
  assumes "0 \<le> x" shows "0 \<le> round_half_even x"
proof -
  from assms have "0 \<le> \<lfloor>x\<rfloor>" by simp
  then show ?thesis by (auto simp: round_half_even_def Let_def)
qed

lemma round_half_even_ge:
  assumes "of_int n \<le> x" shows "n \<le> round_half_even x"
proof -
  from assms have "n \<le> \<lfloor>x\<rfloor>" by (simp add: le_floor_iff)
  then show ?thesis by (auto simp: round_half_even_def Let_def)
qed

lemma timedelta_us_nonneg: "0 \<le> x \<Longrightarrow> 0 \<le> timedelta_us x"
  by (simp add: timedelta_us_def round_half_even_nonneg)

lemma timedelta_us_ge: "of_int n \<le> x * 1000000 \<Longrightarrow> n \<le> timedelta_us x"
  unfolding timedelta_us_def by (rule round_half_even_ge)

section \<open>Text\<close>

text \<open>
  Text is a list of characters with code points below 256. \<open>py_space\<close> is
  \<^verbatim>\<open>str.isspace\<close> on that range.
\<close>

definition py_space :: "char \<Rightarrow> bool" where
  "py_space c \<longleftrightarrow> (of_char c :: nat) \<in> {9, 10, 11, 12, 13, 28, 29, 30, 31, 32, 133, 160}"

definition py_strip :: "string \<Rightarrow> string" where
  "py_strip s = rev (dropWhile py_space (rev (dropWhile py_space s)))"

definition py_lower_char :: "char \<Rightarrow> char" where
  "py_lower_char c =
     (let n = of_char c :: nat
      in if 65 \<le> n \<and> n \<le> 90 \<or> 192 \<le> n \<and> n \<le> 222 \<and> n \<noteq> 215 then char_of (n + 32) else c)"

definition py_lower :: "string \<Rightarrow> string" where
  "py_lower s = map py_lower_char s"

text \<open>\<^verbatim>\<open>needle in haystack\<close> for text.\<close>

fun py_contains :: "string \<Rightarrow> string \<Rightarrow> bool" where
  "py_contains needle [] = (needle = [])"
| "py_contains needle (c # cs) = (take (length needle) (c # cs) = needle \<or> py_contains needle cs)"

text \<open>\<^verbatim>\<open>_required_text\<close>: strip, and reject what is then empty.\<close>

definition required_text :: "string \<Rightarrow> string \<Rightarrow> exn + string" where
  "required_text field v = (if py_strip v = [] then Inl (ValueError field) else Inr (py_strip v))"

definition optional_text :: "string \<Rightarrow> string option \<Rightarrow> exn + string option" where
  "optional_text field v =
     (case v of None \<Rightarrow> Inr None
      | Some s \<Rightarrow> (case required_text field s of Inl e \<Rightarrow> Inl e | Inr t \<Rightarrow> Inr (Some t)))"

lemma dropWhile_idem [simp]: "dropWhile P (dropWhile P xs) = dropWhile P xs"
  by (induction xs) auto

lemma hd_dropWhile_not: "dropWhile P xs \<noteq> [] \<Longrightarrow> \<not> P (hd (dropWhile P xs))"
  by (induction xs) auto

lemma dropWhile_id: "xs = [] \<or> \<not> P (hd xs) \<Longrightarrow> dropWhile P xs = xs"
  by (cases xs) auto

lemma dropWhile_rev_keeps_hd:
  assumes "dropWhile P (rev xs) \<noteq> []" and "xs = [] \<or> \<not> P (hd xs)"
  shows "hd (rev (dropWhile P (rev xs))) = hd xs"
  using assms
proof (induction xs rule: rev_induct)
  case Nil
  then show ?case by simp
next
  case (snoc x xs)
  show ?case
  proof (cases "P x")
    case True
    with snoc.prems have ne: "dropWhile P (rev xs) \<noteq> []" by simp
    then have "xs \<noteq> []" by auto
    with True snoc ne show ?thesis by simp
  next
    case False
    then show ?thesis by simp
  qed
qed

lemma py_strip_idem [simp]: "py_strip (py_strip s) = py_strip s"
proof -
  let ?a = "dropWhile py_space s"
  let ?b = "rev (dropWhile py_space (rev ?a))"
  have "?b = [] \<or> \<not> py_space (hd ?b)"
  proof (cases "?b = []")
    case False
    then have "dropWhile py_space (rev ?a) \<noteq> []" by simp
    moreover have a: "?a = [] \<or> \<not> py_space (hd ?a)" using hd_dropWhile_not by blast
    ultimately have "hd ?b = hd ?a" by (rule dropWhile_rev_keeps_hd)
    moreover have "?a \<noteq> []" using False by fastforce
    ultimately show ?thesis using a by argo
  qed simp
  then have "dropWhile py_space ?b = ?b" by (rule dropWhile_id)
  then show ?thesis by (simp add: py_strip_def)
qed

lemma py_strip_id:
  assumes "s \<noteq> []" and "\<not> py_space (hd s)" and "\<not> py_space (last s)"
  shows "py_strip s = s"
proof -
  have "dropWhile py_space s = s" using assms(2) by (simp add: dropWhile_id)
  moreover have "dropWhile py_space (rev s) = rev s"
    using assms(1,3) by (simp add: dropWhile_id hd_rev)
  ultimately show ?thesis by (simp add: py_strip_def)
qed

lemma required_text_Inr [text_simps]:
  "required_text f v = Inr t \<longleftrightarrow> py_strip v = t \<and> t \<noteq> []"
  by (auto simp: required_text_def)

lemma required_text_idem: "required_text f v = Inr t \<Longrightarrow> required_text f t = Inr t"
  by (auto simp: required_text_def split: if_splits)

section \<open>Decimal rendering of integers\<close>

fun show_nat :: "nat \<Rightarrow> string" where
  "show_nat n = (if n < 10 then [char_of (48 + n)] else show_nat (n div 10) @ [char_of (48 + n mod 10)])"

declare show_nat.simps [simp del]

definition show_int :: "int \<Rightarrow> string" where
  "show_int i = (if i < 0 then CHR ''-'' # show_nat (nat (- i)) else show_nat (nat i))"

definition is_digit :: "char \<Rightarrow> bool" where
  "is_digit c \<longleftrightarrow> 48 \<le> (of_char c :: nat) \<and> (of_char c :: nat) \<le> 57"

definition read_nat :: "string \<Rightarrow> nat" where
  "read_nat s = foldl (\<lambda>a c. a * 10 + (of_char c - 48)) 0 s"

lemma of_char_digit: "d < 10 \<Longrightarrow> (of_char (char_of (48 + d) :: char) :: nat) = 48 + d"
  by simp

lemma show_nat_digits: "list_all is_digit (show_nat n)"
proof (induction n rule: show_nat.induct)
  case (1 n)
  show ?case
  proof (cases "n < 10")
    case True
    then show ?thesis by (simp add: show_nat.simps [of n] is_digit_def)
  next
    case False
    have "is_digit (char_of (48 + n mod 10))" by (simp add: is_digit_def)
    with 1 [OF False] show ?thesis using False by (simp add: show_nat.simps [of n])
  qed
qed

lemma read_show_nat [simp]: "read_nat (show_nat n) = n"
proof (induction n rule: show_nat.induct)
  case (1 n)
  show ?case
  proof (cases "n < 10")
    case True
    then show ?thesis by (simp add: show_nat.simps [of n] read_nat_def)
  next
    case False
    with 1 [OF False] show ?thesis
      by (simp add: show_nat.simps [of n] read_nat_def)
  qed
qed

lemma show_nat_inject [simp]: "show_nat m = show_nat n \<longleftrightarrow> m = n"
  by (metis read_show_nat)

lemma show_nat_no_sep:
  assumes "\<not> is_digit c" and "show_nat m @ c # xs = show_nat n @ c # ys"
  shows "m = n \<and> xs = ys"
proof -
  have tw: "takeWhile is_digit (show_nat k @ c # zs) = show_nat k" for k zs
    using assms(1) show_nat_digits [of k]
    by (simp add: takeWhile_append2 list_all_iff)
  from assms(2) have "show_nat m = show_nat n" by (metis tw)
  with assms(2) show ?thesis by simp
qed

lemma append_sep_inject:
  assumes "c \<notin> set a" and "c \<notin> set b" and "a @ c # x = b @ c # y"
  shows "a = b \<and> x = y"
  using assms
proof (induction a arbitrary: b)
  case Nil
  then show ?case by (cases b) auto
next
  case (Cons z a)
  then show ?case by (cases b) auto
qed

lemma show_int_nonneg: "0 \<le> i \<Longrightarrow> show_int i = show_nat (nat i)"
  by (simp add: show_int_def)

lemma digits_not_sep: "\<not> is_digit c \<Longrightarrow> c \<notin> set (show_nat n)"
  using show_nat_digits [of n] by (auto simp: list_all_iff)

section \<open>SQL tables\<close>

text \<open>
  A table is the list of its rows in insertion order. \<open>sql_update p f\<close> is
  \<^verbatim>\<open>UPDATE ... WHERE p SET f\<close>, \<open>rowcount p\<close> the number of rows it touches,
  \<open>find p\<close> is \<^verbatim>\<open>SELECT ... WHERE p\<close> followed by \<^verbatim>\<open>first()\<close>.
\<close>

definition sql_update :: "('r \<Rightarrow> bool) \<Rightarrow> ('r \<Rightarrow> 'r) \<Rightarrow> 'r list \<Rightarrow> 'r list" where
  "sql_update p f rows = map (\<lambda>r. if p r then f r else r) rows"

definition rowcount :: "('r \<Rightarrow> bool) \<Rightarrow> 'r list \<Rightarrow> nat" where
  "rowcount p rows = length (filter p rows)"

lemma sql_update_Nil [simp]: "sql_update p f [] = []"
  by (simp add: sql_update_def)

lemma sql_update_Cons [simp]:
  "sql_update p f (r # rs) = (if p r then f r else r) # sql_update p f rs"
  by (simp add: sql_update_def)

lemma length_sql_update [simp]: "length (sql_update p f rs) = length rs"
  by (simp add: sql_update_def)

lemma set_sql_update: "set (sql_update p f rs) = (\<lambda>r. if p r then f r else r) ` set rs"
  by (simp add: sql_update_def)

lemma map_sql_update [table_simps]:
  assumes "\<And>r. p r \<Longrightarrow> g (f r) = g r"
  shows "map g (sql_update p f rs) = map g rs"
  using assms by (induction rs) auto

lemma sql_update_none: "(\<And>r. r \<in> set rs \<Longrightarrow> \<not> p r) \<Longrightarrow> sql_update p f rs = rs"
  by (induction rs) auto

lemma rowcount_zero: "rowcount p rs = 0 \<longleftrightarrow> (\<forall>r \<in> set rs. \<not> p r)"
  by (simp add: rowcount_def filter_empty_conv)

lemma rowcount_one_ex: "rowcount p rs = 1 \<Longrightarrow> \<exists>r \<in> set rs. p r"
  by (metis rowcount_zero zero_neq_one)

text \<open>An update guarded by a key touches at most one row.\<close>

lemma rowcount_key:
  assumes "distinct (map key rs)" and "\<And>r. p r \<Longrightarrow> key r = k"
  shows "rowcount p rs \<le> 1"
  using assms(1)
proof (induction rs)
  case Nil
  then show ?case by (simp add: rowcount_def)
next
  case (Cons r rs)
  show ?case
  proof (cases "p r")
    case True
    then have "\<forall>x \<in> set rs. \<not> p x"
      using Cons.prems assms(2) by force
    then have "rowcount p rs = 0" by (simp add: rowcount_zero)
    with True show ?thesis by (simp add: rowcount_def)
  next
    case False
    with Cons show ?thesis by (simp add: rowcount_def)
  qed
qed

lemma rowcount_eq_one:
  assumes "distinct (map key rs)" and "\<And>r. p r \<Longrightarrow> key r = k"
  shows "rowcount p rs = 1 \<longleftrightarrow> (\<exists>r \<in> set rs. p r)"
proof
  assume "\<exists>r \<in> set rs. p r"
  then have "rowcount p rs \<noteq> 0" by (auto simp: rowcount_zero)
  moreover have "rowcount p rs \<le> 1" by (rule rowcount_key [OF assms])
  ultimately show "rowcount p rs = 1" by linarith
qed (rule rowcount_one_ex)

lemma find_key:
  assumes "distinct (map key rs)" and "r \<in> set rs"
  shows "find (\<lambda>x. key x = key r) rs = Some r"
  using assms by (induction rs) (auto simp: image_iff)

lemma find_SomeD: "find p rs = Some r \<Longrightarrow> r \<in> set rs \<and> p r"
  by (auto simp: find_Some_iff)

lemma find_NoneD: "find p rs = None \<Longrightarrow> r \<in> set rs \<Longrightarrow> \<not> p r"
  by (auto simp: find_None_iff)

text \<open>Looking up a key after a statement that keeps the keys.\<close>

lemma find_sql_update:
  assumes "distinct (map key rs)" and "\<And>r. p r \<Longrightarrow> key (f r) = key r"
    and "find (\<lambda>x. key x = k) rs = Some r"
  shows "find (\<lambda>x. key x = k) (sql_update p f rs) = Some (if p r then f r else r)"
  using assms by (induction rs) (auto split: if_splits)

lemma find_sql_update_None:
  assumes "\<And>r. p r \<Longrightarrow> key (f r) = key r" and "find (\<lambda>x. key x = k) rs = None"
  shows "find (\<lambda>x. key x = k) (sql_update p f rs) = None"
  using assms by (induction rs) (auto split: if_splits)

section \<open>Options and sums\<close>

text \<open>\<^verbatim>\<open>x if x else None\<close> on optional text: empty text is falsy.\<close>

definition truthy :: "string option \<Rightarrow> string option" where
  "truthy s = (case s of None \<Rightarrow> None | Some t \<Rightarrow> if t = [] then None else Some t)"

lemma sum_case_Inr: "(case x of Inl e \<Rightarrow> Inl e | Inr a \<Rightarrow> f a) = Inr b \<longleftrightarrow> (\<exists>a. x = Inr a \<and> f a = Inr b)"
  by (auto split: sum.splits)

section \<open>Stable sorting\<close>

text \<open>
  Python's \<^verbatim>\<open>sorted\<close> with a key is stable, as \<^const>\<open>sort_key\<close> is. The head of a
  sorted list has the least key, and is the first of the elements that have it.
\<close>

lemma hd_sort_key_le:
  assumes "sort_key k xs = y # ys" and "x \<in> set xs"
  shows "k y \<le> k x"
proof -
  have "sorted (map k (sort_key k xs))" by simp
  with assms(1) have s: "sorted (map k (y # ys))" by simp
  have "x \<in> set (y # ys)" using assms by (metis set_sort)
  with s show ?thesis by auto
qed

lemma hd_sort_key_mem: "sort_key k xs = y # ys \<Longrightarrow> y \<in> set xs"
  by (metis list.set_intros(1) set_sort)

lemma sort_key_Nil_iff [simp]: "sort_key k xs = [] \<longleftrightarrow> xs = []"
  by (metis length_0_conv length_sort)

section \<open>Python's repr of a text\<close>

text \<open>
  \<^verbatim>\<open>f"{x!r}"\<close> of a text of code points below 256: the quotes, the named escapes, and \<^verbatim>\<open>\\xNN\<close>
  for what is not printable.
\<close>

definition hex_char :: "nat \<Rightarrow> char" where
  "hex_char n = char_of (if n < 10 then 48 + n else 87 + n)"

definition py_escape :: "char \<Rightarrow> char \<Rightarrow> string" where
  "py_escape quote c =
     (let n = of_char c :: nat in
      if c = quote \<or> n = 92 then [char_of (92::nat), c]
      else if n = 9 then [char_of (92::nat), CHR ''t'']
      else if n = 10 then [char_of (92::nat), CHR ''n'']
      else if n = 13 then [char_of (92::nat), CHR ''r'']
      else if n < 32 \<or> 127 \<le> n \<and> n \<le> 160 \<or> n = 173
      then [char_of (92::nat), CHR ''x'', hex_char (n div 16), hex_char (n mod 16)]
      else [c])"

definition py_repr :: "string \<Rightarrow> string" where
  "py_repr s =
     (let single = char_of (39::nat); double = char_of (34::nat);
          quote = (if single \<in> set s \<and> double \<notin> set s then double else single)
      in quote # concat (map (py_escape quote) s) @ [quote])"

section \<open>Sequencing of effects\<close>

text \<open>
  Code that calls stateful operations which may raise: the state after a raise is the state the
  operation left behind.
\<close>

type_synonym ('s, 'a) act = "'s \<Rightarrow> (exn + 'a) \<times> 's"

definition act_return :: "'a \<Rightarrow> ('s, 'a) act" where
  "act_return x s = (Inr x, s)"

definition act_raise :: "exn \<Rightarrow> ('s, 'a) act" where
  "act_raise e s = (Inl e, s)"

definition act_bind :: "('s, 'a) act \<Rightarrow> ('a \<Rightarrow> ('s, 'b) act) \<Rightarrow> ('s, 'b) act" where
  "act_bind m f s = (case m s of (Inl e, s') \<Rightarrow> (Inl e, s') | (Inr x, s') \<Rightarrow> f x s')"

text \<open>
  A Hoare triple for such code: from a state of \<open>P\<close> it ends in \<open>Q x\<close> when it returns \<open>x\<close> and in
  \<open>E\<close> when it raises.
\<close>

definition act_triple ::
  "('s \<Rightarrow> bool) \<Rightarrow> ('s, 'a) act \<Rightarrow> ('a \<Rightarrow> 's \<Rightarrow> bool) \<Rightarrow> ('s \<Rightarrow> bool) \<Rightarrow> bool" where
  "act_triple P m Q E \<longleftrightarrow>
     (\<forall>s. P s \<longrightarrow> (case m s of (Inl e, s') \<Rightarrow> E s' | (Inr x, s') \<Rightarrow> Q x s'))"

lemma act_triple_return: "(\<And>s. P s \<Longrightarrow> Q x s) \<Longrightarrow> act_triple P (act_return x) Q E"
  by (simp add: act_triple_def act_return_def)

lemma act_triple_raise: "(\<And>s. P s \<Longrightarrow> E s) \<Longrightarrow> act_triple P (act_raise e) Q E"
  by (simp add: act_triple_def act_raise_def)

lemma act_triple_vacuous: "(\<And>s. \<not> P s) \<Longrightarrow> act_triple P m Q E"
  by (simp add: act_triple_def)

lemma act_triple_bind:
  assumes "act_triple P m R E" and "\<And>x. act_triple (R x) (f x) Q E"
  shows "act_triple P (act_bind m f) Q E"
  using assms unfolding act_triple_def act_bind_def by (fastforce split: prod.splits sum.splits)

lemma act_triple_weaken:
  assumes "act_triple P m Q E" and "\<And>s. P' s \<Longrightarrow> P s"
    and "\<And>x s. Q x s \<Longrightarrow> Q' x s" and "\<And>s. E s \<Longrightarrow> E' s"
  shows "act_triple P' m Q' E'"
  using assms unfolding act_triple_def by (fastforce split: prod.splits sum.splits)

lemma act_tripleD:
  assumes "act_triple P m Q E" and "P s" and "m s = (out, s')"
  shows "case out of Inl e \<Rightarrow> E s' | Inr x \<Rightarrow> Q x s'"
  using assms unfolding act_triple_def by (fastforce split: sum.splits)

end
