(* ===== verification/Json_Values.thy ===== *)
theory Json_Values
  imports WA_Prelude
begin

text \<open>
  The durable JSON boundary of \<^verbatim>\<open>kernel/types/json.py\<close>: \<^verbatim>\<open>freeze_json\<close> validates a Python
  value and turns it into an immutable one, \<^verbatim>\<open>thaw_json\<close> turns it back into plain lists and
  dictionaries. Every payload of the job queue and of the outbox has passed this boundary.
  \<open>pyobj\<close> covers the Python values the functions distinguish; \<open>POther\<close> is any value of
  another class, \<open>PMap True\<close> a read-only mapping proxy and \<open>PMap False\<close> a dictionary.
  Floats that are not finite are told apart because the boundary rejects them.
\<close>

datatype pyfloat = Finite rat | PosInf | NegInf | NaN

datatype pyobj =
    PNone
  | PBool bool
  | PInt int
  | PFloat pyfloat
  | PStr string
  | PList "pyobj list"
  | PTuple "pyobj list"
  | PMap bool "(pyobj \<times> pyobj) list"
  | POther string

definition isfinite :: "pyfloat \<Rightarrow> bool" where
  "isfinite f = (case f of Finite _ \<Rightarrow> True | _ \<Rightarrow> False)"

fun is_str :: "pyobj \<Rightarrow> bool" where
  "is_str (PStr _) = True"
| "is_str _ = False"

text \<open>The loops over items and over fields stop at the first exception.\<close>

fun freeze_json :: "pyobj \<Rightarrow> exn + pyobj"
  and freeze_items :: "pyobj list \<Rightarrow> exn + pyobj list"
  and freeze_fields :: "(pyobj \<times> pyobj) list \<Rightarrow> exn + (pyobj \<times> pyobj) list" where
  "freeze_json PNone = Inr PNone"
| "freeze_json (PBool b) = Inr (PBool b)"
| "freeze_json (PInt i) = Inr (PInt i)"
| "freeze_json (PStr s) = Inr (PStr s)"
| "freeze_json (PFloat f) =
     (if isfinite f then Inr (PFloat f) else Inl (ValueError ''JSON float values must be finite''))"
| "freeze_json (PMap ro fs) =
     (case freeze_fields fs of Inl e \<Rightarrow> Inl e | Inr gs \<Rightarrow> Inr (PMap True gs))"
| "freeze_json (PList xs) = (case freeze_items xs of Inl e \<Rightarrow> Inl e | Inr ys \<Rightarrow> Inr (PTuple ys))"
| "freeze_json (PTuple xs) = (case freeze_items xs of Inl e \<Rightarrow> Inl e | Inr ys \<Rightarrow> Inr (PTuple ys))"
| "freeze_json (POther c) = Inl (TypeError c)"
| "freeze_items [] = Inr []"
| "freeze_items (x # xs) =
     (case freeze_json x of Inl e \<Rightarrow> Inl e
      | Inr y \<Rightarrow> (case freeze_items xs of Inl e \<Rightarrow> Inl e | Inr ys \<Rightarrow> Inr (y # ys)))"
| "freeze_fields [] = Inr []"
| "freeze_fields ((k, x) # fs) =
     (if \<not> is_str k then Inl (TypeError ''JSON object keys must be strings'')
      else case freeze_json x of Inl e \<Rightarrow> Inl e
      | Inr y \<Rightarrow> (case freeze_fields fs of Inl e \<Rightarrow> Inl e | Inr gs \<Rightarrow> Inr ((k, y) # gs)))"

fun thaw_json :: "pyobj \<Rightarrow> pyobj" where
  "thaw_json (PMap ro fs) = PMap False (map (\<lambda>(k, x). (k, thaw_json x)) fs)"
| "thaw_json (PTuple xs) = PList (map thaw_json xs)"
| "thaw_json v = v"

text \<open>\<^verbatim>\<open>freeze_json_mapping\<close> (its argument is a mapping, so the guard after the call is dead).\<close>

definition freeze_json_mapping :: "(pyobj \<times> pyobj) list \<Rightarrow> exn + pyobj" where
  "freeze_json_mapping fs = freeze_json (PMap False fs)"

text \<open>\<^verbatim>\<open>JobResultValidator.validate\<close>: both exceptions of the boundary become one job error.\<close>

definition validate_job_result :: "pyobj \<Rightarrow> exn + pyobj" where
  "validate_job_result v =
     (case freeze_json v of
        Inr w \<Rightarrow> Inr w
      | Inl (TypeError m) \<Rightarrow> Inl (RuntimeErr ''JobResultValidationError'')
      | Inl (ValueError m) \<Rightarrow> Inl (RuntimeErr ''JobResultValidationError'')
      | Inl e \<Rightarrow> Inl e)"

section \<open>What a frozen value is\<close>

fun is_frozen :: "pyobj \<Rightarrow> bool" where
  "is_frozen PNone = True"
| "is_frozen (PBool _) = True"
| "is_frozen (PInt _) = True"
| "is_frozen (PStr _) = True"
| "is_frozen (PFloat f) = isfinite f"
| "is_frozen (PTuple xs) = list_all is_frozen xs"
| "is_frozen (PMap ro fs) = (ro \<and> list_all (\<lambda>(k, x). is_str k \<and> is_frozen x) fs)"
| "is_frozen (PList _) = False"
| "is_frozen (POther _) = False"

text \<open>The values the boundary accepts: JSON-compatible ones, whatever their containers.\<close>

fun json_compatible :: "pyobj \<Rightarrow> bool" where
  "json_compatible (PFloat f) = isfinite f"
| "json_compatible (PList xs) = list_all json_compatible xs"
| "json_compatible (PTuple xs) = list_all json_compatible xs"
| "json_compatible (PMap ro fs) = list_all (\<lambda>(k, x). is_str k \<and> json_compatible x) fs"
| "json_compatible (POther _) = False"
| "json_compatible _ = True"

lemma freeze_frozen:
  "\<And>w. freeze_json v = Inr w \<Longrightarrow> is_frozen w"
  "\<And>ys. freeze_items xs = Inr ys \<Longrightarrow> list_all is_frozen ys"
  "\<And>gs. freeze_fields fs = Inr gs \<Longrightarrow> list_all (\<lambda>(k, x). is_str k \<and> is_frozen x) gs"
  by (induction v and xs and fs rule: freeze_json_freeze_items_freeze_fields.induct)
    (auto split: sum.splits if_splits)

lemma freeze_accepts:
  "isl (freeze_json v) \<longleftrightarrow> \<not> json_compatible v"
  "isl (freeze_items xs) \<longleftrightarrow> \<not> list_all json_compatible xs"
  "isl (freeze_fields fs) \<longleftrightarrow> \<not> list_all (\<lambda>(k, x). is_str k \<and> json_compatible x) fs"
  by (induction v and xs and fs rule: freeze_json_freeze_items_freeze_fields.induct)
    (auto split: sum.splits if_splits)

lemma freeze_of_frozen:
  "is_frozen v \<Longrightarrow> freeze_json v = Inr v"
  "list_all is_frozen xs \<Longrightarrow> freeze_items xs = Inr xs"
  "list_all (\<lambda>(k, x). is_str k \<and> is_frozen x) fs \<Longrightarrow> freeze_fields fs = Inr fs"
  by (induction v and xs and fs rule: freeze_json_freeze_items_freeze_fields.induct) auto

lemma freeze_of_thawed:
  "is_frozen v \<Longrightarrow> freeze_json (thaw_json v) = Inr v"
  "list_all is_frozen xs \<Longrightarrow> freeze_items (map thaw_json xs) = Inr xs"
  "list_all (\<lambda>(k, x). is_str k \<and> is_frozen x) fs \<Longrightarrow>
     freeze_fields (map (\<lambda>(k, x). (k, thaw_json x)) fs) = Inr fs"
  by (induction v and xs and fs rule: freeze_json_freeze_items_freeze_fields.induct)
    (auto simp: freeze_of_frozen)

lemma freeze_only_type_or_value_errors:
  "\<And>e. freeze_json v = Inl e \<Longrightarrow> \<exists>m. e = TypeError m \<or> e = ValueError m"
  "\<And>e. freeze_items xs = Inl e \<Longrightarrow> \<exists>m. e = TypeError m \<or> e = ValueError m"
  "\<And>e. freeze_fields fs = Inl e \<Longrightarrow> \<exists>m. e = TypeError m \<or> e = ValueError m"
  by (induction v and xs and fs rule: freeze_json_freeze_items_freeze_fields.induct)
    (auto split: sum.splits if_splits)

lemma validate_job_result_Inr: "validate_job_result v = Inr w \<longleftrightarrow> freeze_json v = Inr w"
  by (auto simp: validate_job_result_def split: sum.splits exn.splits)

lemma validate_job_result_frozen: "is_frozen v \<Longrightarrow> validate_job_result v = Inr v"
  by (simp add: validate_job_result_Inr freeze_of_frozen)

text \<open>C14: The JSON boundary accepts exactly the JSON-compatible values; what it returns is immutable, is
  accepted again unchanged, and survives being thawed for storage and frozen when read back.\<close>

theorem freeze_json_boundary:
  "(\<not> isl (freeze_json v) \<longleftrightarrow> json_compatible v)
   \<and> (case freeze_json v of
        Inl e \<Rightarrow> (\<exists>m. e = TypeError m \<or> e = ValueError m)
      | Inr w \<Rightarrow> is_frozen w \<and> freeze_json w = Inr w \<and> freeze_json (thaw_json w) = Inr w)"
  using freeze_accepts(1) [of v] freeze_frozen(1) [of v] freeze_only_type_or_value_errors(1) [of v]
    freeze_of_frozen(1) freeze_of_thawed(1)
  by (cases "freeze_json v") auto

end
