(* ===== verification/Unit_Of_Work.thy ===== *)
theory Unit_Of_Work
  imports WA_Prelude
begin

text \<open>
  The transaction scope of \<^verbatim>\<open>platform/persistence/unit_of_work.py\<close> and the compare-and-swap
  update of \<^verbatim>\<open>postgres/cas.py\<close>. The object \<open>uow\<close> holds the durable store, the working copy of
  an open session (the transaction's view of the store) and the repositories bound at entry.
  A body is a sequence of operations on the session; \<open>durable\<close> says what of it reaches the store.
  \<open>run_tx\<close> is the form in which the other components write their transactions; the
  refinement lemma at the end shows that it is what the scope does.
\<close>

record ('d, 'f) uow =
  u_store :: 'd
  u_session :: "'d option"
  u_in_tx :: bool
  u_factories :: "(string \<times> 'f) list"
  u_repos :: "(string \<times> 'f) list"

text \<open>A checkpoint hook either returns or raises at a named point; no hook is \<open>no_hook\<close>.\<close>

type_synonym hook = "string \<Rightarrow> bool"

definition no_hook :: hook where
  "no_hook = (\<lambda>_. False)"

definition new_uow :: "'d \<Rightarrow> ('d, 'f) uow" where
  "new_uow d = \<lparr>u_store = d, u_session = None, u_in_tx = False, u_factories = [], u_repos = []\<rparr>"

definition register_repository :: "string \<Rightarrow> 'f \<Rightarrow> ('d, 'f) uow \<Rightarrow> exn + ('d, 'f) uow" where
  "register_repository name f u =
     (if py_strip name = [] then Inl (ValueError ''repository name must be non-empty text'')
      else if u_session u \<noteq> None then Inl (RuntimeErr ''UnitOfWorkStateError'')
      else if map_of (u_factories u) name \<noteq> None then Inl (ValueError ''already registered'')
      else Inr (u\<lparr>u_factories := u_factories u @ [(name, f)]\<rparr>))"

definition require_active :: "('d, 'f) uow \<Rightarrow> exn + 'd" where
  "require_active u =
     (case u_session u of None \<Rightarrow> Inl (RuntimeErr ''UnitOfWorkNotActiveError'') | Some w \<Rightarrow> Inr w)"

definition repository :: "string \<Rightarrow> ('d, 'f) uow \<Rightarrow> exn + 'f" where
  "repository name u =
     (case require_active u of Inl e \<Rightarrow> Inl e
      | Inr _ \<Rightarrow> (case map_of (u_repos u) name of None \<Rightarrow> Inl (KeyError name) | Some f \<Rightarrow> Inr f))"

definition aenter :: "('d, 'f) uow \<Rightarrow> exn + ('d, 'f) uow" where
  "aenter u =
     (if u_session u \<noteq> None then Inl (RuntimeErr ''UnitOfWorkStateError'')
      else Inr (u\<lparr>u_session := Some (u_store u), u_in_tx := False, u_repos := u_factories u\<rparr>))"

text \<open>A statement on the session begins the transaction if none is open.\<close>

definition session_execute :: "('d \<Rightarrow> 'd) \<Rightarrow> ('d, 'f) uow \<Rightarrow> exn + ('d, 'f) uow" where
  "session_execute f u =
     (case require_active u of Inl e \<Rightarrow> Inl e
      | Inr w \<Rightarrow> Inr (u\<lparr>u_session := Some (f w), u_in_tx := True\<rparr>))"

definition checkpoint :: "hook \<Rightarrow> string \<Rightarrow> exn + unit" where
  "checkpoint hook name = (if hook name then Inl (HookRaised name) else Inr ())"

definition uow_commit :: "hook \<Rightarrow> ('d, 'f) uow \<Rightarrow> exn + ('d, 'f) uow" where
  "uow_commit hook u =
     (case require_active u of Inl e \<Rightarrow> Inl e
      | Inr w \<Rightarrow> (case checkpoint hook ''before_commit'' of Inl e \<Rightarrow> Inl e
                 | Inr _ \<Rightarrow> Inr (u\<lparr>u_store := w, u_in_tx := False\<rparr>)))"

definition uow_rollback :: "hook \<Rightarrow> ('d, 'f) uow \<Rightarrow> exn + ('d, 'f) uow" where
  "uow_rollback hook u =
     (case require_active u of Inl e \<Rightarrow> Inl e
      | Inr w \<Rightarrow> (case checkpoint hook ''before_rollback'' of Inl e \<Rightarrow> Inl e
                 | Inr _ \<Rightarrow> Inr (u\<lparr>u_session := Some (u_store u), u_in_tx := False\<rparr>)))"

text \<open>
  Closing the session. What the driver does with a transaction that is still open is left to the parameter
  \<open>closing\<close> (of the store and the working copy): it may keep it or drop it.
\<close>

definition session_close :: "('d \<Rightarrow> 'd \<Rightarrow> 'd) \<Rightarrow> ('d, 'f) uow \<Rightarrow> ('d, 'f) uow" where
  "session_close closing u =
     (case u_session u of None \<Rightarrow> u
      | Some w \<Rightarrow> u\<lparr>u_store := (if u_in_tx u then closing (u_store u) w else u_store u), u_session := None, u_in_tx := False\<rparr>)"

text \<open>
  Leaving the scope: an exception or an open transaction is rolled back (the working copy is
  dropped), then the session is closed. The scope never swallows the exception.
\<close>

definition aexit :: "('d \<Rightarrow> 'd \<Rightarrow> 'd) \<Rightarrow> bool \<Rightarrow> ('d, 'f) uow \<Rightarrow> ('d, 'f) uow" where
  "aexit closing raised u =
     (case u_session u of
        None \<Rightarrow> u\<lparr>u_repos := []\<rparr>
      | Some w \<Rightarrow>
         (let u1 = (if raised \<or> u_in_tx u then u\<lparr>u_session := Some (u_store u), u_in_tx := False\<rparr> else u)
          in session_close closing (u1\<lparr>u_repos := []\<rparr>)))"

section \<open>Bodies of a scope\<close>

text \<open>What the body of a scope does with its session: statements, commits, rollbacks; or it raises.\<close>

datatype 'd uow_op = Do_Execute "'d \<Rightarrow> 'd" | Do_Commit | Do_Rollback | Do_Raise exn

fun uow_perform :: "hook \<Rightarrow> 'd uow_op \<Rightarrow> ('d, 'f) uow \<Rightarrow> exn + ('d, 'f) uow" where
  "uow_perform hook (Do_Execute f) u = session_execute f u"
| "uow_perform hook Do_Commit u = uow_commit hook u"
| "uow_perform hook Do_Rollback u = uow_rollback hook u"
| "uow_perform hook (Do_Raise e) u = Inl e"

fun uow_body :: "hook \<Rightarrow> 'd uow_op list \<Rightarrow> ('d, 'f) uow \<Rightarrow> (exn + unit) \<times> ('d, 'f) uow" where
  "uow_body hook [] u = (Inr (), u)"
| "uow_body hook (op # ops) u = (case uow_perform hook op u of Inl e \<Rightarrow> (Inl e, u) | Inr u' \<Rightarrow> uow_body hook ops u')"

definition uow_scope ::
  "('d \<Rightarrow> 'd \<Rightarrow> 'd) \<Rightarrow> hook \<Rightarrow> 'd uow_op list \<Rightarrow> ('d, 'f) uow \<Rightarrow> (exn + unit) \<times> ('d, 'f) uow" where
  "uow_scope closing hook ops u =
     (case aenter u of Inl e \<Rightarrow> (Inl e, u)
      | Inr u1 \<Rightarrow> (case uow_body hook ops u1 of (out, u2) \<Rightarrow> (out, aexit closing (isl out) u2)))"

subsection \<open>What reaches the store\<close>

text \<open>The specification: \<open>pending\<close> are the statements since the last commit or rollback.\<close>

fun durable :: "hook \<Rightarrow> 'd uow_op list \<Rightarrow> ('d \<Rightarrow> 'd) \<Rightarrow> 'd \<Rightarrow> 'd" where
  "durable hook [] pending d = d"
| "durable hook (Do_Execute f # ops) pending d = durable hook ops (f \<circ> pending) d"
| "durable hook (Do_Commit # ops) pending d = (if hook ''before_commit'' then d else durable hook ops id (pending d))"
| "durable hook (Do_Rollback # ops) pending d = (if hook ''before_rollback'' then d else durable hook ops id d)"
| "durable hook (Do_Raise e # ops) pending d = d"

fun body_result :: "hook \<Rightarrow> 'd uow_op list \<Rightarrow> exn + unit" where
  "body_result hook [] = Inr ()"
| "body_result hook (Do_Execute f # ops) = body_result hook ops"
| "body_result hook (Do_Commit # ops) = (if hook ''before_commit'' then Inl (HookRaised ''before_commit'') else body_result hook ops)"
| "body_result hook (Do_Rollback # ops) = (if hook ''before_rollback'' then Inl (HookRaised ''before_rollback'') else body_result hook ops)"
| "body_result hook (Do_Raise e # ops) = Inl e"

section \<open>Optimistic compare-and-swap\<close>

text \<open>
  \<^verbatim>\<open>compare_and_swap_update\<close> over a table with a key and a version column, given as functions
  on rows; \<open>vals\<close> is the assignment of the other columns.
\<close>

definition compare_and_swap_update ::
  "('r \<Rightarrow> 'k) \<Rightarrow> ('r \<Rightarrow> int) \<Rightarrow> (int \<Rightarrow> 'r \<Rightarrow> 'r) \<Rightarrow> 'k \<Rightarrow> int \<Rightarrow> ('r \<Rightarrow> 'r) \<Rightarrow> int \<Rightarrow> 'r list
     \<Rightarrow> exn + bool \<times> 'r list" where
  "compare_and_swap_update key ver set_ver k expected vals incr rows =
     (if expected < 0 then Inl (ValueError ''expected_version must be non-negative'')
      else if incr < 1 then Inl (ValueError ''version_increment must be at least 1'')
      else let p = (\<lambda>r. key r = k \<and> ver r = expected)
           in Inr (rowcount p rows = 1, sql_update p (\<lambda>r. set_ver (ver r + incr) (vals r)) rows))"

section \<open>Transactions as functions\<close>

text \<open>
  How the body of a scope ends: it commits (returning a value, with the working copy it has
  built), returns without a commit, or raises.
\<close>

datatype ('a, 'd) tx_end = TxCommit 'a 'd | TxReturn 'a | TxRaise exn

definition run_tx :: "hook \<Rightarrow> ('d \<Rightarrow> ('a, 'd) tx_end) \<Rightarrow> 'd \<Rightarrow> (exn + 'a) \<times> 'd" where
  "run_tx hook body d =
     (case body d of
        TxCommit a d' \<Rightarrow> (if hook ''before_commit'' then (Inl (HookRaised ''before_commit''), d) else (Inr a, d'))
      | TxReturn a \<Rightarrow> (Inr a, d)
      | TxRaise e \<Rightarrow> (Inl e, d))"

text \<open>
  The operations of such a body; what it wrote before it returned without a commit or raised is some statement \<open>junk\<close>.
\<close>

definition tx_ops :: "('d \<Rightarrow> 'd) \<Rightarrow> ('a, 'd) tx_end \<Rightarrow> 'd uow_op list" where
  "tx_ops junk e =
     (case e of TxCommit a d' \<Rightarrow> [Do_Execute (\<lambda>_. d'), Do_Commit] | TxReturn a \<Rightarrow> [Do_Execute junk] | TxRaise x \<Rightarrow> [Do_Execute junk, Do_Raise x])"

lemmas uow_defs = aenter_def aexit_def session_close_def session_execute_def uow_commit_def uow_rollback_def
  require_active_def checkpoint_def

lemma run_tx_Inl: "fst (run_tx hook body d) = Inl e \<Longrightarrow> snd (run_tx hook body d) = d"
  by (auto simp: run_tx_def split: tx_end.splits if_splits)

lemma run_tx_changed:
  assumes "snd (run_tx hook body d) \<noteq> d"
  shows "\<exists>a. body d = TxCommit a (snd (run_tx hook body d)) \<and> fst (run_tx hook body d) = Inr a"
  using assms by (auto simp: run_tx_def split: tx_end.splits if_splits)

lemma run_tx_preserves:
  assumes "P d" and "\<And>a d'. body d = TxCommit a d' \<Longrightarrow> P d'"
  shows "P (snd (run_tx hook body d))"
  using assms by (auto simp: run_tx_def split: tx_end.splits)

text \<open>
  Inside of a body: the working copy is the store with the pending statements applied, and a session without an open
  transaction has nothing pending.
\<close>

definition holds_pending :: "('d \<Rightarrow> 'd) \<Rightarrow> ('d, 'f) uow \<Rightarrow> bool" where
  "holds_pending pending u \<longleftrightarrow> u_session u = Some (pending (u_store u)) \<and> (u_in_tx u \<or> pending (u_store u) = u_store u)"

lemma aexit_drops:
  assumes "holds_pending pending u"
  shows "u_store (aexit closing raised u) = u_store u" "u_session (aexit closing raised u) = None"
    "\<not> u_in_tx (aexit closing raised u)" "u_repos (aexit closing raised u) = []"
    "u_factories (aexit closing raised u) = u_factories u"
  using assms by (auto simp: aexit_def session_close_def holds_pending_def Let_def)

lemma uow_body_durable:
  assumes "holds_pending pending u"
  shows "fst (uow_body hook ops u) = body_result hook ops
       \<and> u_store (aexit closing raised (snd (uow_body hook ops u))) = durable hook ops pending (u_store u)
       \<and> (\<exists>p. holds_pending p (snd (uow_body hook ops u))) \<and> u_factories (snd (uow_body hook ops u)) = u_factories u"
  using assms
proof (induction hook ops pending "u_store u" arbitrary: u rule: durable.induct)
  case (1 hook pending)
  then show ?case by (auto simp: aexit_drops)
next
  case (2 hook f ops pending)
  let ?u = "u\<lparr>u_session := Some (f (pending (u_store u))), u_in_tx := True\<rparr>"
  have "holds_pending (f \<circ> pending) ?u" by (simp add: holds_pending_def)
  from 2(1) [of ?u, OF _ this] have "fst (uow_body hook ops ?u) = body_result hook ops
       \<and> u_store (aexit closing raised (snd (uow_body hook ops ?u))) = durable hook ops (f \<circ> pending) (u_store u)
       \<and> (\<exists>p. holds_pending p (snd (uow_body hook ops ?u))) \<and> u_factories (snd (uow_body hook ops ?u)) = u_factories u" by simp
  with 2(2) show ?case by (simp add: holds_pending_def session_execute_def require_active_def)
next
  case (3 hook ops pending)
  let ?u = "u\<lparr>u_store := pending (u_store u), u_in_tx := False\<rparr>"
  have u: "u_session u = Some (pending (u_store u))" using 3(2) by (simp add: holds_pending_def)
  show ?case
  proof (cases "hook ''before_commit''")
    case True
    with 3(2) u show ?thesis by (auto simp: uow_commit_def require_active_def checkpoint_def aexit_drops)
  next
    case False
    have "holds_pending id ?u" using u by (simp add: holds_pending_def)
    from 3(1) [OF False _ this] False u show ?thesis by (simp add: uow_commit_def require_active_def checkpoint_def)
  qed
next
  case (4 hook ops pending)
  let ?u = "u\<lparr>u_session := Some (u_store u), u_in_tx := False\<rparr>"
  have u: "u_session u = Some (pending (u_store u))" using 4(2) by (simp add: holds_pending_def)
  show ?case
  proof (cases "hook ''before_rollback''")
    case True
    with 4(2) u show ?thesis by (auto simp: uow_rollback_def require_active_def checkpoint_def aexit_drops)
  next
    case False
    have "holds_pending id ?u" by (simp add: holds_pending_def)
    from 4(1) [OF False _ this] False u show ?thesis by (simp add: uow_rollback_def require_active_def checkpoint_def)
  qed
next
  case (5 hook e ops pending)
  then show ?case by (auto simp: aexit_drops)
qed

lemma uow_scope_durable:
  assumes "u_session u = None"
  shows "fst (uow_scope closing hook ops u) = body_result hook ops
       \<and> u_store (snd (uow_scope closing hook ops u)) = durable hook ops id (u_store u)
       \<and> u_session (snd (uow_scope closing hook ops u)) = None \<and> \<not> u_in_tx (snd (uow_scope closing hook ops u))
       \<and> u_repos (snd (uow_scope closing hook ops u)) = [] \<and> u_factories (snd (uow_scope closing hook ops u)) = u_factories u"
proof -
  let ?u = "u\<lparr>u_session := Some (u_store u), u_in_tx := False, u_repos := u_factories u\<rparr>"
  have "holds_pending id ?u" by (simp add: holds_pending_def)
  note b = uow_body_durable [OF this, of hook ops closing]
  obtain p where p: "holds_pending p (snd (uow_body hook ops ?u))" using b by blast
  have "uow_scope closing hook ops u =
      (fst (uow_body hook ops ?u), aexit closing (isl (fst (uow_body hook ops ?u))) (snd (uow_body hook ops ?u)))"
    using assms by (simp add: uow_scope_def aenter_def case_prod_beta)
  with b aexit_drops [OF p] show ?thesis by simp
qed

text \<open>So a transaction in the form of \<open>run_tx\<close> is what the scope makes of it.\<close>

lemma uow_scope_refines_run_tx:
  assumes "u_session u = None" and "body (u_store u) = e"
  shows "u_store (snd (uow_scope closing hook (tx_ops junk e) u)) = snd (run_tx hook body (u_store u))"
    and "(case fst (uow_scope closing hook (tx_ops junk e) u) of Inl x \<Rightarrow> fst (run_tx hook body (u_store u)) = Inl x
      | Inr _ \<Rightarrow> \<not> isl (fst (run_tx hook body (u_store u))))"
  using uow_scope_durable [OF assms(1), of closing hook "tx_ops junk e"] assms(2)
  by (cases e; simp add: tx_ops_def run_tx_def)+

section \<open>Compare-and-swap is won at most once\<close>

lemma cas_keeps_keys:
  assumes "\<And>v r. key (set_ver v r) = key r" and "\<And>r. key (vals r) = key r"
  shows "map key (sql_update p (\<lambda>r. set_ver (ver r + incr) (vals r)) rows) = map key rows"
  using assms by (intro map_sql_update) simp

lemma cas_moves_on:
  fixes ver :: "'r \<Rightarrow> int"
  assumes "\<And>v r. ver (set_ver v r) = v" and "1 \<le> incr"
    and "r \<in> set (sql_update (\<lambda>r. key r = k \<and> ver r = expected)
            (\<lambda>r. set_ver (ver r + incr) (vals r)) rows)"
  shows "\<not> (key r = k \<and> ver r = expected)"
proof -
  let ?p = "\<lambda>r. key r = k \<and> ver r = expected"
  from assms(3) obtain x where "r = (if ?p x then set_ver (ver x + incr) (vals x) else x)"
    unfolding set_sql_update by blast
  then have "\<not> ?p x \<and> r = x \<or> ver r = expected + incr" using assms(1) by auto
  then show ?thesis
  proof
    assume "ver r = expected + incr"
    then have "ver r \<noteq> expected" using assms(2) by linarith
    then show ?thesis by simp
  qed simp
qed

text \<open>Of two writers that read the same version of a row, the compare-and-swap lets at most one
  win: after a winning swap the second one reports a lost race and changes nothing.\<close>

theorem compare_and_swap_once:
  assumes "\<And>v r. ver (set_ver v r) = v"
    and "compare_and_swap_update key ver set_ver k expected f i rows = Inr (True, rows')"
    and "1 \<le> j"
  shows "compare_and_swap_update key ver set_ver k expected g j rows' = Inr (False, rows')"
proof -
  let ?p = "\<lambda>r. key r = k \<and> ver r = expected"
  from assms(2) have e: "0 \<le> expected" "1 \<le> i"
    and rows': "rows' = sql_update ?p (\<lambda>r. set_ver (ver r + i) (f r)) rows"
    by (auto simp: compare_and_swap_update_def Let_def split: if_splits)
  have none: "\<not> ?p r" if "r \<in> set rows'" for r
    by (rule cas_moves_on [where set_ver = set_ver and vals = f and rows = rows and incr = i,
          OF assms(1) e(2) that [unfolded rows']])
  then have "rowcount ?p rows' = 0" by (simp add: rowcount_zero)
  moreover have "sql_update ?p (\<lambda>r. set_ver (ver r + j) (g r)) rows' = rows'"
    using none by (intro sql_update_none)
  ultimately show ?thesis using e assms(3) by (simp add: compare_and_swap_update_def)
qed

theorem compare_and_swap_once_witness:
  "compare_and_swap_update fst snd (\<lambda>v r. (fst r, v)) ''a'' 4 id 2 [(''a'', 5), (''b'', 0)]
     = Inr (False, [(''a'', 5), (''b'', 0)])"
  by (rule compare_and_swap_once [where f = id and i = 1 and rows = "[(''a'', 4), (''b'', 0)]"])
    (simp_all add: compare_and_swap_update_def rowcount_def)



end
