(* ===== verification/Fencing.thy ===== *)
theory Fencing
  imports WA_Prelude
begin

text \<open>
  The interface between a store that hands out claim tokens (the outbox, the job queue) and the
  clients that finalize what they claimed: operations as data, the token a finalization
  presents, and the laws that make a token usable once. The client lemmas hold for every
  interleaving of operations.
\<close>

fun run_ops :: "('e \<Rightarrow> 's \<Rightarrow> bool \<times> 's) \<Rightarrow> 'e list \<Rightarrow> 's \<Rightarrow> bool list \<times> 's" where
  "run_ops act [] s = ([], s)"
| "run_ops act (e # es) s =
     (case act e s of (b, s') \<Rightarrow> (case run_ops act es s' of (bs, s'') \<Rightarrow> (b # bs, s'')))"

text \<open>The accepted finalizations of key and token in a run.\<close>

definition accepted ::
  "('e \<Rightarrow> ('k \<times> 't) option) \<Rightarrow> 'k \<Rightarrow> 't \<Rightarrow> 'e list \<Rightarrow> bool list \<Rightarrow> nat" where
  "accepted fin k t es bs = length (filter (\<lambda>(e, b). fin e = Some (k, t) \<and> b) (zip es bs))"

text \<open>A run is legal when each operation is valid in the state it meets.\<close>

fun legal :: "('s \<Rightarrow> 'e \<Rightarrow> bool) \<Rightarrow> ('e \<Rightarrow> 's \<Rightarrow> bool \<times> 's) \<Rightarrow> 'e list \<Rightarrow> 's \<Rightarrow> bool" where
  "legal valid act [] s = True"
| "legal valid act (e # es) s = (valid s e \<and> legal valid act es (snd (act e s)))"

lemma run_ops_Cons_parts [simp]:
  "snd (run_ops act (e # es) s) = snd (run_ops act es (snd (act e s)))"
  "fst (run_ops act (e # es) s) = fst (act e s) # fst (run_ops act es (snd (act e s)))"
  by (simp_all split: prod.splits)

lemma run_ops_append:
  "run_ops act (xs @ ys) s =
     (case run_ops act xs s of (bs, s') \<Rightarrow> (case run_ops act ys s' of (cs, s'') \<Rightarrow> (bs @ cs, s'')))"
  by (induction xs arbitrary: s) (auto split: prod.splits)

lemma legal_append:
  "legal valid act (xs @ ys) s \<longleftrightarrow> legal valid act xs s \<and> legal valid act ys (snd (run_ops act xs s))"
  by (induction xs arbitrary: s) (simp_all del: run_ops.simps(2))

lemma snd_run_append: "snd (run_ops act (xs @ ys) s) = snd (run_ops act ys (snd (run_ops act xs s)))"
  by (induction xs arbitrary: s) (simp_all del: run_ops.simps(2))

declare run_ops.simps(2) [simp del]

locale fenced_store =
  fixes act :: "'e \<Rightarrow> 's \<Rightarrow> bool \<times> 's"
    and fin :: "'e \<Rightarrow> ('k \<times> 't) option"
    and ok :: "'s \<Rightarrow> bool"
    and valid :: "'s \<Rightarrow> 'e \<Rightarrow> bool"
    and allowed :: "'k \<Rightarrow> 't \<Rightarrow> 'e \<Rightarrow> bool"
    and retired :: "'s \<Rightarrow> 'k \<Rightarrow> 't \<Rightarrow> bool"
  assumes act_ok: "ok s \<Longrightarrow> valid s e \<Longrightarrow> ok (snd (act e s))"
    and accept_retires:
      "ok s \<Longrightarrow> valid s e \<Longrightarrow> fin e = Some (k, t) \<Longrightarrow> fst (act e s) \<Longrightarrow> retired (snd (act e s)) k t"
    and retired_rejected:
      "ok s \<Longrightarrow> retired s k t \<Longrightarrow> fin e = Some (k, t) \<Longrightarrow> act e s = (False, s)"
    and retired_stable:
      "ok s \<Longrightarrow> valid s e \<Longrightarrow> retired s k t \<Longrightarrow> allowed k t e \<Longrightarrow> retired (snd (act e s)) k t"
begin

lemma run_ok: "ok s \<Longrightarrow> legal valid act es s \<Longrightarrow> ok (snd (run_ops act es s))"
proof (induction es arbitrary: s)
  case (Cons e es)
  have "ok (snd (act e s))" using Cons.prems by (simp add: act_ok)
  from Cons.IH [OF this] Cons.prems(2) show ?case by simp
qed simp

lemma retired_none_accepted:
  assumes "ok s" and "legal valid act es s" and "retired s k t" and "\<forall>e \<in> set es. allowed k t e"
  shows "accepted fin k t es (fst (run_ops act es s)) = 0"
  using assms
proof (induction es arbitrary: s)
  case Nil
  then show ?case by (simp add: accepted_def)
next
  case (Cons e es)
  have n: "ok (snd (act e s))" "retired (snd (act e s)) k t"
    using Cons.prems by (simp_all add: act_ok retired_stable)
  have "fin e = Some (k, t) \<Longrightarrow> \<not> fst (act e s)"
    using retired_rejected [OF Cons.prems(1,3)] by simp
  moreover have "accepted fin k t es (fst (run_ops act es (snd (act e s)))) = 0"
    using Cons.IH [OF n(1) _ n(2)] Cons.prems(2,4) by simp
  ultimately show ?case by (auto simp: accepted_def)
qed

lemma retired_changes_nothing:
  assumes "ok s" and "legal valid act (es @ e # es') s" and "retired s k t" and "\<forall>e \<in> set es. allowed k t e"
    and "fin e = Some (k, t)"
  shows "act e (snd (run_ops act es s)) = (False, snd (run_ops act es s))"
  using assms
proof (induction es arbitrary: s)
  case Nil
  then show ?case by (simp add: retired_rejected)
next
  case (Cons x es)
  have "ok (snd (act x s))" "retired (snd (act x s)) k t"
    using Cons.prems by (simp_all add: act_ok retired_stable)
  with Cons.IH [of "snd (act x s)"] Cons.prems(2,4,5) show ?case by simp
qed

lemma accepted_once:
  assumes "ok s" and "legal valid act es s" and "\<forall>e \<in> set es. allowed k t e"
  shows "accepted fin k t es (fst (run_ops act es s)) \<le> 1"
  using assms
proof (induction es arbitrary: s)
  case Nil
  then show ?case by (simp add: accepted_def)
next
  case (Cons e es)
  let ?s = "snd (act e s)"
  have ok: "ok ?s" and rest: "legal valid act es ?s" and e: "valid s e"
    using Cons.prems(1,2) by (simp_all add: act_ok)
  have step: "accepted fin k t (e # es) (fst (run_ops act (e # es) s)) =
      (if fin e = Some (k, t) \<and> fst (act e s) then 1 else 0)
      + accepted fin k t es (fst (run_ops act es ?s))"
    by (simp add: accepted_def)
  show ?case
  proof (cases "fin e = Some (k, t) \<and> fst (act e s)")
    case True
    then have "retired ?s k t" using accept_retires [OF Cons.prems(1) e] by blast
    then have "accepted fin k t es (fst (run_ops act es ?s)) = 0"
      using retired_none_accepted [OF ok rest] Cons.prems(3) by simp
    then show ?thesis using step by simp
  next
    case False
    then show ?thesis using step Cons.IH [OF ok rest] Cons.prems(3) False by auto
  qed
qed

end

end
