(* ===== verification/Outbox.thy ===== *)
theory Outbox
  imports WA_Prelude Json_Values Unit_Of_Work Fencing
begin

text \<open>
  The transactional outbox of \<^verbatim>\<open>platform/events/outbox.py\<close>: the event store and the outbox
  table, the writer that joins the caller's transaction (\<open>outbox_record\<close>, \<open>record_next\<close>) and the
  claim side that drives the publisher (\<open>claim_batch\<close>, \<open>mark_published\<close>, \<open>mark_failed\<close>,
  \<open>reclaim_expired_claims\<close>). Then the invariant of the two tables and its preservation.
\<close>

section \<open>Envelopes and tables\<close>

record event_envelope =
  ev_type :: string
  ev_aggregate_type :: string
  ev_aggregate_id :: string
  ev_sequence :: int
  ev_payload :: pyobj
  ev_id :: string
  ev_version :: int
  ev_occurred_at :: time
  ev_actor_id :: "string option"
  ev_correlation_id :: "string option"
  ev_causation_id :: "string option"

text \<open>\<^verbatim>\<open>EventEnvelope.__post_init__\<close>: normalise the names, check the numbers, freeze the payload.\<close>

definition make_envelope :: "event_envelope \<Rightarrow> exn + event_envelope" where
  "make_envelope e =
     (case required_text ''event_type'' (ev_type e) of Inl x \<Rightarrow> Inl x
      | Inr ty \<Rightarrow> (case required_text ''aggregate_type'' (ev_aggregate_type e) of Inl x \<Rightarrow> Inl x
      | Inr agg \<Rightarrow>
          if ev_sequence e < 0 then Inl (ValueError ''sequence must be non-negative'')
          else if ev_version e < 1 then Inl (ValueError ''event_version must be at least 1'')
          else (case ev_payload e of
             PMap ro fs \<Rightarrow>
               (case freeze_json (PMap ro fs) of Inl x \<Rightarrow> Inl x
                | Inr p \<Rightarrow> Inr (e\<lparr>ev_type := ty, ev_aggregate_type := agg, ev_payload := p\<rparr>))
           | _ \<Rightarrow> Inl (TypeError ''payload must be a mapping''))))"

text \<open>
  A row of \<^verbatim>\<open>platform_events\<close> has one column per envelope field, so it is an envelope; the
  payload column holds the JSON text of the payload, modelled by the plain value that the text
  denotes. Identifiers are non-empty, so \<^verbatim>\<open>str(x) if x else None\<close> copies them.
\<close>

type_synonym event_row = event_envelope

definition event_row_of :: "event_envelope \<Rightarrow> event_row" where
  "event_row_of e = e\<lparr>ev_payload := thaw_json (ev_payload e)\<rparr>"

abbreviation OUTBOX_PENDING :: string where "OUTBOX_PENDING \<equiv> ''pending''"
abbreviation OUTBOX_PUBLISHING :: string where "OUTBOX_PUBLISHING \<equiv> ''publishing''"
abbreviation OUTBOX_PUBLISHED :: string where "OUTBOX_PUBLISHED \<equiv> ''published''"
abbreviation OUTBOX_DEAD_LETTER :: string where "OUTBOX_DEAD_LETTER \<equiv> ''dead_letter''"

record outbox_row =
  or_id :: string
  or_event_id :: string
  or_event_type :: string
  or_event_version :: int
  or_aggregate_type :: string
  or_aggregate_id :: string
  or_sequence_number :: int
  or_actor_id :: "string option"
  or_correlation_id :: "string option"
  or_causation_id :: "string option"
  or_payload :: pyobj
  or_occurred_at :: time
  or_created_at :: time
  or_available_at :: time
  or_published_at :: "time option"
  or_attempt_count :: int
  or_last_error :: "string option"
  or_status :: string
  or_deduplication_key :: "string option"
  or_claimed_by :: "string option"
  or_claim_token :: "string option"
  or_claim_expires_at :: "time option"

record outbox_db =
  db_events :: "event_row list"
  db_outbox :: "outbox_row list"

definition empty_outbox :: outbox_db where
  "empty_outbox = \<lparr>db_events = [], db_outbox = []\<rparr>"

section \<open>The transactional writer\<close>

definition outbox_row_of :: "time \<Rightarrow> string \<Rightarrow> string option \<Rightarrow> event_envelope \<Rightarrow> outbox_row" where
  "outbox_row_of now row_id key e =
     \<lparr>or_id = row_id, or_event_id = ev_id e, or_event_type = ev_type e, or_event_version = ev_version e,
      or_aggregate_type = ev_aggregate_type e, or_aggregate_id = ev_aggregate_id e,
      or_sequence_number = ev_sequence e, or_actor_id = ev_actor_id e,
      or_correlation_id = ev_correlation_id e, or_causation_id = ev_causation_id e,
      or_payload = thaw_json (ev_payload e), or_occurred_at = ev_occurred_at e, or_created_at = now,
      or_available_at = now, or_published_at = None, or_attempt_count = 0, or_last_error = None,
      or_status = OUTBOX_PENDING, or_deduplication_key = key, or_claimed_by = None,
      or_claim_token = None, or_claim_expires_at = None\<rparr>"

text \<open>The unique constraints of the two tables.\<close>

definition event_conflict :: "event_row \<Rightarrow> event_row list \<Rightarrow> bool" where
  "event_conflict e es \<longleftrightarrow>
     (\<exists>x \<in> set es. ev_id x = ev_id e
        \<or> ev_aggregate_type x = ev_aggregate_type e \<and> ev_aggregate_id x = ev_aggregate_id e
          \<and> ev_sequence x = ev_sequence e)"

definition has_dedup :: "string \<Rightarrow> outbox_row list \<Rightarrow> bool" where
  "has_dedup k rows \<longleftrightarrow> (\<exists>r \<in> set rows. or_deduplication_key r = Some k)"

definition outbox_conflict :: "outbox_row \<Rightarrow> outbox_row list \<Rightarrow> bool" where
  "outbox_conflict r rows \<longleftrightarrow>
     (\<exists>x \<in> set rows. or_id x = or_id r)
   \<or> (case or_deduplication_key r of None \<Rightarrow> False | Some k \<Rightarrow> has_dedup k rows)"

text \<open>
  \<^verbatim>\<open>TransactionalOutbox.record\<close> on the working copy of the open transaction: skip when the
  deduplication key is taken, append to the event store, pass the crash gate, append to the
  outbox. An exception leaves the scope, which rolls the whole transaction back.
\<close>

definition outbox_record ::
  "hook \<Rightarrow> time \<Rightarrow> string \<Rightarrow> event_envelope \<Rightarrow> string option \<Rightarrow> outbox_db \<Rightarrow> exn + bool \<times> outbox_db" where
  "outbox_record hook now row_id e key db =
     (if (case key of None \<Rightarrow> False | Some k \<Rightarrow> has_dedup k (db_outbox db)) then Inr (False, db)
      else if event_conflict e (db_events db) then Inl (IntegrityError ''platform_events'')
      else case checkpoint hook ''after_event_write'' of Inl x \<Rightarrow> Inl x
      | Inr _ \<Rightarrow>
          let r = outbox_row_of now row_id key e
          in if outbox_conflict r (db_outbox db) then Inl (IntegrityError ''platform_outbox'')
             else Inr (True, db\<lparr>db_events := db_events db @ [event_row_of e], db_outbox := db_outbox db @ [r]\<rparr>))"

definition stream :: "string \<Rightarrow> string \<Rightarrow> event_row list \<Rightarrow> int list" where
  "stream agg ai es =
     map ev_sequence (filter (\<lambda>e. ev_aggregate_type e = agg \<and> ev_aggregate_id e = ai) es)"

definition next_sequence :: "string \<Rightarrow> string \<Rightarrow> outbox_db \<Rightarrow> int" where
  "next_sequence agg ai db =
     (case stream agg ai (db_events db) of [] \<Rightarrow> - 1 | s # ss \<Rightarrow> fold max ss s) + 1"

definition record_next ::
  "hook \<Rightarrow> time \<Rightarrow> string \<Rightarrow> event_envelope \<Rightarrow> string option \<Rightarrow> outbox_db \<Rightarrow> exn + bool \<times> outbox_db" where
  "record_next hook now row_id e key db =
     (case make_envelope (e\<lparr>ev_sequence := next_sequence (ev_aggregate_type e) (ev_aggregate_id e) db\<rparr>)
      of Inl x \<Rightarrow> Inl x
       | Inr e' \<Rightarrow> outbox_record hook now row_id e' key db)"

section \<open>The claim side\<close>

definition deliverable :: "time \<Rightarrow> outbox_row \<Rightarrow> bool" where
  "deliverable now r \<longleftrightarrow> or_status r = OUTBOX_PENDING \<and> or_available_at r \<le> now"

text \<open>
  The scan of \<^verbatim>\<open>claim_batch\<close>. With \<^verbatim>\<open>SKIP LOCKED\<close> (\<open>skip_locked\<close>) the rows that other open
  transactions hold are passed over.
\<close>

definition outbox_scan :: "bool \<Rightarrow> string list \<Rightarrow> time \<Rightarrow> nat \<Rightarrow> outbox_row list \<Rightarrow> outbox_row list" where
  "outbox_scan skip_locked locked now limit rows =
     take limit (sort_key (\<lambda>r. (or_aggregate_id r, or_sequence_number r))
       (filter (\<lambda>r. deliverable now r \<and> \<not> (skip_locked \<and> or_id r \<in> set locked)) rows))"

definition claim_flip :: "string \<Rightarrow> string \<Rightarrow> time \<Rightarrow> outbox_row \<Rightarrow> outbox_row" where
  "claim_flip worker token expires r =
     r\<lparr>or_status := OUTBOX_PUBLISHING, or_claimed_by := Some worker, or_claim_token := Some token,
       or_claim_expires_at := Some expires\<rparr>"

definition claim_guard :: "outbox_row \<Rightarrow> outbox_row \<Rightarrow> bool" where
  "claim_guard row r \<longleftrightarrow> or_id r = or_id row \<and> or_status r = OUTBOX_PENDING"

text \<open>
  The loop over the scanned rows: a guarded flip per row; a row whose guard fails (another
  publisher was faster) is skipped. The scanned rows are an argument, so the loop also covers a
  scan that is older than the table the flips run on.
\<close>

fun claim_rows :: "string \<Rightarrow> string \<Rightarrow> time \<Rightarrow> outbox_row list \<Rightarrow> outbox_row list
    \<Rightarrow> outbox_row list \<times> outbox_row list" where
  "claim_rows worker token expires [] rows = ([], rows)"
| "claim_rows worker token expires (row # scanned) rows =
     (if rowcount (claim_guard row) rows = 1
      then (case claim_rows worker token expires scanned
                   (sql_update (claim_guard row) (claim_flip worker token expires) rows)
            of (claimed, rows') \<Rightarrow> (claim_flip worker token expires row # claimed, rows'))
      else claim_rows worker token expires scanned rows)"

definition claim_batch ::
  "bool \<Rightarrow> string list \<Rightarrow> time \<Rightarrow> string \<Rightarrow> nat \<Rightarrow> seconds \<Rightarrow> string \<Rightarrow> outbox_db
     \<Rightarrow> outbox_row list \<times> outbox_db" where
  "claim_batch skip_locked locked now worker limit lease_s token db =
     (case claim_rows worker token (now + timedelta_us lease_s)
             (outbox_scan skip_locked locked now limit (db_outbox db)) (db_outbox db)
      of (claimed, rows) \<Rightarrow> (claimed, db\<lparr>db_outbox := rows\<rparr>))"

definition owns_claim :: "string \<Rightarrow> string \<Rightarrow> outbox_row \<Rightarrow> bool" where
  "owns_claim rid token r \<longleftrightarrow>
     or_id r = rid \<and> or_status r = OUTBOX_PUBLISHING \<and> or_claim_token r = Some token"

definition release_claim :: "outbox_row \<Rightarrow> outbox_row" where
  "release_claim r = r\<lparr>or_claimed_by := None, or_claim_token := None, or_claim_expires_at := None\<rparr>"

definition mark_published :: "time \<Rightarrow> string \<Rightarrow> string \<Rightarrow> outbox_db \<Rightarrow> bool \<times> outbox_db" where
  "mark_published now rid token db =
     (rowcount (owns_claim rid token) (db_outbox db) = 1,
      db\<lparr>db_outbox := sql_update (owns_claim rid token)
           (\<lambda>r. (release_claim r)\<lparr>or_status := OUTBOX_PUBLISHED, or_published_at := Some now\<rparr>)
           (db_outbox db)\<rparr>)"

definition mark_failed ::
  "time \<Rightarrow> int \<Rightarrow> seconds \<Rightarrow> string \<Rightarrow> string \<Rightarrow> string \<Rightarrow> outbox_db \<Rightarrow> bool \<times> outbox_db" where
  "mark_failed now max_attempts backoff_s rid token err db =
     (rowcount (owns_claim rid token) (db_outbox db) = 1,
      db\<lparr>db_outbox := sql_update (owns_claim rid token)
           (\<lambda>r. (release_claim r)\<lparr>
              or_attempt_count := or_attempt_count r + 1,
              or_last_error := Some err,
              or_status := (if or_attempt_count r + 1 \<ge> max_attempts then OUTBOX_DEAD_LETTER
                            else OUTBOX_PENDING),
              or_available_at := now + timedelta_us backoff_s\<rparr>)
           (db_outbox db)\<rparr>)"

definition claim_expired :: "time \<Rightarrow> outbox_row \<Rightarrow> bool" where
  "claim_expired now r \<longleftrightarrow> or_status r = OUTBOX_PUBLISHING
     \<and> (case or_claim_expires_at r of None \<Rightarrow> False | Some t \<Rightarrow> t < now)"

definition reclaim_expired_claims :: "time \<Rightarrow> outbox_db \<Rightarrow> nat \<times> outbox_db" where
  "reclaim_expired_claims now db =
     (rowcount (claim_expired now) (db_outbox db),
      db\<lparr>db_outbox := sql_update (claim_expired now)
           (\<lambda>r. (release_claim r)\<lparr>or_status := OUTBOX_PENDING\<rparr>) (db_outbox db)\<rparr>)"

definition count_by_status :: "outbox_db \<Rightarrow> (string \<times> nat) list" where
  "count_by_status db =
     map (\<lambda>s. (s, rowcount (\<lambda>r. or_status r = s) (db_outbox db))) (remdups (map or_status (db_outbox db)))"

definition row_event :: "outbox_row \<Rightarrow> event_row" where
  "row_event r =
     \<lparr>ev_type = or_event_type r, ev_aggregate_type = or_aggregate_type r,
      ev_aggregate_id = or_aggregate_id r, ev_sequence = or_sequence_number r,
      ev_payload = or_payload r, ev_id = or_event_id r, ev_version = or_event_version r,
      ev_occurred_at = or_occurred_at r, ev_actor_id = or_actor_id r,
      ev_correlation_id = or_correlation_id r, ev_causation_id = or_causation_id r\<rparr>"

definition to_envelope :: "outbox_row \<Rightarrow> exn + event_envelope" where
  "to_envelope r = make_envelope (row_event r)"

section \<open>Envelopes survive storage\<close>

lemma make_envelope_Inr:
  "make_envelope e = Inr w \<longleftrightarrow>
     py_strip (ev_type e) \<noteq> [] \<and> py_strip (ev_aggregate_type e) \<noteq> [] \<and> 0 \<le> ev_sequence e \<and> 1 \<le> ev_version e
   \<and> (\<exists>ro fs p. ev_payload e = PMap ro fs \<and> freeze_json (PMap ro fs) = Inr p
        \<and> w = e\<lparr>ev_type := py_strip (ev_type e), ev_aggregate_type := py_strip (ev_aggregate_type e),
               ev_payload := p\<rparr>)"
proof (cases "ev_payload e")
  case (PMap ro fs)
  then show ?thesis
    by (cases "freeze_json (PMap ro fs)") (auto simp: make_envelope_def required_text_def simp del: freeze_json.simps)
qed (auto simp: make_envelope_def required_text_def)

lemma freeze_PMap_shape: "freeze_json (PMap ro fs) = Inr p \<Longrightarrow> \<exists>gs. p = PMap True gs"
  by (auto split: sum.splits)

text \<open>A constructed envelope, stored and read back, is the same envelope.\<close>

lemma envelope_roundtrip:
  assumes "make_envelope e = Inr w"
  shows "make_envelope (event_row_of w) = Inr w"
proof -
  from assms obtain ro fs p where e: "freeze_json (PMap ro fs) = Inr p"
    and w: "w = e\<lparr>ev_type := py_strip (ev_type e), ev_aggregate_type := py_strip (ev_aggregate_type e),
               ev_payload := p\<rparr>"
    and h: "py_strip (ev_type e) \<noteq> []" "py_strip (ev_aggregate_type e) \<noteq> []" "0 \<le> ev_sequence e"
      "1 \<le> ev_version e"
    unfolding make_envelope_Inr by blast
  from freeze_PMap_shape [OF e] obtain gs where p: "p = PMap True gs" by blast
  have "is_frozen p" using freeze_frozen(1) [OF e] .
  from freeze_of_thawed(1) [OF this] have refrozen: "freeze_json (thaw_json p) = Inr p" .
  obtain js where thawed: "thaw_json p = PMap False js" using p by simp
  show ?thesis
    unfolding make_envelope_Inr
    using w h refrozen thawed by (intro conjI exI [of _ False] exI [of _ js] exI [of _ p])
      (simp_all add: event_row_of_def)
qed

lemma event_row_of_fields [simp]:
  "ev_id (event_row_of e) = ev_id e" "ev_aggregate_type (event_row_of e) = ev_aggregate_type e"
  "ev_aggregate_id (event_row_of e) = ev_aggregate_id e" "ev_sequence (event_row_of e) = ev_sequence e"
  by (simp_all add: event_row_of_def)

lemma row_event_of_row [simp]: "row_event (outbox_row_of now rid key e) = event_row_of e"
  by (simp add: row_event_def outbox_row_of_def event_row_of_def)

section \<open>The invariant of the two tables\<close>

definition row_ok :: "outbox_row \<Rightarrow> bool" where
  "row_ok r \<longleftrightarrow>
     or_status r \<in> {OUTBOX_PENDING, OUTBOX_PUBLISHING, OUTBOX_PUBLISHED, OUTBOX_DEAD_LETTER}
   \<and> (or_claim_token r \<noteq> None \<longleftrightarrow> or_status r = OUTBOX_PUBLISHING)
   \<and> (or_claimed_by r \<noteq> None \<longleftrightarrow> or_status r = OUTBOX_PUBLISHING)
   \<and> (or_claim_expires_at r \<noteq> None \<longleftrightarrow> or_status r = OUTBOX_PUBLISHING)
   \<and> (or_published_at r \<noteq> None \<longleftrightarrow> or_status r = OUTBOX_PUBLISHED)
   \<and> 0 \<le> or_attempt_count r
   \<and> (case to_envelope r of Inl _ \<Rightarrow> False | Inr e \<Rightarrow> event_row_of e = row_event r)"

definition stream_key :: "event_row \<Rightarrow> string \<times> string \<times> int" where
  "stream_key e = (ev_aggregate_type e, ev_aggregate_id e, ev_sequence e)"

definition dedup_keys :: "outbox_row list \<Rightarrow> string option list" where
  "dedup_keys rows = filter (\<lambda>k. k \<noteq> None) (map or_deduplication_key rows)"

text \<open>
  Event store and outbox hold the same events in the same order, the unique constraints hold,
  and each row is in one of the four states with the columns that the state needs.
\<close>

definition outbox_inv :: "outbox_db \<Rightarrow> bool" where
  "outbox_inv db \<longleftrightarrow>
     map row_event (db_outbox db) = db_events db
   \<and> distinct (map or_id (db_outbox db))
   \<and> distinct (map ev_id (db_events db))
   \<and> distinct (map stream_key (db_events db))
   \<and> distinct (dedup_keys (db_outbox db))
   \<and> list_all row_ok (db_outbox db)"

definition row_keys :: "outbox_row \<Rightarrow> string \<times> event_row \<times> string option" where
  "row_keys r = (or_id r, row_event r, or_deduplication_key r)"

lemma outbox_inv_empty: "outbox_inv empty_outbox"
  by (simp add: outbox_inv_def empty_outbox_def dedup_keys_def)

lemma outbox_inv_rows:
  assumes "outbox_inv db" and "map row_keys rows = map row_keys (db_outbox db)"
    and "list_all row_ok rows"
  shows "outbox_inv (db\<lparr>db_outbox := rows\<rparr>)"
proof -
  have m: "map (g \<circ> row_keys) rows = map (g \<circ> row_keys) (db_outbox db)" for g
    using assms(2) by (metis list.map_comp)
  have "map row_event rows = map row_event (db_outbox db)"
    using m [of "fst \<circ> snd"] by (simp add: row_keys_def comp_def)
  moreover have "map or_id rows = map or_id (db_outbox db)"
    using m [of fst] by (simp add: row_keys_def comp_def)
  moreover have "map or_deduplication_key rows = map or_deduplication_key (db_outbox db)"
    using m [of "snd \<circ> snd"] by (simp add: row_keys_def comp_def)
  ultimately show ?thesis using assms(1,3) by (simp add: outbox_inv_def dedup_keys_def)
qed

lemma outbox_inv_update:
  assumes "outbox_inv db" and "\<And>r. p r \<Longrightarrow> row_keys (f r) = row_keys r"
    and "\<And>r. p r \<Longrightarrow> row_ok r \<Longrightarrow> row_ok (f r)"
  shows "outbox_inv (db\<lparr>db_outbox := sql_update p f (db_outbox db)\<rparr>)"
proof (rule outbox_inv_rows [OF assms(1)])
  show "map row_keys (sql_update p f (db_outbox db)) = map row_keys (db_outbox db)"
    by (rule map_sql_update) (rule assms(2))
  show "list_all row_ok (sql_update p f (db_outbox db))"
    using assms(1,3) by (auto simp: outbox_inv_def list_all_iff set_sql_update)
qed

lemma row_event_simps [simp]:
  "row_event (claim_flip w t x r) = row_event r"
  "row_event (release_claim r) = row_event r"
  "row_event (r\<lparr>or_status := st\<rparr>) = row_event r"
  "row_event (r\<lparr>or_published_at := pa\<rparr>) = row_event r"
  "row_event (r\<lparr>or_attempt_count := n\<rparr>) = row_event r"
  "row_event (r\<lparr>or_last_error := le\<rparr>) = row_event r"
  "row_event (r\<lparr>or_available_at := av\<rparr>) = row_event r"
  by (simp_all add: row_event_def claim_flip_def release_claim_def)

lemma row_ok_flip: "row_ok r \<Longrightarrow> or_status r = OUTBOX_PENDING \<Longrightarrow> row_ok (claim_flip w t x r)"
  by (simp add: row_ok_def to_envelope_def split: sum.splits) (simp add: claim_flip_def)

lemma row_ok_shape:
  assumes "row_ok r" and "row_event r' = row_event r"
  shows "row_ok r' \<longleftrightarrow>
     or_status r' \<in> {OUTBOX_PENDING, OUTBOX_PUBLISHING, OUTBOX_PUBLISHED, OUTBOX_DEAD_LETTER}
   \<and> (or_claim_token r' \<noteq> None \<longleftrightarrow> or_status r' = OUTBOX_PUBLISHING)
   \<and> (or_claimed_by r' \<noteq> None \<longleftrightarrow> or_status r' = OUTBOX_PUBLISHING)
   \<and> (or_claim_expires_at r' \<noteq> None \<longleftrightarrow> or_status r' = OUTBOX_PUBLISHING)
   \<and> (or_published_at r' \<noteq> None \<longleftrightarrow> or_status r' = OUTBOX_PUBLISHED)
   \<and> 0 \<le> or_attempt_count r'"
  using assms by (simp add: row_ok_def to_envelope_def split: sum.splits)

lemma release_claim_keys [simp]:
  "or_id (release_claim r) = or_id r" "or_deduplication_key (release_claim r) = or_deduplication_key r"
  "or_claim_token (release_claim r) = None" "or_claimed_by (release_claim r) = None"
  "or_claim_expires_at (release_claim r) = None" "or_published_at (release_claim r) = or_published_at r"
  "or_attempt_count (release_claim r) = or_attempt_count r" "or_status (release_claim r) = or_status r"
  by (simp_all add: release_claim_def)

text \<open>A row that gives up its claim and moves to one of the other states.\<close>

lemma row_ok_released:
  assumes "row_ok r" and "row_event r' = row_event r"
    and "or_claim_token r' = None" "or_claimed_by r' = None" "or_claim_expires_at r' = None"
    and "or_status r' \<in> {OUTBOX_PENDING, OUTBOX_PUBLISHED, OUTBOX_DEAD_LETTER}"
    and "or_status r = OUTBOX_PUBLISHING"
    and "or_published_at r = None \<Longrightarrow> 0 \<le> or_attempt_count r \<Longrightarrow>
           (or_published_at r' \<noteq> None \<longleftrightarrow> or_status r' = OUTBOX_PUBLISHED) \<and> 0 \<le> or_attempt_count r'"
  shows "row_ok r'"
proof -
  have "or_published_at r = None" "0 \<le> or_attempt_count r"
    using assms(1,7) by (simp_all add: row_ok_def)
  then show ?thesis unfolding row_ok_shape [OF assms(1,2)] using assms(3-6,8) by auto
qed

section \<open>Every operation keeps the invariant\<close>

lemma claim_rows_induct:
  assumes "P rows"
    and "\<And>row rs. P rs \<Longrightarrow> P (sql_update (claim_guard row) (claim_flip worker token expires) rs)"
  shows "P (snd (claim_rows worker token expires scanned rows))"
  using assms(1)
proof (induction scanned arbitrary: rows)
  case (Cons row scanned)
  then show ?case
    using Cons.IH [OF assms(2) [OF Cons.prems, of row]] by (auto split: prod.splits)
qed simp

lemma outbox_inv_claim:
  assumes "outbox_inv db"
  shows "outbox_inv (snd (claim_batch skip locked now worker limit lease_s token db))"
proof -
  let ?rows = "snd (claim_rows worker token (now + timedelta_us lease_s)
      (outbox_scan skip locked now limit (db_outbox db)) (db_outbox db))"
  have "outbox_inv (db\<lparr>db_outbox := ?rows\<rparr>)"
  proof (rule claim_rows_induct [where P = "\<lambda>rs. outbox_inv (db\<lparr>db_outbox := rs\<rparr>)"])
    show "outbox_inv (db\<lparr>db_outbox := db_outbox db\<rparr>)" using assms by simp
    fix row rs
    assume "outbox_inv (db\<lparr>db_outbox := rs\<rparr>)"
    from outbox_inv_update [OF this, of "claim_guard row" "claim_flip worker token (now + timedelta_us lease_s)"]
    show "outbox_inv (db\<lparr>db_outbox := sql_update (claim_guard row)
            (claim_flip worker token (now + timedelta_us lease_s)) rs\<rparr>)"
      by (simp add: row_keys_def row_ok_flip claim_guard_def) (simp add: claim_flip_def)
  qed
  then show ?thesis by (simp add: claim_batch_def case_prod_beta)
qed

lemma outbox_inv_published:
  assumes "outbox_inv db" shows "outbox_inv (snd (mark_published now rid token db))"
  unfolding mark_published_def snd_conv
  by (rule outbox_inv_update [OF assms])
    (simp add: row_keys_def, erule row_ok_released, simp_all add: owns_claim_def)

lemma outbox_inv_failed:
  assumes "outbox_inv db" shows "outbox_inv (snd (mark_failed now m b rid token err db))"
  unfolding mark_failed_def snd_conv
  by (rule outbox_inv_update [OF assms])
    (simp add: row_keys_def, erule row_ok_released, simp_all add: owns_claim_def)

lemma outbox_inv_reclaim:
  assumes "outbox_inv db" shows "outbox_inv (snd (reclaim_expired_claims now db))"
  unfolding reclaim_expired_claims_def snd_conv
  by (rule outbox_inv_update [OF assms])
    (simp add: row_keys_def, erule row_ok_released, simp_all add: claim_expired_def)

lemma outbox_record_Inr:
  assumes "outbox_record hook now rid e key db = Inr (b, db')"
  shows "(\<not> b \<and> db' = db)
       \<or> (b \<and> db' = db\<lparr>db_events := db_events db @ [event_row_of e],
                       db_outbox := db_outbox db @ [outbox_row_of now rid key e]\<rparr>
            \<and> \<not> event_conflict e (db_events db)
            \<and> \<not> outbox_conflict (outbox_row_of now rid key e) (db_outbox db))"
  using assms by (auto simp: outbox_record_def Let_def split: if_splits sum.splits option.splits)

lemma outbox_inv_record:
  assumes inv: "outbox_inv db" and e: "make_envelope e0 = Inr e"
    and r: "outbox_record hook now rid e key db = Inr (b, db')"
  shows "outbox_inv db'"
proof (cases b)
  case False
  with outbox_record_Inr [OF r] inv show ?thesis by simp
next
  case True
  let ?r = "outbox_row_of now rid key e"
  from True outbox_record_Inr [OF r]
  have db': "db' = db\<lparr>db_events := db_events db @ [event_row_of e], db_outbox := db_outbox db @ [?r]\<rparr>"
    and ec: "\<not> event_conflict e (db_events db)" and oc: "\<not> outbox_conflict ?r (db_outbox db)"
    by auto
  have "row_ok ?r"
    using envelope_roundtrip [OF e] unfolding row_ok_def to_envelope_def row_event_of_row
    by (simp add: outbox_row_of_def)
  moreover have "ev_id e \<notin> ev_id ` set (db_events db)" "stream_key e \<notin> stream_key ` set (db_events db)"
    using ec by (auto simp: event_conflict_def stream_key_def)
  moreover have "stream_key (event_row_of e) = stream_key e" by (simp add: stream_key_def)
  moreover have "rid \<notin> or_id ` set (db_outbox db)"
    "key \<noteq> None \<Longrightarrow> key \<notin> or_deduplication_key ` set (db_outbox db)"
    using oc by (auto simp: outbox_conflict_def outbox_row_of_def has_dedup_def split: option.splits)
  moreover have "or_id ?r = rid" "or_deduplication_key ?r = key" by (simp_all add: outbox_row_of_def)
  ultimately show ?thesis using inv unfolding db' outbox_inv_def by (auto simp: dedup_keys_def)
qed

lemma outbox_inv_record_next:
  assumes "outbox_inv db" and "record_next hook now rid e key db = Inr (b, db')"
  shows "outbox_inv db'"
  using assms outbox_inv_record by (auto simp: record_next_def split: sum.splits)

section \<open>Operations as data\<close>

text \<open>
  One constructor per operation of the two adapters. A record runs in a transaction of its
  own scope; an exception leaves the tables as they were. The answer is the operation's own
  result: recorded, finalized, or whether anything was claimed or reclaimed.
\<close>

datatype outbox_op =
    Record hook time string event_envelope "string option"
  | Record_Next hook time string event_envelope "string option"
  | Claim_Batch bool "string list" time string nat seconds string
  | Mark_Published time string string
  | Mark_Failed time int seconds string string string
  | Reclaim time

fun outbox_act :: "outbox_op \<Rightarrow> outbox_db \<Rightarrow> bool \<times> outbox_db" where
  "outbox_act (Record hook now rid e key) db =
     (case make_envelope e of Inl _ \<Rightarrow> (False, db)
      | Inr w \<Rightarrow> (case outbox_record hook now rid w key db of Inl _ \<Rightarrow> (False, db) | Inr r \<Rightarrow> r))"
| "outbox_act (Record_Next hook now rid e key) db =
     (case make_envelope e of Inl _ \<Rightarrow> (False, db)
      | Inr w \<Rightarrow> (case record_next hook now rid w key db of Inl _ \<Rightarrow> (False, db) | Inr r \<Rightarrow> r))"
| "outbox_act (Claim_Batch skip locked now worker limit lease_s token) db =
     (case claim_batch skip locked now worker limit lease_s token db of (c, db') \<Rightarrow> (c \<noteq> [], db'))"
| "outbox_act (Mark_Published now rid token) db = mark_published now rid token db"
| "outbox_act (Mark_Failed now m b rid token err) db = mark_failed now m b rid token err db"
| "outbox_act (Reclaim now) db = (case reclaim_expired_claims now db of (n, db') \<Rightarrow> (n \<noteq> 0, db'))"

fun outbox_fin :: "outbox_op \<Rightarrow> (string \<times> string) option" where
  "outbox_fin (Mark_Published now rid token) = Some (rid, token)"
| "outbox_fin (Mark_Failed now m b rid token err) = Some (rid, token)"
| "outbox_fin _ = None"

text \<open>Claim tokens are fresh UUIDs: no later claim draws the token again.\<close>

fun outbox_allowed :: "string \<Rightarrow> string \<Rightarrow> outbox_op \<Rightarrow> bool" where
  "outbox_allowed rid token (Claim_Batch skip locked now worker limit lease_s t) = (t \<noteq> token)"
| "outbox_allowed rid token _ = True"

definition outbox_retired :: "outbox_db \<Rightarrow> string \<Rightarrow> string \<Rightarrow> bool" where
  "outbox_retired db rid token \<longleftrightarrow> list_all (\<lambda>r. \<not> owns_claim rid token r) (db_outbox db)"

lemma outbox_act_inv: "outbox_inv db \<Longrightarrow> outbox_inv (snd (outbox_act op db))"
proof (cases op)
  case (Claim_Batch skip locked now worker limit lease_s token)
  assume "outbox_inv db"
  from outbox_inv_claim [OF this, of skip locked now worker limit lease_s token]
  show ?thesis unfolding Claim_Batch by (simp add: case_prod_beta)
next
  case (Reclaim now)
  assume "outbox_inv db"
  from outbox_inv_reclaim [OF this, of now] show ?thesis unfolding Reclaim by (simp add: case_prod_beta)
qed (auto simp: outbox_inv_published outbox_inv_failed split: sum.splits
       intro: outbox_inv_record outbox_inv_record_next)

section \<open>Claim tokens work once\<close>

lemma retired_update:
  assumes "outbox_retired db rid token"
    and "\<And>r. p r \<Longrightarrow> \<not> owns_claim rid token r \<Longrightarrow> \<not> owns_claim rid token (f r)"
  shows "outbox_retired (db\<lparr>db_outbox := sql_update p f (db_outbox db)\<rparr>) rid token"
  using assms by (auto simp: outbox_retired_def list_all_iff set_sql_update)

lemma retired_claim:
  assumes "outbox_retired db rid token" and "t \<noteq> token"
  shows "outbox_retired (snd (claim_batch skip locked now worker limit lease_s t db)) rid token"
proof -
  let ?x = "now + timedelta_us lease_s"
  have "outbox_retired (db\<lparr>db_outbox := snd (claim_rows worker t ?x
      (outbox_scan skip locked now limit (db_outbox db)) (db_outbox db))\<rparr>) rid token"
  proof (rule claim_rows_induct [where P = "\<lambda>rs. outbox_retired (db\<lparr>db_outbox := rs\<rparr>) rid token"])
    fix row rs
    assume "outbox_retired (db\<lparr>db_outbox := rs\<rparr>) rid token"
    from retired_update [OF this, of "claim_guard row" "claim_flip worker t ?x"] assms(2)
    show "outbox_retired (db\<lparr>db_outbox := sql_update (claim_guard row) (claim_flip worker t ?x) rs\<rparr>) rid token"
      by (simp add: owns_claim_def claim_flip_def)
  qed (simp add: assms(1))
  then show ?thesis by (simp add: claim_batch_def case_prod_beta)
qed

lemma retired_append_pending:
  assumes "outbox_retired db rid token" and "or_status r \<noteq> OUTBOX_PUBLISHING"
  shows "outbox_retired (db\<lparr>db_events := es, db_outbox := db_outbox db @ [r]\<rparr>) rid token"
  using assms by (simp add: outbox_retired_def owns_claim_def)

lemma retired_record:
  assumes "outbox_retired db rid token" and "outbox_record hook now r e key db = Inr (b, db')"
  shows "outbox_retired db' rid token"
  using outbox_record_Inr [OF assms(2)] assms(1)
  by (auto intro!: retired_append_pending simp: outbox_row_of_def)

lemma retired_record_next:
  assumes "outbox_retired db rid token" and "record_next hook now r e key db = Inr (b, db')"
  shows "outbox_retired db' rid token"
  using assms retired_record by (auto simp: record_next_def split: sum.splits)

lemma outbox_retired_stable:
  assumes "outbox_retired db rid token" and "outbox_allowed rid token op"
  shows "outbox_retired (snd (outbox_act op db)) rid token"
proof (cases op)
  case (Claim_Batch skip locked now worker limit lease_s t)
  with assms show ?thesis by (simp add: case_prod_beta retired_claim)
next
  case (Reclaim now)
  with assms(1) show ?thesis
    by (simp add: case_prod_beta reclaim_expired_claims_def retired_update owns_claim_def)
next
  case (Mark_Published now r t)
  with assms(1) show ?thesis by (simp add: mark_published_def retired_update owns_claim_def)
next
  case (Mark_Failed now m b r t err)
  with assms(1) show ?thesis by (simp add: mark_failed_def retired_update owns_claim_def)
qed (use assms(1) in \<open>auto split: sum.splits intro: retired_record retired_record_next\<close>)

lemma retired_not_owned:
  assumes "outbox_retired db rid token"
  shows "rowcount (owns_claim rid token) (db_outbox db) = 0"
    and "sql_update (owns_claim rid token) f (db_outbox db) = db_outbox db"
  using assms by (auto simp: outbox_retired_def list_all_iff rowcount_zero intro: sql_update_none)

lemma retired_after_release:
  assumes "\<And>r. or_claim_token (f r) = None"
  shows "outbox_retired (db\<lparr>db_outbox := sql_update (owns_claim rid token) f (db_outbox db)\<rparr>) rid token"
  using assms by (auto simp: outbox_retired_def list_all_iff set_sql_update owns_claim_def)

interpretation outbox: fenced_store outbox_act outbox_fin outbox_inv "\<lambda>_ _. True" outbox_allowed
  outbox_retired
proof
  fix db e k t
  assume inv: "outbox_inv db"
  show "outbox_inv (snd (outbox_act e db))" using inv by (rule outbox_act_inv)
  show "outbox_retired (snd (outbox_act e db)) k t" if "outbox_fin e = Some (k, t)" "fst (outbox_act e db)"
    using that by (cases e) (auto simp: mark_published_def mark_failed_def intro: retired_after_release)
  show "outbox_act e db = (False, db)" if "outbox_retired db k t" "outbox_fin e = Some (k, t)"
    using that retired_not_owned [OF that(1)]
    by (cases e) (auto simp: mark_published_def mark_failed_def)
  show "outbox_retired (snd (outbox_act e db)) k t" if "outbox_retired db k t" "outbox_allowed k t e"
    using that by (rule outbox_retired_stable)
qed

section \<open>Delivered and dead-lettered rows are final\<close>

definition delivery_final :: "outbox_row \<Rightarrow> bool" where
  "delivery_final r \<longleftrightarrow> or_status r = OUTBOX_PUBLISHED \<or> or_status r = OUTBOX_DEAD_LETTER"

lemma sql_update_keeps:
  assumes "r \<in> set rows" and "\<not> p r" shows "r \<in> set (sql_update p f rows)"
proof -
  have "(if p r then f r else r) \<in> set (sql_update p f rows)"
    unfolding set_sql_update using assms(1) by blast
  then show ?thesis using assms(2) by simp
qed

lemma final_kept:
  assumes "r \<in> set (db_outbox db)" and "delivery_final r"
  shows "r \<in> set (db_outbox (snd (outbox_act op db)))"
proof (cases op)
  case (Claim_Batch skip locked now worker limit lease_s t)
  have "r \<in> set (snd (claim_rows worker t x scanned (db_outbox db)))" for x scanned
    by (rule claim_rows_induct [where P = "\<lambda>rs. r \<in> set rs"])
      (use assms in \<open>auto intro!: sql_update_keeps simp: claim_guard_def delivery_final_def\<close>)
  then show ?thesis unfolding Claim_Batch by (simp add: claim_batch_def case_prod_beta)
next
  case (Record hook now rid e key)
  then show ?thesis
    using assms(1) by (auto split: sum.splits dest: outbox_record_Inr)
next
  case (Record_Next hook now rid e key)
  then show ?thesis
    using assms(1) by (auto simp: record_next_def split: sum.splits dest: outbox_record_Inr)
qed (use assms in \<open>auto intro!: sql_update_keeps simp: mark_published_def mark_failed_def
       reclaim_expired_claims_def owns_claim_def claim_expired_def delivery_final_def\<close>)

section \<open>A row is claimed by one publisher\<close>

lemma claim_rows_pending:
  assumes "distinct (map or_id rows)"
    and "c \<in> set (fst (claim_rows worker token x scanned rows))"
  shows "\<exists>r \<in> set rows. or_id r = or_id c \<and> or_status r = OUTBOX_PENDING"
  using assms
proof (induction scanned arbitrary: rows)
  case (Cons row scanned)
  let ?rows = "sql_update (claim_guard row) (claim_flip worker token x) rows"
  have ids: "map or_id ?rows = map or_id rows" by (rule map_sql_update) (simp add: claim_flip_def)
  show ?case
  proof (cases "rowcount (claim_guard row) rows = 1")
    case False
    then show ?thesis using Cons by simp
  next
    case True
    then consider "c = claim_flip worker token x row"
      | "c \<in> set (fst (claim_rows worker token x scanned ?rows))"
      using Cons.prems(2) by (auto simp: case_prod_beta)
    then show ?thesis
    proof cases
      case 1
      with rowcount_one_ex [OF True] show ?thesis by (auto simp: claim_guard_def claim_flip_def)
    next
      case 2
      from Cons.IH [OF _ 2] Cons.prems(1) ids obtain r where
        "r \<in> set ?rows" "or_id r = or_id c" "or_status r = OUTBOX_PENDING" by auto
      then show ?thesis by (auto simp: set_sql_update claim_flip_def split: if_splits)
    qed
  qed
qed simp

lemma claim_rows_claimed:
  assumes "distinct (map or_id rows)"
    and "c \<in> set (fst (claim_rows worker token x scanned rows))"
  shows "\<exists>r \<in> set (snd (claim_rows worker token x scanned rows)).
           or_id r = or_id c \<and> or_status r = OUTBOX_PUBLISHING \<and> or_claim_token r = Some token"
  using assms
proof (induction scanned arbitrary: rows)
  case (Cons row scanned)
  let ?rows = "sql_update (claim_guard row) (claim_flip worker token x) rows"
  have ids: "map or_id ?rows = map or_id rows" by (rule map_sql_update) (simp add: claim_flip_def)
  show ?case
  proof (cases "rowcount (claim_guard row) rows = 1")
    case False
    then show ?thesis using Cons by simp
  next
    case True
    then consider "c = claim_flip worker token x row"
      | "c \<in> set (fst (claim_rows worker token x scanned ?rows))"
      using Cons.prems(2) by (auto simp: case_prod_beta)
    then show ?thesis
    proof cases
      case 1
      from rowcount_one_ex [OF True] obtain r0 where "r0 \<in> set rows" "claim_guard row r0" by blast
      then have "claim_flip worker token x r0 \<in> set ?rows" and g: "or_id r0 = or_id row"
        by (auto simp: set_sql_update claim_guard_def)
      then have "claim_flip worker token x r0 \<in> set (snd (claim_rows worker token x scanned ?rows))"
        by (intro claim_rows_induct [where P = "\<lambda>rs. claim_flip worker token x r0 \<in> set rs"])
          (auto intro!: sql_update_keeps simp: claim_guard_def, simp add: claim_flip_def)
      with True 1 g show ?thesis
        by (auto simp: case_prod_beta claim_flip_def
            intro!: bexI [where x = "claim_flip worker token x r0"])
    next
      case 2
      from Cons.IH [OF _ 2] Cons.prems(1) ids True show ?thesis by (simp add: case_prod_beta)
    qed
  qed
qed simp

lemma claim_rows_ids: "map or_id (snd (claim_rows worker token x scanned rows)) = map or_id rows"
  by (rule claim_rows_induct [where P = "\<lambda>rs. map or_id rs = map or_id rows"])
    (simp_all add: map_sql_update claim_flip_def)

lemma claim_rows_disjoint:
  assumes d: "distinct (map or_id rows)"
    and c1: "c1 \<in> set (fst (claim_rows w1 t1 x1 scan1 rows))"
    and c2: "c2 \<in> set (fst (claim_rows w2 t2 x2 scan2 (snd (claim_rows w1 t1 x1 scan1 rows))))"
  shows "or_id c1 \<noteq> or_id c2"
proof
  assume same: "or_id c1 = or_id c2"
  let ?rows = "snd (claim_rows w1 t1 x1 scan1 rows)"
  have d': "distinct (map or_id ?rows)" using d by (simp add: claim_rows_ids)
  from claim_rows_claimed [OF d c1] obtain r1 where
    r1: "r1 \<in> set ?rows" "or_id r1 = or_id c1" "or_status r1 = OUTBOX_PUBLISHING" by blast
  from claim_rows_pending [OF d' c2] obtain r2 where
    r2: "r2 \<in> set ?rows" "or_id r2 = or_id c2" "or_status r2 = OUTBOX_PENDING" by blast
  have "r1 = r2" using d' r1(1,2) r2(1,2) same by (metis distinct_map inj_on_eq_iff)
  with r1(3) r2(3) show False by simp
qed

text \<open>On the table it was scanned from, the loop claims exactly the scanned rows.\<close>

lemma claim_rows_fresh:
  assumes "distinct (map or_id rows)" and "distinct (map or_id scanned)"
    and "\<forall>r \<in> set scanned. r \<in> set rows \<and> or_status r = OUTBOX_PENDING"
  shows "fst (claim_rows worker token x scanned rows) = map (claim_flip worker token x) scanned"
  using assms
proof (induction scanned arbitrary: rows)
  case (Cons row scanned)
  let ?rows = "sql_update (claim_guard row) (claim_flip worker token x) rows"
  have ids: "map or_id ?rows = map or_id rows" by (rule map_sql_update) (simp add: claim_flip_def)
  have one: "rowcount (claim_guard row) rows = 1"
    using Cons.prems by (subst rowcount_eq_one [OF Cons.prems(1)]) (auto simp: claim_guard_def)
  have "\<forall>r \<in> set scanned. r \<in> set ?rows \<and> or_status r = OUTBOX_PENDING"
    using Cons.prems(2,3) by (auto intro!: sql_update_keeps simp: claim_guard_def) (metis imageI)
  from Cons.IH [OF _ _ this] Cons.prems(1,2) ids one show ?case by (simp add: case_prod_beta)
qed simp

lemma outbox_scan_rows:
  assumes "r \<in> set (outbox_scan skip locked now limit rows)"
  shows "r \<in> set rows \<and> deliverable now r \<and> (skip \<longrightarrow> or_id r \<notin> set locked)"
  using set_take_subset assms by (fastforce simp: outbox_scan_def)

lemma distinct_map_sort_key [simp]: "distinct (map f (sort_key k xs)) \<longleftrightarrow> distinct (map f xs)"
  by (metis distinct_map distinct_sort set_sort)

lemma distinct_map_take: "distinct (map f xs) \<Longrightarrow> distinct (map f (take n xs))"
  by (simp add: distinct_map_filter flip: take_map)

lemma outbox_scan_distinct:
  "distinct (map or_id rows) \<Longrightarrow> distinct (map or_id (outbox_scan skip locked now limit rows))"
  unfolding outbox_scan_def by (intro distinct_map_take) (simp add: distinct_map_filter)

lemma claim_batch_fresh:
  assumes "outbox_inv db"
  shows "fst (claim_batch skip locked now worker limit lease_s token db) =
           map (claim_flip worker token (now + timedelta_us lease_s))
             (outbox_scan skip locked now limit (db_outbox db))"
  using assms
  by (simp add: claim_batch_def case_prod_beta)
    (rule claim_rows_fresh, auto simp: outbox_inv_def outbox_scan_distinct deliverable_def
      dest!: outbox_scan_rows)

section \<open>Streams have no gaps\<close>

text \<open>The sequences of each aggregate stream are 0, 1, 2, ... in the order of the store.\<close>

definition gapless :: "event_row list \<Rightarrow> bool" where
  "gapless es \<longleftrightarrow>
     list_all (\<lambda>e. stream (ev_aggregate_type e) (ev_aggregate_id e) es
       = map int [0..<length (stream (ev_aggregate_type e) (ev_aggregate_id e) es)]) es"

lemma gapless_stream:
  assumes "gapless es"
  shows "stream agg ai es = map int [0..<length (stream agg ai es)]"
proof (cases "stream agg ai es")
  case (Cons s ss)
  then have "filter (\<lambda>e. ev_aggregate_type e = agg \<and> ev_aggregate_id e = ai) es \<noteq> []"
    by (auto simp: stream_def)
  then obtain e where "e \<in> set es" "ev_aggregate_type e = agg" "ev_aggregate_id e = ai"
    by (auto simp: filter_empty_conv)
  with assms show ?thesis by (auto simp: gapless_def list_all_iff)
qed simp

lemma next_sequence_gapless:
  assumes "gapless (db_events db)"
  shows "next_sequence agg ai db = int (length (stream agg ai (db_events db)))"
proof (cases "stream agg ai (db_events db)")
  case Nil
  then show ?thesis by (simp add: next_sequence_def)
next
  case (Cons s ss)
  let ?n = "length (s # ss)"
  have seq: "s # ss = map int [0..<?n]" using gapless_stream [OF assms, of agg ai] Cons by simp
  have "fold max ss s = Max (set (s # ss))" by (simp only: Max.set_eq_fold)
  also have "set (s # ss) = int ` {0..<?n}" using arg_cong [OF seq, of set] by (simp only: set_map set_upt)
  also have "Max (int ` {0..<?n}) = int (?n - 1)"
    by (rule Max_eqI) auto
  finally show ?thesis using Cons by (simp add: next_sequence_def)
qed

lemma stream_snoc:
  "stream agg ai (es @ [e]) = stream agg ai es
     @ (if ev_aggregate_type e = agg \<and> ev_aggregate_id e = ai then [ev_sequence e] else [])"
  by (simp add: stream_def)

lemma gapless_snoc:
  assumes "gapless es"
    and "ev_sequence e = int (length (stream (ev_aggregate_type e) (ev_aggregate_id e) es))"
  shows "gapless (es @ [e])"
proof -
  have "stream agg ai (es @ [e]) = map int [0..<length (stream agg ai (es @ [e]))]" for agg ai
    using gapless_stream [OF assms(1), of agg ai] assms(2) by (auto simp: stream_snoc)
  then show ?thesis unfolding gapless_def list_all_iff by blast
qed

lemma make_envelope_renumber:
  assumes "make_envelope e0 = Inr e" and "0 \<le> n"
  shows "make_envelope (e\<lparr>ev_sequence := n\<rparr>) = Inr (e\<lparr>ev_sequence := n\<rparr>)"
proof -
  from assms(1) obtain ro fs p where e: "freeze_json (PMap ro fs) = Inr p" "ev_payload e = p"
      "py_strip (ev_type e) = ev_type e" "ev_type e \<noteq> []"
      "py_strip (ev_aggregate_type e) = ev_aggregate_type e" "ev_aggregate_type e \<noteq> []" "1 \<le> ev_version e"
    unfolding make_envelope_Inr by auto
  from freeze_PMap_shape [OF e(1)] obtain gs where p: "p = PMap True gs" by blast
  have "freeze_json p = Inr p" using freeze_frozen(1) [OF e(1)] by (rule freeze_of_frozen(1))
  with e p assms(2) show ?thesis
    unfolding make_envelope_Inr by (intro conjI exI [of _ True] exI [of _ gs] exI [of _ p]) simp_all
qed

lemma record_next_gapless:
  assumes "gapless (db_events db)" and "make_envelope e0 = Inr e"
    and "record_next hook now rid e key db = Inr (b, db')"
  shows "gapless (db_events db')"
proof -
  let ?n = "next_sequence (ev_aggregate_type e) (ev_aggregate_id e) db"
  have n: "?n = int (length (stream (ev_aggregate_type e) (ev_aggregate_id e) (db_events db)))"
    using next_sequence_gapless [OF assms(1)] .
  have "make_envelope (e\<lparr>ev_sequence := ?n\<rparr>) = Inr (e\<lparr>ev_sequence := ?n\<rparr>)"
    using make_envelope_renumber [OF assms(2)] n by simp
  with assms(3) have "outbox_record hook now rid (e\<lparr>ev_sequence := ?n\<rparr>) key db = Inr (b, db')"
    by (simp add: record_next_def)
  from outbox_record_Inr [OF this] show ?thesis
    using assms(1) n by (auto intro!: gapless_snoc)
qed

text \<open>Operations other than a record with a sequence of the caller's own.\<close>

fun numbered :: "outbox_op \<Rightarrow> bool" where
  "numbered (Record hook now rid e key) = False"
| "numbered _ = True"

fun appends :: "outbox_op \<Rightarrow> bool" where
  "appends (Record hook now rid e key) = True"
| "appends (Record_Next hook now rid e key) = True"
| "appends _ = False"

lemma events_unchanged:
  "\<not> appends op \<Longrightarrow> db_events (snd (outbox_act op db)) = db_events db"
  by (cases op) (auto simp: claim_batch_def mark_published_def mark_failed_def reclaim_expired_claims_def
      case_prod_beta)

lemma outbox_act_gapless:
  assumes "gapless (db_events db)" and "numbered op"
  shows "gapless (db_events (snd (outbox_act op db)))"
proof (cases op)
  case (Record_Next h t r e k)
  show ?thesis
    using assms(1) record_next_gapless [OF assms(1)] unfolding Record_Next by (auto split: sum.splits)
qed (use assms events_unchanged [of op db] in auto)

lemma run_gapless:
  assumes "gapless (db_events db)" and "\<forall>op \<in> set ops. numbered op"
  shows "gapless (db_events (snd (run_ops outbox_act ops db)))"
  using assms
proof (induction ops arbitrary: db)
  case (Cons op ops)
  have "gapless (db_events (snd (outbox_act op db)))"
    using Cons.prems by (simp add: outbox_act_gapless)
  with Cons.IH [of "snd (outbox_act op db)"] Cons.prems(2) show ?case by simp
qed simp

lemma run_final_kept:
  assumes "r \<in> set (db_outbox db)" and "delivery_final r"
  shows "r \<in> set (db_outbox (snd (run_ops outbox_act ops db)))"
  using assms(1)
proof (induction ops arbitrary: db)
  case (Cons op ops)
  from Cons.IH [OF final_kept [OF Cons.prems assms(2), of op]] show ?case by simp
qed simp

end
