(* ===== verification/Outbox_Properties.thy ===== *)
theory Outbox_Properties
  imports Outbox
begin

text \<open>
  What consumers of the outbox rely on, for every interleaving of writers, publishers and
  reclaims: consistent tables, gapless streams, one accepted finalization per claim, disjoint
  claims of racing publishers, final deliveries, envelopes that survive storage.
\<close>

lemma legal_true [simp]: "legal (\<lambda>_ _. True) act ops s"
  by (induction ops arbitrary: s) simp_all

text \<open>A concrete outbox: one event recorded, claimed and published.\<close>

definition ex_event :: event_envelope where
  "ex_event = \<lparr>ev_type = ''agent.run.started'', ev_aggregate_type = ''agent_run'', ev_aggregate_id = ''r1'',
     ev_sequence = 0, ev_payload = PMap False [(PStr ''n'', PInt 1)], ev_id = ''e1'', ev_version = 1,
     ev_occurred_at = 3, ev_actor_id = None, ev_correlation_id = None, ev_causation_id = None\<rparr>"

definition ex_event2 :: event_envelope where
  "ex_event2 = ex_event\<lparr>ev_id := ''e2'', ev_type := ''agent.run.completed''\<rparr>"

definition ex_outbox_ops :: "outbox_op list" where
  "ex_outbox_ops = [Record_Next no_hook 4 ''o1'' ex_event (Some ''d1''), Record_Next no_hook 5 ''o2'' ex_event2 None,
     Claim_Batch True [] 10 ''p1'' 1 30 ''t1'', Mark_Published 11 ''o1'' ''t1'']"

definition ex_outbox :: outbox_db where
  "ex_outbox = snd (run_ops outbox_act ex_outbox_ops empty_outbox)"

lemma ex_outbox_run: "fst (run_ops outbox_act ex_outbox_ops empty_outbox) = [True, True, True, True]"
  by code_simp

text \<open>C7: After any sequence of outbox operations the event store and the outbox hold the same events in the
  same order, event ids, stream positions and deduplication keys are unique, and every row has the
  claim columns exactly while it is being published and a publication time exactly when it is published.\<close>

theorem outbox_consistent: "outbox_inv (snd (run_ops outbox_act ops empty_outbox))"
  by (rule outbox.run_ok [OF outbox_inv_empty]) simp

text \<open>C10: Events recorded with the next sequence of their stream are numbered 0, 1, 2, ... without a gap, in
  the order of the event store, in every stream.\<close>

theorem streams_gapless:
  assumes "\<forall>op \<in> set ops. numbered op"
  shows "stream agg ai (db_events (snd (run_ops outbox_act ops empty_outbox)))
       = map int [0..<length (stream agg ai (db_events (snd (run_ops outbox_act ops empty_outbox))))]"
proof (rule gapless_stream, rule run_gapless)
  show "gapless (db_events empty_outbox)" by (simp add: gapless_def empty_outbox_def)
qed (rule assms)

theorem streams_gapless_witness:
  "stream ''agent_run'' ''r1'' (db_events ex_outbox) = [0, 1]"
proof -
  have n: "\<forall>op \<in> set ex_outbox_ops. numbered op" by (simp add: ex_outbox_ops_def)
  have "length (stream ''agent_run'' ''r1'' (db_events (snd (run_ops outbox_act ex_outbox_ops empty_outbox)))) = 2"
    by code_simp
  with streams_gapless [OF n, of "''agent_run''" "''r1''"] show ?thesis
    unfolding ex_outbox_def by (simp add: upt_rec)
qed

text \<open>C8: A claim token, once drawn, finalizes its record at most once, whether as published or as failed;
  later claims by other publishers (with tokens of their own) and reclaims do not revive it.\<close>

theorem delivery_finalized_once:
  assumes "\<forall>op \<in> set ops. outbox_allowed rid token op"
  shows "accepted outbox_fin rid token ops (fst (run_ops outbox_act ops (snd (run_ops outbox_act before empty_outbox)))) \<le> 1"
  by (rule outbox.accepted_once [OF outbox_consistent legal_true assms])

theorem delivery_finalized_once_witness:
  "accepted outbox_fin ''o2'' ''t2'' [Mark_Failed 30 5 2 ''o2'' ''t2'' ''boom'', Reclaim 40, Mark_Published 41 ''o2'' ''t2'']
     (fst (run_ops outbox_act [Mark_Failed 30 5 2 ''o2'' ''t2'' ''boom'', Reclaim 40, Mark_Published 41 ''o2'' ''t2'']
        (snd (run_ops outbox_act (ex_outbox_ops @ [Claim_Batch True [] 20 ''p1'' 9 30 ''t2'']) empty_outbox)))) \<le> 1"
  by (rule delivery_finalized_once) simp

text \<open>Two publishers that race from scans of their own, however stale, never claim the same record: what
  the second one claims on the table left by the first one is disjoint from what the first one claimed.\<close>

theorem racing_claims_disjoint:
  assumes "outbox_inv db"
    and "c1 \<in> set (fst (claim_rows w1 t1 x1 scan1 (db_outbox db)))"
    and "c2 \<in> set (fst (claim_rows w2 t2 x2 scan2 (snd (claim_rows w1 t1 x1 scan1 (db_outbox db)))))"
  shows "or_id c1 \<noteq> or_id c2"
  by (rule claim_rows_disjoint [OF _ assms(2,3)]) (use assms(1) in \<open>simp add: outbox_inv_def\<close>)

text \<open>Both publishers of the witness scanned the table before either of them claimed.\<close>

definition ex_pending :: outbox_db where
  "ex_pending = snd (run_ops outbox_act [Record_Next no_hook 4 ''o1'' ex_event (Some ''d1''),
     Record_Next no_hook 5 ''o2'' ex_event2 None] empty_outbox)"

theorem racing_claims_disjoint_witness:
  "map or_id (fst (claim_rows ''p1'' ''t1'' 40 (take 1 (db_outbox ex_pending)) (db_outbox ex_pending))) = [''o1'']
   \<and> map or_id (fst (claim_rows ''p2'' ''t2'' 40 (db_outbox ex_pending)
        (snd (claim_rows ''p1'' ''t1'' 40 (take 1 (db_outbox ex_pending)) (db_outbox ex_pending))))) = [''o2'']
   \<and> ''o1'' \<noteq> (''o2'' :: string)"
proof -
  let ?c1 = "fst (claim_rows ''p1'' ''t1'' 40 (take 1 (db_outbox ex_pending)) (db_outbox ex_pending))"
  let ?c2 = "fst (claim_rows ''p2'' ''t2'' 40 (db_outbox ex_pending)
        (snd (claim_rows ''p1'' ''t1'' 40 (take 1 (db_outbox ex_pending)) (db_outbox ex_pending))))"
  have ids: "map or_id ?c1 = [''o1''] \<and> map or_id ?c2 = [''o2'']" by code_simp
  then obtain a b where a: "?c1 = [a]" "or_id a = ''o1''" and b: "?c2 = [b]" "or_id b = ''o2''"
    by (auto simp: map_eq_Cons_conv)
  have "outbox_inv ex_pending" unfolding ex_pending_def by (rule outbox.run_ok [OF outbox_inv_empty]) simp
  from racing_claims_disjoint [OF this, of a "''p1''" "''t1''" 40 _ b "''p2''" "''t2''" 40] a b ids
  show ?thesis by simp
qed

text \<open>A record that was published or moved to the dead letters keeps its row, unchanged, through every
  later operation.\<close>

theorem deliveries_final:
  assumes "r \<in> set (db_outbox db)" and "delivery_final r"
  shows "r \<in> set (db_outbox (snd (run_ops outbox_act ops db)))"
  using assms by (rule run_final_kept)

lemma ex_published: "list_ex (\<lambda>r. or_id r = ''o1'' \<and> delivery_final r) (db_outbox ex_outbox)"
  by code_simp

theorem deliveries_final_witness:
  "\<exists>r. or_id r = ''o1'' \<and> delivery_final r
     \<and> r \<in> set (db_outbox (snd (run_ops outbox_act [Reclaim 99999999, Mark_Failed 12 5 2 ''o1'' ''t1'' ''x''] ex_outbox)))"
proof -
  from ex_published obtain r where "r \<in> set (db_outbox ex_outbox)" "or_id r = ''o1''" "delivery_final r"
    unfolding list_ex_iff by blast
  with deliveries_final [of r ex_outbox] show ?thesis by blast
qed

text \<open>C13: The envelope that a publisher rebuilds from a claimed row is the envelope that was recorded, payload
  and causal identifiers included.\<close>

theorem envelope_survives_outbox:
  assumes "make_envelope e0 = Inr e"
  shows "to_envelope (claim_flip w t x (outbox_row_of now rid key e)) = Inr e"
  using envelope_roundtrip [OF assms] by (simp add: to_envelope_def)

theorem envelope_survives_outbox_witness:
  "to_envelope (claim_flip ''p1'' ''t1'' 9 (outbox_row_of 4 ''o1'' None
     (ex_event\<lparr>ev_payload := PMap True [(PStr ''n'', PInt 1)]\<rparr>)))
   = Inr (ex_event\<lparr>ev_payload := PMap True [(PStr ''n'', PInt 1)]\<rparr>)"
proof -
  have "make_envelope ex_event = Inr (ex_event\<lparr>ev_payload := PMap True [(PStr ''n'', PInt 1)]\<rparr>)" by code_simp
  from envelope_survives_outbox [OF this] show ?thesis .
qed

definition record_body :: "hook \<Rightarrow> time \<Rightarrow> string \<Rightarrow> event_envelope \<Rightarrow> string option \<Rightarrow> outbox_db \<Rightarrow> (bool, outbox_db) tx_end" where
  "record_body hook now rid e key db =
     (case record_next hook now rid e key db of Inl x \<Rightarrow> TxRaise x | Inr (b, db') \<Rightarrow> TxCommit b db')"

text \<open>Recording in a unit of work is all or nothing across the crash gate between event store and outbox: if
  the record raises, or a checkpoint of the scope raises, the store is unchanged; otherwise it has gained the
  event and its pending outbox row, or nothing at all when the deduplication key was taken.\<close>

theorem record_atomic:
  assumes "run_tx hook (record_body hook now rid e key) db = (out, db')"
  shows "case out of
      Inl x \<Rightarrow> db' = db
    | Inr False \<Rightarrow> db' = db \<and> (\<exists>k. key = Some k \<and> has_dedup k (db_outbox db))
    | Inr True \<Rightarrow> (\<exists>w. db_events db' = db_events db @ [event_row_of w]
         \<and> db_outbox db' = db_outbox db @ [outbox_row_of now rid key w]
         \<and> make_envelope (e\<lparr>ev_sequence := next_sequence (ev_aggregate_type e) (ev_aggregate_id e) db\<rparr>) = Inr w)"
proof (cases "record_next hook now rid e key db")
  case (Inl x)
  with assms show ?thesis by (auto simp: run_tx_def record_body_def)
next
  case (Inr p)
  obtain b d where p: "p = (b, d)" by fastforce
  from Inr p obtain w where w: "make_envelope (e\<lparr>ev_sequence := next_sequence (ev_aggregate_type e) (ev_aggregate_id e) db\<rparr>) = Inr w"
    and r: "outbox_record hook now rid w key db = Inr (b, d)"
    by (auto simp: record_next_def split: sum.splits)
  show ?thesis
  proof (cases "hook ''before_commit''")
    case True
    with assms Inr p show ?thesis by (auto simp: run_tx_def record_body_def)
  next
    case False
    with assms Inr p have o: "out = Inr b" "db' = d" by (auto simp: run_tx_def record_body_def)
    show ?thesis
    proof (cases b)
      case True
      with outbox_record_Inr [OF r] o w show ?thesis by auto
    next
      case nb: False
      then have "\<exists>k. key = Some k \<and> has_dedup k (db_outbox db)"
        using r by (auto simp: outbox_record_def Let_def split: if_splits sum.splits option.splits)
      with outbox_record_Inr [OF r] o nb show ?thesis by auto
    qed
  qed
qed

theorem record_atomic_witness:
  "case run_tx (\<lambda>c. c = ''after_event_write'') (record_body (\<lambda>c. c = ''after_event_write'') 4 ''o1'' ex_event None) empty_outbox
   of (out, db') \<Rightarrow> isl out \<and> db' = empty_outbox"
proof -
  let ?t = "run_tx (\<lambda>c. c = ''after_event_write'') (record_body (\<lambda>c. c = ''after_event_write'') 4 ''o1'' ex_event None) empty_outbox"
  have i: "isl (fst ?t)" by code_simp
  have "?t = (fst ?t, snd ?t)" by simp
  from record_atomic [OF this] i show ?thesis by (cases "fst ?t") (auto simp: case_prod_beta)
qed

end
