(* ===== verification/Publisher.thy ===== *)
theory Publisher
  imports Outbox_Properties
begin

text \<open>
  The outbox publisher of \<^verbatim>\<open>platform/events/publisher.py\<close>: one drain cycle (claim, deliver,
  finalize) and the loop that hosts it. The transport, the dead-letter hook, the clock and what
  other processes do to the tables between two statements are arguments.
\<close>

record publish_report =
  pr_claimed :: nat
  pr_published :: nat
  pr_retried :: nat
  pr_dead_lettered :: nat

definition report_idle :: "publish_report \<Rightarrow> bool" where
  "report_idle r \<longleftrightarrow> pr_claimed r = 0"

record publisher =
  pb_worker_id :: string
  pb_batch_size :: nat
  pb_lease_s :: seconds
  pb_max_attempts :: int
  pb_backoff_s :: seconds

text \<open>\<^verbatim>\<open>f"{type(error).__name__}: {error}"\<close> of the exceptions that rebuilding the envelope can raise.\<close>

fun exn_text :: "exn \<Rightarrow> string" where
  "exn_text (ValueError m) = ''ValueError: '' @ m"
| "exn_text (TypeError m) = ''TypeError: '' @ m"
| "exn_text (KeyError m) = ''KeyError: '' @ m"
| "exn_text OverflowError = ''OverflowError: ''"
| "exn_text (RuntimeErr m) = m"
| "exn_text (IntegrityError m) = ''IntegrityError: '' @ m"
| "exn_text (HookRaised m) = m"
| "exn_text (DomainErr m) = m"

text \<open>The transport answers \<open>None\<close> when it took the envelope, else the text of its exception.\<close>

definition deliver :: "(event_envelope \<Rightarrow> string option) \<Rightarrow> outbox_row \<Rightarrow> string option" where
  "deliver transport r = (case to_envelope r of Inl x \<Rightarrow> Some (exn_text x) | Inr e \<Rightarrow> transport e)"

definition attempted_to_death :: "outbox_row \<Rightarrow> int \<Rightarrow> bool" where
  "attempted_to_death r max_attempts \<longleftrightarrow> or_attempt_count r + 1 \<ge> max_attempts"

text \<open>
  The loop over the claimed records. \<open>others i\<close> is what other processes commit before the
  \<open>i\<close>-th finalization, \<open>clock i\<close> the time of that finalization. A dead-letter hook that raises
  leaves the loop.
\<close>

fun publish_rows ::
  "(event_envelope \<Rightarrow> string option) \<Rightarrow> (outbox_row \<Rightarrow> exn option) \<Rightarrow> int \<Rightarrow> seconds \<Rightarrow> (nat \<Rightarrow> time)
     \<Rightarrow> (nat \<Rightarrow> outbox_db \<Rightarrow> outbox_db) \<Rightarrow> nat \<Rightarrow> outbox_row list \<Rightarrow> publish_report \<Rightarrow> outbox_db
     \<Rightarrow> (exn + publish_report) \<times> outbox_db" where
  "publish_rows transport hook max_attempts backoff clock others i [] rep db = (Inr rep, db)"
| "publish_rows transport hook max_attempts backoff clock others i (r # rs) rep db =
     (case or_claim_token r of
        None \<Rightarrow> (Inl (RuntimeErr ''AssertionError''), db)
      | Some token \<Rightarrow>
          (case deliver transport r of
             Some err \<Rightarrow>
               (case mark_failed (clock i) max_attempts backoff (or_id r) token err (others i db) of
                  (finalized, db1) \<Rightarrow>
                    if \<not> finalized
                    then publish_rows transport hook max_attempts backoff clock others (Suc i) rs rep db1
                    else if attempted_to_death r max_attempts
                    then (case hook r of
                            Some x \<Rightarrow> (Inl x, db1)
                          | None \<Rightarrow> publish_rows transport hook max_attempts backoff clock others (Suc i) rs
                              (rep\<lparr>pr_dead_lettered := pr_dead_lettered rep + 1\<rparr>) db1)
                    else publish_rows transport hook max_attempts backoff clock others (Suc i) rs
                           (rep\<lparr>pr_retried := pr_retried rep + 1\<rparr>) db1)
           | None \<Rightarrow>
               (case mark_published (clock i) (or_id r) token (others i db) of
                  (finalized, db1) \<Rightarrow>
                    publish_rows transport hook max_attempts backoff clock others (Suc i) rs
                      (if finalized then rep\<lparr>pr_published := pr_published rep + 1\<rparr> else rep) db1)))"

definition publish_pending ::
  "publisher \<Rightarrow> (event_envelope \<Rightarrow> string option) \<Rightarrow> (outbox_row \<Rightarrow> exn option) \<Rightarrow> bool \<Rightarrow> string list
     \<Rightarrow> time \<Rightarrow> string \<Rightarrow> (nat \<Rightarrow> time) \<Rightarrow> (nat \<Rightarrow> outbox_db \<Rightarrow> outbox_db) \<Rightarrow> outbox_db
     \<Rightarrow> (exn + publish_report) \<times> outbox_db" where
  "publish_pending pb transport hook skip locked now token clock others db =
     (case claim_batch skip locked now (pb_worker_id pb) (pb_batch_size pb) (pb_lease_s pb) token db of
        (claimed, db1) \<Rightarrow>
          publish_rows transport hook (pb_max_attempts pb) (pb_backoff_s pb) clock others 0 claimed
            \<lparr>pr_claimed = length claimed, pr_published = 0, pr_retried = 0, pr_dead_lettered = 0\<rparr> db1)"

text \<open>
  \<^verbatim>\<open>OutboxPublisher.run\<close> until the stop event is set: one element per cycle, with the readings
  of that cycle. Sleeping between idle cycles has no effect on the tables.
\<close>

record publisher_cycle =
  pc_reclaim_at :: time
  pc_locked :: "string list"
  pc_now :: time
  pc_token :: string
  pc_clock :: "nat \<Rightarrow> time"
  pc_others :: "nat \<Rightarrow> outbox_db \<Rightarrow> outbox_db"

fun publisher_cycles ::
  "publisher \<Rightarrow> (event_envelope \<Rightarrow> string option) \<Rightarrow> (outbox_row \<Rightarrow> exn option) \<Rightarrow> bool
     \<Rightarrow> publisher_cycle list \<Rightarrow> nat \<Rightarrow> outbox_db \<Rightarrow> (exn + nat) \<times> outbox_db" where
  "publisher_cycles pb transport hook skip [] n db = (Inr n, db)"
| "publisher_cycles pb transport hook skip (c # cs) n db =
     (case publish_pending pb transport hook skip (pc_locked c) (pc_now c) (pc_token c) (pc_clock c) (pc_others c)
             (snd (reclaim_expired_claims (pc_reclaim_at c) db)) of
        (Inl x, db1) \<Rightarrow> (Inl x, db1)
      | (Inr rep, db1) \<Rightarrow> publisher_cycles pb transport hook skip cs (n + pr_published rep) db1)"

definition publisher_run ::
  "publisher \<Rightarrow> (event_envelope \<Rightarrow> string option) \<Rightarrow> (outbox_row \<Rightarrow> exn option) \<Rightarrow> bool
     \<Rightarrow> seconds \<Rightarrow> publisher_cycle list \<Rightarrow> outbox_db \<Rightarrow> (exn + nat) \<times> outbox_db" where
  "publisher_run pb transport hook skip interval_s cycles db =
     (if interval_s \<le> 0 then (Inl (ValueError ''interval_s must be positive''), db)
      else publisher_cycles pb transport hook skip cycles 0 db)"

section \<open>The invariant survives every cycle\<close>

lemma publish_rows_keeps:
  assumes "P db" and "\<And>t k tok d. P d \<Longrightarrow> P (snd (mark_published t k tok d))"
    and "\<And>t k tok e d. P d \<Longrightarrow> P (snd (mark_failed t m b k tok e d))"
    and "\<And>i d. P d \<Longrightarrow> P (others i d)"
  shows "P (snd (publish_rows transport hook m b clock others i rs rep db))"
  using assms(1)
proof (induction rs arbitrary: i rep db)
  case (Cons r rs)
  have p: "P (snd (mark_published t k tok (others j db)))" for t k tok j
    using assms(2,4) Cons.prems by blast
  have f: "P (snd (mark_failed t m b k tok e (others j db)))" for t k tok e j
    using assms(3,4) Cons.prems by blast
  show ?case
    using Cons.IH [OF p] Cons.IH [OF f] Cons.prems f
    by (auto simp: case_prod_beta split: option.split)
qed simp

lemma publish_rows_inv:
  assumes "outbox_inv db" and "\<And>i d. outbox_inv d \<Longrightarrow> outbox_inv (others i d)"
  shows "outbox_inv (snd (publish_rows transport hook m b clock others i rs rep db))"
  by (rule publish_rows_keeps) (use assms outbox_inv_published outbox_inv_failed in auto)

section \<open>What a cycle achieves\<close>

text \<open>How a claimed record ends, by what the transport said.\<close>

definition settled :: "(event_envelope \<Rightarrow> string option) \<Rightarrow> int \<Rightarrow> outbox_row \<Rightarrow> string" where
  "settled transport m r = (case deliver transport r of
     None \<Rightarrow> OUTBOX_PUBLISHED
   | Some _ \<Rightarrow> if attempted_to_death r m then OUTBOX_DEAD_LETTER else OUTBOX_PENDING)"

definition claimed_row :: "outbox_db \<Rightarrow> outbox_row \<Rightarrow> bool" where
  "claimed_row db r \<longleftrightarrow> r \<in> set (db_outbox db) \<and> (\<exists>token. or_claim_token r = Some token \<and> owns_claim (or_id r) token r)"

text \<open>The row that is left of a claimed record, finalized at \<open>t\<close>: all other columns as they were.\<close>

definition settled_row :: "(event_envelope \<Rightarrow> string option) \<Rightarrow> int \<Rightarrow> seconds \<Rightarrow> time \<Rightarrow> outbox_row \<Rightarrow> outbox_row" where
  "settled_row transport m b t r = (case deliver transport r of
     None \<Rightarrow> r\<lparr>or_status := OUTBOX_PUBLISHED, or_published_at := Some t,
       or_claimed_by := None, or_claim_token := None, or_claim_expires_at := None\<rparr>
   | Some err \<Rightarrow> r\<lparr>or_status := (if m \<le> or_attempt_count r + 1 then OUTBOX_DEAD_LETTER else OUTBOX_PENDING),
       or_attempt_count := or_attempt_count r + 1, or_last_error := Some err, or_available_at := t + timedelta_us b,
       or_claimed_by := None, or_claim_token := None, or_claim_expires_at := None\<rparr>)"

lemma settled_row_id [simp]: "or_id (settled_row transport m b t r) = or_id r"
  by (simp add: settled_row_def split: option.split)

text \<open>One statement of the loop, alone on the tables.\<close>

definition finalize_row ::
  "(event_envelope \<Rightarrow> string option) \<Rightarrow> int \<Rightarrow> seconds \<Rightarrow> time \<Rightarrow> outbox_row \<Rightarrow> string \<Rightarrow> outbox_db \<Rightarrow> bool \<times> outbox_db" where
  "finalize_row transport m b now r token db = (case deliver transport r of
     Some err \<Rightarrow> mark_failed now m b (or_id r) token err db
   | None \<Rightarrow> mark_published now (or_id r) token db)"

lemma finalize_row_owned:
  assumes d: "distinct (map or_id (db_outbox db))" and r: "r \<in> set (db_outbox db)" and own: "owns_claim (or_id r) token r"
  shows "fst (finalize_row transport m b now r token db)
       \<and> settled_row transport m b now r \<in> set (db_outbox (snd (finalize_row transport m b now r token db)))"
proof -
  have one: "rowcount (owns_claim (or_id r) token) (db_outbox db) = 1"
    using rowcount_eq_one [OF d, of "owns_claim (or_id r) token" "or_id r"] r own
    by (auto simp: owns_claim_def)
  have up: "f r \<in> set (sql_update (owns_claim (or_id r) token) f (db_outbox db))" for f
    unfolding set_sql_update using r own by force
  show ?thesis
  proof (cases "deliver transport r")
    case None
    let ?f = "\<lambda>r. (release_claim r)\<lparr>or_status := OUTBOX_PUBLISHED, or_published_at := Some now\<rparr>"
    have "settled_row transport m b now r = ?f r" unfolding settled_row_def None option.case release_claim_def by (cases r) simp
    with one up [of ?f] None show ?thesis by (simp add: finalize_row_def mark_published_def)
  next
    case (Some err)
    let ?f = "\<lambda>r. (release_claim r)\<lparr>or_attempt_count := or_attempt_count r + 1, or_last_error := Some err,
      or_status := (if or_attempt_count r + 1 \<ge> m then OUTBOX_DEAD_LETTER else OUTBOX_PENDING),
      or_available_at := now + timedelta_us b\<rparr>"
    have "settled_row transport m b now r = ?f r" unfolding settled_row_def Some option.case release_claim_def by (cases r) simp
    with one up [of ?f] Some show ?thesis by (simp add: finalize_row_def mark_failed_def)
  qed
qed

lemma finalize_row_ids: "map or_id (db_outbox (snd (finalize_row transport m b now r token db))) = map or_id (db_outbox db)"
  by (auto simp: finalize_row_def mark_failed_def mark_published_def map_sql_update split: option.split)

lemma finalize_row_others:
  assumes "x \<in> set (db_outbox db)" and "or_id x \<noteq> or_id r"
  shows "x \<in> set (db_outbox (snd (finalize_row transport m b now r token db)))"
  using assms
  by (auto simp: finalize_row_def mark_failed_def mark_published_def owns_claim_def
      intro!: sql_update_keeps split: option.split)

definition count_report :: "(event_envelope \<Rightarrow> string option) \<Rightarrow> int \<Rightarrow> publish_report \<Rightarrow> outbox_row list \<Rightarrow> publish_report" where
  "count_report transport m rep rs = rep\<lparr>
     pr_published := pr_published rep + length (filter (\<lambda>r. settled transport m r = OUTBOX_PUBLISHED) rs),
     pr_retried := pr_retried rep + length (filter (\<lambda>r. settled transport m r = OUTBOX_PENDING) rs),
     pr_dead_lettered := pr_dead_lettered rep + length (filter (\<lambda>r. settled transport m r = OUTBOX_DEAD_LETTER) rs)\<rparr>"

lemma publish_rows_step:
  assumes "or_claim_token r = Some token" and "fst (finalize_row transport m b (clock i) r token db)" and "hook r = None"
  shows "publish_rows transport hook m b clock (\<lambda>_ d. d) i (r # rs) rep db =
     publish_rows transport hook m b clock (\<lambda>_ d. d) (Suc i) rs (count_report transport m rep [r])
       (snd (finalize_row transport m b (clock i) r token db))"
  using assms
  by (auto simp: finalize_row_def settled_def count_report_def case_prod_beta split: option.splits)

lemma count_report_Cons: "count_report transport m (count_report transport m rep [r]) rs = count_report transport m rep (r # rs)"
  by (simp add: count_report_def)

lemma publish_rows_alone:
  assumes "distinct (map or_id (db_outbox db))" and "distinct (map or_id rs)"
    and "\<forall>r \<in> set rs. claimed_row db r" and "\<forall>r \<in> set rs. hook r = None"
  shows "fst (publish_rows transport hook m b clock (\<lambda>_ d. d) i rs rep db) = Inr (count_report transport m rep rs)
       \<and> (\<forall>j < length rs. settled_row transport m b (clock (i + j)) (rs ! j)
            \<in> set (db_outbox (snd (publish_rows transport hook m b clock (\<lambda>_ d. d) i rs rep db))))
       \<and> (\<forall>x \<in> set (db_outbox db). or_id x \<notin> or_id ` set rs \<longrightarrow>
            x \<in> set (db_outbox (snd (publish_rows transport hook m b clock (\<lambda>_ d. d) i rs rep db))))"
  using assms
proof (induction rs arbitrary: i rep db)
  case Nil
  then show ?case by (simp add: count_report_def)
next
  case (Cons r rs)
  from Cons.prems(3) obtain token where t: "or_claim_token r = Some token" and x: "r \<in> set (db_outbox db)"
    "owns_claim (or_id r) token r"
    by (auto simp: claimed_row_def)
  let ?db = "snd (finalize_row transport m b (clock i) r token db)"
  note fin = finalize_row_owned [OF Cons.prems(1) x, of transport m b "clock i"]
  have step: "publish_rows transport hook m b clock (\<lambda>_ d. d) i (r # rs) rep db =
     publish_rows transport hook m b clock (\<lambda>_ d. d) (Suc i) rs (count_report transport m rep [r]) ?db"
    by (rule publish_rows_step [where clock = clock and i = i, OF t conjunct1 [OF fin]]) (use Cons.prems(4) in simp)
  have d: "distinct (map or_id (db_outbox ?db))" using Cons.prems(1) by (simp add: finalize_row_ids)
  have "claimed_row ?db q" if q: "q \<in> set rs" for q
  proof -
    have "or_id q \<in> or_id ` set rs" using q by (rule imageI)
    then have ne: "or_id q \<noteq> or_id r" using Cons.prems(2) by auto
    have "claimed_row db q" using Cons.prems(3) q by simp
    then show ?thesis using ne by (auto simp: claimed_row_def intro: finalize_row_others)
  qed
  with Cons.IH [OF d, of "Suc i" "count_report transport m rep [r]"] Cons.prems(2,4)
  have IH: "fst (publish_rows transport hook m b clock (\<lambda>_ d. d) i (r # rs) rep db)
        = Inr (count_report transport m rep (r # rs))"
    "\<forall>j < length rs. settled_row transport m b (clock (Suc i + j)) (rs ! j)
       \<in> set (db_outbox (snd (publish_rows transport hook m b clock (\<lambda>_ d. d) i (r # rs) rep db)))"
    "\<forall>y \<in> set (db_outbox ?db). or_id y \<notin> or_id ` set rs \<longrightarrow>
       y \<in> set (db_outbox (snd (publish_rows transport hook m b clock (\<lambda>_ d. d) i (r # rs) rep db)))"
    unfolding step count_report_Cons by simp_all
  have "or_id r \<notin> or_id ` set rs" using Cons.prems(2) by auto
  with fin IH(3) have first: "settled_row transport m b (clock i) r
      \<in> set (db_outbox (snd (publish_rows transport hook m b clock (\<lambda>_ d. d) i (r # rs) rep db)))" by simp
  have "settled_row transport m b (clock (i + j)) ((r # rs) ! j)
      \<in> set (db_outbox (snd (publish_rows transport hook m b clock (\<lambda>_ d. d) i (r # rs) rep db)))" if "j < length (r # rs)" for j
    using that first IH(2) by (cases j) simp_all
  moreover have "y \<in> set (db_outbox (snd (publish_rows transport hook m b clock (\<lambda>_ d. d) i (r # rs) rep db)))"
    if "y \<in> set (db_outbox db)" "or_id y \<notin> or_id ` set (r # rs)" for y
    using IH(3) finalize_row_others [of y db r] that by simp
  ultimately show ?case using IH(1,2) by simp
qed

section \<open>What a batch claim leaves behind\<close>

lemma claim_rows_others:
  assumes "r \<in> set rows" and "or_id r \<notin> or_id ` set scanned"
  shows "r \<in> set (snd (claim_rows worker token x scanned rows))"
  using assms
proof (induction scanned arbitrary: rows)
  case (Cons row scanned)
  have "r \<in> set (sql_update (claim_guard row) f rows)" for f
    by (rule sql_update_keeps [OF Cons.prems(1)]) (use Cons.prems(2) in \<open>auto simp: claim_guard_def\<close>)
  with Cons show ?case by (simp add: case_prod_beta)
qed simp

lemma claim_rows_flipped:
  assumes "distinct (map or_id rows)" and "distinct (map or_id scanned)"
    and "\<forall>r \<in> set scanned. r \<in> set rows \<and> or_status r = OUTBOX_PENDING" and "s \<in> set scanned"
  shows "claim_flip worker token x s \<in> set (snd (claim_rows worker token x scanned rows))"
  using assms
proof (induction scanned arbitrary: rows)
  case (Cons row scanned)
  let ?rows = "sql_update (claim_guard row) (claim_flip worker token x) rows"
  have row: "row \<in> set rows" "or_status row = OUTBOX_PENDING" using Cons.prems(3) by auto
  then have one: "rowcount (claim_guard row) rows = 1"
    using rowcount_eq_one [OF Cons.prems(1), of "claim_guard row" "or_id row"] by (auto simp: claim_guard_def)
  have d: "distinct (map or_id ?rows)"
    using Cons.prems(1) by (simp add: map_sql_update claim_flip_def)
  have ids: "or_id row \<notin> or_id ` set scanned" using Cons.prems(2) by simp
  then have ne: "or_id r \<noteq> or_id row" if "r \<in> set scanned" for r using imageI [OF that, of or_id] by auto
  have rest: "\<forall>r \<in> set scanned. r \<in> set ?rows \<and> or_status r = OUTBOX_PENDING"
    using Cons.prems(3) by (auto intro!: sql_update_keeps simp: claim_guard_def dest: ne)
  have "claim_flip worker token x row \<in> set ?rows"
    unfolding set_sql_update using row by (force simp: claim_guard_def)
  then have "claim_flip worker token x row \<in> set (snd (claim_rows worker token x scanned ?rows))"
    by (rule claim_rows_others) (use ids in \<open>simp add: claim_flip_def\<close>)
  with Cons.IH [OF d _ rest] Cons.prems(2,4) one show ?case by (auto simp: case_prod_beta)
qed simp

lemma claim_batch_rows:
  assumes inv: "outbox_inv db"
    and c: "claim_batch skip locked now worker limit lease_s token db = (claimed, db')"
  shows "distinct (map or_id (db_outbox db')) \<and> distinct (map or_id claimed) \<and> (\<forall>r \<in> set claimed. claimed_row db' r)
       \<and> (\<forall>r \<in> set (db_outbox db). or_id r \<notin> or_id ` set claimed \<longrightarrow> r \<in> set (db_outbox db'))"
proof -
  let ?scan = "outbox_scan skip locked now limit (db_outbox db)"
  let ?x = "now + timedelta_us lease_s"
  have d: "distinct (map or_id (db_outbox db))" using inv by (simp add: outbox_inv_def)
  have ds: "distinct (map or_id ?scan)" using d by (rule outbox_scan_distinct)
  have rs: "\<forall>r \<in> set ?scan. r \<in> set (db_outbox db) \<and> or_status r = OUTBOX_PENDING"
    by (auto simp: deliverable_def dest!: outbox_scan_rows)
  have cl: "claimed = map (claim_flip worker token ?x) ?scan"
    using claim_batch_fresh [OF inv, of skip locked now worker limit lease_s token] c by simp
  have db': "db_outbox db' = snd (claim_rows worker token ?x ?scan (db_outbox db))"
    using c by (auto simp: claim_batch_def case_prod_beta)
  have ids: "map or_id claimed = map or_id ?scan" unfolding cl by (simp add: claim_flip_def)
  then have set_ids: "or_id ` set claimed = or_id ` set ?scan" by (metis set_map)
  have "claimed_row db' r" if r: "r \<in> set claimed" for r
  proof -
    from r obtain s where s: "s \<in> set ?scan" "r = claim_flip worker token ?x s" by (auto simp: cl)
    have "r \<in> set (db_outbox db')" unfolding s(2) db' by (rule claim_rows_flipped [OF d ds rs s(1)])
    then show ?thesis using s(2) by (simp add: claimed_row_def claim_flip_def owns_claim_def)
  qed
  moreover have "r \<in> set (db_outbox db')" if "r \<in> set (db_outbox db)" "or_id r \<notin> or_id ` set claimed" for r
    unfolding db' by (rule claim_rows_others [OF that(1)]) (use that(2) set_ids in simp)
  moreover have "distinct (map or_id (db_outbox db'))" unfolding db' claim_rows_ids by (rule d)
  ultimately show ?thesis using ids ds by simp
qed

section \<open>Properties\<close>

text \<open>C9: A drain cycle that nobody disturbs settles every record it claimed as the transport answered, at the reading of
  the clock for it: a record that was taken is published; one that was refused has its attempt counted and the error
  noted, and goes back to pending until the backoff has passed, or to the dead letters when that was the last attempt.
  The claim is given up in each case and nothing else of the record changes. The report counts exactly these outcomes, and
  no other row changes.\<close>

theorem drain_cycle_settles:
  assumes "outbox_inv db" and "\<forall>r. hook r = None"
    and "claim_batch skip locked now (pb_worker_id pb) (pb_batch_size pb) (pb_lease_s pb) token db = (claimed, db1)"
    and "publish_pending pb transport hook skip locked now token clock (\<lambda>_ d. d) db = (res, db')"
  shows "res = Inr (count_report transport (pb_max_attempts pb)
             \<lparr>pr_claimed = length claimed, pr_published = 0, pr_retried = 0, pr_dead_lettered = 0\<rparr> claimed)
       \<and> (\<forall>j < length claimed. settled_row transport (pb_max_attempts pb) (pb_backoff_s pb) (clock j) (claimed ! j)
            \<in> set (db_outbox db'))
       \<and> (\<forall>r \<in> set (db_outbox db). or_id r \<notin> or_id ` set claimed \<longrightarrow> r \<in> set (db_outbox db'))"
proof -
  note c = claim_batch_rows [OF assms(1,3)]
  let ?rep = "\<lparr>pr_claimed = length claimed, pr_published = 0, pr_retried = 0, pr_dead_lettered = 0\<rparr>"
  have p: "publish_pending pb transport hook skip locked now token clock (\<lambda>_ d. d) db =
      publish_rows transport hook (pb_max_attempts pb) (pb_backoff_s pb) clock (\<lambda>_ d. d) 0 claimed ?rep db1"
    by (simp add: publish_pending_def assms(3))
  have h: "\<forall>r \<in> set claimed. hook r = None" using assms(2) by simp
  from c have d: "distinct (map or_id (db_outbox db1))" and dc: "distinct (map or_id claimed)"
    and cl: "\<forall>r \<in> set claimed. claimed_row db1 r"
    and keep: "\<forall>r \<in> set (db_outbox db). or_id r \<notin> or_id ` set claimed \<longrightarrow> r \<in> set (db_outbox db1)"
    by blast+
  from publish_rows_alone [OF d dc cl h, of transport "pb_max_attempts pb" "pb_backoff_s pb" clock 0 ?rep]
    assms(4) keep show ?thesis unfolding p by simp
qed

definition ex_publisher :: publisher where
  "ex_publisher = \<lparr>pb_worker_id = ''p1'', pb_batch_size = 50, pb_lease_s = 30, pb_max_attempts = 1, pb_backoff_s = 5\<rparr>"

definition ex_transport :: "event_envelope \<Rightarrow> string option" where
  "ex_transport e = (if ev_aggregate_id e = ev_aggregate_id ex_event then None else Some ''refused'')"

theorem drain_cycle_settles_witness:
  "fst (publish_pending ex_publisher ex_transport (\<lambda>_. None) True [] 20 ''t1'' (\<lambda>i. 21) (\<lambda>_ d. d) ex_pending)
     = Inr (count_report ex_transport 1 \<lparr>pr_claimed = length (fst (claim_batch True [] 20 ''p1'' 50 30 ''t1'' ex_pending)),
          pr_published = 0, pr_retried = 0, pr_dead_lettered = 0\<rparr> (fst (claim_batch True [] 20 ''p1'' 50 30 ''t1'' ex_pending)))"
proof -
  have inv: "outbox_inv ex_pending" unfolding ex_pending_def by (rule outbox.run_ok [OF outbox_inv_empty]) simp
  let ?c = "claim_batch True [] 20 (pb_worker_id ex_publisher) (pb_batch_size ex_publisher) (pb_lease_s ex_publisher) ''t1'' ex_pending"
  let ?p = "publish_pending ex_publisher ex_transport (\<lambda>_. None) True [] 20 ''t1'' (\<lambda>i. 21) (\<lambda>_ d. d) ex_pending"
  have "?c = (fst ?c, snd ?c)" "?p = (fst ?p, snd ?p)" by simp_all
  from drain_cycle_settles [OF inv _ this] show ?thesis by (simp add: ex_publisher_def)
qed

text \<open>Whatever the transport answers, the hook raises and other processes commit in between, the publisher
  loop keeps the invariant of event store and outbox.\<close>

theorem publisher_run_consistent:
  assumes "outbox_inv db" and "\<And>c i d. c \<in> set cycles \<Longrightarrow> outbox_inv d \<Longrightarrow> outbox_inv (pc_others c i d)"
  shows "outbox_inv (snd (publisher_run pb transport hook skip interval_s cycles db))"
proof -
  have "outbox_inv (snd (publisher_cycles pb transport hook skip cycles n db))" for n
    using assms
  proof (induction cycles arbitrary: n db)
    case (Cons c cs)
    have 1: "outbox_inv (snd (publish_pending pb transport hook skip (pc_locked c) (pc_now c) (pc_token c)
        (pc_clock c) (pc_others c) (snd (reclaim_expired_claims (pc_reclaim_at c) db))))" (is "outbox_inv (snd ?p)")
      unfolding publish_pending_def case_prod_beta
      by (intro publish_rows_inv outbox_inv_claim outbox_inv_reclaim Cons.prems) simp_all
    have "outbox_inv (snd (publisher_cycles pb transport hook skip cs m (snd ?p)))" for m
      by (rule Cons.IH [OF 1]) (simp add: Cons.prems(2))
    with 1 show ?case by (auto simp: case_prod_beta split: sum.split)
  qed simp
  with assms(1) show ?thesis by (simp add: publisher_run_def)
qed

theorem publisher_run_consistent_witness:
  "outbox_inv (snd (publisher_run ex_publisher ex_transport (\<lambda>r. Some (HookRaised ''down'')) True 1
     [\<lparr>pc_reclaim_at = 20, pc_locked = [], pc_now = 20, pc_token = ''t1'', pc_clock = (\<lambda>_. 21),
       pc_others = (\<lambda>i d. snd (reclaim_expired_claims 99999999 d))\<rparr>] ex_pending))"
proof (rule publisher_run_consistent)
  show "outbox_inv ex_pending" unfolding ex_pending_def by (rule outbox.run_ok [OF outbox_inv_empty]) simp
qed (auto intro: outbox_inv_reclaim)

end
