(* ===== verification/Job_Model.thy ===== *)
theory Job_Model
  imports WA_Prelude Json_Values "HOL-Library.Word"
begin

text \<open>
  The values of the job platform (\<^verbatim>\<open>platform/jobs/contracts.py\<close>, \<^verbatim>\<open>envelope.py\<close>,
  \<^verbatim>\<open>registry.py\<close>) and the value objects of the kernel that they use: identifiers, trace
  identifiers, versions, the ISO rendering of an instant. Constructors with validation are
  functions into a sum whose left side is the exception.
\<close>

unbundle bit_operations_syntax

section \<open>Identifiers and trace identifiers\<close>

text \<open>
  \<^verbatim>\<open>str(uuid4())\<close>: the 128 random bits as 32 hexadecimal digits, grouped by dashes.
\<close>

definition hex_digit :: "nat \<Rightarrow> char" where
  "hex_digit d = char_of (if d < 10 then 48 + d else 87 + d)"

definition uuid_hex :: "128 word \<Rightarrow> string" where
  "uuid_hex w = map (\<lambda>i. hex_digit (unat (drop_bit (4 * i) w AND 15))) (rev [0..<32])"

definition uuid_text :: "128 word \<Rightarrow> string" where
  "uuid_text w = (let h = uuid_hex w in
     take 8 h @ ''-'' @ take 4 (drop 8 h) @ ''-'' @ take 4 (drop 12 h) @ ''-'' @
     take 4 (drop 16 h) @ ''-'' @ drop 20 h)"

definition is_hex :: "char \<Rightarrow> bool" where
  "is_hex c \<longleftrightarrow> (let n = of_char c :: nat in 48 \<le> n \<and> n \<le> 57 \<or> 97 \<le> n \<and> n \<le> 102)"

definition uuid_chars :: "string \<Rightarrow> bool" where
  "uuid_chars s \<longleftrightarrow> list_all (\<lambda>c. is_hex c \<or> c = CHR ''-'') s"

text \<open>\<^verbatim>\<open>validate_trace_id\<close> (\<open>size\<close> 32) and \<^verbatim>\<open>validate_span_id\<close> (16).\<close>

definition validated_hex :: "nat \<Rightarrow> string \<Rightarrow> exn + string" where
  "validated_hex n v =
     (let c = py_lower (py_strip v)
      in if length c \<noteq> n \<or> \<not> list_all is_hex c \<or> c = replicate n (CHR ''0'')
         then Inl (ValueError ''trace identifier'') else Inr c)"

definition validate_trace_id :: "string \<Rightarrow> exn + string" where
  "validate_trace_id v = validated_hex 32 v"

text \<open>
  \<^verbatim>\<open>datetime.isoformat()\<close> of an instant in UTC: the civil date of a day number (counted
  from 1970-01-01, in the proleptic Gregorian calendar), the time of day and the offset.
\<close>

definition civil :: "int \<Rightarrow> int \<times> int \<times> int" where
  "civil day =
     (let z = day + 719468;
          era = z div 146097;
          doe = z mod 146097;
          yoe = (doe - doe div 1460 + doe div 36524 - doe div 146096) div 365;
          doy = doe - (365 * yoe + yoe div 4 - yoe div 100);
          mp = (5 * doy + 2) div 153;
          d = doy - (153 * mp + 2) div 5 + 1;
          m = (if mp < 10 then mp + 3 else mp - 9);
          y = yoe + era * 400 + (if m \<le> 2 then 1 else 0)
      in (y, m, d))"

definition pad :: "nat \<Rightarrow> int \<Rightarrow> string" where
  "pad n i = (let s = show_int i in replicate (n - length s) (CHR ''0'') @ s)"

definition isoformat :: "time \<Rightarrow> string" where
  "isoformat t =
     (let us = t mod 1000000; s = t div 1000000; sod = s mod 86400
      in case civil (s div 86400) of (y, m, d) \<Rightarrow>
         pad 4 y @ ''-'' @ pad 2 m @ ''-'' @ pad 2 d @ ''T'' @ pad 2 (sod div 3600) @ '':'' @
         pad 2 (sod div 60 mod 60) @ '':'' @ pad 2 (sod mod 60) @
         (if us = 0 then [] else ''.'' @ pad 6 us) @ ''+00:00'')"

section \<open>Job status and event types\<close>

datatype job_status = PENDING | RETRY_WAIT | RUNNING | SUCCEEDED | FAILED | CANCELLED

fun status_value :: "job_status \<Rightarrow> string" where
  "status_value PENDING = ''pending''"
| "status_value RETRY_WAIT = ''retry_wait''"
| "status_value RUNNING = ''running''"
| "status_value SUCCEEDED = ''succeeded''"
| "status_value FAILED = ''failed''"
| "status_value CANCELLED = ''cancelled''"

definition terminal :: "job_status \<Rightarrow> bool" where
  "terminal s \<longleftrightarrow> s \<in> {SUCCEEDED, FAILED, CANCELLED}"

text \<open>\<^verbatim>\<open>_event_type_for\<close>, on the text of the event type.\<close>

fun event_type_for :: "job_status \<Rightarrow> string" where
  "event_type_for SUCCEEDED = ''platform.job.succeeded''"
| "event_type_for RETRY_WAIT = ''platform.job.retry_scheduled''"
| "event_type_for CANCELLED = ''platform.job.cancelled''"
| "event_type_for _ = ''platform.job.failed''"

section \<open>Submissions\<close>

record job_submission =
  js_job_type :: string
  js_payload :: pyobj
  js_version :: int
  js_priority :: int
  js_max_attempts :: int
  js_timeout_s :: "seconds option"
  js_deadline :: "time option"
  js_correlation_id :: "string option"
  js_causation_id :: "string option"
  js_trace_id :: "string option"
  js_actor_id :: "string option"
  js_idempotency_key :: "string option"

definition optional :: "('a \<Rightarrow> exn + 'b) \<Rightarrow> 'a option \<Rightarrow> exn + 'b option" where
  "optional f v = (case v of None \<Rightarrow> Inr None
     | Some a \<Rightarrow> (case f a of Inl e \<Rightarrow> Inl e | Inr b \<Rightarrow> Inr (Some b)))"

text \<open>
  \<^verbatim>\<open>JobSubmission.__init__\<close>. The record \<open>raw\<close> holds the arguments; the payload is the
  mapping passed, \<open>None\<close> for the version stands for the default.
\<close>

definition make_submission :: "int option \<Rightarrow> job_submission \<Rightarrow> exn + job_submission" where
  "make_submission version raw =
     (if js_max_attempts raw < 1 then Inl (ValueError ''max_attempts must be at least 1'')
      else if (case js_timeout_s raw of None \<Rightarrow> False | Some t \<Rightarrow> t \<le> 0)
        then Inl (ValueError ''timeout_s must be positive'')
      else case js_payload raw of
        PMap ro fs \<Rightarrow>
          (case required_text ''job_type'' (js_job_type raw) of Inl e \<Rightarrow> Inl e
           | Inr jt \<Rightarrow> (case freeze_json (PMap ro fs) of Inl e \<Rightarrow> Inl e
           | Inr p \<Rightarrow> (case optional validate_trace_id (js_trace_id raw) of Inl e \<Rightarrow> Inl e
           | Inr tr \<Rightarrow> (case optional_text ''idempotency_key'' (js_idempotency_key raw) of Inl e \<Rightarrow> Inl e
           | Inr key \<Rightarrow>
               Inr (raw\<lparr>js_job_type := jt, js_payload := p,
                        js_version := (case version of None \<Rightarrow> 1 | Some v \<Rightarrow> v),
                        js_trace_id := tr, js_idempotency_key := key\<rparr>)))))
      | _ \<Rightarrow> Inl (TypeError ''payload must be a mapping''))"

section \<open>Envelopes of a claimed attempt\<close>

record job_envelope =
  je_id :: string
  je_job_type :: string
  je_version :: int
  je_payload :: pyobj
  je_priority :: int
  je_attempt :: int
  je_max_attempts :: int
  je_timeout_s :: "seconds option"
  je_deadline :: "time option"
  je_correlation_id :: "string option"
  je_causation_id :: "string option"
  je_trace_id :: "string option"
  je_actor_id :: "string option"
  je_fencing_token :: "string option"

text \<open>\<^verbatim>\<open>JobEnvelope.__post_init__\<close>.\<close>

definition make_job_envelope :: "job_envelope \<Rightarrow> exn + job_envelope" where
  "make_job_envelope e =
     (case required_text ''job_type'' (je_job_type e) of Inl x \<Rightarrow> Inl x
      | Inr jt \<Rightarrow>
        if je_version e < 1 then Inl (ValueError ''version must be at least 1'')
        else case je_payload e of
          PMap ro fs \<Rightarrow>
            (case freeze_json (PMap ro fs) of Inl x \<Rightarrow> Inl x
             | Inr p \<Rightarrow>
               if je_attempt e < 0 then Inl (ValueError ''attempt must be non-negative'')
               else if je_max_attempts e < 1 then Inl (ValueError ''max_attempts must be at least 1'')
               else if je_attempt e > je_max_attempts e then Inl (ValueError ''attempt cannot exceed max_attempts'')
               else if (case je_timeout_s e of None \<Rightarrow> False | Some t \<Rightarrow> t \<le> 0)
                 then Inl (ValueError ''timeout_s must be positive'')
               else (case optional validate_trace_id (je_trace_id e) of Inl x \<Rightarrow> Inl x
               | Inr tr \<Rightarrow> (case optional_text ''fencing_token'' (je_fencing_token e) of Inl x \<Rightarrow> Inl x
               | Inr tok \<Rightarrow>
                   Inr (e\<lparr>je_job_type := jt, je_payload := p, je_trace_id := tr, je_fencing_token := tok\<rparr>))))
        | _ \<Rightarrow> Inl (TypeError ''payload must be a mapping''))"

record job_record =
  jc_envelope :: job_envelope
  jc_status :: job_status
  jc_available_at :: time
  jc_created_at :: time
  jc_updated_at :: time
  jc_lease_expires_at :: "time option"
  jc_completed_at :: "time option"
  jc_cancellation_requested :: bool
  jc_result :: "pyobj option"
  jc_error :: "string option"
  jc_idempotency_key :: "string option"

record job_receipt =
  rc_job_id :: string
  rc_deduplicated :: bool

record job_lease_state =
  ls_authoritative :: bool
  ls_cancellation_requested :: bool
  ls_expires_at :: "time option"

record job_finalization =
  fz_accepted :: bool
  fz_status :: job_status
  fz_retry_scheduled :: bool

section \<open>The handler registry\<close>

text \<open>
  A handler is known to the registry by its own job type; \<open>None\<close> is a handler without a
  callable \<^verbatim>\<open>handle\<close>.
\<close>

type_synonym 'h registry = "(string \<times> 'h) list"

definition job_type_of :: "string \<Rightarrow> bool \<Rightarrow> exn + string" where
  "job_type_of own callable =
     (if py_strip own = [] then Inl (ValueError ''handler.job_type must be non-empty text'')
      else if \<not> callable then Inl (TypeError ''handler must expose an async handle method'')
      else Inr (py_strip own))"

definition registry_register ::
  "string \<Rightarrow> bool \<Rightarrow> 'h \<Rightarrow> string option \<Rightarrow> 'h registry \<Rightarrow> exn + 'h registry" where
  "registry_register own callable h job_type reg =
     (case (case job_type of None \<Rightarrow> job_type_of own callable | Some t \<Rightarrow> Inr (py_strip t)) of
        Inl e \<Rightarrow> Inl e
      | Inr k \<Rightarrow> if k = [] then Inl (ValueError ''job_type must be non-empty text'')
                else if map_of reg k \<noteq> None then Inl (RuntimeErr ''DuplicateJobHandlerError'')
                else Inr (reg @ [(k, h)]))"

definition registry_get :: "string \<Rightarrow> 'h registry \<Rightarrow> 'h option" where
  "registry_get t reg = map_of reg (py_strip t)"

definition registry_require :: "string \<Rightarrow> 'h registry \<Rightarrow> exn + 'h" where
  "registry_require t reg =
     (case registry_get t reg of None \<Rightarrow> Inl (RuntimeErr ''UnknownJobTypeError'') | Some h \<Rightarrow> Inr h)"

definition registry_all_types :: "'h registry \<Rightarrow> string list" where
  "registry_all_types reg = sort (map fst reg)"

end
