(* ===== verification/Job_Queue.thy ===== *)
theory Job_Queue
  imports Job_Model Outbox
begin

text \<open>
  The SQL job queue of \<^verbatim>\<open>platform/jobs/postgres\<close>: the two tables of \<^verbatim>\<open>schema.py\<close> and every
  operation of \<^verbatim>\<open>PostgresJobQueue\<close>, each as a function on the tables in one transaction. The
  clock readings, the random identifiers and the checkpoint hook are arguments. Rows that
  other open transactions have locked are an argument of the scans that skip locked rows.
\<close>

section \<open>Tables\<close>

record job_row =
  jr_queue_position :: int
  jr_id :: string
  jr_job_type :: string
  jr_version :: int
  jr_payload :: pyobj
  jr_priority :: int
  jr_attempt_count :: int
  jr_max_attempts :: int
  jr_timeout_s :: "seconds option"
  jr_deadline :: "time option"
  jr_correlation_id :: "string option"
  jr_causation_id :: "string option"
  jr_trace_id :: "string option"
  jr_actor_id :: "string option"
  jr_status :: job_status
  jr_available_at :: time
  jr_created_at :: time
  jr_updated_at :: time
  jr_started_at :: "time option"
  jr_completed_at :: "time option"
  jr_claimed_by :: "string option"
  jr_fencing_token :: "string option"
  jr_lease_generation :: int
  jr_lease_expires_at :: "time option"
  jr_cancellation_requested_at :: "time option"
  jr_result :: "pyobj option"
  jr_last_error :: "string option"
  jr_idempotency_key :: "string option"

record attempt_row =
  ar_id :: string
  ar_job_id :: string
  ar_attempt :: int
  ar_worker_id :: string
  ar_fencing_token :: string
  ar_status :: string
  ar_started_at :: time
  ar_finished_at :: "time option"
  ar_error :: "string option"

text \<open>\<open>jd_next\<close> is the next value of the autoincrement column \<^verbatim>\<open>queue_position\<close>.\<close>

record job_db =
  jd_jobs :: "job_row list"
  jd_attempts :: "attempt_row list"
  jd_next :: int
  jd_outbox :: outbox_db

definition empty_jobs :: job_db where
  "empty_jobs = \<lparr>jd_jobs = [], jd_attempts = [], jd_next = 1, jd_outbox = empty_outbox\<rparr>"

text \<open>Random identifiers and clock readings that one transaction draws for its event.\<close>

record tx_env =
  te_event_id :: string
  te_outbox_id :: string
  te_occurred :: time
  te_recorded :: time

section \<open>Text and JSON columns\<close>

definition job_required_text :: "string \<Rightarrow> string \<Rightarrow> exn + string" where
  "job_required_text field v =
     (if py_strip v = [] then Inl (ValueError (field @ '' must be non-empty text'')) else Inr (py_strip v))"

definition require_positive :: "string \<Rightarrow> rat \<Rightarrow> exn + unit" where
  "require_positive field x =
     (if x \<le> 0 then Inl (ValueError (field @ '' must be positive'')) else Inr ())"

definition require_positive_or_zero :: "string \<Rightarrow> rat \<Rightarrow> exn + unit" where
  "require_positive_or_zero field x =
     (if x < 0 then Inl (ValueError (field @ '' must be non-negative'')) else Inr ())"

definition required_fencing_token :: "job_envelope \<Rightarrow> exn + string" where
  "required_fencing_token job =
     (case je_fencing_token job of
        None \<Rightarrow> Inl (ValueError ''claimed job must carry a fencing_token'') | Some t \<Rightarrow> Inr t)"

text \<open>
  \<^verbatim>\<open>_json_dump\<close> writes the text of the plain value with the keys of every object sorted;
  \<^verbatim>\<open>_json_load\<close> reads that value back. A JSON column holds the value that the text denotes.
\<close>

fun key_text :: "pyobj \<Rightarrow> string" where
  "key_text (PStr s) = s"
| "key_text _ = []"

fun sort_keys :: "pyobj \<Rightarrow> pyobj" where
  "sort_keys (PMap ro fs) = PMap ro (sort_key (\<lambda>f. key_text (fst f)) (map (\<lambda>(k, x). (k, sort_keys x)) fs))"
| "sort_keys (PList xs) = PList (map sort_keys xs)"
| "sort_keys v = v"

definition json_dump :: "pyobj \<Rightarrow> pyobj" where
  "json_dump v = sort_keys (thaw_json v)"

section \<open>Rows as values\<close>

definition row_to_envelope :: "int option \<Rightarrow> string option \<Rightarrow> job_row \<Rightarrow> exn + job_envelope" where
  "row_to_envelope attempt token row = make_job_envelope
     \<lparr>je_id = jr_id row, je_job_type = jr_job_type row, je_version = jr_version row,
      je_payload = jr_payload row, je_priority = jr_priority row,
      je_attempt = (case attempt of None \<Rightarrow> jr_attempt_count row | Some a \<Rightarrow> a),
      je_max_attempts = jr_max_attempts row, je_timeout_s = jr_timeout_s row,
      je_deadline = jr_deadline row, je_correlation_id = truthy (jr_correlation_id row),
      je_causation_id = truthy (jr_causation_id row), je_trace_id = jr_trace_id row,
      je_actor_id = truthy (jr_actor_id row),
      je_fencing_token = (case token of None \<Rightarrow> jr_fencing_token row | Some t \<Rightarrow> Some t)\<rparr>"

text \<open>\<^verbatim>\<open>_row_to_record\<close>: a result that is JSON \<^verbatim>\<open>null\<close> reads as no result.\<close>

definition freeze_result :: "pyobj option \<Rightarrow> exn + pyobj option" where
  "freeze_result r =
     (case r of None \<Rightarrow> Inr None | Some PNone \<Rightarrow> Inr None
      | Some v \<Rightarrow> (case freeze_json v of Inl x \<Rightarrow> Inl x | Inr w \<Rightarrow> Inr (Some w)))"

definition row_to_record :: "job_row \<Rightarrow> exn + job_record" where
  "row_to_record row =
     (case row_to_envelope None None row of Inl x \<Rightarrow> Inl x
      | Inr e \<Rightarrow> (case freeze_result (jr_result row) of Inl x \<Rightarrow> Inl x
      | Inr res \<Rightarrow> Inr
          \<lparr>jc_envelope = e, jc_status = jr_status row, jc_available_at = jr_available_at row,
           jc_created_at = jr_created_at row, jc_updated_at = jr_updated_at row,
           jc_lease_expires_at = jr_lease_expires_at row, jc_completed_at = jr_completed_at row,
           jc_cancellation_requested = (jr_cancellation_requested_at row \<noteq> None),
           jc_result = res, jc_error = jr_last_error row, jc_idempotency_key = jr_idempotency_key row\<rparr>))"

section \<open>Submission\<close>

definition find_idempotent :: "string \<Rightarrow> job_row list \<Rightarrow> string option" where
  "find_idempotent key jobs = map_option jr_id (find (\<lambda>r. jr_idempotency_key r = Some key) jobs)"

definition new_job_row :: "time \<Rightarrow> string \<Rightarrow> time \<Rightarrow> int \<Rightarrow> job_submission \<Rightarrow> job_row" where
  "new_job_row now job_id run_at pos job =
     \<lparr>jr_queue_position = pos, jr_id = job_id, jr_job_type = js_job_type job,
      jr_version = js_version job, jr_payload = json_dump (js_payload job),
      jr_priority = js_priority job, jr_attempt_count = 0, jr_max_attempts = js_max_attempts job,
      jr_timeout_s = js_timeout_s job, jr_deadline = js_deadline job,
      jr_correlation_id = js_correlation_id job, jr_causation_id = js_causation_id job,
      jr_trace_id = js_trace_id job, jr_actor_id = js_actor_id job, jr_status = PENDING,
      jr_available_at = run_at, jr_created_at = now, jr_updated_at = now, jr_started_at = None,
      jr_completed_at = None, jr_claimed_by = None, jr_fencing_token = None,
      jr_lease_generation = 0, jr_lease_expires_at = None, jr_cancellation_requested_at = None,
      jr_result = None, jr_last_error = None, jr_idempotency_key = js_idempotency_key job\<rparr>"

text \<open>The check and unique constraints of \<^verbatim>\<open>platform_jobs\<close> against an inserted row.\<close>

definition job_conflict :: "job_row \<Rightarrow> job_row list \<Rightarrow> bool" where
  "job_conflict row jobs \<longleftrightarrow>
     jr_version row < 1 \<or> jr_attempt_count row < 0 \<or> jr_max_attempts row < 1
   \<or> jr_lease_generation row < 0
   \<or> (\<exists>r \<in> set jobs. jr_id r = jr_id row \<or> jr_queue_position r = jr_queue_position row)
   \<or> (case jr_idempotency_key row of None \<Rightarrow> False
      | Some k \<Rightarrow> (\<exists>r \<in> set jobs. jr_idempotency_key r = Some k))"

text \<open>
  \<^verbatim>\<open>_insert\<close>. The first look-up sees the table \<open>snap\<close>; between it and the insert other
  transactions may commit, so the insert runs on the current table. A violated constraint is
  answered by a second look-up. A failed insert still consumes the autoincrement value.
\<close>

definition job_insert ::
  "job_row list \<Rightarrow> time \<Rightarrow> string \<Rightarrow> time \<Rightarrow> job_submission \<Rightarrow> job_db
     \<Rightarrow> (exn + job_receipt) \<times> job_db" where
  "job_insert snap now job_id run_at job db =
     (case (case js_idempotency_key job of None \<Rightarrow> None | Some k \<Rightarrow> find_idempotent k snap) of
        Some i \<Rightarrow> (Inr \<lparr>rc_job_id = i, rc_deduplicated = True\<rparr>, db)
      | None \<Rightarrow>
          let row = new_job_row now job_id run_at (jd_next db) job;
              db' = db\<lparr>jd_next := jd_next db + 1\<rparr>
          in if \<not> job_conflict row (jd_jobs db)
             then (Inr \<lparr>rc_job_id = job_id, rc_deduplicated = False\<rparr>, db'\<lparr>jd_jobs := jd_jobs db @ [row]\<rparr>)
             else (case js_idempotency_key job of
                     None \<Rightarrow> (Inl (IntegrityError ''platform_jobs''), db')
                   | Some k \<Rightarrow> (case find_idempotent k (jd_jobs db) of
                       None \<Rightarrow> (Inl (IntegrityError ''platform_jobs''), db')
                     | Some i \<Rightarrow> (Inr \<lparr>rc_job_id = i, rc_deduplicated = True\<rparr>, db'))))"

definition submit ::
  "job_row list \<Rightarrow> time \<Rightarrow> time \<Rightarrow> string \<Rightarrow> job_submission \<Rightarrow> job_db \<Rightarrow> (exn + job_receipt) \<times> job_db" where
  "submit snap run_at now job_id job db = job_insert snap now job_id run_at job db"

definition schedule ::
  "job_row list \<Rightarrow> time \<Rightarrow> string \<Rightarrow> time \<Rightarrow> job_submission \<Rightarrow> job_db \<Rightarrow> (exn + job_receipt) \<times> job_db" where
  "schedule snap now job_id run_at job db =
     (if (case js_deadline job of None \<Rightarrow> False | Some d \<Rightarrow> d < run_at)
      then (Inl (ValueError ''run_at cannot be after the job deadline''), db)
      else job_insert snap now job_id run_at job db)"

section \<open>Claims\<close>

definition claimable :: "time \<Rightarrow> job_row \<Rightarrow> bool" where
  "claimable now r \<longleftrightarrow>
     jr_status r \<in> {PENDING, RETRY_WAIT} \<and> jr_available_at r \<le> now
   \<or> jr_status r = RUNNING \<and> (case jr_lease_expires_at r of None \<Rightarrow> False | Some t \<Rightarrow> t < now)
     \<and> jr_attempt_count r < jr_max_attempts r"

definition claim_scan_limit :: nat where
  "claim_scan_limit = 32"

definition claim_scan :: "bool \<Rightarrow> string list \<Rightarrow> time \<Rightarrow> job_row list \<Rightarrow> job_row list" where
  "claim_scan skip_locked locked now jobs =
     take (if skip_locked then 1 else claim_scan_limit)
       (sort_key (\<lambda>r. (- jr_priority r, jr_queue_position r))
         (filter (\<lambda>r. claimable now r \<and> \<not> (skip_locked \<and> jr_id r \<in> set locked)) jobs))"

definition fencing_token :: "string \<Rightarrow> int \<Rightarrow> string \<Rightarrow> string" where
  "fencing_token job_id generation rnd =
     ''job_'' @ job_id @ ''_generation_'' @ show_int generation @ ''_'' @ rnd"

definition job_claim_guard :: "time \<Rightarrow> job_row \<Rightarrow> job_row \<Rightarrow> bool" where
  "job_claim_guard now row r \<longleftrightarrow>
     jr_id r = jr_id row
   \<and> (if jr_status row = RUNNING
      then jr_status r = RUNNING \<and> jr_fencing_token r = jr_fencing_token row
         \<and> (case jr_lease_expires_at r of None \<Rightarrow> False | Some t \<Rightarrow> t < now)
      else jr_status r \<in> {PENDING, RETRY_WAIT} \<and> jr_available_at r \<le> now)"

definition claim_values :: "time \<Rightarrow> string \<Rightarrow> time \<Rightarrow> string \<Rightarrow> job_row \<Rightarrow> job_row \<Rightarrow> job_row" where
  "claim_values now worker expires token row r =
     r\<lparr>jr_status := RUNNING, jr_attempt_count := jr_attempt_count row + 1,
       jr_lease_generation := jr_lease_generation row + 1, jr_claimed_by := Some worker,
       jr_fencing_token := Some token, jr_lease_expires_at := Some expires,
       jr_started_at := Some now, jr_updated_at := now, jr_completed_at := None\<rparr>"

definition running_attempt :: "string \<Rightarrow> string \<Rightarrow> attempt_row \<Rightarrow> bool" where
  "running_attempt job_id token a \<longleftrightarrow>
     ar_job_id a = job_id \<and> ar_fencing_token a = token \<and> ar_status a = status_value RUNNING"

definition close_attempt :: "string \<Rightarrow> time \<Rightarrow> string option \<Rightarrow> attempt_row \<Rightarrow> attempt_row" where
  "close_attempt st now err a = a\<lparr>ar_status := st, ar_finished_at := Some now, ar_error := err\<rparr>"

definition attempt_conflict :: "attempt_row \<Rightarrow> attempt_row list \<Rightarrow> bool" where
  "attempt_conflict a rows \<longleftrightarrow> ar_attempt a < 1
   \<or> (\<exists>x \<in> set rows. ar_id x = ar_id a \<or> ar_fencing_token x = ar_fencing_token a
        \<or> ar_job_id x = ar_job_id a \<and> ar_attempt x = ar_attempt a)"

text \<open>
  What a claimed candidate writes in the attempts table: the attempt that is taken over is
  closed, the new one is inserted.
\<close>

definition claim_attempts ::
  "time \<Rightarrow> string \<Rightarrow> string \<Rightarrow> string \<Rightarrow> job_row \<Rightarrow> attempt_row list \<Rightarrow> exn + attempt_row list" where
  "claim_attempts now worker token attempt_id row attempts =
     (let closed =
            (if jr_status row = RUNNING
             then (case truthy (jr_fencing_token row) of None \<Rightarrow> attempts
                   | Some old \<Rightarrow> sql_update (running_attempt (jr_id row) old)
                       (close_attempt ''abandoned'' now (Some ''lease expired before finalization'')) attempts)
             else attempts);
          a = \<lparr>ar_id = attempt_id, ar_job_id = jr_id row, ar_attempt = jr_attempt_count row + 1,
               ar_worker_id = worker, ar_fencing_token = token, ar_status = status_value RUNNING,
               ar_started_at = now, ar_finished_at = None, ar_error = None\<rparr>
      in if attempt_conflict a closed then Inl (IntegrityError ''platform_job_attempts'')
         else Inr (closed @ [a]))"

text \<open>
  The loop of \<^verbatim>\<open>claim_next\<close> over the scanned rows. Each round draws the random part of a
  token. A guard that matches no row moves on to the next candidate; the first match ends the
  loop, with a commit or with a violated constraint (which rolls everything back). The envelope
  is built after the commit.
\<close>

fun claim_loop ::
  "time \<Rightarrow> string \<Rightarrow> time \<Rightarrow> (nat \<Rightarrow> 128 word) \<Rightarrow> string \<Rightarrow> nat \<Rightarrow> job_row list \<Rightarrow> job_db
     \<Rightarrow> (exn + job_envelope option) \<times> job_db" where
  "claim_loop now worker expires rnd attempt_id i [] db = (Inr None, db)"
| "claim_loop now worker expires rnd attempt_id i (row # rows) db =
     (let token = fencing_token (jr_id row) (jr_lease_generation row + 1) (take 12 (uuid_hex (rnd i)))
      in if rowcount (job_claim_guard now row) (jd_jobs db) \<noteq> 1
         then claim_loop now worker expires rnd attempt_id (Suc i) rows db
         else (case claim_attempts now worker token attempt_id row (jd_attempts db) of
                 Inl e \<Rightarrow> (Inl e, db)
               | Inr attempts \<Rightarrow>
                   (map_sum id Some (row_to_envelope (Some (jr_attempt_count row + 1)) (Some token) row),
                    db\<lparr>jd_jobs := sql_update (job_claim_guard now row)
                                    (claim_values now worker expires token row) (jd_jobs db),
                       jd_attempts := attempts\<rparr>)))"

definition claim_next ::
  "bool \<Rightarrow> string list \<Rightarrow> time \<Rightarrow> (nat \<Rightarrow> 128 word) \<Rightarrow> string \<Rightarrow> string \<Rightarrow> seconds \<Rightarrow> job_db
     \<Rightarrow> (exn + job_envelope option) \<times> job_db" where
  "claim_next skip_locked locked now rnd attempt_id worker_id lease_s db =
     (case job_required_text ''worker_id'' worker_id of Inl e \<Rightarrow> (Inl e, db)
      | Inr worker \<Rightarrow> (case require_positive ''lease_s'' lease_s of Inl e \<Rightarrow> (Inl e, db)
      | Inr _ \<Rightarrow> claim_loop now worker (now + timedelta_us lease_s) rnd attempt_id 0
                  (claim_scan skip_locked locked now (jd_jobs db)) db))"

section \<open>Leases\<close>

definition owns_claim_row :: "string \<Rightarrow> string \<Rightarrow> string \<Rightarrow> time \<Rightarrow> job_row \<Rightarrow> bool" where
  "owns_claim_row job_id worker token now r \<longleftrightarrow>
     jr_id r = job_id \<and> jr_status r = RUNNING \<and> jr_claimed_by r = Some worker
   \<and> jr_fencing_token r = Some token
   \<and> (case jr_lease_expires_at r of None \<Rightarrow> False | Some t \<Rightarrow> now \<le> t)"

definition heartbeat ::
  "time \<Rightarrow> job_envelope \<Rightarrow> string \<Rightarrow> seconds \<Rightarrow> job_db \<Rightarrow> (exn + job_lease_state) \<times> job_db" where
  "heartbeat now job worker_id lease_s db =
     (case job_required_text ''worker_id'' worker_id of Inl e \<Rightarrow> (Inl e, db)
      | Inr worker \<Rightarrow> (case require_positive ''lease_s'' lease_s of Inl e \<Rightarrow> (Inl e, db)
      | Inr _ \<Rightarrow> (case required_fencing_token job of Inl e \<Rightarrow> (Inl e, db)
      | Inr token \<Rightarrow>
          let expires = now + timedelta_us lease_s;
              p = owns_claim_row (je_id job) worker token now;
              db' = db\<lparr>jd_jobs := sql_update p
                       (\<lambda>r. r\<lparr>jr_lease_expires_at := Some expires, jr_updated_at := now\<rparr>) (jd_jobs db)\<rparr>
          in (case find p (jd_jobs db) of
                None \<Rightarrow> (Inr \<lparr>ls_authoritative = False, ls_cancellation_requested = False,
                             ls_expires_at = None\<rparr>, db')
              | Some r \<Rightarrow> (Inr \<lparr>ls_authoritative = True,
                             ls_cancellation_requested = (jr_cancellation_requested_at r \<noteq> None),
                             ls_expires_at = Some expires\<rparr>, db')))))"

section \<open>Finalization\<close>

definition owns_live_claim :: "job_row \<Rightarrow> string \<Rightarrow> string \<Rightarrow> time \<Rightarrow> bool" where
  "owns_live_claim row worker token now \<longleftrightarrow>
     jr_status row = RUNNING \<and> jr_claimed_by row = Some worker \<and> jr_fencing_token row = Some token
   \<and> (case jr_lease_expires_at row of None \<Rightarrow> False | Some t \<Rightarrow> now \<le> t)"

text \<open>
  The event of a finalization. The constructor call validates the envelope; the sequence 0 is
  replaced by \<open>record_next\<close>.
\<close>

definition job_event ::
  "tx_env \<Rightarrow> string \<Rightarrow> string \<Rightarrow> string option \<Rightarrow> string option \<Rightarrow> pyobj \<Rightarrow> exn + event_envelope" where
  "job_event env ty job_id corr caus payload = make_envelope
     \<lparr>ev_type = ty, ev_aggregate_type = ''job'', ev_aggregate_id = job_id, ev_sequence = 0,
      ev_payload = payload, ev_id = te_event_id env, ev_version = 1,
      ev_occurred_at = te_occurred env, ev_actor_id = None, ev_correlation_id = corr,
      ev_causation_id = caus\<rparr>"

definition job_payload ::
  "string \<Rightarrow> string \<Rightarrow> int \<Rightarrow> int \<Rightarrow> job_status \<Rightarrow> (pyobj \<times> pyobj) list \<Rightarrow> pyobj" where
  "job_payload job_id job_type attempt max_attempts st extra = PMap False
     ([(PStr ''job_id'', PStr job_id), (PStr ''job_type'', PStr job_type),
       (PStr ''attempt'', PInt attempt), (PStr ''max_attempts'', PInt max_attempts),
       (PStr ''status'', PStr (status_value st))] @ extra)"

definition attempt_key :: "string \<Rightarrow> int \<Rightarrow> string \<Rightarrow> string" where
  "attempt_key job_id attempt ty = ''job:'' @ job_id @ '':attempt:'' @ show_int attempt @ '':'' @ ty"

definition cancelled_key :: "string \<Rightarrow> string" where
  "cancelled_key job_id = ''job:'' @ job_id @ '':cancelled''"

text \<open>Record the event in the outbox of the same transaction.\<close>

definition emit_job_event ::
  "hook \<Rightarrow> tx_env \<Rightarrow> exn + event_envelope \<Rightarrow> string \<Rightarrow> outbox_db \<Rightarrow> exn + outbox_db" where
  "emit_job_event hook env e key ob =
     (case e of Inl x \<Rightarrow> Inl x
      | Inr w \<Rightarrow> (case record_next hook (te_recorded env) (te_outbox_id env) w (Some key) ob of
          Inl x \<Rightarrow> Inl x | Inr (b, ob') \<Rightarrow> Inr ob'))"

definition finalize_values ::
  "time \<Rightarrow> job_status \<Rightarrow> pyobj option \<Rightarrow> string option \<Rightarrow> seconds \<Rightarrow> job_row \<Rightarrow> job_row" where
  "finalize_values now st res err retry_delay_s r =
     (let r' = r\<lparr>jr_status := st, jr_updated_at := now, jr_claimed_by := None,
                 jr_fencing_token := None, jr_lease_expires_at := None, jr_last_error := err,
                 jr_result := map_option json_dump res,
                 jr_completed_at := (if terminal st then Some now else None)\<rparr>
      in if st = RETRY_WAIT then r'\<lparr>jr_available_at := now + timedelta_us retry_delay_s\<rparr> else r')"

definition stale_finalization :: job_finalization where
  "stale_finalization = \<lparr>fz_accepted = False, fz_status = RUNNING, fz_retry_scheduled = False\<rparr>"

text \<open>
  The second half of \<^verbatim>\<open>_finalize_claim\<close>: the guarded update of the job, the update of the
  attempt, the crash gate, the event. The first half reads the row, checks that the caller
  owns the live claim, and lets a requested cancellation override the outcome.
\<close>

definition finalize_payload ::
  "time \<Rightarrow> job_envelope \<Rightarrow> job_status \<Rightarrow> pyobj option \<Rightarrow> string option \<Rightarrow> seconds \<Rightarrow> pyobj" where
  "finalize_payload now job st res err retry_delay_s =
     job_payload (je_id job) (je_job_type job) (je_attempt job) (je_max_attempts job) st
       ((case res of None \<Rightarrow> [] | Some v \<Rightarrow> [(PStr ''result'', thaw_json v)])
        @ (case err of None \<Rightarrow> [] | Some m \<Rightarrow> [(PStr ''error'', PStr m)])
        @ (if st = RETRY_WAIT
           then [(PStr ''retry_at'', PStr (isoformat (now + timedelta_us retry_delay_s)))] else []))"

definition finalize_write ::
  "hook \<Rightarrow> time \<Rightarrow> tx_env \<Rightarrow> job_envelope \<Rightarrow> string \<Rightarrow> string \<Rightarrow> job_status \<Rightarrow> pyobj option
     \<Rightarrow> string option \<Rightarrow> seconds \<Rightarrow> job_db \<Rightarrow> (job_finalization, job_db) tx_end" where
  "finalize_write hook now env job worker token st res err retry_delay_s db =
     (let p = owns_claim_row (je_id job) worker token now;
          jobs = sql_update p (finalize_values now st res err retry_delay_s) (jd_jobs db);
          attempts = sql_update (running_attempt (je_id job) token)
            (close_attempt (if st = RETRY_WAIT then ''failed'' else status_value st) now err) (jd_attempts db)
      in if rowcount p (jd_jobs db) \<noteq> 1 then TxReturn stale_finalization
         else (case checkpoint hook ''after_job_state_write'' of Inl x \<Rightarrow> TxRaise x
         | Inr _ \<Rightarrow>
             (case emit_job_event hook env
                     (job_event env (event_type_for st) (je_id job) (je_correlation_id job)
                        (je_causation_id job) (finalize_payload now job st res err retry_delay_s))
                     (attempt_key (je_id job) (je_attempt job) (event_type_for st)) (jd_outbox db) of
                Inl x \<Rightarrow> TxRaise x
              | Inr ob \<Rightarrow> TxCommit
                  \<lparr>fz_accepted = True, fz_status = st, fz_retry_scheduled = (st = RETRY_WAIT)\<rparr>
                  (db\<lparr>jd_jobs := jobs, jd_attempts := attempts, jd_outbox := ob\<rparr>))))"

definition finalize_body ::
  "hook \<Rightarrow> time \<Rightarrow> tx_env \<Rightarrow> job_envelope \<Rightarrow> string \<Rightarrow> string \<Rightarrow> job_status \<Rightarrow> pyobj option
     \<Rightarrow> string option \<Rightarrow> seconds \<Rightarrow> job_db \<Rightarrow> (job_finalization, job_db) tx_end" where
  "finalize_body hook now env job worker token requested res err retry_delay_s db =
     (case find (\<lambda>r. jr_id r = je_id job) (jd_jobs db) of
        None \<Rightarrow> TxReturn stale_finalization
      | Some row \<Rightarrow>
          if \<not> owns_live_claim row worker token now then TxReturn stale_finalization
          else if jr_cancellation_requested_at row \<noteq> None
          then finalize_write hook now env job worker token CANCELLED None
                 (Some ''cancellation requested'') retry_delay_s db
          else finalize_write hook now env job worker token requested
                 (case res of Some PNone \<Rightarrow> None | _ \<Rightarrow> res) err retry_delay_s db)"

definition finalize_claim ::
  "hook \<Rightarrow> time \<Rightarrow> tx_env \<Rightarrow> job_envelope \<Rightarrow> string \<Rightarrow> job_status \<Rightarrow> pyobj option \<Rightarrow> string option
     \<Rightarrow> seconds \<Rightarrow> job_db \<Rightarrow> (exn + job_finalization) \<times> job_db" where
  "finalize_claim hook now env job worker_id requested res err retry_delay_s db =
     (case job_required_text ''worker_id'' worker_id of Inl e \<Rightarrow> (Inl e, db)
      | Inr worker \<Rightarrow> (case required_fencing_token job of Inl e \<Rightarrow> (Inl e, db)
      | Inr token \<Rightarrow> run_tx hook (finalize_body hook now env job worker token requested res err retry_delay_s) db))"

definition complete ::
  "hook \<Rightarrow> time \<Rightarrow> tx_env \<Rightarrow> job_envelope \<Rightarrow> string \<Rightarrow> pyobj \<Rightarrow> job_db \<Rightarrow> (exn + job_finalization) \<times> job_db" where
  "complete hook now env job worker_id res db =
     (case validate_job_result res of Inl e \<Rightarrow> (Inl e, db)
      | Inr v \<Rightarrow> finalize_claim hook now env job worker_id SUCCEEDED (Some v) None 0 db)"

text \<open>\<open>fail\<close> reads the clock (\<open>t0\<close>) before the finalization reads it again (\<open>now\<close>).\<close>

definition can_retry :: "time \<Rightarrow> job_envelope \<Rightarrow> bool \<Rightarrow> bool" where
  "can_retry t0 job retryable \<longleftrightarrow> retryable \<and> je_attempt job < je_max_attempts job
     \<and> (case je_deadline job of None \<Rightarrow> True | Some d \<Rightarrow> t0 < d)"

definition fail ::
  "hook \<Rightarrow> time \<Rightarrow> time \<Rightarrow> tx_env \<Rightarrow> job_envelope \<Rightarrow> string \<Rightarrow> string \<Rightarrow> bool \<Rightarrow> seconds \<Rightarrow> job_db
     \<Rightarrow> (exn + job_finalization) \<times> job_db" where
  "fail hook t0 now env job worker_id err retryable retry_delay_s db =
     (case require_positive_or_zero ''retry_delay_s'' retry_delay_s of Inl e \<Rightarrow> (Inl e, db)
      | Inr _ \<Rightarrow> (case job_required_text ''error'' err of Inl e \<Rightarrow> (Inl e, db)
      | Inr message \<Rightarrow>
          finalize_claim hook now env job worker_id
            (if can_retry t0 job retryable then RETRY_WAIT else FAILED)
            None (Some (take 8000 message)) retry_delay_s db))"

definition cancel_claim ::
  "hook \<Rightarrow> time \<Rightarrow> tx_env \<Rightarrow> job_envelope \<Rightarrow> string \<Rightarrow> job_db \<Rightarrow> (exn + job_finalization) \<times> job_db" where
  "cancel_claim hook now env job worker_id db =
     finalize_claim hook now env job worker_id CANCELLED None (Some ''cancellation requested'') 0 db"

section \<open>Cancellation and look-up\<close>

definition request_cancel_body ::
  "hook \<Rightarrow> time \<Rightarrow> tx_env \<Rightarrow> string \<Rightarrow> job_db \<Rightarrow> (bool, job_db) tx_end" where
  "request_cancel_body hook now env job_id db =
     (case find (\<lambda>r. jr_id r = job_id) (jd_jobs db) of
        None \<Rightarrow> TxReturn False
      | Some row \<Rightarrow>
          if jr_status row = CANCELLED then TxReturn True
          else if terminal (jr_status row) then TxReturn False
          else if jr_status row = RUNNING then
            TxCommit True (db\<lparr>jd_jobs := sql_update (\<lambda>r. jr_id r = job_id \<and> jr_status r = RUNNING)
              (\<lambda>r. r\<lparr>jr_cancellation_requested_at := Some now, jr_updated_at := now\<rparr>) (jd_jobs db)\<rparr>)
          else
            let jobs = sql_update (\<lambda>r. jr_id r = job_id \<and> jr_status r \<in> {PENDING, RETRY_WAIT})
                  (\<lambda>r. r\<lparr>jr_status := CANCELLED, jr_cancellation_requested_at := Some now,
                         jr_completed_at := Some now, jr_updated_at := now\<rparr>) (jd_jobs db)
            in (case checkpoint hook ''after_job_state_write'' of Inl x \<Rightarrow> TxRaise x
                | Inr _ \<Rightarrow> (case row_to_envelope None None row of Inl x \<Rightarrow> TxRaise x
                | Inr e \<Rightarrow>
                   (case emit_job_event hook env
                          (job_event env (event_type_for CANCELLED) job_id
                             (je_correlation_id e) (je_causation_id e)
                             (job_payload job_id (je_job_type e) (je_attempt e) (je_max_attempts e) CANCELLED []))
                          (cancelled_key job_id) (jd_outbox db) of
                      Inl x \<Rightarrow> TxRaise x
                    | Inr ob \<Rightarrow> TxCommit True (db\<lparr>jd_jobs := jobs, jd_outbox := ob\<rparr>)))))"

definition request_cancel ::
  "hook \<Rightarrow> time \<Rightarrow> tx_env \<Rightarrow> string \<Rightarrow> job_db \<Rightarrow> (exn + bool) \<times> job_db" where
  "request_cancel hook now env job_id db = run_tx hook (request_cancel_body hook now env job_id) db"

definition get :: "string \<Rightarrow> job_db \<Rightarrow> exn + job_record option" where
  "get job_id db =
     (case find (\<lambda>r. jr_id r = job_id) (jd_jobs db) of
        None \<Rightarrow> Inr None | Some row \<Rightarrow> map_sum id Some (row_to_record row))"

section \<open>Recovery of expired claims\<close>

definition recoverable :: "time \<Rightarrow> job_row \<Rightarrow> bool" where
  "recoverable now r \<longleftrightarrow>
     jr_status r = RUNNING \<and> (case jr_lease_expires_at r of None \<Rightarrow> False | Some t \<Rightarrow> t < now)
   \<and> (jr_cancellation_requested_at r \<noteq> None \<or> jr_max_attempts r \<le> jr_attempt_count r)"

definition recover_scan :: "bool \<Rightarrow> string list \<Rightarrow> time \<Rightarrow> job_row list \<Rightarrow> job_row list" where
  "recover_scan skip_locked locked now jobs =
     take 1 (sort_key (\<lambda>r. case jr_lease_expires_at r of None \<Rightarrow> 0 | Some t \<Rightarrow> t)
       (filter (\<lambda>r. recoverable now r \<and> \<not> (skip_locked \<and> jr_id r \<in> set locked)) jobs))"

definition recover_guard :: "time \<Rightarrow> job_row \<Rightarrow> job_row \<Rightarrow> bool" where
  "recover_guard now row r \<longleftrightarrow> jr_id r = jr_id row \<and> jr_status r = RUNNING
     \<and> jr_fencing_token r = jr_fencing_token row
     \<and> (case jr_lease_expires_at r of None \<Rightarrow> False | Some t \<Rightarrow> t < now)"

definition recover_values :: "time \<Rightarrow> job_status \<Rightarrow> string \<Rightarrow> job_row \<Rightarrow> job_row" where
  "recover_values now st err r = r\<lparr>jr_status := st, jr_claimed_by := None, jr_fencing_token := None,
     jr_lease_expires_at := None, jr_completed_at := Some now, jr_updated_at := now,
     jr_last_error := Some err\<rparr>"

definition recover_status :: "job_row \<Rightarrow> job_status" where
  "recover_status row = (if jr_cancellation_requested_at row \<noteq> None then CANCELLED else FAILED)"

definition recover_error :: "job_status \<Rightarrow> string" where
  "recover_error st = (if st = CANCELLED then ''cancellation requested'' else ''lease expired after maximum attempts'')"

text \<open>
  One round of the loop: \<open>None\<close> when nothing is left (the \<^verbatim>\<open>break\<close>), \<open>Some False\<close> when the
  guarded update missed (the \<^verbatim>\<open>continue\<close>), \<open>Some True\<close> when a claim was finalized.
\<close>

definition recover_body ::
  "hook \<Rightarrow> time \<Rightarrow> tx_env \<Rightarrow> job_row list \<Rightarrow> job_db \<Rightarrow> (bool option, job_db) tx_end" where
  "recover_body hook now env scanned db =
     (case scanned of
        [] \<Rightarrow> TxReturn None
      | row # _ \<Rightarrow>
          let st = recover_status row;
              err = recover_error st;
              jobs = sql_update (recover_guard now row) (recover_values now st err) (jd_jobs db);
              attempts = (case jr_fencing_token row of None \<Rightarrow> jd_attempts db
                | Some token \<Rightarrow> sql_update (running_attempt (jr_id row) token)
                    (close_attempt (status_value st) now (Some err)) (jd_attempts db))
          in if rowcount (recover_guard now row) (jd_jobs db) \<noteq> 1 then TxReturn (Some False)
             else (case checkpoint hook ''after_job_state_write'' of Inl x \<Rightarrow> TxRaise x
             | Inr _ \<Rightarrow> (case row_to_envelope None None row of Inl x \<Rightarrow> TxRaise x
             | Inr e \<Rightarrow>
                (case emit_job_event hook env
                       (job_event env (event_type_for st) (je_id e)
                          (je_correlation_id e) (je_causation_id e)
                          (job_payload (je_id e) (je_job_type e) (je_attempt e) (je_max_attempts e) st
                             [(PStr ''error'', PStr err)]))
                       (attempt_key (je_id e) (je_attempt e) (event_type_for st)) (jd_outbox db) of
                   Inl x \<Rightarrow> TxRaise x
                 | Inr ob \<Rightarrow> TxCommit (Some True)
                     (db\<lparr>jd_jobs := jobs, jd_attempts := attempts, jd_outbox := ob\<rparr>)))))"

definition recover_one ::
  "hook \<Rightarrow> bool \<Rightarrow> string list \<Rightarrow> time \<Rightarrow> tx_env \<Rightarrow> job_db \<Rightarrow> (exn + bool option) \<times> job_db" where
  "recover_one hook skip_locked locked now env db =
     run_tx hook (\<lambda>d. recover_body hook now env (recover_scan skip_locked locked now (jd_jobs d)) d) db"

fun recover_loop ::
  "hook \<Rightarrow> bool \<Rightarrow> string list \<Rightarrow> time \<Rightarrow> (nat \<Rightarrow> tx_env) \<Rightarrow> nat \<Rightarrow> nat \<Rightarrow> job_db
     \<Rightarrow> (exn + nat) \<times> job_db" where
  "recover_loop hook skip_locked locked now envs 0 n db = (Inr n, db)"
| "recover_loop hook skip_locked locked now envs (Suc k) n db =
     (case recover_one hook skip_locked locked now (envs k) db of
        (Inl x, db') \<Rightarrow> (Inl x, db')
      | (Inr None, db') \<Rightarrow> (Inr n, db')
      | (Inr (Some b), db') \<Rightarrow>
          recover_loop hook skip_locked locked now envs k (if b then Suc n else n) db')"

definition recover_expired ::
  "hook \<Rightarrow> bool \<Rightarrow> string list \<Rightarrow> time \<Rightarrow> (nat \<Rightarrow> tx_env) \<Rightarrow> int \<Rightarrow> job_db \<Rightarrow> (exn + nat) \<times> job_db" where
  "recover_expired hook skip_locked locked now envs limit db =
     (if limit < 1 then (Inl (ValueError ''limit must be at least 1''), db)
      else recover_loop hook skip_locked locked now envs (nat limit) 0 db)"

end
