(* ===== verification/Job_Invariant.thy ===== *)
theory Job_Invariant
  imports Job_Queue
begin

text \<open>
  The invariant of the job tables, the attempts table and the outbox together, and the lemmas
  that say how one statement on a job row changes each part of it. The parts are stated over
  the columns they depend on (\<open>claim_view\<close>, \<open>status_view\<close>), so an operation that leaves these
  columns alone keeps the part for free.
\<close>

section \<open>Tokens and keys determine the attempt\<close>

lemma uuid_chars_no: "uuid_chars s \<Longrightarrow> c \<in> {CHR ''_'', CHR '':''} \<Longrightarrow> c \<notin> set s"
  by (auto simp: uuid_chars_def list_all_iff is_hex_def)

lemma is_hex_digit: "n < 16 \<Longrightarrow> is_hex (hex_digit n)"
  by (simp add: is_hex_def hex_digit_def Let_def)

lemma and_15_less: "unat (w AND 15 :: 128 word) < 16"
proof -
  have "w AND 15 \<le> (15 :: 128 word)" by (rule word_and_le1)
  then show ?thesis by (simp add: word_le_nat_alt)
qed

lemma uuid_hex_chars: "list_all is_hex (uuid_hex w)"
  by (auto simp: uuid_hex_def list_all_iff is_hex_digit and_15_less)

lemma list_all_take_drop:
  "list_all P xs \<Longrightarrow> list_all P (take n xs)" "list_all P xs \<Longrightarrow> list_all P (drop n xs)"
  by (auto simp: list_all_iff dest: in_set_takeD in_set_dropD)

lemma uuid_chars_text [simp]: "uuid_chars (uuid_text w)"
proof -
  have h: "list_all (\<lambda>c. is_hex c \<or> c = CHR ''-'') (uuid_hex w)"
    using uuid_hex_chars [of w] by (auto simp: list_all_iff)
  show ?thesis unfolding uuid_chars_def uuid_text_def Let_def by (simp add: list_all_take_drop h)
qed

lemma fencing_token_split: "fencing_token i n rnd = fencing_token i n [] @ rnd"
  by (simp add: fencing_token_def)

lemma fencing_token_sep:
  "fencing_token i n rnd = ''job_'' @ i @ CHR ''_'' # (''generation_'' @ (show_int n @ CHR ''_'' # rnd))"
  by (simp add: fencing_token_def)

definition has_token :: "string \<Rightarrow> int \<Rightarrow> string \<Rightarrow> bool" where
  "has_token job_id n t \<longleftrightarrow>
     take (length (fencing_token job_id n [])) t = fencing_token job_id n []"

lemma has_token_fencing [simp]: "has_token i n (fencing_token i n rnd)"
  unfolding has_token_def by (subst fencing_token_split) simp

lemma has_token_ex: "has_token i n t \<Longrightarrow> \<exists>rnd. t = fencing_token i n rnd"
  unfolding has_token_def by (subst fencing_token_split) (metis append_take_drop_id)

lemma sep_show_int:
  assumes "show_int n @ c # a = show_int m @ c # b" and "\<not> is_digit c" and "0 \<le> n" and "0 \<le> m"
  shows "n = m \<and> a = b"
  using show_nat_no_sep [OF assms(2), of "nat n" a "nat m" b] assms
  by (simp add: show_int_nonneg eq_nat_nat_iff)

lemma has_token_inject:
  assumes "has_token i n t" and "has_token j m t" and "uuid_chars i" and "uuid_chars j"
    and "0 \<le> n" and "0 \<le> m"
  shows "i = j \<and> n = m"
proof -
  from has_token_ex [OF assms(1)] has_token_ex [OF assms(2)] obtain a b where
    "fencing_token i n a = fencing_token j m b" by metis
  then have eq: "i @ CHR ''_'' # (''generation_'' @ (show_int n @ CHR ''_'' # a))
      = j @ CHR ''_'' # (''generation_'' @ (show_int m @ CHR ''_'' # b))"
    unfolding fencing_token_sep by (simp only: same_append_eq)
  have sep: "CHR ''_'' \<notin> set i" "CHR ''_'' \<notin> set j"
    using assms(3,4) by (simp_all add: uuid_chars_no)
  from append_sep_inject [OF sep eq] have ij: "i = j" and
    "''generation_'' @ (show_int n @ CHR ''_'' # a) = ''generation_'' @ (show_int m @ CHR ''_'' # b)"
    by (rule conjunct1, rule conjunct2)
  then have "show_int n @ CHR ''_'' # a = show_int m @ CHR ''_'' # b" by (simp only: same_append_eq)
  from sep_show_int [OF this _ assms(5,6)] ij show ?thesis by (simp add: is_digit_def)
qed

lemma fencing_token_nonempty [simp]: "fencing_token i n rnd \<noteq> []"
  by (simp add: fencing_token_def)

lemma has_token_nonempty: "has_token i n t \<Longrightarrow> t \<noteq> []"
  unfolding has_token_def by (metis fencing_token_nonempty take_Nil)

lemma fencing_token_strip:
  assumes "list_all is_hex rnd" shows "py_strip (fencing_token i n rnd) = fencing_token i n rnd"
proof (rule py_strip_id)
  show "\<not> py_space (hd (fencing_token i n rnd))" by (simp add: fencing_token_def py_space_def)
  show "\<not> py_space (last (fencing_token i n rnd))"
  proof (cases "rnd = []")
    case True
    then show ?thesis by (simp add: fencing_token_def py_space_def)
  next
    case False
    then have "is_hex (last rnd)" using assms by (simp add: list_all_iff)
    then show ?thesis using False by (auto simp: fencing_token_def py_space_def is_hex_def Let_def)
  qed
qed simp

lemma attempt_key_sep:
  "attempt_key i n a = ''job:'' @ i @ CHR '':'' # (''attempt:'' @ (show_int n @ CHR '':'' # a))"
  by (simp add: attempt_key_def)

lemma cancelled_key_sep: "cancelled_key i = ''job:'' @ i @ CHR '':'' # ''cancelled''"
  by (simp add: cancelled_key_def)

lemma attempt_key_inject:
  assumes "attempt_key i n a = attempt_key j m b" and "uuid_chars i" and "uuid_chars j"
    and "0 \<le> n" and "0 \<le> m"
  shows "i = j \<and> n = m \<and> a = b"
proof -
  from assms(1) have eq: "i @ CHR '':'' # (''attempt:'' @ (show_int n @ CHR '':'' # a))
      = j @ CHR '':'' # (''attempt:'' @ (show_int m @ CHR '':'' # b))"
    unfolding attempt_key_sep by (simp only: same_append_eq)
  have sep: "CHR '':'' \<notin> set i" "CHR '':'' \<notin> set j"
    using assms(2,3) by (simp_all add: uuid_chars_no)
  from append_sep_inject [OF sep eq] have ij: "i = j" and
    "''attempt:'' @ (show_int n @ CHR '':'' # a) = ''attempt:'' @ (show_int m @ CHR '':'' # b)"
    by (rule conjunct1, rule conjunct2)
  then have "show_int n @ CHR '':'' # a = show_int m @ CHR '':'' # b" by (simp only: same_append_eq)
  from sep_show_int [OF this _ assms(4,5)] ij show ?thesis by (simp add: is_digit_def)
qed

lemma cancelled_key_inject: "cancelled_key i = cancelled_key j \<longleftrightarrow> i = j"
  by (simp add: cancelled_key_def)

lemma cancelled_attempt_key:
  assumes "uuid_chars i" and "uuid_chars j" shows "cancelled_key i \<noteq> attempt_key j m b"
proof
  assume "cancelled_key i = attempt_key j m b"
  then have eq: "i @ CHR '':'' # ''cancelled'' = j @ CHR '':'' # (''attempt:'' @ (show_int m @ CHR '':'' # b))"
    unfolding attempt_key_sep cancelled_key_sep by (simp only: same_append_eq)
  have sep: "CHR '':'' \<notin> set i" "CHR '':'' \<notin> set j"
    using assms by (simp_all add: uuid_chars_no)
  from append_sep_inject [OF sep eq] have "''cancelled'' = ''attempt:'' @ (show_int m @ CHR '':'' # b)"
    by (rule conjunct2)
  then show False by simp
qed

section \<open>JSON columns are always readable\<close>

lemma json_compatible_thaw: "json_compatible (thaw_json v) = json_compatible v"
  by (induction v rule: thaw_json.induct) (auto simp: list_all_iff)

lemma json_compatible_sort: "json_compatible (sort_keys v) = json_compatible v"
  by (induction v rule: sort_keys.induct) (auto simp: list_all_iff)

lemma json_compatible_dump [simp]: "json_compatible (json_dump v) = json_compatible v"
  by (simp add: json_dump_def json_compatible_sort json_compatible_thaw)

lemma freeze_json_compatible: "json_compatible v \<Longrightarrow> \<exists>w. freeze_json v = Inr w"
  using freeze_accepts(1) [of v] by (cases "freeze_json v") auto

lemma freeze_compatible: "freeze_json v = Inr w \<Longrightarrow> json_compatible v"
  using freeze_accepts(1) [of v] by auto

lemma frozen_json_compatible: "is_frozen v \<Longrightarrow> json_compatible v"
  using freeze_of_frozen(1) freeze_compatible by blast

text \<open>A frozen mapping stays a mapping in the column.\<close>

fun is_map :: "pyobj \<Rightarrow> bool" where
  "is_map (PMap _ _) = True"
| "is_map _ = False"

lemma is_map_dump [simp]: "is_map (json_dump v) = is_map v"
  by (cases v) (auto simp: json_dump_def)

lemma is_map_ex: "is_map v \<longleftrightarrow> (\<exists>ro fs. v = PMap ro fs)"
  by (cases v) auto

section \<open>Rows\<close>

definition trace_ok :: "string option \<Rightarrow> bool" where
  "trace_ok t \<longleftrightarrow> (case optional validate_trace_id t of Inl _ \<Rightarrow> False | Inr _ \<Rightarrow> True)"

definition job_core_ok :: "job_row \<Rightarrow> bool" where
  "job_core_ok r \<longleftrightarrow>
     uuid_chars (jr_id r) \<and> py_strip (jr_job_type r) \<noteq> [] \<and> 1 \<le> jr_version r
   \<and> is_map (jr_payload r) \<and> json_compatible (jr_payload r) \<and> 1 \<le> jr_max_attempts r
   \<and> (case jr_timeout_s r of None \<Rightarrow> True | Some t \<Rightarrow> 0 < t) \<and> trace_ok (jr_trace_id r)"

text \<open>The columns of the claim: status, counters, token, lease and completion fit together.\<close>

definition job_claim_ok :: "job_row \<Rightarrow> bool" where
  "job_claim_ok r \<longleftrightarrow>
     0 \<le> jr_attempt_count r \<and> jr_attempt_count r \<le> jr_max_attempts r
   \<and> jr_lease_generation r = jr_attempt_count r
   \<and> (jr_status r = PENDING \<longrightarrow> jr_attempt_count r = 0)
   \<and> (jr_status r = RETRY_WAIT \<longrightarrow> 1 \<le> jr_attempt_count r \<and> jr_attempt_count r < jr_max_attempts r)
   \<and> (jr_status r \<in> {RUNNING, SUCCEEDED, FAILED} \<longrightarrow> 1 \<le> jr_attempt_count r)
   \<and> (jr_claimed_by r \<noteq> None \<longleftrightarrow> jr_status r = RUNNING)
   \<and> (jr_lease_expires_at r \<noteq> None \<longleftrightarrow> jr_status r = RUNNING)
   \<and> (case jr_fencing_token r of None \<Rightarrow> jr_status r \<noteq> RUNNING
      | Some t \<Rightarrow> jr_status r = RUNNING \<and> has_token (jr_id r) (jr_attempt_count r) t
          \<and> py_strip t = t)
   \<and> (jr_completed_at r \<noteq> None \<longleftrightarrow> terminal (jr_status r))
   \<and> (case jr_result r of None \<Rightarrow> True | Some v \<Rightarrow> json_compatible v \<and> jr_status r = SUCCEEDED)"

definition job_row_ok :: "job_row \<Rightarrow> bool" where
  "job_row_ok r \<longleftrightarrow> job_core_ok r \<and> job_claim_ok r"

lemma make_job_envelope_ok:
  assumes "py_strip (je_job_type e) \<noteq> []" and "1 \<le> je_version e" and "is_map (je_payload e)"
    and "json_compatible (je_payload e)" and "0 \<le> je_attempt e" and "je_attempt e \<le> je_max_attempts e"
    and "1 \<le> je_max_attempts e" and "case je_timeout_s e of None \<Rightarrow> True | Some t \<Rightarrow> 0 < t"
    and "trace_ok (je_trace_id e)"
    and "case je_fencing_token e of None \<Rightarrow> True | Some t \<Rightarrow> py_strip t = t \<and> t \<noteq> []"
  shows "\<exists>p tr. make_job_envelope e = Inr (e\<lparr>je_job_type := py_strip (je_job_type e),
           je_payload := p, je_trace_id := tr\<rparr>)"
proof -
  obtain ro fs where m: "je_payload e = PMap ro fs" using assms(3) by (auto simp: is_map_ex)
  obtain p where p: "freeze_json (PMap ro fs) = Inr p" using freeze_json_compatible assms(4) m by metis
  obtain tr where tr: "optional validate_trace_id (je_trace_id e) = Inr tr"
    using assms(9) by (auto simp: trace_ok_def split: sum.splits)
  have tok: "optional_text ''fencing_token'' (je_fencing_token e) = Inr (je_fencing_token e)"
    using assms(10) by (auto simp: optional_text_def required_text_def split: option.splits)
  have "\<not> (case je_timeout_s e of None \<Rightarrow> False | Some t \<Rightarrow> t \<le> 0)"
    using assms(8) by (auto split: option.splits)
  then have "make_job_envelope e = Inr (e\<lparr>je_job_type := py_strip (je_job_type e),
      je_payload := p, je_trace_id := tr, je_fencing_token := je_fencing_token e\<rparr>)"
    using assms(1,2,5-7) m p tr tok by (simp add: make_job_envelope_def required_text_def)
  then show ?thesis by (intro exI [of _ p] exI [of _ tr]) simp
qed

text \<open>A well-formed row always has an envelope, also the one of its next attempt.\<close>

definition envelope_of :: "job_envelope \<Rightarrow> job_row \<Rightarrow> bool" where
  "envelope_of e r \<longleftrightarrow>
     je_id e = jr_id r \<and> je_max_attempts e = jr_max_attempts r \<and> je_deadline e = jr_deadline r
   \<and> je_job_type e = py_strip (jr_job_type r)"

lemma row_to_envelope_ok:
  assumes "job_core_ok r" and "0 \<le> a" and "a \<le> jr_max_attempts r"
    and "py_strip t = t" and "t \<noteq> []"
  shows "\<exists>e. row_to_envelope (Some a) (Some t) r = Inr e \<and> envelope_of e r \<and> je_attempt e = a
           \<and> je_fencing_token e = Some t"
proof -
  let ?e = "\<lparr>je_id = jr_id r, je_job_type = jr_job_type r, je_version = jr_version r,
      je_payload = jr_payload r, je_priority = jr_priority r, je_attempt = a,
      je_max_attempts = jr_max_attempts r, je_timeout_s = jr_timeout_s r,
      je_deadline = jr_deadline r, je_correlation_id = truthy (jr_correlation_id r),
      je_causation_id = truthy (jr_causation_id r), je_trace_id = jr_trace_id r,
      je_actor_id = truthy (jr_actor_id r), je_fencing_token = Some t\<rparr>"
  have "\<exists>p tr. make_job_envelope ?e =
      Inr (?e\<lparr>je_job_type := py_strip (je_job_type ?e), je_payload := p, je_trace_id := tr\<rparr>)"
    by (rule make_job_envelope_ok) (use assms in \<open>simp_all add: job_core_ok_def\<close>)
  then show ?thesis by (auto simp: row_to_envelope_def envelope_of_def)
qed

lemma row_to_envelope_none_ok:
  assumes "job_row_ok r"
  shows "\<exists>e. row_to_envelope None None r = Inr e \<and> envelope_of e r \<and> je_attempt e = jr_attempt_count r"
proof -
  let ?e = "\<lparr>je_id = jr_id r, je_job_type = jr_job_type r, je_version = jr_version r,
      je_payload = jr_payload r, je_priority = jr_priority r, je_attempt = jr_attempt_count r,
      je_max_attempts = jr_max_attempts r, je_timeout_s = jr_timeout_s r,
      je_deadline = jr_deadline r, je_correlation_id = truthy (jr_correlation_id r),
      je_causation_id = truthy (jr_causation_id r), je_trace_id = jr_trace_id r,
      je_actor_id = truthy (jr_actor_id r), je_fencing_token = jr_fencing_token r\<rparr>"
  have tok: "case jr_fencing_token r of None \<Rightarrow> True | Some t \<Rightarrow> py_strip t = t \<and> t \<noteq> []"
    using assms has_token_nonempty
    by (cases "jr_fencing_token r") (auto simp: job_row_ok_def job_claim_ok_def)
  have "\<exists>p tr. make_job_envelope ?e =
      Inr (?e\<lparr>je_job_type := py_strip (je_job_type ?e), je_payload := p, je_trace_id := tr\<rparr>)"
    by (rule make_job_envelope_ok)
      (use assms tok in \<open>simp_all add: job_row_ok_def job_core_ok_def job_claim_ok_def\<close>)
  then show ?thesis by (auto simp: row_to_envelope_def envelope_of_def)
qed

section \<open>The jobs table\<close>

definition idem_keys :: "job_row list \<Rightarrow> string option list" where
  "idem_keys jobs = filter (\<lambda>k. k \<noteq> None) (map jr_idempotency_key jobs)"

definition jobs_inv :: "job_row list \<Rightarrow> int \<Rightarrow> bool" where
  "jobs_inv jobs next_pos \<longleftrightarrow>
     distinct (map jr_id jobs) \<and> distinct (map jr_queue_position jobs)
   \<and> list_all (\<lambda>r. jr_queue_position r < next_pos) jobs
   \<and> distinct (idem_keys jobs) \<and> list_all job_row_ok jobs"

text \<open>The columns that no operation but the insert writes.\<close>

definition core_view :: "job_row \<Rightarrow> job_row" where
  "core_view r = r\<lparr>jr_attempt_count := 0, jr_status := PENDING, jr_available_at := 0, jr_updated_at := 0,
     jr_started_at := None, jr_completed_at := None, jr_claimed_by := None, jr_fencing_token := None,
     jr_lease_generation := 0, jr_lease_expires_at := None, jr_cancellation_requested_at := None,
     jr_result := None, jr_last_error := None\<rparr>"

lemma core_view_eqD:
  assumes "core_view a = core_view b"
  shows "jr_id a = jr_id b" "jr_queue_position a = jr_queue_position b"
    "jr_idempotency_key a = jr_idempotency_key b" "jr_max_attempts a = jr_max_attempts b"
    "jr_deadline a = jr_deadline b" "jr_job_type a = jr_job_type b" "jr_priority a = jr_priority b"
    "job_core_ok a = job_core_ok b"
  using assms unfolding core_view_def job_core_ok_def by (cases a; cases b; simp)+

lemma jobs_inv_update:
  assumes "jobs_inv jobs n" and "\<And>r. p r \<Longrightarrow> core_view (f r) = core_view r"
    and "\<And>r. r \<in> set jobs \<Longrightarrow> p r \<Longrightarrow> job_row_ok r \<Longrightarrow> job_claim_ok (f r)"
  shows "jobs_inv (sql_update p f jobs) n"
proof -
  have "map jr_id (sql_update p f jobs) = map jr_id jobs"
    "map jr_queue_position (sql_update p f jobs) = map jr_queue_position jobs"
    "map jr_idempotency_key (sql_update p f jobs) = map jr_idempotency_key jobs"
    using core_view_eqD(1-3) [OF assms(2)] by (auto intro!: map_sql_update)
  moreover have "\<forall>r \<in> set (sql_update p f jobs). job_row_ok r \<and> jr_queue_position r < n"
  proof
    fix x assume "x \<in> set (sql_update p f jobs)"
    then obtain r where r: "r \<in> set jobs" "x = (if p r then f r else r)"
      unfolding set_sql_update by blast
    have ok: "job_row_ok r" "jr_queue_position r < n"
      using assms(1) r(1) by (auto simp: jobs_inv_def list_all_iff)
    show "job_row_ok x \<and> jr_queue_position x < n"
    proof (cases "p r")
      case True
      with ok(1) assms(3) [OF r(1)] core_view_eqD(8,2) [OF assms(2) [OF True]] r(2) ok(2)
      show ?thesis by (simp add: job_row_ok_def)
    qed (use r ok in simp)
  qed
  ultimately show ?thesis using assms(1) by (simp add: jobs_inv_def idem_keys_def list_all_iff)
qed

lemma jobs_inv_row: "jobs_inv jobs n \<Longrightarrow> r \<in> set jobs \<Longrightarrow> job_row_ok r"
  by (simp add: jobs_inv_def list_all_iff)

lemma jobs_inv_unique:
  "jobs_inv jobs n \<Longrightarrow> r \<in> set jobs \<Longrightarrow> s \<in> set jobs \<Longrightarrow> jr_id r = jr_id s \<Longrightarrow> r = s"
  by (auto simp: jobs_inv_def distinct_map dest: inj_onD)

lemma jobs_inv_append:
  assumes "jobs_inv jobs n" and "\<not> job_conflict r jobs" and "job_row_ok r" and "jr_queue_position r = n"
  shows "jobs_inv (jobs @ [r]) (n + 1)"
  using assms
  by (auto simp: jobs_inv_def job_conflict_def idem_keys_def list_all_iff split: option.splits)

section \<open>The attempts table\<close>

type_synonym claim_view = "string \<times> int \<times> bool \<times> string option"

definition claim_view :: "job_row \<Rightarrow> claim_view" where
  "claim_view r = (jr_id r, jr_attempt_count r, jr_status r = RUNNING, jr_fencing_token r)"

definition attempt_in :: "claim_view list \<Rightarrow> attempt_row \<Rightarrow> bool" where
  "attempt_in vs a \<longleftrightarrow>
     list_ex (\<lambda>(i, n, run, t). i = ar_job_id a \<and> ar_attempt a \<le> n
       \<and> (ar_status a = ''running'' \<longleftrightarrow> run \<and> ar_attempt a = n)) vs"

definition attempts_of :: "attempt_row list \<Rightarrow> claim_view \<Rightarrow> bool" where
  "attempts_of rows v \<longleftrightarrow> (case v of (i, n, run, t) \<Rightarrow>
     list_all (\<lambda>m. list_ex (\<lambda>a. ar_job_id a = i \<and> ar_attempt a = m) rows) [1..n]
   \<and> (run \<longrightarrow> list_ex (\<lambda>a. ar_job_id a = i \<and> ar_attempt a = n \<and> t = Some (ar_fencing_token a)) rows))"

text \<open>
  Every attempt belongs to a job and to one of its generations; the attempts of a job are
  numbered 1 to its count, and exactly the current attempt of a running job is open.
\<close>

definition attempts_inv :: "claim_view list \<Rightarrow> attempt_row list \<Rightarrow> bool" where
  "attempts_inv vs rows \<longleftrightarrow>
     distinct (map ar_id rows) \<and> distinct (map ar_fencing_token rows)
   \<and> distinct (map (\<lambda>a. (ar_job_id a, ar_attempt a)) rows)
   \<and> list_all (\<lambda>a. 1 \<le> ar_attempt a \<and> has_token (ar_job_id a) (ar_attempt a) (ar_fencing_token a)
        \<and> attempt_in vs a) rows
   \<and> list_all (attempts_of rows) vs"

definition view_upd :: "string \<Rightarrow> claim_view \<Rightarrow> claim_view list \<Rightarrow> claim_view list" where
  "view_upd k w vs = map (\<lambda>v. if fst v = k then w else v) vs"

lemma views_update:
  assumes "jobs_inv jobs n" and "r \<in> set jobs" and "p r" and "\<And>x. p x \<Longrightarrow> jr_id x = jr_id r"
  shows "map claim_view (sql_update p f jobs) = view_upd (jr_id r) (claim_view (f r)) (map claim_view jobs)"
proof -
  have "(if p x then f x else x) = (if jr_id x = jr_id r then f r else x)" if "x \<in> set jobs" for x
    using jobs_inv_unique [OF assms(1) that assms(2)] assms(3,4) by metis
  then have "claim_view (if p x then f x else x) =
      (if fst (claim_view x) = jr_id r then claim_view (f r) else claim_view x)" if "x \<in> set jobs" for x
    using that by (simp add: claim_view_def)
  then show ?thesis unfolding view_upd_def sql_update_def map_map by (intro map_cong) simp_all
qed

lemma view_in_unique:
  assumes "distinct (map fst vs)" and "(k, a) \<in> set vs" and "(k, b) \<in> set vs" shows "a = b"
  using assms by (metis eq_key_imp_eq_value)

lemma attempt_inI:
  "(i, n, run, t) \<in> set vs \<Longrightarrow> i = ar_job_id a \<Longrightarrow> ar_attempt a \<le> n
     \<Longrightarrow> (ar_status a = ''running'' \<longleftrightarrow> run \<and> ar_attempt a = n) \<Longrightarrow> attempt_in vs a"
  unfolding attempt_in_def list_ex_iff by (rule bexI [where x = "(i, n, run, t)"], simp only: prod.case, simp only:)

lemma attempt_inE:
  assumes "attempt_in vs a"
  obtains n run t where "(ar_job_id a, n, run, t) \<in> set vs" "ar_attempt a \<le> n"
    "ar_status a = ''running'' \<longleftrightarrow> run \<and> ar_attempt a = n"
proof -
  from assms obtain v where "v \<in> set vs" and v: "case v of (i, n, run, t) \<Rightarrow> i = ar_job_id a
      \<and> ar_attempt a \<le> n \<and> (ar_status a = ''running'' \<longleftrightarrow> run \<and> ar_attempt a = n)"
    unfolding attempt_in_def list_ex_iff by (rule bexE)
  with that show thesis by (cases v) simp
qed

lemma current_attempt:
  assumes "attempts_inv vs rows" and "(k, n, True, t) \<in> set vs"
  shows "\<exists>b \<in> set rows. ar_job_id b = k \<and> ar_attempt b = n \<and> t = Some (ar_fencing_token b)"
proof -
  have "attempts_of rows (k, n, True, t)" using assms by (simp add: attempts_inv_def list_all_iff)
  then show ?thesis by (simp add: attempts_of_def list_ex_iff)
qed

lemma attempt_unique:
  assumes "attempts_inv vs rows" and "a \<in> set rows" and "b \<in> set rows"
    and "ar_job_id a = ar_job_id b" and "ar_attempt a = ar_attempt b"
  shows "a = b"
proof -
  have "inj_on (\<lambda>a. (ar_job_id a, ar_attempt a)) (set rows)"
    using assms(1) by (simp add: attempts_inv_def distinct_map)
  from inj_onD [OF this _ assms(2,3)] assms(4,5) show ?thesis by simp
qed

lemma view_upd_other: "v \<in> set vs \<Longrightarrow> fst v \<noteq> k \<Longrightarrow> v \<in> set (view_upd k w vs)"
  by (force simp: view_upd_def)

lemma view_upd_this: "(k, x) \<in> set vs \<Longrightarrow> w \<in> set (view_upd k w vs)"
  by (force simp: view_upd_def)

lemma view_updE:
  assumes "v \<in> set (view_upd k w vs)"
  shows "v = w \<or> (v \<in> set vs \<and> fst v \<noteq> k)"
  using assms by (auto simp: view_upd_def split: if_splits)

lemma attempts_inv_keep:
  assumes "attempts_inv vs rows" and "list_all (attempts_of rows') vs'"
    and "map ar_id rows' = map ar_id rows" and "map ar_fencing_token rows' = map ar_fencing_token rows"
    and "map ar_job_id rows' = map ar_job_id rows" and "map ar_attempt rows' = map ar_attempt rows"
    and "list_all (attempt_in vs') rows'"
  shows "attempts_inv vs' rows'"
proof -
  have zipped: "map (\<lambda>a. (ar_job_id a, ar_attempt a)) xs = zip (map ar_job_id xs) (map ar_attempt xs)" for xs
    by (simp add: zip_map_map zip_same_conv_map)
  have "list_all (\<lambda>a. 1 \<le> ar_attempt a \<and> has_token (ar_job_id a) (ar_attempt a) (ar_fencing_token a)) rows'"
  proof -
    have len: "length rows' = length rows" using assms(3) by (metis length_map)
    show ?thesis
      unfolding list_all_length
    proof (intro allI impI)
      fix i assume i: "i < length rows'"
      have "ar_attempt (rows' ! i) = ar_attempt (rows ! i)" "ar_job_id (rows' ! i) = ar_job_id (rows ! i)"
        "ar_fencing_token (rows' ! i) = ar_fencing_token (rows ! i)"
        using i len assms(4-6) by (metis nth_map)+
      moreover have "rows ! i \<in> set rows" using i len by simp
      ultimately show "1 \<le> ar_attempt (rows' ! i) \<and>
          has_token (ar_job_id (rows' ! i)) (ar_attempt (rows' ! i)) (ar_fencing_token (rows' ! i))"
        using assms(1) by (auto simp: attempts_inv_def list_all_iff)
    qed
  qed
  moreover have "map (\<lambda>a. (ar_job_id a, ar_attempt a)) rows' = map (\<lambda>a. (ar_job_id a, ar_attempt a)) rows"
    by (simp only: zipped assms(5,6))
  ultimately show ?thesis using assms(1-4,7) by (simp add: attempts_inv_def list_all_iff)
qed

lemma close_attempt_fields [simp]:
  "ar_id (close_attempt st now e a) = ar_id a" "ar_job_id (close_attempt st now e a) = ar_job_id a"
  "ar_attempt (close_attempt st now e a) = ar_attempt a"
  "ar_fencing_token (close_attempt st now e a) = ar_fencing_token a"
  "ar_status (close_attempt st now e a) = st"
  by (simp_all add: close_attempt_def)

lemma list_ex_update:
  assumes "list_ex P rows" and "\<And>a. p a \<Longrightarrow> P a \<Longrightarrow> P (f a)"
  shows "list_ex P (sql_update p f rows)"
  using assms by (auto simp: list_ex_iff set_sql_update)

lemma attempts_retire:
  assumes inv: "attempts_inv vs rows" and d: "distinct (map fst vs)"
    and k: "(k, n, True, Some t) \<in> set vs" and st: "st \<noteq> ''running''"
  shows "attempts_inv (view_upd k (k, n, False, t') vs)
           (sql_update (running_attempt k t) (close_attempt st now err) rows)"
proof (rule attempts_inv_keep [OF inv])
  let ?rows = "sql_update (running_attempt k t) (close_attempt st now err) rows"
  have keep: "list_ex (\<lambda>a. ar_job_id a = i \<and> ar_attempt a = m) ?rows"
    if "list_ex (\<lambda>a. ar_job_id a = i \<and> ar_attempt a = m) rows" for i m
    by (rule list_ex_update [OF that]) simp
  have keep_tok: "list_ex (\<lambda>a. ar_job_id a = i \<and> ar_attempt a = m \<and> x = Some (ar_fencing_token a)) ?rows"
    if "list_ex (\<lambda>a. ar_job_id a = i \<and> ar_attempt a = m \<and> x = Some (ar_fencing_token a)) rows" for i m x
    by (rule list_ex_update [OF that]) simp
  show "list_all (attempts_of ?rows) (view_upd k (k, n, False, t') vs)"
    unfolding list_all_iff
  proof
    fix v assume "v \<in> set (view_upd k (k, n, False, t') vs)"
    then consider "v = (k, n, False, t')" | "v \<in> set vs" using view_updE by blast
    then show "attempts_of ?rows v"
    proof cases
      case 1
      have "attempts_of rows (k, n, True, Some t)" using inv k by (simp add: attempts_inv_def list_all_iff)
      with 1 keep show ?thesis by (simp add: attempts_of_def list_all_iff)
    next
      case 2
      then have "attempts_of rows v" using inv by (simp add: attempts_inv_def list_all_iff)
      then show ?thesis using keep keep_tok by (cases v) (simp add: attempts_of_def list_all_iff)
    qed
  qed
  show "list_all (attempt_in (view_upd k (k, n, False, t') vs)) ?rows"
    unfolding list_all_iff
  proof
    fix x assume "x \<in> set ?rows"
    then obtain a where a: "a \<in> set rows"
      and x: "x = (if running_attempt k t a then close_attempt st now err a else a)"
      unfolding set_sql_update by blast
    have "attempt_in vs a" using inv a by (auto simp: attempts_inv_def list_all_iff)
    then obtain m run s where v: "(ar_job_id a, m, run, s) \<in> set vs" "ar_attempt a \<le> m"
      "ar_status a = ''running'' \<longleftrightarrow> run \<and> ar_attempt a = m"
      by (rule attempt_inE)
    show "attempt_in (view_upd k (k, n, False, t') vs) x"
    proof (cases "ar_job_id a = k")
      case False
      then have "(ar_job_id a, m, run, s) \<in> set (view_upd k (k, n, False, t') vs)"
        using v(1) by (simp add: view_upd_other)
      moreover have "x = a" using x False by (simp add: running_attempt_def)
      ultimately show ?thesis using v by (blast intro: attempt_inI)
    next
      case True
      have m: "m = n \<and> run \<and> s = Some t" using view_in_unique [OF d k] v(1) True by auto
      from current_attempt [OF inv k] obtain b where
        b: "b \<in> set rows" "ar_job_id b = k" "ar_attempt b = n" "ar_fencing_token b = t" by auto
      have "a = b" if "ar_attempt a = n"
        using attempt_unique [OF inv a b(1)] b(2,3) True that by simp
      then have "ar_status x \<noteq> ''running''"
        using v(3) m x b True st by (auto simp: running_attempt_def)
      moreover have "(k, n, False, t') \<in> set (view_upd k (k, n, False, t') vs)"
        using k by (rule view_upd_this)
      ultimately show ?thesis using True v(2) m x by (auto intro!: attempt_inI)
    qed
  qed
qed (simp_all add: map_sql_update)

text \<open>A new attempt of a job that is not running.\<close>

lemma attempts_open:
  assumes inv: "attempts_inv vs rows" and d: "distinct (map fst vs)"
    and k: "(k, n, False, t) \<in> set vs" and n: "0 \<le> n"
    and a: "ar_job_id a = k" "ar_attempt a = n + 1" "ar_status a = ''running''"
      "has_token k (n + 1) (ar_fencing_token a)"
    and c: "\<not> attempt_conflict a rows"
  shows "attempts_inv (view_upd k (k, n + 1, True, Some (ar_fencing_token a)) vs) (rows @ [a])"
proof -
  let ?w = "(k, n + 1, True, Some (ar_fencing_token a))"
  let ?vs = "view_upd k ?w vs"
  have w_in: "?w \<in> set ?vs" using k by (rule view_upd_this)
  have old: "attempt_in ?vs x" if x: "x \<in> set rows" for x
  proof -
    have "attempt_in vs x" using inv x by (simp add: attempts_inv_def list_all_iff)
    then obtain m run s where v: "(ar_job_id x, m, run, s) \<in> set vs" "ar_attempt x \<le> m"
      "ar_status x = ''running'' \<longleftrightarrow> run \<and> ar_attempt x = m" by (rule attempt_inE)
    show ?thesis
    proof (cases "ar_job_id x = k")
      case True
      then have "m = n \<and> \<not> run" using view_in_unique [OF d k] v(1) by auto
      with v True show ?thesis by (intro attempt_inI [OF w_in]) auto
    next
      case False
      then have "(ar_job_id x, m, run, s) \<in> set ?vs" using v(1) by (simp add: view_upd_other)
      with v show ?thesis by (blast intro: attempt_inI)
    qed
  qed
  have new: "attempt_in ?vs a" using w_in a by (auto intro!: attempt_inI)
  have views: "attempts_of (rows @ [a]) v" if "v \<in> set ?vs" for v
  proof -
    from view_updE [OF that] consider "v = ?w" | "v \<in> set vs" by blast
    then show ?thesis
    proof cases
      case 1
      have "attempts_of rows (k, n, False, t)" using inv k by (simp add: attempts_inv_def list_all_iff)
      moreover have "m \<in> {1..n} \<or> n + 1 = m" if "m \<in> {1..n + 1}" for m using that by auto
      ultimately show ?thesis unfolding 1 using a by (auto simp: attempts_of_def list_all_iff)
    next
      case 2
      then have "attempts_of rows v" using inv by (simp add: attempts_inv_def list_all_iff)
      then show ?thesis by (cases v) (simp add: attempts_of_def list_all_iff)
    qed
  qed
  have "ar_id a \<notin> ar_id ` set rows" "ar_fencing_token a \<notin> ar_fencing_token ` set rows"
    "(ar_job_id a, ar_attempt a) \<notin> (\<lambda>a. (ar_job_id a, ar_attempt a)) ` set rows"
    using c by (auto simp: attempt_conflict_def)
  with inv old new views a n show ?thesis
    unfolding attempts_inv_def by (simp add: list_all_iff)
qed

lemma attempts_add_job:
  assumes "attempts_inv vs rows" shows "attempts_inv (vs @ [(k, 0, False, t)]) rows"
proof -
  have "attempt_in (vs @ w) x" if "attempt_in vs x" for w x
    using that by (simp add: attempt_in_def)
  with assms show ?thesis by (simp add: attempts_inv_def list_all_iff attempts_of_def)
qed

text \<open>A fresh attempt never violates a constraint but that on its own identifier.\<close>

lemma attempt_no_conflict:
  assumes inv: "attempts_inv vs rows" and d: "distinct (map fst vs)"
    and k: "(k, n, run, t) \<in> set vs" and n: "0 \<le> n"
    and u: "\<forall>v \<in> set vs. uuid_chars (fst v)"
    and a: "ar_job_id a = k" "ar_attempt a = n + 1" "has_token k (n + 1) (ar_fencing_token a)"
    and fresh: "ar_id a \<notin> ar_id ` set rows"
  shows "\<not> attempt_conflict a rows"
proof -
  have bound: "ar_attempt x \<le> n" "1 \<le> ar_attempt x" "has_token k (ar_attempt x) (ar_fencing_token x)"
    if x: "x \<in> set rows" and xk: "ar_job_id x = k" for x
  proof -
    have "attempt_in vs x" and h: "has_token (ar_job_id x) (ar_attempt x) (ar_fencing_token x)"
      and o: "1 \<le> ar_attempt x"
      using inv x by (simp_all add: attempts_inv_def list_all_iff)
    then obtain m r s where "(k, m, r, s) \<in> set vs" "ar_attempt x \<le> m" by (metis attempt_inE xk)
    with view_in_unique [OF d k] show "ar_attempt x \<le> n" by fastforce
    show "1 \<le> ar_attempt x" by (rule o)
    show "has_token k (ar_attempt x) (ar_fencing_token x)" using h xk by simp
  qed
  have tok: "ar_fencing_token x \<noteq> ar_fencing_token a" if x: "x \<in> set rows" for x
  proof
    assume e: "ar_fencing_token x = ar_fencing_token a"
    have "attempt_in vs x" and h: "has_token (ar_job_id x) (ar_attempt x) (ar_fencing_token x)"
      and o: "1 \<le> ar_attempt x"
      using inv x by (simp_all add: attempts_inv_def list_all_iff)
    then obtain m r s where "(ar_job_id x, m, r, s) \<in> set vs" by (metis attempt_inE)
    then have "uuid_chars (ar_job_id x)" "uuid_chars k" using u k by force+
    with has_token_inject [OF h [unfolded e] a(3)] o n
    have "ar_job_id x = k \<and> ar_attempt x = n + 1" by simp
    with bound(1) [OF x] show False by simp
  qed
  have "\<not> (ar_job_id x = ar_job_id a \<and> ar_attempt x = ar_attempt a)" "ar_id x \<noteq> ar_id a"
    if "x \<in> set rows" for x
    using bound(1) [OF that] a fresh imageI [OF that, of ar_id] by auto
  then show ?thesis using tok a(2) n unfolding attempt_conflict_def by (metis add_increasing not_less order_refl)
qed

section \<open>The events of the jobs\<close>

type_synonym status_view = "string \<times> int \<times> job_status"

definition status_view :: "job_row \<Rightarrow> status_view" where
  "status_view r = (jr_id r, jr_attempt_count r, jr_status r)"

definition job_event_types :: "string list" where
  "job_event_types = map event_type_for [SUCCEEDED, RETRY_WAIT, CANCELLED, FAILED]"

definition final_event_types :: "string list" where
  "final_event_types = map event_type_for [SUCCEEDED, CANCELLED, FAILED]"

text \<open>The deduplication keys that finalized attempts and cancelled jobs account for.\<close>

definition view_uses_key :: "string \<Rightarrow> status_view \<Rightarrow> bool" where
  "view_uses_key key v \<longleftrightarrow> (case v of (k, n, st) \<Rightarrow>
     st = CANCELLED \<and> key = cancelled_key k
   \<or> list_ex (\<lambda>m. (m < n \<or> st \<noteq> RUNNING) \<and> list_ex (\<lambda>ty. key = attempt_key k m ty) job_event_types) [1..n])"

lemma view_uses_key_iff:
  "view_uses_key key (k, n, st) \<longleftrightarrow>
     st = CANCELLED \<and> key = cancelled_key k
   \<or> (\<exists>m \<in> {1..n}. (m < n \<or> st \<noteq> RUNNING) \<and> (\<exists>ty \<in> set job_event_types. key = attempt_key k m ty))"
  by (simp add: view_uses_key_def list_ex_iff)

definition final_events :: "string \<Rightarrow> event_row list \<Rightarrow> string list" where
  "final_events k es = map ev_type (filter (\<lambda>e. ev_aggregate_type e = ''job'' \<and> ev_aggregate_id e = k
     \<and> ev_type e \<in> set final_event_types) es)"

text \<open>
  Each finished job has exactly one final event in the store, of the type of its status; an
  unfinished job has none.
\<close>

definition events_inv :: "status_view list \<Rightarrow> outbox_db \<Rightarrow> bool" where
  "events_inv vs ob \<longleftrightarrow>
     outbox_inv ob
   \<and> list_all (\<lambda>r. case or_deduplication_key r of None \<Rightarrow> True
       | Some key \<Rightarrow> take 4 key = ''job:'' \<longrightarrow> list_ex (view_uses_key key) vs) (db_outbox ob)
   \<and> list_all (\<lambda>e. ev_aggregate_type e = ''job'' \<longrightarrow> ev_aggregate_id e \<in> set (map fst vs)) (db_events ob)
   \<and> list_all (\<lambda>(k, n, st). final_events k (db_events ob)
       = (if terminal st then [event_type_for st] else [])) vs"

definition sview_upd :: "string \<Rightarrow> status_view \<Rightarrow> status_view list \<Rightarrow> status_view list" where
  "sview_upd k w vs = map (\<lambda>v. if fst v = k then w else v) vs"

lemma sviews_update:
  assumes "jobs_inv jobs n" and "r \<in> set jobs" and "p r" and "\<And>x. p x \<Longrightarrow> jr_id x = jr_id r"
  shows "map status_view (sql_update p f jobs)
       = sview_upd (jr_id r) (status_view (f r)) (map status_view jobs)"
proof -
  have "(if p x then f x else x) = (if jr_id x = jr_id r then f r else x)" if "x \<in> set jobs" for x
    using jobs_inv_unique [OF assms(1) that assms(2)] assms(3,4) by metis
  then have "status_view (if p x then f x else x) =
      (if fst (status_view x) = jr_id r then status_view (f r) else status_view x)" if "x \<in> set jobs" for x
    using that by (simp add: status_view_def)
  then show ?thesis unfolding sview_upd_def sql_update_def map_map by (intro map_cong) simp_all
qed

lemma sview_updE:
  assumes "v \<in> set (sview_upd k w vs)" shows "v = w \<or> (v \<in> set vs \<and> fst v \<noteq> k)"
  using assms by (auto simp: sview_upd_def split: if_splits)

lemma fst_sview_upd: "fst w = k \<Longrightarrow> map fst (sview_upd k w vs) = map fst vs"
  by (simp add: sview_upd_def comp_def)

lemma list_all_sview_upd:
  assumes "list_all P vs" and "P w" shows "list_all P (sview_upd k w vs)"
  using assms sview_updE unfolding list_all_iff by metis

lemma view_uses_mono:
  assumes "list_ex (view_uses_key key) vs" and "distinct (map fst vs)" and "(k, n, st) \<in> set vs"
    and "st \<noteq> CANCELLED" and "n < n' \<or> n = n' \<and> (st' \<noteq> RUNNING \<or> st = RUNNING)"
  shows "list_ex (view_uses_key key) (sview_upd k (k, n', st') vs)"
proof -
  from assms(1) obtain v where v: "v \<in> set vs" "view_uses_key key v" by (auto simp: list_ex_iff)
  show ?thesis
  proof (cases "fst v = k")
    case False
    then have "v \<in> set (sview_upd k (k, n', st') vs)" using v(1) by (force simp: sview_upd_def)
    with v(2) show ?thesis by (auto simp: list_ex_iff)
  next
    case True
    then have "v = (k, n, st)" using assms(2,3) v(1) by (metis eq_key_imp_eq_value prod.collapse)
    with v(2) have "view_uses_key key (k, n, st)" by simp
    with assms(4) obtain m where m: "m \<in> {1..n}" "m < n \<or> st \<noteq> RUNNING"
        "\<exists>ty \<in> set job_event_types. key = attempt_key k m ty"
      unfolding view_uses_key_iff by blast
    have "m \<in> {1..n'} \<and> (m < n' \<or> st' \<noteq> RUNNING)" using m(1,2) assms(5) by auto
    with m(3) have "view_uses_key key (k, n', st')" unfolding view_uses_key_iff by blast
    moreover have "(k, n', st') \<in> set (sview_upd k (k, n', st') vs)"
      using assms(3) by (force simp: sview_upd_def)
    ultimately show ?thesis by (auto simp: list_ex_iff)
  qed
qed

lemma events_inv_keep:
  assumes "events_inv vs ob" and "distinct (map fst vs)" and "(k, n, st) \<in> set vs"
    and "\<not> terminal st" and "\<not> terminal st'"
    and "n < n' \<or> n = n' \<and> (st' \<noteq> RUNNING \<or> st = RUNNING)"
  shows "events_inv (sview_upd k (k, n', st') vs) ob"
proof -
  have nc: "st \<noteq> CANCELLED" using assms(4) by (auto simp: terminal_def)
  have "final_events k (db_events ob) = []"
    using assms(1,3,4) by (force simp: events_inv_def list_all_iff)
  then have "list_all (\<lambda>(k, n, st). final_events k (db_events ob)
      = (if terminal st then [event_type_for st] else [])) (sview_upd k (k, n', st') vs)"
    using assms(1,5) by (intro list_all_sview_upd) (simp_all add: events_inv_def)
  moreover have "map fst (sview_upd k (k, n', st') vs) = map fst vs" by (simp add: fst_sview_upd)
  ultimately show ?thesis
    using assms(1) view_uses_mono [OF _ assms(2,3) nc assms(6)]
    by (auto simp: events_inv_def list_all_iff split: option.splits)
qed

text \<open>What the outbox gains when an event is recorded under an unused key.\<close>

lemma event_type_strip [simp]: "py_strip (event_type_for st) = event_type_for st"
  by (cases st) (simp_all add: py_strip_def py_space_def)

lemma job_event_fields:
  assumes "job_event env (event_type_for st) k corr caus payload = Inr w"
  shows "make_envelope w = Inr w \<and> ev_type w = event_type_for st \<and> ev_aggregate_type w = ''job''
       \<and> ev_aggregate_id w = k"
proof -
  have j: "py_strip ''job'' = ''job''" by (simp add: py_strip_def py_space_def)
  have m: "make_envelope w = Inr w"
  proof -
    have w: "make_envelope w0 = Inr w \<Longrightarrow> 0 \<le> ev_sequence w" for w0 by (auto simp: make_envelope_Inr)
    have "make_envelope (w\<lparr>ev_sequence := ev_sequence w\<rparr>) = Inr (w\<lparr>ev_sequence := ev_sequence w\<rparr>)"
      using assms w unfolding job_event_def by (intro make_envelope_renumber) auto
    then show ?thesis by simp
  qed
  show ?thesis
    using assms m j unfolding job_event_def make_envelope_Inr by auto
qed

lemma emit_recorded:
  assumes ob: "outbox_inv ob"
    and ev: "emit_job_event hook env (job_event env (event_type_for st) k corr caus payload) key ob = Inr ob'"
    and key: "\<not> has_dedup key (db_outbox ob)"
  shows "\<exists>e r. ev_type e = event_type_for st \<and> ev_aggregate_type e = ''job'' \<and> ev_aggregate_id e = k
     \<and> or_deduplication_key r = Some key \<and> or_status r = OUTBOX_PENDING
     \<and> db_events ob' = db_events ob @ [e] \<and> db_outbox ob' = db_outbox ob @ [r] \<and> outbox_inv ob'"
proof -
  from ev obtain w b where w: "job_event env (event_type_for st) k corr caus payload = Inr w"
    and rn: "record_next hook (te_recorded env) (te_outbox_id env) w (Some key) ob = Inr (b, ob')"
    by (auto simp: emit_job_event_def split: sum.splits prod.splits)
  let ?n = "next_sequence (ev_aggregate_type w) (ev_aggregate_id w) ob"
  from job_event_fields [OF w] have f: "make_envelope w = Inr w" "ev_type w = event_type_for st"
    "ev_aggregate_type w = ''job''" "ev_aggregate_id w = k" by auto
  from rn obtain e where e: "make_envelope (w\<lparr>ev_sequence := ?n\<rparr>) = Inr e"
    and rec: "outbox_record hook (te_recorded env) (te_outbox_id env) e (Some key) ob = Inr (b, ob')"
    by (auto simp: record_next_def split: sum.splits)
  from e have "0 \<le> ?n" by (simp add: make_envelope_Inr)
  from make_envelope_renumber [OF f(1) this] e have e': "e = w\<lparr>ev_sequence := ?n\<rparr>" by simp
  have b: "b"
    using rec key by (auto simp: outbox_record_def Let_def split: if_splits sum.splits)
  have "outbox_inv ob'" using outbox_inv_record_next [OF ob rn] .
  moreover have "ev_type (event_row_of e) = event_type_for st" using f e' by (simp add: event_row_of_def)
  ultimately show ?thesis
    using outbox_record_Inr [OF rec] b f e'
    by (intro exI [of _ "event_row_of e"] exI [of _ "outbox_row_of (te_recorded env) (te_outbox_id env) (Some key) e"])
      (simp add: outbox_row_of_def)
qed

lemma final_types_terminal: "event_type_for st \<in> set final_event_types \<longleftrightarrow> st \<noteq> RETRY_WAIT"
  by (cases st) (auto simp: final_event_types_def)

lemma events_inv_emit:
  assumes inv: "events_inv vs ob" and d: "distinct (map fst vs)" and k: "(k, n, st) \<in> set vs"
    and t: "\<not> terminal st" and st': "terminal st' \<or> st' = RETRY_WAIT"
    and ev: "emit_job_event hook env (job_event env (event_type_for st') k corr caus payload) key ob = Inr ob'"
    and fresh: "\<not> has_dedup key (db_outbox ob)" and used: "view_uses_key key (k, n, st')"
  shows "events_inv (sview_upd k (k, n, st') vs) ob'"
proof -
  let ?vs = "sview_upd k (k, n, st') vs"
  have ob: "outbox_inv ob" using inv by (simp add: events_inv_def)
  from emit_recorded [OF ob ev fresh] obtain e r where
    e: "ev_type e = event_type_for st'" "ev_aggregate_type e = ''job''" "ev_aggregate_id e = k"
    and r: "or_deduplication_key r = Some key"
    and ob': "db_events ob' = db_events ob @ [e]" "db_outbox ob' = db_outbox ob @ [r]" "outbox_inv ob'"
    by blast
  have nc: "st \<noteq> CANCELLED" using t by (auto simp: terminal_def)
  have w_in: "(k, n, st') \<in> set ?vs" using k by (force simp: sview_upd_def)
  have fst: "map fst ?vs = map fst vs" by (simp add: fst_sview_upd)
  have keys: "list_all (\<lambda>r. case or_deduplication_key r of None \<Rightarrow> True
       | Some key \<Rightarrow> take 4 key = ''job:'' \<longrightarrow> list_ex (view_uses_key key) ?vs) (db_outbox ob')"
  proof -
    have "n < n \<or> n = n \<and> (st' \<noteq> RUNNING \<or> st = RUNNING)" using st' by (auto simp: terminal_def)
    then show ?thesis
      using inv view_uses_mono [OF _ d k nc, of _ n st'] used w_in r ob'(2)
      by (auto simp: events_inv_def list_all_iff list_ex_iff split: option.splits)
  qed
  have aggs: "list_all (\<lambda>e. ev_aggregate_type e = ''job'' \<longrightarrow> ev_aggregate_id e \<in> set (map fst ?vs)) (db_events ob')"
    using inv e k ob'(1) unfolding fst by (force simp: events_inv_def list_all_iff)
  have none: "final_events k (db_events ob) = []"
    using inv k t by (force simp: events_inv_def list_all_iff)
  have other: "final_events j (db_events ob') = final_events j (db_events ob)" if "j \<noteq> k" for j
    using that e ob'(1) by (simp add: final_events_def)
  have "final_events k (db_events ob') = (if terminal st' then [event_type_for st'] else [])"
    using none e ob'(1) st' final_types_terminal [of st']
    by (auto simp: final_events_def terminal_def)
  then have "list_all (\<lambda>(k, n, st). final_events k (db_events ob')
      = (if terminal st then [event_type_for st] else [])) ?vs"
    unfolding list_all_iff
  proof (intro ballI)
    fix v assume fin: "final_events k (db_events ob') = (if terminal st' then [event_type_for st'] else [])"
    assume "v \<in> set ?vs"
    then consider "v = (k, n, st')" | "v \<in> set vs" "fst v \<noteq> k" using sview_updE by blast
    then show "case v of (k, n, st) \<Rightarrow> final_events k (db_events ob')
        = (if terminal st then [event_type_for st] else [])"
    proof cases
      case 1
      then show ?thesis using fin by simp
    next
      case 2
      have "case v of (k, n, st) \<Rightarrow> final_events k (db_events ob)
          = (if terminal st then [event_type_for st] else [])"
        using inv 2(1) by (simp add: events_inv_def list_all_iff)
      then show ?thesis using 2(2) other by (cases v) simp
    qed
  qed
  with keys aggs ob'(3) show ?thesis by (simp add: events_inv_def)
qed

lemma job_keys_prefix [simp]:
  "take 4 (attempt_key k n ty) = ''job:''" "take 4 (cancelled_key k) = ''job:''"
  by (simp_all add: attempt_key_def cancelled_key_def)

lemma has_dedup_used:
  assumes "events_inv vs ob" and "has_dedup key (db_outbox ob)" and "take 4 key = ''job:''"
  shows "\<exists>v \<in> set vs. view_uses_key key v"
proof -
  from assms(2) obtain r where "r \<in> set (db_outbox ob)" "or_deduplication_key r = Some key"
    by (auto simp: has_dedup_def)
  with assms(1,3) have "list_ex (view_uses_key key) vs"
    unfolding events_inv_def list_all_iff by fastforce
  then show ?thesis by (simp add: list_ex_iff)
qed

definition views_ok :: "status_view list \<Rightarrow> bool" where
  "views_ok vs \<longleftrightarrow> distinct (map fst vs) \<and> (\<forall>(k, n, st) \<in> set vs. uuid_chars k \<and> 0 \<le> n)"

lemma attempt_key_unused:
  assumes "events_inv vs ob" and "views_ok vs" and "(k, n, RUNNING) \<in> set vs"
  shows "\<not> has_dedup (attempt_key k n ty) (db_outbox ob)"
proof
  assume "has_dedup (attempt_key k n ty) (db_outbox ob)"
  from has_dedup_used [OF assms(1) this] obtain j m st where
    v: "(j, m, st) \<in> set vs" "view_uses_key (attempt_key k n ty) (j, m, st)" by auto
  have u: "uuid_chars k" "uuid_chars j" "0 \<le> n" using assms(2,3) v(1) by (auto simp: views_ok_def)
  from v(2) obtain i ty' where i: "i \<in> {1..m}" "i < m \<or> st \<noteq> RUNNING" "attempt_key k n ty = attempt_key j i ty'"
    unfolding view_uses_key_iff using cancelled_attempt_key [OF u(2,1)] by metis
  from attempt_key_inject [OF i(3) u] i(1) have "j = k" "i = n" by auto
  moreover from this have "m = n \<and> st = RUNNING"
    using assms(2,3) v(1) unfolding views_ok_def by (metis eq_key_imp_eq_value prod.inject)
  ultimately show False using i(2) by simp
qed

lemma cancelled_key_unused:
  assumes "events_inv vs ob" and "views_ok vs" and "(k, n, st) \<in> set vs" and "st \<noteq> CANCELLED"
  shows "\<not> has_dedup (cancelled_key k) (db_outbox ob)"
proof
  assume "has_dedup (cancelled_key k) (db_outbox ob)"
  from has_dedup_used [OF assms(1) this] obtain j m st' where
    v: "(j, m, st') \<in> set vs" "view_uses_key (cancelled_key k) (j, m, st')" by auto
  have u: "uuid_chars k" "uuid_chars j" using assms(2,3) v(1) by (auto simp: views_ok_def)
  from v(2) have "st' = CANCELLED" "j = k"
    unfolding view_uses_key_iff using cancelled_attempt_key [OF u] cancelled_key_inject by metis+
  then show False using assms(2-4) v(1) unfolding views_ok_def by (metis eq_key_imp_eq_value prod.inject)
qed

lemma events_inv_add_job:
  assumes "events_inv vs ob" and "k \<notin> set (map fst vs)"
  shows "events_inv (vs @ [(k, 0, PENDING)]) ob"
proof -
  have "final_events k (db_events ob) = []"
    using assms by (auto simp: events_inv_def list_all_iff final_events_def filter_empty_conv)
  then show ?thesis
    using assms(1) by (auto simp: events_inv_def list_all_iff terminal_def split: option.splits)
qed

text \<open>Outbox operations of other components: their records are not about jobs.\<close>

definition foreign_record :: "event_envelope \<Rightarrow> string option \<Rightarrow> bool" where
  "foreign_record e key \<longleftrightarrow> py_strip (ev_aggregate_type e) \<noteq> ''job''
     \<and> (case key of None \<Rightarrow> True | Some k \<Rightarrow> take 4 k \<noteq> ''job:'')"

fun foreign_op :: "outbox_op \<Rightarrow> bool" where
  "foreign_op (Record hook now rid e key) = foreign_record e key"
| "foreign_op (Record_Next hook now rid e key) = foreign_record e key"
| "foreign_op _ = True"

lemma claim_rows_dedup:
  "map or_deduplication_key (snd (claim_rows worker token x scanned rows)) = map or_deduplication_key rows"
  by (rule claim_rows_induct [where P = "\<lambda>rs. map or_deduplication_key rs = map or_deduplication_key rows"])
    (simp_all add: map_sql_update claim_flip_def)

lemma dedup_unchanged:
  "\<not> appends op \<Longrightarrow>
     map or_deduplication_key (db_outbox (snd (outbox_act op ob))) = map or_deduplication_key (db_outbox ob)"
  by (cases op) (simp_all add: claim_batch_def mark_published_def mark_failed_def reclaim_expired_claims_def
      case_prod_beta claim_rows_dedup map_sql_update release_claim_def)

lemma events_inv_dedup:
  "list_all (\<lambda>r. case or_deduplication_key r of None \<Rightarrow> True | Some key \<Rightarrow> P key) rows
     \<longleftrightarrow> list_all (\<lambda>k. case k of None \<Rightarrow> True | Some key \<Rightarrow> P key) (map or_deduplication_key rows)"
  by (simp add: list_all_iff)

lemma events_inv_foreign_append:
  assumes "events_inv vs ob" and "outbox_inv ob'" and "foreign_record e0 key"
    and "ev_aggregate_type e = py_strip (ev_aggregate_type e0)"
    and "db_events ob' = db_events ob @ [e]"
    and "db_outbox ob' = db_outbox ob @ [r]" and "or_deduplication_key r = key"
  shows "events_inv vs ob'"
proof -
  have "final_events j (db_events ob') = final_events j (db_events ob)" for j
    using assms(3-5) by (simp add: final_events_def foreign_record_def)
  with assms show ?thesis
    by (auto simp: events_inv_def foreign_record_def list_all_iff split: option.splits)
qed

lemma events_inv_foreign_record:
  assumes "events_inv vs ob" and "foreign_record e0 key" and "make_envelope e0 = Inr e"
    and "outbox_record hook now rid (e\<lparr>ev_sequence := n\<rparr>) key ob = Inr (b, ob')"
    and "outbox_inv ob'"
  shows "events_inv vs ob'"
proof (cases b)
  case False
  with outbox_record_Inr [OF assms(4)] assms(1) show ?thesis by simp
next
  case True
  have "ev_aggregate_type e = py_strip (ev_aggregate_type e0)" using assms(3) by (auto simp: make_envelope_Inr)
  then have "ev_aggregate_type (event_row_of (e\<lparr>ev_sequence := n\<rparr>)) = py_strip (ev_aggregate_type e0)"
    by (simp add: event_row_of_def)
  from events_inv_foreign_append [OF assms(1,5,2) this] outbox_record_Inr [OF assms(4)] True
  show ?thesis by (simp add: outbox_row_of_def)
qed

lemma events_inv_foreign:
  assumes "events_inv vs ob" and "foreign_op op"
  shows "events_inv vs (snd (outbox_act op ob))"
proof -
  have ob: "outbox_inv ob" using assms(1) by (simp add: events_inv_def)
  have ob': "outbox_inv (snd (outbox_act op ob))" using outbox_act_inv [OF ob] .
  show ?thesis
  proof (cases "appends op")
    case False
    show ?thesis
      using assms(1) ob' events_unchanged [OF False, of ob] dedup_unchanged [OF False, of ob]
      unfolding events_inv_def events_inv_dedup by simp
  next
    case True
    then show ?thesis
    proof (cases op)
      case (Record hook now rid e key)
      show ?thesis
      proof (cases "\<exists>w b ob1. make_envelope e = Inr w \<and> outbox_record hook now rid w key ob = Inr (b, ob1)")
        case True
        then obtain w b ob1 where w: "make_envelope e = Inr w" "outbox_record hook now rid w key ob = Inr (b, ob1)"
          by blast
        have "w\<lparr>ev_sequence := ev_sequence w\<rparr> = w" by simp
        with w ob' assms(2) events_inv_foreign_record [OF assms(1) _ w(1), of key hook now rid "ev_sequence w" b ob1]
        show ?thesis unfolding Record by simp
      next
        case False
        then show ?thesis using assms(1) unfolding Record by (auto split: sum.splits)
      qed
    next
      case (Record_Next hook now rid e key)
      show ?thesis
      proof (cases "\<exists>w b ob1. make_envelope e = Inr w \<and> record_next hook now rid w key ob = Inr (b, ob1)")
        case True
        then obtain w b ob1 where w: "make_envelope e = Inr w" "record_next hook now rid w key ob = Inr (b, ob1)"
          by blast
        let ?n = "next_sequence (ev_aggregate_type w) (ev_aggregate_id w) ob"
        from w(2) obtain w' where w': "make_envelope (w\<lparr>ev_sequence := ?n\<rparr>) = Inr w'"
          "outbox_record hook now rid w' key ob = Inr (b, ob1)" by (auto simp: record_next_def split: sum.splits)
        from w'(1) have "0 \<le> ?n" by (simp add: make_envelope_Inr)
        from make_envelope_renumber [OF w(1) this] w'(1) have "w' = w\<lparr>ev_sequence := ?n\<rparr>" by simp
        with w w'(2) ob' assms(2) events_inv_foreign_record [OF assms(1) _ w(1), of key hook now rid ?n b ob1]
        show ?thesis unfolding Record_Next by simp
      next
        case False
        then show ?thesis using assms(1) unfolding Record_Next by (auto split: sum.splits)
      qed
    qed simp_all
  qed
qed

end
