(* ===== verification/Job_System.thy ===== *)
theory Job_System
  imports Job_Invariant
begin

text \<open>
  Every operation of the queue keeps the invariant of the tables and only moves rows forward
  (\<open>row_le\<close>): counters grow, finished rows stay as they are, a generation is never claimed
  twice. At the end the operations form one system, whose clients present only envelopes that
  the queue has issued, and the contract of fencing is discharged for it.
\<close>

section \<open>The invariant of all tables\<close>

definition job_inv :: "job_db \<Rightarrow> bool" where
  "job_inv db \<longleftrightarrow>
     jobs_inv (jd_jobs db) (jd_next db)
   \<and> attempts_inv (map claim_view (jd_jobs db)) (jd_attempts db)
   \<and> events_inv (map status_view (jd_jobs db)) (jd_outbox db)"

lemma fst_views [simp]:
  "fst (claim_view r) = jr_id r" "fst (status_view r) = jr_id r"
  by (simp_all add: claim_view_def status_view_def)

lemma jobs_inv_views:
  assumes "jobs_inv jobs n"
  shows "distinct (map fst (map claim_view jobs))" "views_ok (map status_view jobs)"
    "\<forall>v \<in> set (map claim_view jobs). uuid_chars (fst v)"
proof -
  have d: "distinct (map jr_id jobs)" using assms by (simp add: jobs_inv_def)
  then show "distinct (map fst (map claim_view jobs))" by (simp add: comp_def)
  have "uuid_chars (jr_id r) \<and> 0 \<le> jr_attempt_count r" if "r \<in> set jobs" for r
    using jobs_inv_row [OF assms that] by (simp add: job_row_ok_def job_core_ok_def job_claim_ok_def)
  then show "views_ok (map status_view jobs)" "\<forall>v \<in> set (map claim_view jobs). uuid_chars (fst v)"
    using d by (auto simp: views_ok_def comp_def status_view_def)
qed

lemma events_inv_empty: "events_inv [] empty_outbox"
  by (simp add: events_inv_def outbox_inv_empty) (simp add: empty_outbox_def)

lemma job_inv_empty: "job_inv empty_jobs"
  by (simp add: job_inv_def empty_jobs_def jobs_inv_def idem_keys_def attempts_inv_def events_inv_empty)

section \<open>Rows move forward\<close>

definition row_le :: "job_row \<Rightarrow> job_row \<Rightarrow> bool" where
  "row_le a b \<longleftrightarrow>
     core_view a = core_view b \<and> jr_attempt_count a \<le> jr_attempt_count b
   \<and> (terminal (jr_status a) \<longrightarrow> b = a)
   \<and> (jr_attempt_count a = jr_attempt_count b \<longrightarrow>
        (jr_status a \<noteq> RUNNING \<longrightarrow> jr_status b \<noteq> RUNNING)
      \<and> (jr_fencing_token b = jr_fencing_token a \<or> jr_fencing_token b = None))"

definition advances :: "job_row list \<Rightarrow> job_row list \<Rightarrow> bool" where
  "advances xs ys \<longleftrightarrow> list_all (\<lambda>r. list_ex (row_le r) ys) xs"

lemma row_le_refl [simp]: "row_le r r"
  by (simp add: row_le_def)

lemma row_le_trans: "row_le a b \<Longrightarrow> row_le b c \<Longrightarrow> row_le a c"
  by (auto simp: row_le_def)

lemma advancesI: "(\<And>r. r \<in> set xs \<Longrightarrow> \<exists>r' \<in> set ys. row_le r r') \<Longrightarrow> advances xs ys"
  by (simp add: advances_def list_all_iff list_ex_iff)

lemma advances_refl [simp]: "advances xs xs"
  by (rule advancesI) (blast intro: row_le_refl)

lemma advances_trans: "advances xs ys \<Longrightarrow> advances ys zs \<Longrightarrow> advances xs zs"
  unfolding advances_def list_all_iff list_ex_iff using row_le_trans by blast

lemma advances_append [simp]: "advances xs (xs @ ys)"
  by (rule advancesI) (auto intro: row_le_refl)

lemma advances_update:
  assumes "\<And>r. r \<in> set xs \<Longrightarrow> p r \<Longrightarrow> row_le r (f r)" shows "advances xs (sql_update p f xs)"
proof (rule advancesI)
  fix r assume r: "r \<in> set xs"
  have "row_le r (if p r then f r else r)" using assms [OF r] by simp
  then show "\<exists>r' \<in> set (sql_update p f xs). row_le r r'" unfolding set_sql_update using r by blast
qed

lemma advances_row:
  "advances xs ys \<Longrightarrow> r \<in> set xs \<Longrightarrow> \<exists>r' \<in> set ys. row_le r r'"
  by (auto simp: advances_def list_all_iff list_ex_iff)

section \<open>Submission\<close>

lemma is_hex_plain: "is_hex c \<Longrightarrow> \<not> py_space c \<and> py_lower_char c = c"
  by (auto simp: is_hex_def py_space_def py_lower_char_def Let_def)

lemma validated_hex_idem:
  assumes "validated_hex n v = Inr c" and "0 < n" shows "validated_hex n c = Inr c"
proof -
  have c: "length c = n" "list_all is_hex c" "c \<noteq> replicate n (CHR ''0'')"
    using assms(1) by (auto simp: validated_hex_def Let_def split: if_splits)
  then have "c \<noteq> []" using assms(2) by auto
  then have "py_strip c = c"
    using c(2) by (intro py_strip_id) (auto simp: list_all_iff is_hex_plain hd_in_set last_in_set)
  moreover have "py_lower c = c"
    using c(2) by (simp add: py_lower_def list_all_iff is_hex_plain map_idI)
  ultimately show ?thesis using c by (simp add: validated_hex_def Let_def)
qed

lemma trace_ok_validated:
  assumes "optional validate_trace_id t = Inr t'" shows "trace_ok t'"
proof -
  have "0 < (32::nat)" by simp
  with assms show ?thesis
    unfolding trace_ok_def optional_def validate_trace_id_def
    using validated_hex_idem by (auto split: option.splits sum.splits)
qed

lemma make_submission_ok:
  assumes "make_submission v raw = Inr job"
  shows "1 \<le> js_max_attempts job \<and> (case js_timeout_s job of None \<Rightarrow> True | Some t \<Rightarrow> 0 < t)
       \<and> js_job_type job \<noteq> [] \<and> py_strip (js_job_type job) = js_job_type job
       \<and> is_map (js_payload job) \<and> is_frozen (js_payload job) \<and> trace_ok (js_trace_id job)"
proof -
  from assms obtain ro fs where p: "js_payload raw = PMap ro fs"
    by (auto simp: make_submission_def split: if_splits pyobj.splits)
  from assms p obtain jt q tr key where
    "1 \<le> js_max_attempts raw" "\<not> (case js_timeout_s raw of None \<Rightarrow> False | Some t \<Rightarrow> t \<le> 0)"
    "required_text ''job_type'' (js_job_type raw) = Inr jt" "freeze_json (PMap ro fs) = Inr q"
    "optional validate_trace_id (js_trace_id raw) = Inr tr"
    and job: "job = raw\<lparr>js_job_type := jt, js_payload := q,
                        js_version := (case v of None \<Rightarrow> 1 | Some v \<Rightarrow> v),
                        js_trace_id := tr, js_idempotency_key := key\<rparr>"
    by (auto simp: make_submission_def simp del: freeze_json.simps split: if_splits sum.splits)
  moreover have "is_map q" using freeze_PMap_shape [OF \<open>freeze_json (PMap ro fs) = Inr q\<close>] by auto
  moreover have "is_frozen q" using \<open>freeze_json (PMap ro fs) = Inr q\<close> by (rule freeze_frozen(1))
  ultimately show ?thesis
    using trace_ok_validated by (auto simp: required_text_Inr split: option.splits)
qed

lemma new_job_row_ok:
  assumes "make_submission v raw = Inr job" and "uuid_chars job_id"
    and "\<not> job_conflict (new_job_row now job_id run_at pos job) jobs"
  shows "job_row_ok (new_job_row now job_id run_at pos job)"
  using make_submission_ok [OF assms(1)] assms(2,3) frozen_json_compatible [of "js_payload job"]
  by (auto simp: job_row_ok_def job_core_ok_def job_claim_ok_def new_job_row_def job_conflict_def
      terminal_def)

lemma job_insert_cases:
  "snd (job_insert snap now job_id run_at job db) = db
     \<or> snd (job_insert snap now job_id run_at job db) = db\<lparr>jd_next := jd_next db + 1\<rparr>
     \<or> \<not> job_conflict (new_job_row now job_id run_at (jd_next db) job) (jd_jobs db)
       \<and> snd (job_insert snap now job_id run_at job db) = db\<lparr>jd_next := jd_next db + 1,
             jd_jobs := jd_jobs db @ [new_job_row now job_id run_at (jd_next db) job]\<rparr>"
  unfolding job_insert_def Let_def by (simp split: option.split)

lemma job_insert_inv:
  assumes inv: "job_inv db" and sub: "make_submission v raw = Inr job" and u: "uuid_chars job_id"
  shows "job_inv (snd (job_insert snap now job_id run_at job db))
       \<and> advances (jd_jobs db) (jd_jobs (snd (job_insert snap now job_id run_at job db)))"
proof -
  let ?row = "new_job_row now job_id run_at (jd_next db) job"
  let ?db' = "snd (job_insert snap now job_id run_at job db)"
  consider "?db' = db" | "?db' = db\<lparr>jd_next := jd_next db + 1\<rparr>"
    | "\<not> job_conflict ?row (jd_jobs db)" "?db' = db\<lparr>jd_next := jd_next db + 1, jd_jobs := jd_jobs db @ [?row]\<rparr>"
    using job_insert_cases by blast
  then show ?thesis
  proof cases
    case 1
    then show ?thesis using inv by simp
  next
    case 2
    have "jobs_inv (jd_jobs db) (jd_next db + 1)"
      using inv by (auto simp: job_inv_def jobs_inv_def list_all_iff)
    then show ?thesis using inv 2 by (simp add: job_inv_def)
  next
    case 3
    have "jobs_inv (jd_jobs db @ [?row]) (jd_next db + 1)"
      using inv 3(1) new_job_row_ok [OF sub u 3(1)]
      by (intro jobs_inv_append) (auto simp: job_inv_def new_job_row_def)
    moreover have "claim_view ?row = (job_id, 0, False, None)" "status_view ?row = (job_id, 0, PENDING)"
      by (simp_all add: claim_view_def status_view_def new_job_row_def)
    moreover have "job_id \<notin> set (map fst (map status_view (jd_jobs db)))"
      using 3(1) by (auto simp: job_conflict_def new_job_row_def)
    ultimately show ?thesis
      using inv 3(2) by (simp add: job_inv_def attempts_add_job events_inv_add_job)
  qed
qed

section \<open>Claims\<close>

lemma job_inv_row: "job_inv db \<Longrightarrow> r \<in> set (jd_jobs db) \<Longrightarrow> job_row_ok r"
  unfolding job_inv_def using jobs_inv_row by blast

lemma view_upd_twice: "fst w' = k \<Longrightarrow> view_upd k w (view_upd k w' vs) = view_upd k w vs"
  by (auto simp: view_upd_def comp_def)

lemma fst_view_upd: "fst w = k \<Longrightarrow> map fst (view_upd k w vs) = map fst vs"
  by (simp add: view_upd_def comp_def)

definition new_attempt :: "time \<Rightarrow> string \<Rightarrow> string \<Rightarrow> string \<Rightarrow> job_row \<Rightarrow> attempt_row" where
  "new_attempt now worker token attempt_id row =
     \<lparr>ar_id = attempt_id, ar_job_id = jr_id row, ar_attempt = jr_attempt_count row + 1,
      ar_worker_id = worker, ar_fencing_token = token, ar_status = status_value RUNNING,
      ar_started_at = now, ar_finished_at = None, ar_error = None\<rparr>"

lemma new_attempt_fields [simp]:
  "ar_id (new_attempt now w tok aid row) = aid" "ar_job_id (new_attempt now w tok aid row) = jr_id row"
  "ar_attempt (new_attempt now w tok aid row) = jr_attempt_count row + 1"
  "ar_fencing_token (new_attempt now w tok aid row) = tok"
  "ar_status (new_attempt now w tok aid row) = ''running''"
  by (simp_all add: new_attempt_def)

lemma claim_attempts_idle:
  assumes "jr_status row \<noteq> RUNNING"
  shows "claim_attempts now w tok aid row rows =
     (if attempt_conflict (new_attempt now w tok aid row) rows then Inl (IntegrityError ''platform_job_attempts'')
      else Inr (rows @ [new_attempt now w tok aid row]))"
  using assms by (simp add: claim_attempts_def new_attempt_def)

lemma claim_attempts_takeover:
  assumes "jr_status row = RUNNING" and "jr_fencing_token row = Some t" and "t \<noteq> []"
  shows "claim_attempts now w tok aid row rows =
     (let closed = sql_update (running_attempt (jr_id row) t)
            (close_attempt ''abandoned'' now (Some ''lease expired before finalization'')) rows
      in if attempt_conflict (new_attempt now w tok aid row) closed
         then Inl (IntegrityError ''platform_job_attempts'')
         else Inr (closed @ [new_attempt now w tok aid row]))"
  using assms by (simp add: claim_attempts_def new_attempt_def truthy_def Let_def)

lemma running_row:
  assumes "job_row_ok r" and "jr_status r = RUNNING"
  obtains t w x where "jr_fencing_token r = Some t" "has_token (jr_id r) (jr_attempt_count r) t"
    "jr_claimed_by r = Some w" "jr_lease_expires_at r = Some x" "1 \<le> jr_attempt_count r"
  using assms by (auto simp: job_row_ok_def job_claim_ok_def split: option.splits)

lemma idle_row:
  assumes "job_row_ok r" and "jr_status r \<noteq> RUNNING"
  shows "jr_fencing_token r = None \<and> jr_claimed_by r = None \<and> jr_lease_expires_at r = None"
  using assms by (auto simp: job_row_ok_def job_claim_ok_def split: option.splits)

lemma row_counts:
  assumes "job_row_ok r"
  shows "0 \<le> jr_attempt_count r" "jr_attempt_count r \<le> jr_max_attempts r"
    "jr_lease_generation r = jr_attempt_count r" "uuid_chars (jr_id r)" "1 \<le> jr_max_attempts r"
  using assms by (auto simp: job_row_ok_def job_claim_ok_def job_core_ok_def)

lemma unfinished_result:
  assumes "job_row_ok r" and "\<not> terminal (jr_status r)" shows "jr_result r = None"
  using assms by (cases "jr_result r") (auto simp: job_row_ok_def job_claim_ok_def terminal_def)

text \<open>A guard that holds and attempts that fit pin the scanned row to the current generation.\<close>

lemma claim_same_generation:
  assumes inv: "job_inv db" and r: "r \<in> set (jd_jobs db)" and le: "row_le row r"
    and row: "job_row_ok row" and g: "job_claim_guard now row r"
    and a: "claim_attempts now worker token aid row (jd_attempts db) = Inr attempts"
  shows "jr_attempt_count r = jr_attempt_count row"
proof -
  note ok = job_inv_row [OF inv r]
  have ids: "jr_id r = jr_id row" using g by (simp add: job_claim_guard_def)
  have le': "jr_attempt_count row \<le> jr_attempt_count r" using le by (simp add: row_le_def)
  show ?thesis
  proof (cases "jr_status row = RUNNING")
    case True
    then have rr: "jr_status r = RUNNING" "jr_fencing_token r = jr_fencing_token row"
      using g by (simp_all add: job_claim_guard_def)
    from running_row [OF row True] obtain t where t: "jr_fencing_token row = Some t"
      "has_token (jr_id row) (jr_attempt_count row) t" by blast
    from running_row [OF ok rr(1)] obtain t' where "jr_fencing_token r = Some t'"
      "has_token (jr_id r) (jr_attempt_count r) t'" by blast
    with t rr(2) has_token_inject [of "jr_id r" "jr_attempt_count r" t "jr_id row" "jr_attempt_count row"]
    show ?thesis using row_counts [OF ok] row_counts [OF row] by simp
  next
    case False
    show ?thesis
    proof (rule ccontr)
      assume "jr_attempt_count r \<noteq> jr_attempt_count row"
      then have m: "jr_attempt_count row + 1 \<in> {1..jr_attempt_count r}"
        using le' row_counts(1) [OF row] by simp
      have "attempts_of (jd_attempts db) (claim_view r)"
        using inv r by (simp add: job_inv_def attempts_inv_def list_all_iff)
      with m have "list_ex (\<lambda>a. ar_job_id a = jr_id r \<and> ar_attempt a = jr_attempt_count row + 1) (jd_attempts db)"
        by (simp add: attempts_of_def claim_view_def list_all_iff)
      then have "attempt_conflict (new_attempt now worker token aid row) (jd_attempts db)"
        using ids by (auto simp: attempt_conflict_def list_ex_iff)
      with a show False by (simp add: claim_attempts_idle [OF False])
    qed
  qed
qed

lemma claim_row_claimable:
  assumes "claimable now row" and "job_row_ok row" and "job_claim_guard now row r" and "job_row_ok r"
    and "row_le row r" and "jr_attempt_count r = jr_attempt_count row"
  shows "jr_attempt_count r < jr_max_attempts r" and "\<not> terminal (jr_status r)"
proof -
  have mx: "jr_max_attempts r = jr_max_attempts row"
    using assms(5) core_view_eqD(4) [of row r] by (simp add: row_le_def)
  show "\<not> terminal (jr_status r)"
    using assms(3) by (auto simp: job_claim_guard_def terminal_def split: if_splits)
  show "jr_attempt_count r < jr_max_attempts r"
  proof (cases "jr_status row = RUNNING")
    case True
    then show ?thesis using assms(1,6) mx by (simp add: claimable_def)
  next
    case False
    then have "jr_status r \<in> {PENDING, RETRY_WAIT}" using assms(3) by (simp add: job_claim_guard_def)
    then show ?thesis using assms(4) by (auto simp: job_row_ok_def job_claim_ok_def job_core_ok_def)
  qed
qed

lemma claim_row_inv:
  assumes inv: "job_inv db" and r: "r \<in> set (jd_jobs db)" and le: "row_le row r"
    and row: "job_row_ok row" and c: "claimable now row" and g: "job_claim_guard now row r"
    and a: "claim_attempts now worker token aid row (jd_attempts db) = Inr attempts"
    and tok: "token = fencing_token (jr_id row) (jr_lease_generation row + 1) rnd" "list_all is_hex rnd"
  shows "job_inv (db\<lparr>jd_jobs := sql_update (job_claim_guard now row)
              (claim_values now worker expires token row) (jd_jobs db), jd_attempts := attempts\<rparr>)
    \<and> advances (jd_jobs db) (sql_update (job_claim_guard now row)
              (claim_values now worker expires token row) (jd_jobs db))"
proof -
  note ok = job_inv_row [OF inv r]
  note same = claim_same_generation [OF inv r le row g a]
  note cl = claim_row_claimable [OF c row g ok le same]
  let ?p = "job_claim_guard now row" and ?f = "claim_values now worker expires token row"
  let ?n = "jr_attempt_count r" and ?k = "jr_id r"
  have jobs: "jobs_inv (jd_jobs db) (jd_next db)" and att: "attempts_inv (map claim_view (jd_jobs db)) (jd_attempts db)"
    and evs: "events_inv (map status_view (jd_jobs db)) (jd_outbox db)"
    using inv by (simp_all add: job_inv_def)
  have key: "jr_id x = ?k" if "?p x" for x using g that by (simp add: job_claim_guard_def)
  have only: "x = r" if "x \<in> set (jd_jobs db)" "?p x" for x
    using jobs_inv_unique [OF jobs that(1) r key [OF that(2)]] .
  have ids: "jr_id row = ?k" using g by (simp add: job_claim_guard_def)
  have gen: "jr_lease_generation row = ?n" using row_counts(3) [OF row] same by simp
  have htok: "has_token ?k (?n + 1) token" unfolding tok(1) ids gen by simp
  have "py_strip token = token" using fencing_token_strip [OF tok(2)] tok(1) by simp
  then have fr: "job_claim_ok (?f r)"
    using htok cl row_counts(1,2) [OF ok] unfinished_result [OF ok cl(2)] gen same
    by (simp add: job_claim_ok_def claim_values_def terminal_def)
  have core: "core_view (?f x) = core_view x" for x by (simp add: core_view_def claim_values_def)
  have jobs': "jobs_inv (sql_update ?p ?f (jd_jobs db)) (jd_next db)"
    using only fr by (intro jobs_inv_update [OF jobs]) (auto simp: core)
  have cv: "claim_view (?f r) = (?k, ?n + 1, True, Some token)"
    "status_view (?f r) = (?k, ?n + 1, RUNNING)"
    using same by (simp_all add: claim_view_def status_view_def claim_values_def)
  have d: "distinct (map fst (map claim_view (jd_jobs db)))" using jobs_inv_views(1) [OF jobs] .
  have a_row: "ar_job_id (new_attempt now worker token aid row) = ?k"
    "ar_attempt (new_attempt now worker token aid row) = ?n + 1"
    "has_token ?k (?n + 1) (ar_fencing_token (new_attempt now worker token aid row))"
    using ids same htok by simp_all
  have att': "attempts_inv (view_upd ?k (?k, ?n + 1, True, Some token) (map claim_view (jd_jobs db))) attempts"
  proof (cases "jr_status row = RUNNING")
    case False
    then have "jr_status r \<noteq> RUNNING" using g by (auto simp: job_claim_guard_def)
    then have "(?k, ?n, False, jr_fencing_token r) \<in> set (map claim_view (jd_jobs db))"
      using r by (force simp: claim_view_def)
    note opened = attempts_open [OF att d this row_counts(1) [OF ok] a_row(1,2) new_attempt_fields(5) a_row(3)]
    from claim_attempts_idle [OF False] a
    have "\<not> attempt_conflict (new_attempt now worker token aid row) (jd_attempts db)"
      and e: "attempts = jd_attempts db @ [new_attempt now worker token aid row]"
      by (simp_all split: if_splits)
    from opened [OF this(1)] show ?thesis unfolding e by simp
  next
    case True
    then have rr: "jr_status r = RUNNING" "jr_fencing_token r = jr_fencing_token row"
      using g by (simp_all add: job_claim_guard_def)
    from running_row [OF ok rr(1)] obtain t where t: "jr_fencing_token r = Some t" "has_token ?k ?n t" by blast
    let ?closed = "sql_update (running_attempt ?k t)
      (close_attempt ''abandoned'' now (Some ''lease expired before finalization'')) (jd_attempts db)"
    let ?vs = "view_upd ?k (?k, ?n, False, None) (map claim_view (jd_jobs db))"
    have kv: "(?k, ?n, True, Some t) \<in> set (map claim_view (jd_jobs db))"
      using r rr(1) t(1) by (force simp: claim_view_def)
    have ret: "attempts_inv ?vs ?closed" by (rule attempts_retire [OF att d kv]) simp
    have d': "distinct (map fst ?vs)" using d by (simp add: fst_view_upd)
    from kv have "(?k, ?n, False, None) \<in> set ?vs" by (rule view_upd_this)
    note opened = attempts_open [OF ret d' this row_counts(1) [OF ok] a_row(1,2) new_attempt_fields(5) a_row(3)]
    have "jr_fencing_token row = Some t" using rr(2) t(1) by simp
    from claim_attempts_takeover [OF True this has_token_nonempty [OF t(2)]] a ids
    have "\<not> attempt_conflict (new_attempt now worker token aid row) ?closed"
      and e: "attempts = ?closed @ [new_attempt now worker token aid row]"
      by (simp_all add: Let_def split: if_splits)
    from opened [OF this(1)] show ?thesis unfolding e by (simp add: view_upd_twice)
  qed
  have evs': "events_inv (sview_upd ?k (?k, ?n + 1, RUNNING) (map status_view (jd_jobs db))) (jd_outbox db)"
  proof (rule events_inv_keep [OF evs])
    show "distinct (map fst (map status_view (jd_jobs db)))"
      using jobs_inv_views(2) [OF jobs] by (simp add: views_ok_def)
    show "(?k, ?n, jr_status r) \<in> set (map status_view (jd_jobs db))"
      using r by (force simp: status_view_def)
  qed (use cl(2) in \<open>simp_all add: terminal_def\<close>)
  have v: "map claim_view (sql_update ?p ?f (jd_jobs db))
      = view_upd ?k (?k, ?n + 1, True, Some token) (map claim_view (jd_jobs db))"
    "map status_view (sql_update ?p ?f (jd_jobs db))
      = sview_upd ?k (?k, ?n + 1, RUNNING) (map status_view (jd_jobs db))"
    by (simp_all only: views_update [OF jobs r, of ?p, OF g key] sviews_update [OF jobs r, of ?p, OF g key] cv)
  have "row_le r (?f r)"
    using cl(2) same core [of r] by (simp add: row_le_def) (simp add: claim_values_def)
  then have "advances (jd_jobs db) (sql_update ?p ?f (jd_jobs db))"
    using only by (intro advances_update) blast
  with jobs' att' evs' v show ?thesis by (simp add: job_inv_def)
qed

text \<open>An envelope is genuine when the queue issued it for an attempt of one of its jobs.\<close>

definition genuine :: "job_row list \<Rightarrow> job_envelope \<Rightarrow> bool" where
  "genuine jobs e \<longleftrightarrow> (case je_fencing_token e of None \<Rightarrow> False
     | Some t \<Rightarrow> list_ex (\<lambda>r. envelope_of e r \<and> 1 \<le> je_attempt e \<and> je_attempt e \<le> jr_attempt_count r
                  \<and> has_token (je_id e) (je_attempt e) t) jobs)"

lemma genuine_advances:
  assumes "genuine jobs e" and "advances jobs jobs'" shows "genuine jobs' e"
proof -
  from assms(1) obtain t r where t: "je_fencing_token e = Some t" and r: "r \<in> set jobs" "envelope_of e r"
    "1 \<le> je_attempt e" "je_attempt e \<le> jr_attempt_count r" "has_token (je_id e) (je_attempt e) t"
    by (auto simp: genuine_def list_ex_iff split: option.splits)
  from advances_row [OF assms(2) r(1)] obtain r' where r': "r' \<in> set jobs'" "row_le r r'" by blast
  then have c: "core_view r = core_view r'" and n: "jr_attempt_count r \<le> jr_attempt_count r'"
    by (auto simp: row_le_def)
  from core_view_eqD [OF c] r(2) have "envelope_of e r'" by (simp add: envelope_of_def)
  then show ?thesis using t r n r'(1) by (auto simp: genuine_def list_ex_iff intro!: bexI [where x = r'])
qed

definition past_row :: "time \<Rightarrow> job_row list \<Rightarrow> job_row \<Rightarrow> bool" where
  "past_row now jobs row \<longleftrightarrow> job_row_ok row \<and> claimable now row \<and> list_ex (row_le row) jobs"

definition claim_good :: "job_db \<Rightarrow> (exn + job_envelope option) \<times> job_db \<Rightarrow> bool" where
  "claim_good db out \<longleftrightarrow>
     job_inv (snd out) \<and> advances (jd_jobs db) (jd_jobs (snd out))
   \<and> (case fst out of Inl e \<Rightarrow> snd out = db | Inr None \<Rightarrow> snd out = db
      | Inr (Some e) \<Rightarrow> genuine (jd_jobs (snd out)) e)"

lemma claim_loop_inv:
  assumes inv: "job_inv db" and rows: "list_all (past_row now (jd_jobs db)) rows"
  shows "claim_good db (claim_loop now worker expires rnd aid i rows db)"
  using rows
proof (induction rows arbitrary: i)
  case Nil
  then show ?case using inv by (simp add: claim_good_def)
next
  case (Cons row rows)
  let ?rnd = "take 12 (uuid_hex (rnd i))"
  let ?token = "fencing_token (jr_id row) (jr_lease_generation row + 1) ?rnd"
  show ?case
  proof (cases "rowcount (job_claim_guard now row) (jd_jobs db) = 1")
    case False
    then show ?thesis using Cons by simp
  next
    case True
    then obtain r where r: "r \<in> set (jd_jobs db)" "job_claim_guard now row r"
      using rowcount_one_ex by blast
    from Cons.prems obtain r0 where r0: "r0 \<in> set (jd_jobs db)" "row_le row r0"
      and row: "job_row_ok row" "claimable now row" by (auto simp: past_row_def list_ex_iff)
    have "jr_id r0 = jr_id r"
      using r(2) r0(2) core_view_eqD(1) [of row r0] by (simp add: row_le_def job_claim_guard_def)
    then have "r0 = r" using inv jobs_inv_unique r(1) r0(1) by (fastforce simp: job_inv_def)
    with r0 have le: "row_le row r" by simp
    have hex: "list_all is_hex ?rnd" by (simp add: list_all_take_drop uuid_hex_chars)
    show ?thesis
    proof (cases "claim_attempts now worker ?token aid row (jd_attempts db)")
      case (Inl x)
      then show ?thesis using True inv by (simp add: Let_def claim_good_def)
    next
      case (Inr attempts)
      note new = claim_row_inv [OF inv r(1) le row r(2) Inr refl hex, of expires]
      note same = claim_same_generation [OF inv r(1) le row(1) r(2) Inr]
      note cl = claim_row_claimable [OF row(2,1) r(2) job_inv_row [OF inv r(1)] le same]
      have core: "core_view row = core_view r" using le by (simp add: row_le_def)
      have "py_strip ?token = ?token" using fencing_token_strip [OF hex] .
      moreover have "jr_max_attempts row = jr_max_attempts r" using core_view_eqD(4) [OF core] .
      ultimately obtain e where e: "row_to_envelope (Some (jr_attempt_count row + 1)) (Some ?token) row = Inr e"
        "envelope_of e row" "je_attempt e = jr_attempt_count row + 1" "je_fencing_token e = Some ?token"
        using row_to_envelope_ok [of row "jr_attempt_count row + 1" ?token] row(1) same cl(1)
          row_counts(1) [OF row(1)] by (auto simp: job_row_ok_def)
      let ?f = "claim_values now worker expires ?token row"
      have "?f r \<in> set (sql_update (job_claim_guard now row) ?f (jd_jobs db))"
        unfolding set_sql_update using r by force
      moreover have "envelope_of e (?f r)"
        using e(2) core_view_eqD [OF core] by (simp add: envelope_of_def claim_values_def)
      moreover have "has_token (je_id e) (je_attempt e) ?token"
        using e(2,3) row_counts(3) [OF row(1)] by (simp add: envelope_of_def)
      moreover have "je_attempt e = jr_attempt_count (?f r)" by (simp add: e(3) claim_values_def)
      ultimately have "genuine (sql_update (job_claim_guard now row) ?f (jd_jobs db)) e"
        using e row_counts(1) [OF row(1)] unfolding genuine_def list_ex_iff
        by (auto intro!: bexI [where x = "?f r"])
      with new True Inr e(1) show ?thesis by (simp add: Let_def claim_good_def)
    qed
  qed
qed

lemma claim_scan_rows:
  "row \<in> set (claim_scan skip locked now jobs) \<Longrightarrow> row \<in> set jobs \<and> claimable now row"
  using set_take_subset by (fastforce simp: claim_scan_def)

lemma claim_next_inv:
  assumes inv: "job_inv db"
  shows "claim_good db (claim_next skip locked now rnd aid worker lease_s db)"
proof -
  have "list_all (past_row now (jd_jobs db)) (claim_scan skip locked now (jd_jobs db))"
    using claim_scan_rows job_inv_row [OF inv] row_le_refl
    unfolding list_all_iff past_row_def list_ex_iff by blast
  moreover have "claim_good db (Inl e, db)" for e using inv by (simp add: claim_good_def)
  ultimately show ?thesis using claim_loop_inv [OF inv] by (auto simp: claim_next_def split: sum.split)
qed

section \<open>Finalizations\<close>

lemma finish_inv:
  assumes inv: "job_inv db" and r: "r \<in> set (jd_jobs db)" "p r" and key: "\<And>x. p x \<Longrightarrow> jr_id x = jr_id r"
    and run: "jr_status r = RUNNING" "jr_fencing_token r = Some t"
    and f: "\<And>x. core_view (f x) = core_view x" "job_claim_ok (f r)" "jr_attempt_count (f r) = jr_attempt_count r"
      "jr_status (f r) = st'" "jr_fencing_token (f r) = None"
    and st': "terminal st' \<or> st' = RETRY_WAIT" and ast: "ast \<noteq> ''running''"
    and emit: "emit_job_event hook env (job_event env (event_type_for st') (jr_id r) corr caus payload)
       (attempt_key (jr_id r) (jr_attempt_count r) (event_type_for st')) (jd_outbox db) = Inr ob"
  shows "job_inv (db\<lparr>jd_jobs := sql_update p f (jd_jobs db),
            jd_attempts := sql_update (running_attempt (jr_id r) t) (close_attempt ast now err) (jd_attempts db),
            jd_outbox := ob\<rparr>)
       \<and> advances (jd_jobs db) (sql_update p f (jd_jobs db))"
proof -
  let ?n = "jr_attempt_count r" and ?k = "jr_id r"
  have jobs: "jobs_inv (jd_jobs db) (jd_next db)" and att: "attempts_inv (map claim_view (jd_jobs db)) (jd_attempts db)"
    and evs: "events_inv (map status_view (jd_jobs db)) (jd_outbox db)"
    using inv by (simp_all add: job_inv_def)
  have only: "x = r" if "x \<in> set (jd_jobs db)" "p x" for x
    using jobs_inv_unique [OF jobs that(1) r(1) key [OF that(2)]] .
  have jobs': "jobs_inv (sql_update p f (jd_jobs db)) (jd_next db)"
    using only f(2) by (intro jobs_inv_update [OF jobs]) (auto simp: f(1))
  have id': "jr_id (f r) = ?k" using core_view_eqD(1) [OF f(1)] .
  have ns: "st' \<noteq> RUNNING" using st' by (auto simp: terminal_def)
  have cv: "claim_view (f r) = (?k, ?n, False, None)" "status_view (f r) = (?k, ?n, st')"
    using f(3-5) id' ns by (simp_all add: claim_view_def status_view_def)
  have kv: "(?k, ?n, True, Some t) \<in> set (map claim_view (jd_jobs db))"
    using r(1) run by (force simp: claim_view_def)
  have att': "attempts_inv (view_upd ?k (?k, ?n, False, None) (map claim_view (jd_jobs db)))
      (sql_update (running_attempt ?k t) (close_attempt ast now err) (jd_attempts db))"
    by (rule attempts_retire [OF att jobs_inv_views(1) [OF jobs] kv ast])
  have vok: "views_ok (map status_view (jd_jobs db))" using jobs_inv_views(2) [OF jobs] .
  have sv: "(?k, ?n, RUNNING) \<in> set (map status_view (jd_jobs db))"
    using r(1) run(1) by (force simp: status_view_def)
  have "1 \<le> ?n" using running_row [OF job_inv_row [OF inv r(1)] run(1)] by blast
  then have used: "view_uses_key (attempt_key ?k ?n (event_type_for st')) (?k, ?n, st')"
    using ns st' unfolding view_uses_key_iff
    by (intro disjI2 bexI [where x = ?n] conjI bexI [where x = "event_type_for st'"])
      (auto simp: job_event_types_def terminal_def)
  have evs': "events_inv (sview_upd ?k (?k, ?n, st') (map status_view (jd_jobs db))) ob"
    by (rule events_inv_emit [OF evs _ sv _ st' emit attempt_key_unused [OF evs vok sv] used])
      (use vok in \<open>simp_all add: views_ok_def terminal_def\<close>)
  have v: "map claim_view (sql_update p f (jd_jobs db)) = view_upd ?k (?k, ?n, False, None) (map claim_view (jd_jobs db))"
    "map status_view (sql_update p f (jd_jobs db)) = sview_upd ?k (?k, ?n, st') (map status_view (jd_jobs db))"
    by (simp_all only: views_update [OF jobs r(1), of p, OF r(2) key] sviews_update [OF jobs r(1), of p, OF r(2) key] cv)
  have "row_le r (f r)" using f run ns by (simp add: row_le_def terminal_def)
  then have "advances (jd_jobs db) (sql_update p f (jd_jobs db))"
    using only by (intro advances_update) blast
  with jobs' att' evs' v show ?thesis by (simp add: job_inv_def)
qed

text \<open>The parts that a committed finalization went through.\<close>

lemma finalize_write_commit:
  assumes "finalize_write hook now env job worker token st res err delay db = TxCommit z db'"
  obtains ob where
    "emit_job_event hook env (job_event env (event_type_for st) (je_id job) (je_correlation_id job)
       (je_causation_id job) (finalize_payload now job st res err delay))
       (attempt_key (je_id job) (je_attempt job) (event_type_for st)) (jd_outbox db) = Inr ob"
    "z = \<lparr>fz_accepted = True, fz_status = st, fz_retry_scheduled = (st = RETRY_WAIT)\<rparr>"
    "db' = db\<lparr>jd_jobs := sql_update (owns_claim_row (je_id job) worker token now)
               (finalize_values now st res err delay) (jd_jobs db),
             jd_attempts := sql_update (running_attempt (je_id job) token)
               (close_attempt (if st = RETRY_WAIT then ''failed'' else status_value st) now err) (jd_attempts db),
             jd_outbox := ob\<rparr>"
  using assms unfolding finalize_write_def Let_def by (auto split: if_splits sum.splits)

lemma finalize_body_commit:
  assumes "finalize_body hook now env job worker token requested res0 err0 delay db = TxCommit z db'"
  obtains r st res err where
    "r \<in> set (jd_jobs db)" "jr_id r = je_id job" "owns_claim_row (je_id job) worker token now r"
    "st = (if jr_cancellation_requested_at r \<noteq> None then CANCELLED else requested)"
    "res = (if jr_cancellation_requested_at r \<noteq> None then None else case res0 of Some PNone \<Rightarrow> None | _ \<Rightarrow> res0)"
    "err = (if jr_cancellation_requested_at r \<noteq> None then Some ''cancellation requested'' else err0)"
    "finalize_write hook now env job worker token st res err delay db = TxCommit z db'"
proof -
  from assms obtain r where f: "find (\<lambda>r. jr_id r = je_id job) (jd_jobs db) = Some r"
    by (auto simp: finalize_body_def split: option.splits)
  from assms f have live: "owns_live_claim r worker token now"
    by (auto simp: finalize_body_def split: if_splits)
  note r = find_SomeD [OF f]
  have own: "owns_claim_row (je_id job) worker token now r"
    using live r by (simp add: owns_live_claim_def owns_claim_row_def)
  show thesis
    by (rule that [OF conjunct1 [OF r] conjunct2 [OF r] own refl refl refl])
      (use assms f live in \<open>simp add: finalize_body_def split: if_splits\<close>)
qed

text \<open>A genuine envelope whose token owns a row is an envelope of its current attempt.\<close>

lemma genuine_current:
  assumes inv: "job_inv db" and g: "genuine (jd_jobs db) job" and t: "je_fencing_token job = Some token"
    and r: "r \<in> set (jd_jobs db)" "jr_id r = je_id job" "jr_fencing_token r = Some token"
  shows "je_attempt job = jr_attempt_count r \<and> envelope_of job r"
proof -
  from g t obtain r' where r': "r' \<in> set (jd_jobs db)" "envelope_of job r'" "1 \<le> je_attempt job"
    "has_token (je_id job) (je_attempt job) token"
    by (auto simp: genuine_def list_ex_iff)
  have "jr_id r' = jr_id r" using r'(2) r(2) by (simp add: envelope_of_def)
  then have "r' = r" using inv jobs_inv_unique r'(1) r(1) by (fastforce simp: job_inv_def)
  have ok: "job_row_ok r" using job_inv_row [OF inv r(1)] .
  have "has_token (jr_id r) (jr_attempt_count r) token"
    using ok r(3) by (auto simp: job_row_ok_def job_claim_ok_def split: option.splits)
  with has_token_inject [of "je_id job" "je_attempt job" token "jr_id r" "jr_attempt_count r"]
    r'(3,4) row_counts [OF ok] r(2)
  show ?thesis using \<open>r' = r\<close> r'(2) by simp
qed

definition final_request :: "job_envelope \<Rightarrow> job_status \<Rightarrow> pyobj option \<Rightarrow> bool" where
  "final_request job st res \<longleftrightarrow>
     (terminal st \<or> st = RETRY_WAIT \<and> je_attempt job < je_max_attempts job)
   \<and> (case res of None \<Rightarrow> True | Some v \<Rightarrow> st = SUCCEEDED \<and> json_compatible v)"

lemma finalize_values_ok:
  assumes "job_row_ok r" and "jr_status r = RUNNING" and "terminal st \<or> st = RETRY_WAIT"
    and "st = RETRY_WAIT \<Longrightarrow> jr_attempt_count r < jr_max_attempts r"
    and "case res of None \<Rightarrow> True | Some v \<Rightarrow> st = SUCCEEDED \<and> json_compatible v"
  shows "job_claim_ok (finalize_values now st res err delay r)"
proof -
  have "1 \<le> jr_attempt_count r" using running_row [OF assms(1,2)] by blast
  then show ?thesis
    using assms(3-5) row_counts [OF assms(1)]
    by (cases res) (auto simp: job_claim_ok_def finalize_values_def Let_def terminal_def)
qed

lemma finalize_values_core [simp]:
  "core_view (finalize_values now st res err delay r) = core_view r"
  "jr_attempt_count (finalize_values now st res err delay r) = jr_attempt_count r"
  "jr_status (finalize_values now st res err delay r) = st"
  "jr_fencing_token (finalize_values now st res err delay r) = None"
  by (simp_all add: finalize_values_def Let_def core_view_def)

lemma owns_claim_rowD:
  assumes "owns_claim_row k w t now r"
  shows "jr_id r = k" "jr_status r = RUNNING" "jr_claimed_by r = Some w" "jr_fencing_token r = Some t"
  using assms by (simp_all add: owns_claim_row_def)

lemma finalize_body_inv:
  assumes inv: "job_inv db" and g: "genuine (jd_jobs db) job" and t: "je_fencing_token job = Some token"
    and req: "final_request job requested res0"
    and body: "finalize_body hook now env job worker token requested res0 err0 delay db = TxCommit z db'"
  shows "job_inv db' \<and> advances (jd_jobs db) (jd_jobs db')"
proof -
  from body obtain r st res err where
    r: "r \<in> set (jd_jobs db)" "jr_id r = je_id job" and own: "owns_claim_row (je_id job) worker token now r"
    and st: "st = (if jr_cancellation_requested_at r \<noteq> None then CANCELLED else requested)"
    and res: "res = (if jr_cancellation_requested_at r \<noteq> None then None
        else case res0 of Some PNone \<Rightarrow> None | _ \<Rightarrow> res0)"
    and w: "finalize_write hook now env job worker token st res err delay db = TxCommit z db'"
    by (rule finalize_body_commit)
  from w obtain ob where
    emit: "emit_job_event hook env (job_event env (event_type_for st) (je_id job) (je_correlation_id job)
       (je_causation_id job) (finalize_payload now job st res err delay))
       (attempt_key (je_id job) (je_attempt job) (event_type_for st)) (jd_outbox db) = Inr ob"
    and db': "db' = db\<lparr>jd_jobs := sql_update (owns_claim_row (je_id job) worker token now)
               (finalize_values now st res err delay) (jd_jobs db),
             jd_attempts := sql_update (running_attempt (je_id job) token)
               (close_attempt (if st = RETRY_WAIT then ''failed'' else status_value st) now err) (jd_attempts db),
             jd_outbox := ob\<rparr>"
    by (rule finalize_write_commit)
  note own' = owns_claim_rowD [OF own]
  from genuine_current [OF inv g t r own'(4)] have cur: "je_attempt job = jr_attempt_count r"
    and env: "je_max_attempts job = jr_max_attempts r" by (auto simp: envelope_of_def)
  have st_ok: "terminal st \<or> st = RETRY_WAIT" "st = RETRY_WAIT \<Longrightarrow> jr_attempt_count r < jr_max_attempts r"
    using req st cur env by (auto simp: final_request_def terminal_def split: if_splits)
  have res_ok: "case res of None \<Rightarrow> True | Some v \<Rightarrow> st = SUCCEEDED \<and> json_compatible v"
    using req unfolding res st final_request_def by (auto split: option.splits pyobj.splits)
  have ast: "(if st = RETRY_WAIT then ''failed'' else status_value st) \<noteq> ''running''"
    using st_ok(1) by (auto simp: terminal_def)
  have fin: "job_claim_ok (finalize_values now st res err delay r)"
    by (rule finalize_values_ok [OF job_inv_row [OF inv r(1)] own'(2) st_ok res_ok])
  have emit': "emit_job_event hook env (job_event env (event_type_for st) (jr_id r) (je_correlation_id job)
       (je_causation_id job) (finalize_payload now job st res err delay))
       (attempt_key (jr_id r) (jr_attempt_count r) (event_type_for st)) (jd_outbox db) = Inr ob"
    using emit r(2) cur by simp
  have key: "owns_claim_row (je_id job) worker token now x \<Longrightarrow> jr_id x = jr_id r" for x
    using owns_claim_rowD(1) r(2) by simp
  from finish_inv [where p = "owns_claim_row (je_id job) worker token now"
      and f = "finalize_values now st res err delay" and now = now and err = err,
      OF inv r(1) own key own'(2,4) finalize_values_core(1) fin finalize_values_core(2-4) st_ok(1) ast emit']
  show ?thesis using r(2) unfolding db' by simp
qed

lemma finalize_claim_inv:
  assumes inv: "job_inv db" and g: "genuine (jd_jobs db) job" and req: "final_request job requested res"
  shows "job_inv (snd (finalize_claim hook now env job worker requested res err delay db))
       \<and> advances (jd_jobs db) (jd_jobs (snd (finalize_claim hook now env job worker requested res err delay db)))"
proof -
  have "job_inv (snd (run_tx hook (finalize_body hook now env job w token requested res err delay) db))
      \<and> advances (jd_jobs db) (jd_jobs (snd (run_tx hook (finalize_body hook now env job w token requested res err delay) db)))"
    if "je_fencing_token job = Some token" for w token
    by (rule run_tx_preserves [where P = "\<lambda>d. job_inv d \<and> advances (jd_jobs db) (jd_jobs d)"])
      (use inv finalize_body_inv [OF inv g that req] in auto)
  then show ?thesis
    using inv by (auto simp: finalize_claim_def required_fencing_token_def split: sum.split option.split)
qed

lemma complete_inv:
  assumes "job_inv db" and "genuine (jd_jobs db) job"
  shows "job_inv (snd (complete hook now env job worker res db))
       \<and> advances (jd_jobs db) (jd_jobs (snd (complete hook now env job worker res db)))"
proof (cases "validate_job_result res")
  case (Inr v)
  then have "json_compatible v"
    using freeze_frozen(1) frozen_json_compatible by (auto simp: validate_job_result_Inr)
  then have "final_request job SUCCEEDED (Some v)" by (simp add: final_request_def terminal_def)
  from finalize_claim_inv [OF assms this] Inr show ?thesis by (simp add: complete_def)
qed (use assms in \<open>simp add: complete_def\<close>)

lemma fail_inv:
  assumes "job_inv db" and "genuine (jd_jobs db) job"
  shows "job_inv (snd (fail hook t0 now env job worker err retryable delay db))
       \<and> advances (jd_jobs db) (jd_jobs (snd (fail hook t0 now env job worker err retryable delay db)))"
proof -
  have "final_request job (if can_retry t0 job retryable then RETRY_WAIT else FAILED) None"
    by (simp add: final_request_def terminal_def can_retry_def)
  from finalize_claim_inv [OF assms this] assms(1) show ?thesis
    by (simp add: fail_def split: sum.split split del: if_split)
qed

lemma cancel_claim_inv:
  assumes "job_inv db" and "genuine (jd_jobs db) job"
  shows "job_inv (snd (cancel_claim hook now env job worker db))
       \<and> advances (jd_jobs db) (jd_jobs (snd (cancel_claim hook now env job worker db)))"
  unfolding cancel_claim_def
  by (rule finalize_claim_inv [OF assms]) (simp add: final_request_def terminal_def)

section \<open>Leases, cancellation, recovery\<close>

text \<open>Statements that leave status, counters and token alone.\<close>

lemma same_claim_inv:
  assumes inv: "job_inv db"
    and f: "\<And>r. p r \<Longrightarrow> core_view (f r) = core_view r \<and> jr_attempt_count (f r) = jr_attempt_count r
              \<and> jr_status (f r) = jr_status r \<and> jr_fencing_token (f r) = jr_fencing_token r
              \<and> jr_claimed_by (f r) = jr_claimed_by r \<and> jr_lease_generation (f r) = jr_lease_generation r
              \<and> (jr_lease_expires_at (f r) = None \<longleftrightarrow> jr_lease_expires_at r = None)
              \<and> jr_completed_at (f r) = jr_completed_at r \<and> jr_result (f r) = jr_result r"
    and nt: "\<And>r. p r \<Longrightarrow> \<not> terminal (jr_status r)"
  shows "job_inv (db\<lparr>jd_jobs := sql_update p f (jd_jobs db)\<rparr>)
       \<and> advances (jd_jobs db) (sql_update p f (jd_jobs db))"
proof -
  have id': "jr_id (f r) = jr_id r" "jr_max_attempts (f r) = jr_max_attempts r" if "p r" for r
    using f [OF that] core_view_eqD by blast+
  have "map claim_view (sql_update p f (jd_jobs db)) = map claim_view (jd_jobs db)"
    "map status_view (sql_update p f (jd_jobs db)) = map status_view (jd_jobs db)"
    using f id' by (auto intro!: map_sql_update simp: claim_view_def status_view_def)
  moreover have "jobs_inv (sql_update p f (jd_jobs db)) (jd_next db)"
  proof (rule jobs_inv_update)
    show "jobs_inv (jd_jobs db) (jd_next db)" using inv by (simp add: job_inv_def)
    show "core_view (f r) = core_view r" if "p r" for r using f [OF that] by blast
    show "job_claim_ok (f r)" if "p r" "job_row_ok r" for r
      using f [OF that(1)] id' [OF that(1)] that(2) unfolding job_row_ok_def job_claim_ok_def
      by (simp cong: option.case_cong)
  qed
  moreover have "advances (jd_jobs db) (sql_update p f (jd_jobs db))"
    using f nt by (intro advances_update) (simp add: row_le_def)
  ultimately show ?thesis using inv by (simp add: job_inv_def)
qed

lemma heartbeat_inv:
  assumes "job_inv db"
  shows "job_inv (snd (heartbeat now job worker lease_s db))
       \<and> advances (jd_jobs db) (jd_jobs (snd (heartbeat now job worker lease_s db)))"
proof -
  have "job_inv (db\<lparr>jd_jobs := sql_update (owns_claim_row k w t now)
            (\<lambda>r. r\<lparr>jr_lease_expires_at := Some x, jr_updated_at := now\<rparr>) (jd_jobs db)\<rparr>)
      \<and> advances (jd_jobs db) (sql_update (owns_claim_row k w t now)
            (\<lambda>r. r\<lparr>jr_lease_expires_at := Some x, jr_updated_at := now\<rparr>) (jd_jobs db))" for k w t x
    by (rule same_claim_inv [OF assms])
      (auto simp: owns_claim_row_def core_view_def terminal_def split: option.splits)
  then show ?thesis
    using assms by (simp add: heartbeat_def Let_def split: sum.split option.split)
qed

lemma request_cancel_body_inv:
  assumes inv: "job_inv db" and body: "request_cancel_body hook now env k db = TxCommit b db'"
  shows "job_inv db' \<and> advances (jd_jobs db) (jd_jobs db')"
proof -
  from body obtain r where f: "find (\<lambda>r. jr_id r = k) (jd_jobs db) = Some r"
    by (auto simp: request_cancel_body_def split: option.splits)
  note r = find_SomeD [OF f]
  have ok: "job_row_ok r" using job_inv_row [OF inv] r by blast
  have nt: "\<not> terminal (jr_status r)"
    using body f by (auto simp: request_cancel_body_def terminal_def split: if_splits)
  show ?thesis
  proof (cases "jr_status r = RUNNING")
    case True
    let ?p = "\<lambda>r. jr_id r = k \<and> jr_status r = RUNNING"
    let ?f = "\<lambda>r. r\<lparr>jr_cancellation_requested_at := Some now, jr_updated_at := now\<rparr>"
    have db': "db' = db\<lparr>jd_jobs := sql_update ?p ?f (jd_jobs db)\<rparr>"
      using body f True by (simp add: request_cancel_body_def terminal_def)
    have "job_inv (db\<lparr>jd_jobs := sql_update ?p ?f (jd_jobs db)\<rparr>)
        \<and> advances (jd_jobs db) (sql_update ?p ?f (jd_jobs db))"
      by (rule same_claim_inv [OF inv]) (auto simp: core_view_def terminal_def)
    then show ?thesis unfolding db' by simp
  next
    case False
    then have st: "jr_status r \<in> {PENDING, RETRY_WAIT}" using nt by (cases "jr_status r") (auto simp: terminal_def)
    let ?p = "\<lambda>r. jr_id r = k \<and> jr_status r \<in> {PENDING, RETRY_WAIT}"
    let ?f = "\<lambda>r. r\<lparr>jr_status := CANCELLED, jr_cancellation_requested_at := Some now,
                         jr_completed_at := Some now, jr_updated_at := now\<rparr>"
    from row_to_envelope_none_ok [OF ok] obtain e where e: "row_to_envelope None None r = Inr e" by blast
    obtain corr caus payload ob where
      emit: "emit_job_event hook env (job_event env (event_type_for CANCELLED) k corr caus payload)
          (cancelled_key k) (jd_outbox db) = Inr ob"
      and db': "db' = db\<lparr>jd_jobs := sql_update ?p ?f (jd_jobs db), jd_outbox := ob\<rparr>"
      using body f False nt e
      by (auto simp: request_cancel_body_def Let_def terminal_def simp del: event_type_for.simps
          split: sum.splits if_splits)
    have jobs: "jobs_inv (jd_jobs db) (jd_next db)"
      and evs: "events_inv (map status_view (jd_jobs db)) (jd_outbox db)"
      using inv by (simp_all add: job_inv_def)
    have pr: "?p r" using r st by simp
    have key: "?p x \<Longrightarrow> jr_id x = jr_id r" for x using r by simp
    have only: "x = r" if "x \<in> set (jd_jobs db)" "?p x" for x
      using jobs_inv_unique [OF jobs that(1) _ key [OF that(2)]] r by blast
    have vok: "views_ok (map status_view (jd_jobs db))" using jobs_inv_views(2) [OF jobs] .
    have sv: "(k, jr_attempt_count r, jr_status r) \<in> set (map status_view (jd_jobs db))"
      using r by (force simp: status_view_def)
    have nc: "jr_status r \<noteq> CANCELLED" using st by auto
    have used: "view_uses_key (cancelled_key k) (k, jr_attempt_count r, CANCELLED)"
      by (simp add: view_uses_key_iff)
    have "events_inv (sview_upd k (k, jr_attempt_count r, CANCELLED) (map status_view (jd_jobs db))) ob"
      by (rule events_inv_emit [OF evs _ sv nt _ emit cancelled_key_unused [OF evs vok sv nc] used])
        (use vok in \<open>simp_all add: views_ok_def terminal_def\<close>)
    moreover have "status_view (?f r) = (k, jr_attempt_count r, CANCELLED)" using r by (simp add: status_view_def)
    moreover have "map status_view (sql_update ?p ?f (jd_jobs db))
        = sview_upd (jr_id r) (status_view (?f r)) (map status_view (jd_jobs db))"
      by (rule sviews_update [OF jobs]) (use r pr in auto)
    ultimately have evs': "events_inv (map status_view (sql_update ?p ?f (jd_jobs db))) ob" using r by simp
    have cvs: "map claim_view (sql_update ?p ?f (jd_jobs db)) = map claim_view (jd_jobs db)"
      by (rule map_sql_update) (auto simp: claim_view_def)
    have fr: "job_claim_ok (?f r)"
      using ok st idle_row [OF ok False] by (auto simp: job_row_ok_def job_claim_ok_def terminal_def split: option.splits)
    have jobs': "jobs_inv (sql_update ?p ?f (jd_jobs db)) (jd_next db)"
      using only fr by (intro jobs_inv_update [OF jobs]) (auto simp: core_view_def)
    have "advances (jd_jobs db) (sql_update ?p ?f (jd_jobs db))"
      by (rule advances_update) (auto simp: row_le_def core_view_def terminal_def)
    with jobs' evs' cvs inv show ?thesis unfolding db' by (simp add: job_inv_def)
  qed
qed

lemma request_cancel_inv:
  assumes "job_inv db"
  shows "job_inv (snd (request_cancel hook now env k db))
       \<and> advances (jd_jobs db) (jd_jobs (snd (request_cancel hook now env k db)))"
  unfolding request_cancel_def
  by (rule run_tx_preserves [where P = "\<lambda>d. job_inv d \<and> advances (jd_jobs db) (jd_jobs d)"])
    (use assms request_cancel_body_inv in auto)

lemma recover_body_commit:
  assumes "recover_body hook now env (row # rest) db = TxCommit z db'"
    and "jr_fencing_token row = Some t"
  obtains e err payload ob where
    "row_to_envelope None None row = Inr e"
    "emit_job_event hook env (job_event env (event_type_for (recover_status row)) (je_id e) (je_correlation_id e)
       (je_causation_id e) payload)
       (attempt_key (je_id e) (je_attempt e) (event_type_for (recover_status row))) (jd_outbox db) = Inr ob"
    "z = Some True"
    "db' = db\<lparr>jd_jobs := sql_update (recover_guard now row) (recover_values now (recover_status row) err) (jd_jobs db),
             jd_attempts := sql_update (running_attempt (jr_id row) t)
               (close_attempt (status_value (recover_status row)) now (Some err)) (jd_attempts db),
             jd_outbox := ob\<rparr>"
  using assms by (auto simp: recover_body_def Let_def split: if_splits sum.splits)

lemma recover_values_core [simp]:
  "core_view (recover_values now st err r) = core_view r"
  "jr_attempt_count (recover_values now st err r) = jr_attempt_count r"
  "jr_status (recover_values now st err r) = st"
  "jr_fencing_token (recover_values now st err r) = None"
  by (simp_all add: recover_values_def core_view_def)

lemma recover_scan_rows:
  "row \<in> set (recover_scan skip locked now jobs) \<Longrightarrow> row \<in> set jobs \<and> recoverable now row"
  using set_take_subset by (fastforce simp: recover_scan_def)

lemma recover_body_inv:
  assumes inv: "job_inv db" and body: "recover_body hook now env rows db = TxCommit z db'"
    and rows: "\<forall>row \<in> set rows. row \<in> set (jd_jobs db) \<and> recoverable now row"
  shows "job_inv db' \<and> advances (jd_jobs db) (jd_jobs db')"
proof -
  from body obtain row rest where rw: "rows = row # rest" by (cases rows) (auto simp: recover_body_def)
  have row: "row \<in> set (jd_jobs db)" "recoverable now row" using rows rw by auto
  have run: "jr_status row = RUNNING" using row(2) by (simp add: recoverable_def)
  have ok: "job_row_ok row" using job_inv_row [OF inv row(1)] .
  from running_row [OF ok run] obtain t where t: "jr_fencing_token row = Some t" by blast
  let ?st = "recover_status row"
  from recover_body_commit [OF body [unfolded rw] t] obtain e err payload ob where
    e: "row_to_envelope None None row = Inr e"
    and emit: "emit_job_event hook env (job_event env (event_type_for ?st) (je_id e) (je_correlation_id e)
       (je_causation_id e) payload) (attempt_key (je_id e) (je_attempt e) (event_type_for ?st)) (jd_outbox db) = Inr ob"
    and db': "db' = db\<lparr>jd_jobs := sql_update (recover_guard now row) (recover_values now ?st err) (jd_jobs db),
             jd_attempts := sql_update (running_attempt (jr_id row) t)
               (close_attempt (status_value ?st) now (Some err)) (jd_attempts db),
             jd_outbox := ob\<rparr>" by metis
  from row_to_envelope_none_ok [OF ok] e have ids: "je_id e = jr_id row" "je_attempt e = jr_attempt_count row"
    by (auto simp: envelope_of_def)
  have st: "terminal ?st" "status_value ?st \<noteq> ''running''" by (auto simp: recover_status_def terminal_def)
  have g: "recover_guard now row row" using row(2) by (simp add: recover_guard_def recoverable_def)
  have key: "jr_id x = jr_id row" if "recover_guard now row x" for x using that by (simp add: recover_guard_def)
  have nt: "\<not> terminal (jr_status row)" using run by (simp add: terminal_def)
  have "1 \<le> jr_attempt_count row" using running_row [OF ok run] by blast
  then have fin: "job_claim_ok (recover_values now ?st err row)"
    using row_counts [OF ok] unfinished_result [OF ok nt] st(1)
    by (auto simp: job_claim_ok_def recover_values_def recover_status_def terminal_def)
  from finish_inv [where p = "recover_guard now row" and f = "recover_values now ?st err" and now = now
      and err = "Some err", OF inv row(1) g key run t recover_values_core(1) fin recover_values_core(2-4)
      disjI1 [OF st(1)] st(2) emit [unfolded ids]]
  show ?thesis unfolding db' by simp
qed

lemma recover_one_inv:
  assumes "job_inv db"
  shows "job_inv (snd (recover_one hook skip locked now env db))
       \<and> advances (jd_jobs db) (jd_jobs (snd (recover_one hook skip locked now env db)))"
  unfolding recover_one_def
  by (rule run_tx_preserves [where P = "\<lambda>d. job_inv d \<and> advances (jd_jobs db) (jd_jobs d)"])
    (use assms recover_body_inv [OF assms] recover_scan_rows in auto)

lemma recover_loop_inv:
  assumes "job_inv db"
  shows "job_inv (snd (recover_loop hook skip locked now envs k n db))
       \<and> advances (jd_jobs db) (jd_jobs (snd (recover_loop hook skip locked now envs k n db)))"
  using assms
proof (induction k arbitrary: n db)
  case (Suc k)
  obtain out db1 where o: "recover_one hook skip locked now (envs k) db = (out, db1)" by fastforce
  have i: "job_inv db1" "advances (jd_jobs db) (jd_jobs db1)"
    using recover_one_inv [OF Suc.prems, of hook skip locked now "envs k"] o by simp_all
  show ?case
    using Suc.IH [OF i(1)] i o advances_trans [OF i(2)]
    by (auto split: sum.splits option.splits)
qed simp

lemma recover_expired_inv:
  assumes "job_inv db"
  shows "job_inv (snd (recover_expired hook skip locked now envs limit db))
       \<and> advances (jd_jobs db) (jd_jobs (snd (recover_expired hook skip locked now envs limit db)))"
  using recover_loop_inv [OF assms] assms by (simp add: recover_expired_def)

section \<open>The system\<close>

text \<open>
  The tables together with the envelopes that the queue has issued. Clients (workers) present
  issued envelopes only; \<open>System_Op\<close> stands for the outbox operations of other components and
  of the publisher.
\<close>

record job_sys =
  sys_db :: job_db
  sys_issued :: "job_envelope list"

definition init_sys :: job_sys where
  "init_sys = \<lparr>sys_db = empty_jobs, sys_issued = []\<rparr>"

datatype job_op =
    Submit "job_row list" time time "128 word" "int option" job_submission
  | Schedule "job_row list" time "128 word" time "int option" job_submission
  | Claim_Next bool "string list" time "nat \<Rightarrow> 128 word" string string seconds
  | Heartbeat time job_envelope string seconds
  | Complete hook time tx_env job_envelope string pyobj
  | Fail hook time time tx_env job_envelope string string bool seconds
  | Cancel_Claim hook time tx_env job_envelope string
  | Request_Cancel hook time tx_env string
  | Recover_Expired hook bool "string list" time "nat \<Rightarrow> tx_env" int
  | System_Op outbox_op

definition finalized :: "exn + job_finalization \<Rightarrow> bool" where
  "finalized out \<longleftrightarrow> (case out of Inl _ \<Rightarrow> False | Inr z \<Rightarrow> fz_accepted z)"

fun job_act :: "job_op \<Rightarrow> job_sys \<Rightarrow> bool \<times> job_sys" where
  "job_act (Submit snap run_at now w version raw) s =
     (case make_submission version raw of Inl _ \<Rightarrow> (False, s)
      | Inr job \<Rightarrow> (case submit snap run_at now (uuid_text w) job (sys_db s) of
          (out, db) \<Rightarrow> (\<not> isl out, s\<lparr>sys_db := db\<rparr>)))"
| "job_act (Schedule snap now w run_at version raw) s =
     (case make_submission version raw of Inl _ \<Rightarrow> (False, s)
      | Inr job \<Rightarrow> (case schedule snap now (uuid_text w) run_at job (sys_db s) of
          (out, db) \<Rightarrow> (\<not> isl out, s\<lparr>sys_db := db\<rparr>)))"
| "job_act (Claim_Next skip locked now rnd aid worker lease_s) s =
     (case claim_next skip locked now rnd aid worker lease_s (sys_db s) of
        (Inr (Some e), db) \<Rightarrow> (True, s\<lparr>sys_db := db, sys_issued := e # sys_issued s\<rparr>)
      | (out, db) \<Rightarrow> (False, s\<lparr>sys_db := db\<rparr>))"
| "job_act (Heartbeat now job worker lease_s) s =
     (case heartbeat now job worker lease_s (sys_db s) of
        (out, db) \<Rightarrow> (case out of Inl _ \<Rightarrow> False | Inr l \<Rightarrow> ls_authoritative l, s\<lparr>sys_db := db\<rparr>))"
| "job_act (Complete hook now env job worker res) s =
     (case complete hook now env job worker res (sys_db s) of (out, db) \<Rightarrow> (finalized out, s\<lparr>sys_db := db\<rparr>))"
| "job_act (Fail hook t0 now env job worker err retryable delay) s =
     (case fail hook t0 now env job worker err retryable delay (sys_db s) of
        (out, db) \<Rightarrow> (finalized out, s\<lparr>sys_db := db\<rparr>))"
| "job_act (Cancel_Claim hook now env job worker) s =
     (case cancel_claim hook now env job worker (sys_db s) of (out, db) \<Rightarrow> (finalized out, s\<lparr>sys_db := db\<rparr>))"
| "job_act (Request_Cancel hook now env job_id) s =
     (case request_cancel hook now env job_id (sys_db s) of
        (out, db) \<Rightarrow> (case out of Inl _ \<Rightarrow> False | Inr b \<Rightarrow> b, s\<lparr>sys_db := db\<rparr>))"
| "job_act (Recover_Expired hook skip locked now envs limit) s =
     (case recover_expired hook skip locked now envs limit (sys_db s) of
        (out, db) \<Rightarrow> (case out of Inl _ \<Rightarrow> False | Inr n \<Rightarrow> 0 < n, s\<lparr>sys_db := db\<rparr>))"
| "job_act (System_Op op) s =
     (case outbox_act op (jd_outbox (sys_db s)) of
        (b, ob) \<Rightarrow> (b, s\<lparr>sys_db := (sys_db s)\<lparr>jd_outbox := ob\<rparr>\<rparr>))"

text \<open>Which operations clients may submit.\<close>

fun job_valid :: "job_sys \<Rightarrow> job_op \<Rightarrow> bool" where
  "job_valid s (Heartbeat now job worker lease_s) = (job \<in> set (sys_issued s))"
| "job_valid s (Complete hook now env job worker res) = (job \<in> set (sys_issued s))"
| "job_valid s (Fail hook t0 now env job worker err retryable delay) = (job \<in> set (sys_issued s))"
| "job_valid s (Cancel_Claim hook now env job worker) = (job \<in> set (sys_issued s))"
| "job_valid s (System_Op op) = foreign_op op"
| "job_valid s _ = True"

definition sys_inv :: "job_sys \<Rightarrow> bool" where
  "sys_inv s \<longleftrightarrow> job_inv (sys_db s) \<and> list_all (genuine (jd_jobs (sys_db s))) (sys_issued s)"

lemma sys_inv_init: "sys_inv init_sys"
  by (simp add: sys_inv_def init_sys_def job_inv_empty)

lemma sys_advance:
  assumes "sys_inv s" and "job_inv db \<and> advances (jd_jobs (sys_db s)) (jd_jobs db)"
  shows "sys_inv (s\<lparr>sys_db := db\<rparr>)"
  using assms genuine_advances by (auto simp: sys_inv_def list_all_iff)

lemma job_act_steps:
  assumes inv: "sys_inv s" and val: "job_valid s op"
  shows "job_inv (sys_db (snd (job_act op s)))
       \<and> advances (jd_jobs (sys_db s)) (jd_jobs (sys_db (snd (job_act op s))))"
proof -
  have db: "job_inv (sys_db s)" using inv by (simp add: sys_inv_def)
  have gen: "genuine (jd_jobs (sys_db s)) e" if "e \<in> set (sys_issued s)" for e
    using inv that by (simp add: sys_inv_def list_all_iff)
  show ?thesis
  proof (cases op)
    case (Submit snap run_at now w version raw)
    then show ?thesis
      using db job_insert_inv [OF db] by (simp add: submit_def case_prod_beta split: sum.split)
  next
    case (Schedule snap now w run_at version raw)
    then show ?thesis
      using db job_insert_inv [OF db] by (simp add: schedule_def case_prod_beta split: sum.split)
  next
    case (Claim_Next skip locked now rnd aid worker lease_s)
    then show ?thesis
      using claim_next_inv [OF db, of skip locked now rnd aid worker lease_s]
      by (auto simp: claim_good_def split: prod.splits sum.splits option.splits)
  next
    case (System_Op e)
    then have "events_inv (map status_view (jd_jobs (sys_db s))) (snd (outbox_act e (jd_outbox (sys_db s))))"
      using db val by (intro events_inv_foreign) (simp_all add: job_inv_def)
    then show ?thesis using db unfolding System_Op by (simp add: case_prod_beta job_inv_def)
  qed (use val db gen heartbeat_inv [OF db] complete_inv [OF db] fail_inv [OF db] cancel_claim_inv [OF db]
       request_cancel_inv [OF db] recover_expired_inv [OF db] in \<open>simp_all add: case_prod_beta\<close>)
qed

lemma job_act_inv:
  assumes inv: "sys_inv s" and val: "job_valid s op"
  shows "sys_inv (snd (job_act op s))"
proof -
  note step = job_act_steps [OF assms]
  have old: "genuine (jd_jobs (sys_db (snd (job_act op s)))) e" if "e \<in> set (sys_issued s)" for e
    using inv step genuine_advances that by (fastforce simp: sys_inv_def list_all_iff)
  have "genuine (jd_jobs (sys_db (snd (job_act op s)))) e" if "e \<in> set (sys_issued (snd (job_act op s)))" for e
  proof (cases op)
    case (Claim_Next skip locked now rnd aid worker lease_s)
    then show ?thesis
      using old that inv claim_next_inv [of "sys_db s" skip locked now rnd aid worker lease_s]
      by (auto simp: sys_inv_def claim_good_def split: prod.splits sum.splits option.splits)
  qed (use old that in \<open>simp_all add: case_prod_beta split: sum.splits\<close>)
  with step show ?thesis by (simp add: sys_inv_def list_all_iff)
qed

section \<open>Fencing tokens work once\<close>

definition token_pair :: "job_envelope \<Rightarrow> (string \<times> string) option" where
  "token_pair job = map_option (\<lambda>t. (je_id job, t)) (je_fencing_token job)"

fun job_fin :: "job_op \<Rightarrow> (string \<times> string) option" where
  "job_fin (Complete hook now env job worker res) = token_pair job"
| "job_fin (Fail hook t0 now env job worker err retryable delay) = token_pair job"
| "job_fin (Cancel_Claim hook now env job worker) = token_pair job"
| "job_fin _ = None"

text \<open>
  The token of a generation that is over: the job has moved on to a later one, or it is no
  longer running.
\<close>

definition job_retired :: "job_sys \<Rightarrow> string \<Rightarrow> string \<Rightarrow> bool" where
  "job_retired s k t \<longleftrightarrow> list_ex (\<lambda>r. jr_id r = k \<and> list_ex (\<lambda>m. has_token k m t
     \<and> (m < jr_attempt_count r \<or> jr_status r \<noteq> RUNNING)) [1..jr_attempt_count r]) (jd_jobs (sys_db s))"

lemma job_retiredE:
  assumes "job_retired s k t"
  obtains r m where "r \<in> set (jd_jobs (sys_db s))" "jr_id r = k" "has_token k m t"
    "1 \<le> m" "m \<le> jr_attempt_count r" "m < jr_attempt_count r \<or> jr_status r \<noteq> RUNNING"
  using assms by (auto simp: job_retired_def list_ex_iff)

lemma job_retiredI:
  "r \<in> set (jd_jobs (sys_db s)) \<Longrightarrow> jr_id r = k \<Longrightarrow> has_token k m t \<Longrightarrow> 1 \<le> m \<Longrightarrow> m \<le> jr_attempt_count r
     \<Longrightarrow> m < jr_attempt_count r \<or> jr_status r \<noteq> RUNNING \<Longrightarrow> job_retired s k t"
  unfolding job_retired_def list_ex_iff by (rule bexI [where x = r]) (auto intro!: bexI [where x = m])

lemma job_retired_stable:
  assumes "job_retired s k t" and "advances (jd_jobs (sys_db s)) (jd_jobs (sys_db s'))"
  shows "job_retired s' k t"
proof -
  from assms(1) obtain r m where r: "r \<in> set (jd_jobs (sys_db s))" "jr_id r = k" "has_token k m t"
    "1 \<le> m" "m \<le> jr_attempt_count r" "m < jr_attempt_count r \<or> jr_status r \<noteq> RUNNING"
    by (rule job_retiredE)
  from advances_row [OF assms(2) r(1)] obtain r' where r': "r' \<in> set (jd_jobs (sys_db s'))" "row_le r r'" by blast
  have "jr_id r' = k" using r'(2) r(2) core_view_eqD(1) [of r r'] by (simp add: row_le_def)
  moreover have "m \<le> jr_attempt_count r'" "m < jr_attempt_count r' \<or> jr_status r' \<noteq> RUNNING"
    using r'(2) r(5,6) by (auto simp: row_le_def)
  ultimately show ?thesis using r r'(1) by (blast intro: job_retiredI)
qed

text \<open>A retired token owns no row.\<close>

lemma job_retired_not_owner:
  assumes inv: "job_inv (sys_db s)" and ret: "job_retired s k t"
    and r: "r \<in> set (jd_jobs (sys_db s))" "jr_id r = k"
  shows "jr_fencing_token r \<noteq> Some t"
proof
  assume t: "jr_fencing_token r = Some t"
  from ret obtain r0 m where r0: "r0 \<in> set (jd_jobs (sys_db s))" "jr_id r0 = k" "has_token k m t"
    "1 \<le> m" "m \<le> jr_attempt_count r0" "m < jr_attempt_count r0 \<or> jr_status r0 \<noteq> RUNNING"
    by (rule job_retiredE)
  have "r0 = r" using inv jobs_inv_unique r r0(1,2) by (fastforce simp: job_inv_def)
  have ok: "job_row_ok r" using job_inv_row [OF inv r(1)] .
  have "jr_status r = RUNNING" "has_token k (jr_attempt_count r) t"
    using ok t r(2) by (auto simp: job_row_ok_def job_claim_ok_def split: option.splits)
  with has_token_inject [OF r0(3) this(2)] row_counts [OF ok] r0(4-6) \<open>r0 = r\<close> r(2)
  show False by simp
qed

lemma finalize_claim_retired:
  assumes inv: "job_inv (sys_db s)" and ret: "job_retired s (je_id job) t"
    and t: "je_fencing_token job = Some t"
  shows "\<not> finalized (fst (finalize_claim hook now env job worker st res err delay (sys_db s)))
       \<and> snd (finalize_claim hook now env job worker st res err delay (sys_db s)) = sys_db s"
proof -
  have "finalize_body hook now env job w t st res err delay (sys_db s) = TxReturn stale_finalization" for w
  proof (cases "find (\<lambda>r. jr_id r = je_id job) (jd_jobs (sys_db s))")
    case (Some r)
    from find_SomeD [OF this] job_retired_not_owner [OF inv ret, of r] Some
    show ?thesis by (simp add: finalize_body_def owns_live_claim_def)
  qed (simp add: finalize_body_def)
  then show ?thesis
    using t by (simp add: finalize_claim_def required_fencing_token_def run_tx_def finalized_def
        stale_finalization_def split: sum.split)
qed

lemma finalize_write_result:
  "finalize_write hook now env job worker token st res err delay db = TxReturn z \<Longrightarrow> \<not> fz_accepted z"
  by (auto simp: finalize_write_def Let_def stale_finalization_def split: if_splits sum.splits)

lemma finalize_body_result:
  "finalize_body hook now env job worker token st res err delay db = TxReturn z \<Longrightarrow> \<not> fz_accepted z"
  using finalize_write_result
  by (auto simp: finalize_body_def stale_finalization_def split: if_splits option.splits)

lemma finalized_run_tx:
  assumes "finalized (fst (run_tx hook (finalize_body hook now env job worker token st res err delay) db))"
  obtains z where "finalize_body hook now env job worker token st res err delay db
      = TxCommit z (snd (run_tx hook (finalize_body hook now env job worker token st res err delay) db))"
  using assms finalize_body_result
  by (auto simp: finalized_def run_tx_def split: tx_end.splits if_splits)

text \<open>An accepted finalization leaves the row of the token finished or waiting.\<close>

lemma finalize_claim_accepted:
  assumes "finalized (fst (finalize_claim hook now env job worker st res err delay db))"
  obtains r t st' res' err' ob as where "je_fencing_token job = Some t" "r \<in> set (jd_jobs db)"
    "jr_id r = je_id job" "jr_status r = RUNNING" "jr_fencing_token r = Some t"
    "st' = (if jr_cancellation_requested_at r \<noteq> None then CANCELLED else st)"
    "finalize_values now st' res' err' delay r
       \<in> set (jd_jobs (snd (finalize_claim hook now env job worker st res err delay db)))"
proof -
  let ?tx = "\<lambda>w t. run_tx hook (finalize_body hook now env job w t st res err delay) db"
  from assms obtain w t where w: "job_required_text ''worker_id'' worker = Inr w"
    "je_fencing_token job = Some t"
    and eq: "finalize_claim hook now env job worker st res err delay db = ?tx w t"
    by (auto simp: finalize_claim_def required_fencing_token_def finalized_def
        split: sum.splits option.splits)
  from assms have "finalized (fst (?tx w t))" by (simp add: eq)
  then obtain z where z: "finalize_body hook now env job w t st res err delay db = TxCommit z (snd (?tx w t))"
    by (rule finalized_run_tx)
  from z obtain r st' res' err' where r: "r \<in> set (jd_jobs db)" "jr_id r = je_id job"
    "owns_claim_row (je_id job) w t now r"
    and st': "st' = (if jr_cancellation_requested_at r \<noteq> None then CANCELLED else st)"
    and wr: "finalize_write hook now env job w t st' res' err' delay db = TxCommit z (snd (?tx w t))"
    by (rule finalize_body_commit)
  from wr obtain ob where "snd (?tx w t) = db\<lparr>jd_jobs := sql_update (owns_claim_row (je_id job) w t now)
               (finalize_values now st' res' err' delay) (jd_jobs db),
             jd_attempts := sql_update (running_attempt (je_id job) t)
               (close_attempt (if st' = RETRY_WAIT then ''failed'' else status_value st') now err') (jd_attempts db),
             jd_outbox := ob\<rparr>" by (rule finalize_write_commit)
  then have "finalize_values now st' res' err' delay r \<in> set (jd_jobs (snd (?tx w t)))"
    using r(1,3) by (force simp: set_sql_update)
  with that w(2) r(1,2) owns_claim_rowD(2,4) [OF r(3)] st' show thesis by (simp add: eq)
qed

lemma finalize_accept_retires:
  assumes inv: "job_inv (sys_db s)" and st: "st \<noteq> RUNNING"
    and acc: "finalized (fst (finalize_claim hook now env job worker st res err delay (sys_db s)))"
    and tp: "token_pair job = Some (k, t)"
  shows "job_retired (s\<lparr>sys_db := snd (finalize_claim hook now env job worker st res err delay (sys_db s))\<rparr>) k t"
proof -
  from acc obtain r t' st' res' err' where r: "je_fencing_token job = Some t'" "r \<in> set (jd_jobs (sys_db s))"
    "jr_id r = je_id job" "jr_status r = RUNNING" "jr_fencing_token r = Some t'"
    "st' = (if jr_cancellation_requested_at r \<noteq> None then CANCELLED else st)"
    and f: "finalize_values now st' res' err' delay r
       \<in> set (jd_jobs (snd (finalize_claim hook now env job worker st res err delay (sys_db s))))"
    by (rule finalize_claim_accepted)
  have ok: "job_row_ok r" using job_inv_row [OF inv r(2)] .
  from running_row [OF ok r(4)] r(5) have h: "has_token (jr_id r) (jr_attempt_count r) t'"
    "1 \<le> jr_attempt_count r" by auto
  have kt: "k = jr_id r" "t = t'" using tp r(1,3) by (auto simp: token_pair_def)
  show ?thesis
    by (rule job_retiredI [where r = "finalize_values now st' res' err' delay r" and m = "jr_attempt_count r"])
      (use f h kt st r(6) core_view_eqD(1) [OF finalize_values_core(1)] in auto)
qed

lemma job_accept_retires:
  assumes inv: "sys_inv s" and fin: "job_fin op = Some (k, t)" and acc: "fst (job_act op s)"
  shows "job_retired (snd (job_act op s)) k t"
proof -
  have db: "job_inv (sys_db s)" using inv by (simp add: sys_inv_def)
  note ret = finalize_accept_retires [OF db, where k = k and t = t]
  have no: "\<not> finalized (Inl e)" for e by (simp add: finalized_def)
  show ?thesis
  proof (cases op)
    case (Complete hook now env job worker res)
    then show ?thesis
      using fin acc ret [of SUCCEEDED] no by (auto simp: complete_def case_prod_beta split: sum.splits)
  next
    case (Fail hook t0 now env job worker err retryable delay)
    have "(if can_retry t0 job retryable then RETRY_WAIT else FAILED) \<noteq> RUNNING" by simp
    note retf = ret [OF this]
    show ?thesis
      using Fail fin acc retf no
      by (auto simp: fail_def case_prod_beta split: sum.splits split del: if_split)
  next
    case (Cancel_Claim hook now env job worker)
    then show ?thesis
      using fin acc ret [of CANCELLED] by (simp add: cancel_claim_def case_prod_beta)
  qed (use fin in simp_all)
qed

lemma job_retired_rejected:
  assumes inv: "sys_inv s" and ret: "job_retired s k t" and fin: "job_fin op = Some (k, t)"
  shows "job_act op s = (False, s)"
proof -
  have db: "job_inv (sys_db s)" using inv by (simp add: sys_inv_def)
  have tp: "je_id job = k" "je_fencing_token job = Some t" if "token_pair job = Some (k, t)" for job
    using that by (auto simp: token_pair_def)
  have rej: "\<not> finalized (fst (finalize_claim hook now env job worker st res err delay (sys_db s)))
       \<and> snd (finalize_claim hook now env job worker st res err delay (sys_db s)) = sys_db s"
    if "token_pair job = Some (k, t)" for hook now env job worker st res err delay
    using finalize_claim_retired [OF db _ tp(2) [OF that]] ret tp(1) [OF that] by simp
  have no: "\<not> finalized (Inl e)" for e by (simp add: finalized_def)
  show ?thesis
  proof (cases op)
    case (Complete hook now env job worker res)
    then show ?thesis using fin rej no by (auto simp: complete_def case_prod_beta split: sum.split)
  next
    case (Fail hook t0 now env job worker err retryable delay)
    then show ?thesis using fin rej no by (auto simp: fail_def case_prod_beta split: sum.split)
  next
    case (Cancel_Claim hook now env job worker)
    then show ?thesis using fin rej by (simp add: cancel_claim_def case_prod_beta)
  qed (use fin in simp_all)
qed

interpretation jobs: fenced_store job_act job_fin sys_inv job_valid "\<lambda>_ _ _. True" job_retired
proof
  fix s e k t
  assume inv: "sys_inv s"
  show "sys_inv (snd (job_act e s))" if "job_valid s e" using job_act_inv [OF inv that] .
  show "job_retired (snd (job_act e s)) k t" if "job_fin e = Some (k, t)" "fst (job_act e s)"
    using job_accept_retires [OF inv that] .
  show "job_act e s = (False, s)" if "job_retired s k t" "job_fin e = Some (k, t)"
    using job_retired_rejected [OF inv that] .
  show "job_retired (snd (job_act e s)) k t" if "job_valid s e" "job_retired s k t"
    using job_retired_stable [OF that(2)] job_act_steps [OF inv that(1)] by blast
qed

lemma run_advances:
  assumes "sys_inv s" and "legal job_valid job_act ops s"
  shows "advances (jd_jobs (sys_db s)) (jd_jobs (sys_db (snd (run_ops job_act ops s))))"
  using assms
proof (induction ops arbitrary: s)
  case (Cons op ops)
  have v: "job_valid s op" "legal job_valid job_act ops (snd (job_act op s))" using Cons.prems(2) by simp_all
  have "advances (jd_jobs (sys_db s)) (jd_jobs (sys_db (snd (job_act op s))))"
    using job_act_steps [OF Cons.prems(1) v(1)] by blast
  moreover have "advances (jd_jobs (sys_db (snd (job_act op s))))
      (jd_jobs (sys_db (snd (run_ops job_act ops (snd (job_act op s))))))"
    using Cons.IH [OF job_act_inv [OF Cons.prems(1) v(1)] v(2)] .
  ultimately show ?case using advances_trans by simp
qed simp

end
