(* ===== verification/Job_Properties.thy ===== *)
theory Job_Properties
  imports Job_System
begin

text \<open>
  What clients of the job queue rely on, proved from the invariant of \<open>Job_System\<close>: the order of
  claims and that a claim never fails, exclusive leases, atomic finalization under a crash,
  cancellation, recovery of expired claims, idempotent submission.
\<close>

section \<open>A claim takes the best candidate\<close>

definition claim_order :: "job_row \<Rightarrow> int \<times> int" where
  "claim_order r = (- jr_priority r, jr_queue_position r)"

definition candidate :: "bool \<Rightarrow> string list \<Rightarrow> time \<Rightarrow> job_row \<Rightarrow> bool" where
  "candidate skip locked now r \<longleftrightarrow> claimable now r \<and> \<not> (skip \<and> jr_id r \<in> set locked)"

lemma claim_scan_Nil:
  "claim_scan skip locked now jobs = [] \<longleftrightarrow> list_all (\<lambda>r. \<not> candidate skip locked now r) jobs"
  by (auto simp: claim_scan_def claim_scan_limit_def candidate_def filter_empty_conv list_all_iff)

lemma claim_scan_hd:
  assumes "claim_scan skip locked now jobs = row # rest"
  shows "row \<in> set jobs \<and> candidate skip locked now row
       \<and> (\<forall>r \<in> set jobs. candidate skip locked now r \<longrightarrow> claim_order row \<le> claim_order r)"
proof -
  let ?k = "\<lambda>r. (- jr_priority r, jr_queue_position r)"
  let ?f = "filter (\<lambda>r. claimable now r \<and> \<not> (skip \<and> jr_id r \<in> set locked)) jobs"
  from assms obtain ys where s: "sort_key ?k ?f = row # ys"
    by (cases "sort_key ?k ?f") (auto simp: claim_scan_def claim_scan_limit_def split: if_splits)
  from hd_sort_key_mem [OF s] have "row \<in> set jobs" "candidate skip locked now row"
    by (auto simp: candidate_def)
  moreover have "claim_order row \<le> claim_order r" if "r \<in> set jobs" "candidate skip locked now r" for r
    using hd_sort_key_le [OF s, of r] that by (simp add: claim_order_def candidate_def)
  ultimately show ?thesis by blast
qed

lemma guard_self:
  assumes "claimable now row" shows "job_claim_guard now row row"
  using assms by (auto simp: claimable_def job_claim_guard_def)

lemma guard_once:
  assumes "jobs_inv jobs n" and "row \<in> set jobs" and "claimable now row"
  shows "rowcount (job_claim_guard now row) jobs = 1"
proof -
  have d: "distinct (map jr_id jobs)" using assms(1) by (simp add: jobs_inv_def)
  have key: "job_claim_guard now row r \<Longrightarrow> jr_id r = jr_id row" for r by (simp add: job_claim_guard_def)
  have "\<exists>r \<in> set jobs. job_claim_guard now row r" using guard_self [OF assms(3)] assms(2) by (rule bexI)
  then show ?thesis using rowcount_eq_one [where p = "job_claim_guard now row", OF d key] by (rule iffD2 [rotated])
qed

lemma claim_attempts_ok:
  assumes inv: "job_inv db" and r: "row \<in> set (jd_jobs db)" and c: "claimable now row"
    and fresh: "aid \<notin> ar_id ` set (jd_attempts db)"
  shows "\<exists>as. claim_attempts now w (fencing_token (jr_id row) (jr_lease_generation row + 1) rnd) aid row
           (jd_attempts db) = Inr as"
proof -
  let ?n = "jr_attempt_count row" and ?k = "jr_id row"
  let ?tok = "fencing_token ?k (jr_lease_generation row + 1) rnd"
  let ?a = "new_attempt now w ?tok aid row"
  have jobs: "jobs_inv (jd_jobs db) (jd_next db)" and att: "attempts_inv (map claim_view (jd_jobs db)) (jd_attempts db)"
    using inv by (simp_all add: job_inv_def)
  have ok: "job_row_ok row" using job_inv_row [OF inv r] .
  note n0 = row_counts(1) [OF ok]
  have tok: "has_token ?k (?n + 1) (ar_fencing_token ?a)" using row_counts(3) [OF ok] by simp
  have v: "(?k, ?n, jr_status row = RUNNING, jr_fencing_token row) \<in> set (map claim_view (jd_jobs db))"
    using r by (force simp: claim_view_def)
  have no: "\<not> attempt_conflict ?a (jd_attempts db)"
    by (rule attempt_no_conflict [OF att jobs_inv_views(1) [OF jobs] v n0 jobs_inv_views(3) [OF jobs] _ _ tok])
      (use fresh in simp_all)
  show ?thesis
  proof (cases "jr_status row = RUNNING")
    case False
    then show ?thesis using no by (simp add: claim_attempts_idle)
  next
    case True
    from running_row [OF ok True] obtain t where t: "jr_fencing_token row = Some t" "t \<noteq> []"
      using has_token_nonempty by metis
    have "\<not> attempt_conflict ?a (sql_update (running_attempt ?k t) (close_attempt st now e) (jd_attempts db))" for st e
      using no unfolding attempt_conflict_def set_sql_update by (auto split: if_splits)
    then show ?thesis using claim_attempts_takeover [OF True t] by (simp add: Let_def)
  qed
qed

text \<open>The claim of an idle or expired candidate, spelled out.\<close>

lemma claim_next_takes:
  assumes inv: "job_inv db" and w: "py_strip worker \<noteq> []" and l: "0 < lease_s"
    and fresh: "aid \<notin> ar_id ` set (jd_attempts db)"
    and scan: "claim_scan skip locked now (jd_jobs db) = row # rest"
  shows "\<exists>e db'. claim_next skip locked now rnd aid worker lease_s db = (Inr (Some e), db')
       \<and> envelope_of e row \<and> je_attempt e = jr_attempt_count row + 1
       \<and> claim_values now (py_strip worker) (now + timedelta_us lease_s) (the (je_fencing_token e)) row row
           \<in> set (jd_jobs db')"
proof -
  from claim_scan_hd [OF scan] have row: "row \<in> set (jd_jobs db)" "claimable now row"
    by (auto simp: candidate_def)
  let ?rnd = "take 12 (uuid_hex (rnd 0))"
  let ?tok = "fencing_token (jr_id row) (jr_lease_generation row + 1) ?rnd"
  let ?w = "py_strip worker" and ?x = "now + timedelta_us lease_s"
  have jobs: "jobs_inv (jd_jobs db) (jd_next db)" using inv by (simp add: job_inv_def)
  have ok: "job_row_ok row" using job_inv_row [OF inv row(1)] .
  note one = guard_once [OF jobs row]
  from claim_attempts_ok [OF inv row fresh] obtain as where
    as: "claim_attempts now ?w ?tok aid row (jd_attempts db) = Inr as" by blast
  have hex: "list_all is_hex ?rnd" by (simp add: list_all_take_drop uuid_hex_chars)
  note cl = claim_row_claimable [OF row(2) ok guard_self [OF row(2)] ok row_le_refl refl]
  obtain e where e: "row_to_envelope (Some (jr_attempt_count row + 1)) (Some ?tok) row = Inr e"
    "envelope_of e row" "je_attempt e = jr_attempt_count row + 1" "je_fencing_token e = Some ?tok"
    using row_to_envelope_ok [of row "jr_attempt_count row + 1" ?tok] ok cl(1) row_counts(1) [OF ok]
      fencing_token_strip [OF hex] by (auto simp: job_row_ok_def)
  have "claim_values now ?w ?x ?tok row row
      \<in> set (sql_update (job_claim_guard now row) (claim_values now ?w ?x ?tok row) (jd_jobs db))"
    unfolding set_sql_update using row(1) guard_self [OF row(2)] by force
  with e one as scan w l show ?thesis
    by (simp add: claim_next_def job_required_text_def require_positive_def Let_def)
qed

lemma claim_next_empty:
  assumes w: "py_strip worker \<noteq> []" and l: "0 < lease_s"
    and scan: "claim_scan skip locked now (jd_jobs db) = []"
  shows "claim_next skip locked now rnd aid worker lease_s db = (Inr None, db)"
  using assms by (simp add: claim_next_def job_required_text_def require_positive_def)

section \<open>Atomicity\<close>

lemma finalize_claim_atomic:
  "isl (fst (finalize_claim hook now env job worker st res err delay db)) \<Longrightarrow>
     snd (finalize_claim hook now env job worker st res err delay db) = db"
  using run_tx_Inl by (fastforce simp: finalize_claim_def isl_def split: sum.splits)

lemma rejected_unchanged:
  assumes "\<not> finalized (fst (finalize_claim hook now env job worker st res err delay db))"
  shows "snd (finalize_claim hook now env job worker st res err delay db) = db"
proof -
  have commit: "fz_accepted z" if "finalize_body hook now env job w t st res err delay db = TxCommit z d" for w t z d
  proof -
    from that obtain r st' res' err' where
      "finalize_write hook now env job w t st' res' err' delay db = TxCommit z d"
      by (rule finalize_body_commit)
    then obtain ob where "z = \<lparr>fz_accepted = True, fz_status = st', fz_retry_scheduled = (st' = RETRY_WAIT)\<rparr>"
      by (rule finalize_write_commit)
    then show ?thesis by simp
  qed
  have "snd (run_tx hook (finalize_body hook now env job w t st res err delay) db) = db"
    if "\<not> finalized (fst (run_tx hook (finalize_body hook now env job w t st res err delay) db))" for w t
    using that commit by (auto simp: run_tx_def finalized_def split: tx_end.splits if_splits)
  with assms show ?thesis by (simp add: finalize_claim_def finalized_def split: sum.splits)
qed

section \<open>Recovery\<close>

lemma recover_scan_Nil:
  "recover_scan skip locked now jobs = [] \<longleftrightarrow>
     list_all (\<lambda>r. \<not> (recoverable now r \<and> \<not> (skip \<and> jr_id r \<in> set locked))) jobs"
  by (auto simp: recover_scan_def filter_empty_conv list_all_iff)

lemma recover_body_None:
  "recover_body hook now env rows db = TxReturn None \<Longrightarrow> rows = []"
  by (cases rows) (auto simp: recover_body_def Let_def split: if_splits sum.splits)

lemma recover_body_commit_row:
  assumes "recover_body hook now env rows db = TxCommit z db'"
  shows "z = Some True \<and> (\<exists>row rest st err. rows = row # rest \<and> st = recover_status row \<and> err = recover_error st
     \<and> jd_jobs db' = sql_update (recover_guard now row) (recover_values now st err) (jd_jobs db))"
  using assms
  by (cases rows) (auto simp: recover_body_def Let_def split: if_splits sum.splits)

definition recover_count :: "time \<Rightarrow> job_row list \<Rightarrow> nat" where
  "recover_count now jobs = rowcount (recoverable now) jobs"

lemma rowcount_update_one:
  assumes "distinct (map key rows)" and "row \<in> set rows" and "P row" and "\<not> P (f row)"
    and "p row" and "\<And>r. p r \<Longrightarrow> key r = key row"
  shows "Suc (rowcount P (sql_update p f rows)) = rowcount P rows"
  using assms(1,2)
proof (induction rows)
  case (Cons r rows)
  show ?case
  proof (cases "r = row")
    case True
    then have "sql_update p f rows = rows"
      using Cons.prems(1) assms(6) True by (intro sql_update_none) (metis distinct.simps(2) image_eqI list.set_map list.simps(9))
    then show ?thesis using True assms(3-5) by (simp add: rowcount_def)
  next
    case False
    then have "row \<in> set rows" "\<not> p r" using Cons.prems assms(6) by force+
    with Cons show ?thesis by (auto simp: rowcount_def)
  qed
qed simp

lemma recover_values_done: "\<not> recoverable now (recover_values now (recover_status row) err r)"
  by (auto simp: recoverable_def recover_values_def recover_status_def)

text \<open>How the pass finalizes a crashed claim: all other columns as they were.\<close>

definition crash_result :: "time \<Rightarrow> job_row \<Rightarrow> job_row" where
  "crash_result now r = r\<lparr>jr_status := (if jr_cancellation_requested_at r \<noteq> None then CANCELLED else FAILED),
     jr_last_error := Some (if jr_cancellation_requested_at r \<noteq> None then ''cancellation requested''
       else ''lease expired after maximum attempts''),
     jr_completed_at := Some now, jr_updated_at := now,
     jr_claimed_by := None, jr_fencing_token := None, jr_lease_expires_at := None\<rparr>"

lemma recover_values_crash:
  "recover_values now (recover_status r) (recover_error (recover_status r)) r = crash_result now r"
  unfolding recover_values_def recover_status_def recover_error_def crash_result_def by (cases r) simp

lemma crash_result_id [simp]: "jr_id (crash_result now r) = jr_id r"
  by (simp add: crash_result_def)

definition crashed_to :: "time \<Rightarrow> string list \<Rightarrow> job_row list \<Rightarrow> job_row list \<Rightarrow> bool" where
  "crashed_to now ids rows rows' \<longleftrightarrow> distinct ids \<and> (\<forall>i \<in> set ids. \<exists>r \<in> set rows. jr_id r = i \<and> recoverable now r)
     \<and> rows' = map (\<lambda>r. if jr_id r \<in> set ids then crash_result now r else r) rows"

lemma crashed_to_Nil: "crashed_to now [] rows rows"
  by (simp add: crashed_to_def)

lemma crashed_to_Cons:
  assumes d: "distinct (map jr_id rows)" and row: "row \<in> set rows" "recoverable now row"
    and first: "rows1 = map (\<lambda>r. if jr_id r = jr_id row then crash_result now r else r) rows"
    and rest: "crashed_to now ids rows1 rows2"
  shows "crashed_to now (jr_id row # ids) rows rows2"
proof -
  have same: "r = row" if "r \<in> set rows" "jr_id r = jr_id row" for r
    using d that row(1) by (metis distinct_map inj_onD)
  have gone: "\<not> recoverable now (crash_result now r)" for r by (simp add: recoverable_def crash_result_def)
  have old: "jr_id r \<noteq> jr_id row \<and> r \<in> set rows" if "r \<in> set rows1" "recoverable now r" for r
    using that gone unfolding first by (auto split: if_splits)
  have "jr_id row \<notin> set ids" using rest old by (fastforce simp: crashed_to_def)
  moreover have "\<exists>r \<in> set rows. jr_id r = i \<and> recoverable now r" if "i \<in> set ids" for i
    using that rest old by (fastforce simp: crashed_to_def)
  moreover have "rows2 = map (\<lambda>r. if jr_id r \<in> set (jr_id row # ids) then crash_result now r else r) rows"
    using rest \<open>jr_id row \<notin> set ids\<close> by (auto simp: crashed_to_def first)
  ultimately show ?thesis using rest row by (auto simp: crashed_to_def)
qed

lemma recover_one_cases:
  assumes inv: "job_inv db" and out: "recover_one hook skip locked now env db = (Inr z, db')"
  shows "z = None \<and> db' = db \<and> recover_scan skip locked now (jd_jobs db) = []
       \<or> z = Some True \<and> Suc (recover_count now (jd_jobs db')) = recover_count now (jd_jobs db)
         \<and> (\<exists>row \<in> set (jd_jobs db). recoverable now row
              \<and> jd_jobs db' = map (\<lambda>r. if jr_id r = jr_id row then crash_result now r else r) (jd_jobs db))"
proof -
  let ?rows = "recover_scan skip locked now (jd_jobs db)"
  have jobs: "jobs_inv (jd_jobs db) (jd_next db)" using inv by (simp add: job_inv_def)
  then have d: "distinct (map jr_id (jd_jobs db))" by (simp add: jobs_inv_def)
  have self: "recover_guard now row row \<and> row \<in> set (jd_jobs db) \<and> recoverable now row" if "?rows = row # rest" for row rest
    using recover_scan_rows [of row skip locked now "jd_jobs db"] that
    by (auto simp: recover_guard_def recoverable_def)
  show ?thesis
  proof (cases "recover_body hook now env ?rows db")
    case (TxCommit y d')
    with out have y: "z = y" "db' = d'" by (auto simp: recover_one_def run_tx_def split: if_splits)
    from recover_body_commit_row [OF TxCommit] obtain row rest st err where rw: "y = Some True"
      "?rows = row # rest" "st = recover_status row" "err = recover_error st"
      "jd_jobs d' = sql_update (recover_guard now row) (recover_values now st err) (jd_jobs db)" by blast
    have "Suc (recover_count now (jd_jobs d')) = recover_count now (jd_jobs db)"
      unfolding rw(3,5) recover_count_def
      by (rule rowcount_update_one [OF d]) (use self [OF rw(2)] recover_values_done in \<open>auto simp: recover_guard_def\<close>)
    moreover have "jd_jobs d' = map (\<lambda>r. if jr_id r = jr_id row then crash_result now r else r) (jd_jobs db)"
    proof -
      have same: "r = row" if "r \<in> set (jd_jobs db)" "jr_id r = jr_id row" for r
        using d that self [OF rw(2)] by (metis distinct_map inj_onD)
      have "(if recover_guard now row r then recover_values now st err r else r)
          = (if jr_id r = jr_id row then crash_result now r else r)" if r: "r \<in> set (jd_jobs db)" for r
      proof (cases "jr_id r = jr_id row")
        case True
        with same [OF r] self [OF rw(2)] show ?thesis by (simp add: rw(3,4) recover_values_crash)
      next
        case False
        then show ?thesis by (simp add: recover_guard_def)
      qed
      then show ?thesis unfolding rw(5) sql_update_def by (rule map_cong [OF refl])
    qed
    ultimately show ?thesis using y rw(1) self [OF rw(2)] by blast
  next
    case (TxReturn y)
    with out have y: "z = y" "db' = db" by (auto simp: recover_one_def run_tx_def)
    show ?thesis
    proof (cases ?rows)
      case Nil
      with TxReturn y show ?thesis by (simp add: recover_body_def)
    next
      case (Cons row rest)
      have "rowcount (recover_guard now row) (jd_jobs db) = 1"
        using self [OF Cons] rowcount_eq_one [OF d, of "recover_guard now row" "jr_id row"]
        by (auto simp: recover_guard_def)
      then show ?thesis
        using TxReturn Cons
        by (auto simp: recover_body_def Let_def split: sum.splits)
    qed
  next
    case (TxRaise x)
    with out show ?thesis by (simp add: recover_one_def run_tx_def)
  qed
qed

lemma recover_loop_result:
  assumes "job_inv db" and "recover_loop hook skip locked now envs k n db = (Inr m, db')"
  shows "n \<le> m \<and> m \<le> n + k \<and> recover_count now (jd_jobs db') + (m - n) = recover_count now (jd_jobs db)
       \<and> (m < n + k \<longrightarrow> recover_scan skip locked now (jd_jobs db') = [])
       \<and> (\<exists>ids. length ids = m - n \<and> crashed_to now ids (jd_jobs db) (jd_jobs db'))"
  using assms
proof (induction k arbitrary: n db)
  case (Suc k)
  obtain out db1 where o: "recover_one hook skip locked now (envs k) db = (out, db1)" by fastforce
  have i: "job_inv db1" using recover_one_inv [OF Suc.prems(1), of hook skip locked now "envs k"] o by simp
  from Suc.prems(2) o obtain z where z: "out = Inr z" by (cases out) auto
  from recover_one_cases [OF Suc.prems(1) o [unfolded z]] show ?case
  proof (elim disjE conjE)
    assume "z = None" "db1 = db" "recover_scan skip locked now (jd_jobs db) = []"
    then have "m = n" "db' = db" using Suc.prems(2) o z by auto
    then show ?thesis using Suc.prems(2) o z \<open>recover_scan skip locked now (jd_jobs db) = []\<close> crashed_to_Nil by fastforce
  next
    assume s: "z = Some True" "Suc (recover_count now (jd_jobs db1)) = recover_count now (jd_jobs db)"
      and "\<exists>row \<in> set (jd_jobs db). recoverable now row
          \<and> jd_jobs db1 = map (\<lambda>r. if jr_id r = jr_id row then crash_result now r else r) (jd_jobs db)"
    then obtain row where row: "row \<in> set (jd_jobs db)" "recoverable now row"
      "jd_jobs db1 = map (\<lambda>r. if jr_id r = jr_id row then crash_result now r else r) (jd_jobs db)" by blast
    have d: "distinct (map jr_id (jd_jobs db))" using Suc.prems(1) by (simp add: job_inv_def jobs_inv_def)
    have "recover_loop hook skip locked now envs k (Suc n) db1 = (Inr m, db')" using Suc.prems(2) o z s(1) by simp
    from Suc.IH [OF i this] obtain ids where ih: "Suc n \<le> m" "m \<le> Suc n + k"
      "recover_count now (jd_jobs db') + (m - Suc n) = recover_count now (jd_jobs db1)"
      "m < Suc n + k \<longrightarrow> recover_scan skip locked now (jd_jobs db') = []"
      "length ids = m - Suc n" "crashed_to now ids (jd_jobs db1) (jd_jobs db')" by blast
    from crashed_to_Cons [OF d row ih(6)] have "crashed_to now (jr_id row # ids) (jd_jobs db) (jd_jobs db')" .
    moreover have "length (jr_id row # ids) = m - n" using ih(1,5) by simp
    ultimately have "\<exists>ids. length ids = m - n \<and> crashed_to now ids (jd_jobs db) (jd_jobs db')" by blast
    with ih(1-4) s(2) show ?thesis by auto
  qed
qed (use crashed_to_Nil in auto)

section \<open>Attempts are counted\<close>

lemma attempts_counted:
  assumes inv: "job_inv db" and r: "r \<in> set (jd_jobs db)"
  shows "int (length (filter (\<lambda>a. ar_job_id a = jr_id r) (jd_attempts db))) = jr_attempt_count r"
proof -
  let ?n = "jr_attempt_count r" and ?k = "jr_id r"
  let ?as = "filter (\<lambda>a. ar_job_id a = ?k) (jd_attempts db)"
  have jobs: "jobs_inv (jd_jobs db) (jd_next db)" and att: "attempts_inv (map claim_view (jd_jobs db)) (jd_attempts db)"
    using inv by (simp_all add: job_inv_def)
  have v: "(?k, ?n, jr_status r = RUNNING, jr_fencing_token r) \<in> set (map claim_view (jd_jobs db))"
    using r by (force simp: claim_view_def)
  have "distinct (map (\<lambda>a. (ar_job_id a, ar_attempt a)) ?as)"
    using att by (auto simp: attempts_inv_def distinct_map_filter)
  then have d: "distinct (map ar_attempt ?as)"
    by (auto simp: distinct_map inj_on_def)
  have "set (map ar_attempt ?as) = {1..?n}"
  proof (intro equalityI subsetI)
    fix m assume "m \<in> set (map ar_attempt ?as)"
    then obtain a where a: "a \<in> set (jd_attempts db)" "ar_job_id a = ?k" "m = ar_attempt a" by auto
    then have "attempt_in (map claim_view (jd_jobs db)) a" "1 \<le> m"
      using att by (simp_all add: attempts_inv_def list_all_iff)
    then obtain m' run t where "(?k, m', run, t) \<in> set (map claim_view (jd_jobs db))" "m \<le> m'"
      using a(2,3) by (metis attempt_inE)
    with view_in_unique [OF jobs_inv_views(1) [OF jobs] v] \<open>1 \<le> m\<close> show "m \<in> {1..?n}" by fastforce
  next
    fix m assume m: "m \<in> {1..?n}"
    have "attempts_of (jd_attempts db) (claim_view r)"
      using att r by (simp add: attempts_inv_def list_all_iff)
    with m have "list_ex (\<lambda>a. ar_job_id a = ?k \<and> ar_attempt a = m) (jd_attempts db)"
      by (simp add: attempts_of_def claim_view_def list_all_iff)
    then show "m \<in> set (map ar_attempt ?as)" by (auto simp: list_ex_iff)
  qed
  then have "card {1..?n} = length ?as" using distinct_card [OF d] by simp
  then show ?thesis using row_counts(1) [OF job_inv_row [OF inv r]] by simp
qed

section \<open>Submissions with an idempotency key\<close>

lemma find_idempotent_row:
  "find_idempotent key jobs = Some i \<Longrightarrow> \<exists>r \<in> set jobs. jr_id r = i \<and> jr_idempotency_key r = Some key"
  by (auto simp: find_idempotent_def dest: find_SomeD)

lemma idem_unique:
  assumes "jobs_inv jobs n" and "r \<in> set jobs" and "s \<in> set jobs"
    and "jr_idempotency_key r = Some key" and "jr_idempotency_key s = Some key"
  shows "r = s"
proof -
  have "distinct (filter (\<lambda>k. k \<noteq> None) (map jr_idempotency_key jobs))"
    using assms(1) by (simp add: jobs_inv_def idem_keys_def)
  then have "distinct (map jr_idempotency_key (filter (\<lambda>r. jr_idempotency_key r \<noteq> None) jobs))"
    by (simp add: filter_map comp_def)
  then have "inj_on jr_idempotency_key {r \<in> set jobs. jr_idempotency_key r \<noteq> None}"
    by (simp add: distinct_map)
  from inj_onD [OF this] assms(2-5) show ?thesis by simp
qed

lemma receipt_row:
  assumes "job_insert snap now job_id run_at job db = (Inr rc, db')" and "js_idempotency_key job = Some key"
    and "advances snap (jd_jobs db)"
  shows "\<exists>r \<in> set (jd_jobs db'). jr_id r = rc_job_id rc \<and> jr_idempotency_key r = Some key"
proof (cases "find_idempotent key snap")
  case (Some i)
  from find_idempotent_row [OF this] obtain r where r: "r \<in> set snap" "jr_id r = i" "jr_idempotency_key r = Some key"
    by blast
  from advances_row [OF assms(3) r(1)] obtain r' where r': "r' \<in> set (jd_jobs db)" "row_le r r'" by blast
  have "core_view r = core_view r'" using r'(2) by (simp add: row_le_def)
  note c = core_view_eqD(1,3) [OF this]
  have "rc_job_id rc = i" "db' = db" using assms(1,2) Some by (auto simp: job_insert_def)
  then show ?thesis using c r r'(1) by metis
next
  case None
  let ?row = "new_job_row now job_id run_at (jd_next db) job"
  show ?thesis
  proof (cases "job_conflict ?row (jd_jobs db)")
    case False
    then show ?thesis using assms(1,2) None by (auto simp: job_insert_def Let_def new_job_row_def)
  next
    case True
    then show ?thesis
      using assms(1,2) None find_idempotent_row
      by (auto simp: job_insert_def Let_def split: option.splits)
  qed
qed

lemma submissions_agree:
  assumes inv: "sys_inv s1" and sub: "make_submission v1 raw1 = Inr j1"
    and k1: "js_idempotency_key j1 = Some key" and k2: "js_idempotency_key j2 = Some key"
    and first: "job_insert snap1 now1 (uuid_text w1) at1 j1 (sys_db s1) = (Inr rc1, db1)"
    and s2: "advances (jd_jobs db1) (jd_jobs db2)" and inv2: "job_inv db2"
    and snap1: "advances snap1 (jd_jobs (sys_db s1))" and snap2: "advances snap2 (jd_jobs db2)"
    and second: "job_insert snap2 now2 (uuid_text w2) at2 j2 db2 = (Inr rc2, db3)"
    and sub2: "make_submission v2 raw2 = Inr j2"
  shows "rc_job_id rc2 = rc_job_id rc1"
proof -
  from receipt_row [OF first k1 snap1] obtain r1 where
    r1: "r1 \<in> set (jd_jobs db1)" "jr_id r1 = rc_job_id rc1" "jr_idempotency_key r1 = Some key" by blast
  have st: "job_inv db3" "advances (jd_jobs db2) (jd_jobs db3)"
    using job_insert_inv [OF inv2 sub2, of "uuid_text w2" snap2 now2 at2] second by auto
  from advances_row [OF advances_trans [OF s2 st(2)] r1(1)] obtain r1' where
    r1': "r1' \<in> set (jd_jobs db3)" "row_le r1 r1'" by blast
  then have "core_view r1 = core_view r1'" by (simp add: row_le_def)
  note c = core_view_eqD(1,3) [OF this]
  from receipt_row [OF second k2 snap2] obtain r2 where
    r2: "r2 \<in> set (jd_jobs db3)" "jr_id r2 = rc_job_id rc2" "jr_idempotency_key r2 = Some key" by blast
  have "jobs_inv (jd_jobs db3) (jd_next db3)" using st(1) by (simp add: job_inv_def)
  from idem_unique [OF this r1'(1) r2(1), of key] c r1 r2 show ?thesis by simp
qed

section \<open>What an accepted finalization writes\<close>

lemma finalize_claim_written:
  assumes inv: "job_inv db" and g: "genuine (jd_jobs db) job"
    and acc: "finalized (fst (finalize_claim hook now env job worker st res err delay db))"
    and db': "db' = snd (finalize_claim hook now env job worker st res err delay db)"
  shows "\<exists>r st' res' err' e out. r \<in> set (jd_jobs db) \<and> jr_id r = je_id job \<and> jr_status r = RUNNING
     \<and> jr_fencing_token r = je_fencing_token job \<and> je_attempt job = jr_attempt_count r
     \<and> (case jr_lease_expires_at r of None \<Rightarrow> False | Some x \<Rightarrow> now \<le> x)
     \<and> st' = (if jr_cancellation_requested_at r \<noteq> None then CANCELLED else st)
     \<and> (jr_cancellation_requested_at r \<noteq> None \<longrightarrow> res' = None)
     \<and> finalize_values now st' res' err' delay r \<in> set (jd_jobs db')
     \<and> db_events (jd_outbox db') = db_events (jd_outbox db) @ [e]
     \<and> db_outbox (jd_outbox db') = db_outbox (jd_outbox db) @ [out]
     \<and> ev_type e = event_type_for st' \<and> ev_aggregate_id e = je_id job
     \<and> or_deduplication_key out = Some (attempt_key (je_id job) (je_attempt job) (event_type_for st'))"
proof -
  let ?tx = "\<lambda>w t. run_tx hook (finalize_body hook now env job w t st res err delay) db"
  from acc obtain w t where t: "je_fencing_token job = Some t"
    and eq: "finalize_claim hook now env job worker st res err delay db = ?tx w t"
    by (auto simp: finalize_claim_def required_fencing_token_def finalized_def split: sum.splits option.splits)
  from acc have "finalized (fst (?tx w t))" by (simp add: eq)
  then obtain z where z: "finalize_body hook now env job w t st res err delay db = TxCommit z (snd (?tx w t))"
    by (rule finalized_run_tx)
  from z obtain r st' res' err' where r: "r \<in> set (jd_jobs db)" "jr_id r = je_id job"
    and own: "owns_claim_row (je_id job) w t now r"
    and st': "st' = (if jr_cancellation_requested_at r \<noteq> None then CANCELLED else st)"
    and res': "res' = (if jr_cancellation_requested_at r \<noteq> None then None else case res of Some PNone \<Rightarrow> None | _ \<Rightarrow> res)"
    and wr: "finalize_write hook now env job w t st' res' err' delay db = TxCommit z (snd (?tx w t))"
    by (rule finalize_body_commit)
  from wr obtain ob where
    emit: "emit_job_event hook env (job_event env (event_type_for st') (je_id job) (je_correlation_id job)
       (je_causation_id job) (finalize_payload now job st' res' err' delay))
       (attempt_key (je_id job) (je_attempt job) (event_type_for st')) (jd_outbox db) = Inr ob"
    and d: "snd (?tx w t) = db\<lparr>jd_jobs := sql_update (owns_claim_row (je_id job) w t now)
               (finalize_values now st' res' err' delay) (jd_jobs db),
             jd_attempts := sql_update (running_attempt (je_id job) t)
               (close_attempt (if st' = RETRY_WAIT then ''failed'' else status_value st') now err') (jd_attempts db),
             jd_outbox := ob\<rparr>" by (rule finalize_write_commit)
  note own' = owns_claim_rowD [OF own]
  have cur: "je_attempt job = jr_attempt_count r" using genuine_current [OF inv g t r own'(4)] by blast
  have evs: "events_inv (map status_view (jd_jobs db)) (jd_outbox db)" and jobs: "jobs_inv (jd_jobs db) (jd_next db)"
    using inv by (simp_all add: job_inv_def)
  have sv: "(je_id job, je_attempt job, RUNNING) \<in> set (map status_view (jd_jobs db))"
    using r own'(2) cur by (force simp: status_view_def)
  have ob: "outbox_inv (jd_outbox db)" using evs by (simp add: events_inv_def)
  from emit_recorded [OF ob emit attempt_key_unused [OF evs jobs_inv_views(2) [OF jobs] sv]] obtain e out where
    "ev_type e = event_type_for st'" "ev_aggregate_id e = je_id job"
    "or_deduplication_key out = Some (attempt_key (je_id job) (je_attempt job) (event_type_for st'))"
    "db_events ob = db_events (jd_outbox db) @ [e]" "db_outbox ob = db_outbox (jd_outbox db) @ [out]" by blast
  moreover have "finalize_values now st' res' err' delay r \<in> set (jd_jobs (snd (?tx w t)))"
    using r(1) own d by (force simp: set_sql_update)
  moreover have "case jr_lease_expires_at r of None \<Rightarrow> False | Some x \<Rightarrow> now \<le> x"
    using own by (simp add: owns_claim_row_def)
  ultimately show ?thesis
    using r own' cur st' res' t d db' eq
    by (intro exI [of _ r] exI [of _ st'] exI [of _ res'] exI [of _ err'] exI [of _ e] exI [of _ out]) simp
qed

lemma issued_genuine:
  assumes "legal job_valid job_act ops init_sys" and "s = snd (run_ops job_act ops init_sys)"
    and "job \<in> set (sys_issued s)"
  shows "job_inv (sys_db s)" "genuine (jd_jobs (sys_db s)) job"
proof -
  have "sys_inv s"
    using jobs.run_ok [OF sys_inv_init assms(1)] assms(2) by simp
  with assms(3) show "job_inv (sys_db s)" "genuine (jd_jobs (sys_db s)) job"
    by (simp_all add: sys_inv_def list_all_iff)
qed

section \<open>A concrete run\<close>

text \<open>One job, submitted, claimed and completed twice; the second completion is rejected.\<close>

definition ex_submission :: job_submission where
  "ex_submission = \<lparr>js_job_type = ''mail'', js_payload = PMap False [(PStr ''a'', PInt 1)], js_version = 1,
     js_priority = 0, js_max_attempts = 2, js_timeout_s = None, js_deadline = None,
     js_correlation_id = None, js_causation_id = None, js_trace_id = None, js_actor_id = None,
     js_idempotency_key = Some ''k''\<rparr>"

definition ex_env :: tx_env where
  "ex_env = \<lparr>te_event_id = ''e1'', te_outbox_id = ''o1'', te_occurred = 5, te_recorded = 6\<rparr>"

definition ex_job :: job_envelope where
  "ex_job = \<lparr>je_id = ''00000000-0000-0000-0000-000000000005'', je_job_type = ''mail'',
     je_version = 1, je_payload = PMap True [(PStr ''a'', PInt 1)], je_priority = 0, je_attempt = 1,
     je_max_attempts = 2, je_timeout_s = None, je_deadline = None, je_correlation_id = None,
     je_causation_id = None, je_trace_id = None, je_actor_id = None,
     je_fencing_token = Some ''job_00000000-0000-0000-0000-000000000005_generation_1_000000000000''\<rparr>"

definition ex_claimed :: "job_op list" where
  "ex_claimed = [Submit [] 0 0 5 None ex_submission, Claim_Next False [] 10 (\<lambda>_. 7) ''a1'' ''w'' 3]"

definition ex_run :: "job_op list" where
  "ex_run = ex_claimed @ [Complete no_hook 20 ex_env ex_job ''w'' (PInt 3)]"

definition ex_db1 :: job_db where
  "ex_db1 = \<lparr>jd_jobs =
    [\<lparr>jr_queue_position = 1, jr_id = ''00000000-0000-0000-0000-000000000005'',
        jr_job_type = ''mail'', jr_version = 1, jr_payload = PMap False [(PStr ''a'', PInt 1)],
        jr_priority = 0, jr_attempt_count = 1, jr_max_attempts = 2, jr_timeout_s = None,
        jr_deadline = None, jr_correlation_id = None, jr_causation_id = None, jr_trace_id = None,
        jr_actor_id = None, jr_status = RUNNING, jr_available_at = 0, jr_created_at = 0,
        jr_updated_at = 10, jr_started_at = Some 10, jr_completed_at = None, jr_claimed_by = Some ''w'',
        jr_fencing_token = Some ''job_00000000-0000-0000-0000-000000000005_generation_1_000000000000'',
        jr_lease_generation = 1, jr_lease_expires_at = Some 3000010,
        jr_cancellation_requested_at = None, jr_result = None, jr_last_error = None,
        jr_idempotency_key = Some ''k''\<rparr>],
    jd_attempts =
      [\<lparr>ar_id = ''a1'', ar_job_id = ''00000000-0000-0000-0000-000000000005'', ar_attempt = 1,
          ar_worker_id = ''w'',
          ar_fencing_token = ''job_00000000-0000-0000-0000-000000000005_generation_1_000000000000'',
          ar_status = ''running'', ar_started_at = 10, ar_finished_at = None, ar_error = None\<rparr>],
    jd_next = 2, jd_outbox = \<lparr>db_events = [], db_outbox = []\<rparr>\<rparr>"

definition ex_sys1 :: job_sys where
  "ex_sys1 = \<lparr>sys_db = ex_db1, sys_issued = [ex_job]\<rparr>"

lemma ex_claimed_state: "snd (run_ops job_act ex_claimed init_sys) = ex_sys1"
  by code_simp

lemma ex_claimed_legal: "legal job_valid job_act ex_claimed init_sys"
  by (simp add: ex_claimed_def)

lemma ex_sys1_parts [simp]: "sys_db ex_sys1 = ex_db1" "sys_issued ex_sys1 = [ex_job]"
  by (simp_all add: ex_sys1_def)

abbreviation ex_complete :: job_op where
  "ex_complete \<equiv> Complete no_hook 20 ex_env ex_job ''w'' (PInt 3)"

lemma ex_run_legal: "legal job_valid job_act ex_run init_sys"
  by (simp add: ex_run_def legal_append ex_claimed_legal ex_claimed_state)

lemma ex_run_state: "snd (run_ops job_act ex_run init_sys) = snd (job_act ex_complete ex_sys1)"
  by (simp add: ex_run_def snd_run_append ex_claimed_state)

section \<open>The guarantees\<close>

lemma reachable_inv:
  "legal job_valid job_act ops init_sys \<Longrightarrow> sys_inv (snd (run_ops job_act ops init_sys))"
  by (rule jobs.run_ok [OF sys_inv_init])

text \<open>C2: In every state that any interleaving of submissions, claims, heartbeats, completions,
  failures, cancellations, recoveries and outbox operations reaches, the jobs table, the attempts
  table and the outbox satisfy the invariant: constraints hold, status, counters, token, lease and
  completion time fit together, attempts are numbered without gaps, and a finished job has
  exactly one final event.\<close>

theorem job_tables_consistent:
  assumes "legal job_valid job_act ops init_sys"
  shows "job_inv (sys_db (snd (run_ops job_act ops init_sys)))"
  using reachable_inv [OF assms] by (simp add: sys_inv_def)

theorem job_tables_consistent_witness: "job_inv (sys_db (snd (run_ops job_act ex_run init_sys)))"
  by (rule job_tables_consistent [OF ex_run_legal])

text \<open>C1: However workers, recoveries and cancellations interleave, at most one of the
  finalizations (complete, fail, cancel) that present the same fencing token for the same job
  is accepted.\<close>

theorem fencing_token_accepted_once:
  assumes "legal job_valid job_act ops init_sys"
  shows "accepted job_fin k t ops (fst (run_ops job_act ops init_sys)) \<le> 1"
  by (rule jobs.accepted_once [OF sys_inv_init assms]) simp

theorem fencing_token_accepted_once_witness:
  "accepted job_fin (je_id ex_job) (the (je_fencing_token ex_job)) ex_run
     (fst (run_ops job_act ex_run init_sys)) \<le> 1"
  by (rule fencing_token_accepted_once [OF ex_run_legal])

text \<open>C3: Once a job has been claimed again (its attempt count exceeds the attempt of a token), or is
  no longer running, every finalization with the old token, in every later
  state, is rejected and leaves all tables as they are.\<close>

theorem stale_worker_rejected:
  assumes "legal job_valid job_act ops init_sys"
    and "r \<in> set (jd_jobs (sys_db (snd (run_ops job_act ops init_sys))))" and "jr_id r = k"
    and "has_token k m t" and "1 \<le> m" and "m \<le> jr_attempt_count r"
    and "m < jr_attempt_count r \<or> jr_status r \<noteq> RUNNING"
    and "legal job_valid job_act later (snd (run_ops job_act ops init_sys))"
  shows "accepted job_fin k t later (fst (run_ops job_act later (snd (run_ops job_act ops init_sys)))) = 0
    \<and> (\<forall>before op after s'. later = before @ op # after \<and> job_fin op = Some (k, t)
         \<and> s' = snd (run_ops job_act before (snd (run_ops job_act ops init_sys))) \<longrightarrow> job_act op s' = (False, s'))"
proof -
  note inv = reachable_inv [OF assms(1)]
  have ret: "job_retired (snd (run_ops job_act ops init_sys)) k t" by (rule job_retiredI [OF assms(2-7)])
  have "accepted job_fin k t later (fst (run_ops job_act later (snd (run_ops job_act ops init_sys)))) = 0"
    by (rule jobs.retired_none_accepted [OF inv assms(8) ret]) simp
  moreover have "job_act op s' = (False, s')" if "later = before @ op # after" "job_fin op = Some (k, t)"
    "s' = snd (run_ops job_act before (snd (run_ops job_act ops init_sys)))" for before op after s'
    unfolding that(3) by (rule jobs.retired_changes_nothing [OF inv assms(8) [unfolded that(1)] ret _ that(2)]) simp
  ultimately show ?thesis by blast
qed

lemma ex_completed:
  "ex_job \<in> set (sys_issued (snd (job_act ex_complete ex_sys1)))
   \<and> list_ex (\<lambda>r. jr_id r = je_id ex_job \<and> jr_attempt_count r = 1 \<and> jr_status r = SUCCEEDED
       \<and> has_token (je_id ex_job) 1 (the (je_fencing_token ex_job)))
       (jd_jobs (sys_db (snd (job_act ex_complete ex_sys1))))"
  by code_simp

lemma ex_finished:
  "legal job_valid job_act [ex_complete] (snd (run_ops job_act ex_run init_sys))
   \<and> list_ex (\<lambda>r. jr_id r = je_id ex_job \<and> jr_attempt_count r = 1 \<and> jr_status r = SUCCEEDED
       \<and> has_token (je_id ex_job) 1 (the (je_fencing_token ex_job)))
       (jd_jobs (sys_db (snd (run_ops job_act ex_run init_sys))))"
  using ex_completed by (simp add: ex_run_state)

theorem stale_worker_rejected_witness:
  "accepted job_fin (je_id ex_job) (the (je_fencing_token ex_job))
     [ex_complete]
     (fst (run_ops job_act [ex_complete]
       (snd (run_ops job_act ex_run init_sys)))) = 0"
proof -
  from ex_finished obtain r where
    "r \<in> set (jd_jobs (sys_db (snd (run_ops job_act ex_run init_sys))))" "jr_id r = je_id ex_job"
    "jr_attempt_count r = 1" "jr_status r = SUCCEEDED" "has_token (je_id ex_job) 1 (the (je_fencing_token ex_job))"
    unfolding list_ex_iff by blast
  then show ?thesis
    using stale_worker_rejected [OF ex_run_legal, of r "je_id ex_job" 1 "the (je_fencing_token ex_job)"
        "[ex_complete]"] ex_finished by simp
qed

text \<open>C4: A job that has succeeded, failed or been cancelled keeps its row unchanged through every
  later operation.\<close>

theorem finished_jobs_final:
  assumes "legal job_valid job_act ops init_sys"
    and "legal job_valid job_act later (snd (run_ops job_act ops init_sys))"
    and "r \<in> set (jd_jobs (sys_db (snd (run_ops job_act ops init_sys))))" and "terminal (jr_status r)"
  shows "r \<in> set (jd_jobs (sys_db (snd (run_ops job_act later (snd (run_ops job_act ops init_sys))))))"
proof -
  from advances_row [OF run_advances [OF reachable_inv [OF assms(1)] assms(2)] assms(3)]
  show ?thesis using assms(4) by (auto simp: row_le_def)
qed

theorem finished_jobs_final_witness:
  "\<exists>r. terminal (jr_status r) \<and> r \<in> set (jd_jobs (sys_db (snd (run_ops job_act
     [ex_complete] (snd (run_ops job_act ex_run init_sys))))))"
proof -
  from ex_finished obtain r where r: "r \<in> set (jd_jobs (sys_db (snd (run_ops job_act ex_run init_sys))))"
    "jr_status r = SUCCEEDED" unfolding list_ex_iff by blast
  then have "terminal (jr_status r)" by (simp add: terminal_def)
  with finished_jobs_final [OF ex_run_legal conjunct1 [OF ex_finished] r(1)] show ?thesis by blast
qed

text \<open>C5: A job is never attempted more often than its maximum: the attempts table holds exactly as
  many attempts of a job as its counter says, and the counter never exceeds the maximum.\<close>

theorem attempts_bounded:
  assumes "legal job_valid job_act ops init_sys"
    and "r \<in> set (jd_jobs (sys_db (snd (run_ops job_act ops init_sys))))"
  shows "int (length (filter (\<lambda>a. ar_job_id a = jr_id r)
           (jd_attempts (sys_db (snd (run_ops job_act ops init_sys)))))) = jr_attempt_count r
       \<and> jr_attempt_count r \<le> jr_max_attempts r"
proof -
  have inv: "job_inv (sys_db (snd (run_ops job_act ops init_sys)))"
    using reachable_inv [OF assms(1)] by (simp add: sys_inv_def)
  show ?thesis using attempts_counted [OF inv assms(2)] row_counts(2) [OF job_inv_row [OF inv assms(2)]] by simp
qed

theorem attempts_bounded_witness:
  "\<exists>r :: job_row. jr_id r = je_id ex_job \<and> int (length (filter (\<lambda>a. ar_job_id a = jr_id r)
      (jd_attempts (sys_db (snd (run_ops job_act ex_run init_sys)))))) = jr_attempt_count r
     \<and> jr_attempt_count r \<le> jr_max_attempts r"
proof -
  from ex_finished obtain r where r: "r \<in> set (jd_jobs (sys_db (snd (run_ops job_act ex_run init_sys))))"
    "jr_id r = je_id ex_job" unfolding list_ex_iff by blast
  from attempts_bounded [OF ex_run_legal r(1)] r(2) show ?thesis by (intro exI [of _ r]) simp
qed

text \<open>C6: A worker that asks for a job gets one exactly when there is a candidate (due, or running on
  an expired lease with attempts left, and not locked by another transaction). It gets the candidate of highest
  priority, the oldest among equals, with the next attempt number and a lease from now, and the call never raises.\<close>

theorem claim_takes_best:
  assumes "legal job_valid job_act ops init_sys" and "db = sys_db (snd (run_ops job_act ops init_sys))"
    and "py_strip worker \<noteq> []" and "0 < lease_s" and "aid \<notin> ar_id ` set (jd_attempts db)"
  shows "case claim_next skip locked now rnd aid worker lease_s db of (res, db') \<Rightarrow>
     (case res of
        Inl x \<Rightarrow> False
      | Inr None \<Rightarrow> db' = db \<and> (\<forall>r \<in> set (jd_jobs db). \<not> candidate skip locked now r)
      | Inr (Some e) \<Rightarrow> (\<exists>row \<in> set (jd_jobs db). candidate skip locked now row
          \<and> (\<forall>r \<in> set (jd_jobs db). candidate skip locked now r \<longrightarrow> claim_order row \<le> claim_order r)
          \<and> envelope_of e row \<and> je_attempt e = jr_attempt_count row + 1
          \<and> claim_values now (py_strip worker) (now + timedelta_us lease_s) (the (je_fencing_token e)) row row
              \<in> set (jd_jobs db')))"
proof (cases "claim_scan skip locked now (jd_jobs db)")
  case Nil
  then show ?thesis
    using claim_next_empty [OF assms(3,4) Nil] claim_scan_Nil [of skip locked now "jd_jobs db"]
    by (simp add: list_all_iff)
next
  case (Cons row rest)
  have inv: "job_inv db" using reachable_inv [OF assms(1)] assms(2) by (simp add: sys_inv_def)
  from claim_next_takes [OF inv assms(3-5) Cons, of rnd] obtain e db' where
    "claim_next skip locked now rnd aid worker lease_s db = (Inr (Some e), db')" "envelope_of e row"
    "je_attempt e = jr_attempt_count row + 1" "claim_values now (py_strip worker) (now + timedelta_us lease_s)
       (the (je_fencing_token e)) row row \<in> set (jd_jobs db')" by blast
  with claim_scan_hd [OF Cons] show ?thesis by auto
qed

theorem claim_takes_best_witness:
  "case claim_next False [] 50000000 (\<lambda>_. 8) ''a2'' ''v'' 3 ex_db1 of (res, db') \<Rightarrow>
     (case res of Inl x \<Rightarrow> False | Inr None \<Rightarrow> db' = ex_db1 \<and> (\<forall>r \<in> set (jd_jobs ex_db1). \<not> candidate False [] 50000000 r)
      | Inr (Some e) \<Rightarrow> (\<exists>row \<in> set (jd_jobs ex_db1). candidate False [] 50000000 row
          \<and> (\<forall>r \<in> set (jd_jobs ex_db1). candidate False [] 50000000 r \<longrightarrow> claim_order row \<le> claim_order r)
          \<and> envelope_of e row \<and> je_attempt e = jr_attempt_count row + 1
          \<and> claim_values 50000000 (py_strip ''v'') (50000000 + timedelta_us 3) (the (je_fencing_token e)) row row
              \<in> set (jd_jobs db')))"
proof (rule claim_takes_best [OF ex_claimed_legal])
  show "ex_db1 = sys_db (snd (run_ops job_act ex_claimed init_sys))" by (simp add: ex_claimed_state)
  show "py_strip ''v'' \<noteq> []" by code_simp
  show "''a2'' \<notin> ar_id ` set (jd_attempts ex_db1)" by code_simp
qed simp

text \<open>Leases exclude: while the lease of a running job has not expired, a claim by any worker leaves
  the row of the job exactly as it is.\<close>

theorem live_lease_excludes_claims:
  assumes "r \<in> set (jd_jobs db)" and "jr_status r = RUNNING" and "jr_lease_expires_at r = Some x" and "now \<le> x"
  shows "r \<in> set (jd_jobs (snd (claim_next skip locked now rnd aid worker lease_s db)))"
proof -
  have "r \<in> set (jd_jobs (snd (claim_loop now w ex rnd aid i rows db)))" for w ex i rows
  proof (induction rows arbitrary: i)
    case (Cons row rows)
    have "\<not> job_claim_guard now row r" using assms(2-4) by (simp add: job_claim_guard_def)
    then have "r \<in> set (sql_update (job_claim_guard now row) f (jd_jobs db))" for f
      using assms(1) by (simp add: sql_update_keeps)
    then show ?case using Cons assms(1) by (simp add: Let_def split: sum.split)
  qed (use assms in simp)
  then show ?thesis using assms(1) by (simp add: claim_next_def split: sum.split)
qed

lemma ex_running:
  "list_ex (\<lambda>r. jr_status r = RUNNING \<and> jr_lease_expires_at r = Some 3000010 \<and> jr_id r = je_id ex_job) (jd_jobs ex_db1)"
  by code_simp

theorem live_lease_excludes_claims_witness:
  "\<exists>r. jr_lease_expires_at r = Some 3000010
     \<and> r \<in> set (jd_jobs (snd (claim_next False [] 2000000 (\<lambda>_. 8) ''a2'' ''v'' 3 ex_db1)))"
proof -
  from ex_running obtain r where "r \<in> set (jd_jobs ex_db1)" "jr_status r = RUNNING" "jr_lease_expires_at r = Some 3000010"
    unfolding list_ex_iff by blast
  with live_lease_excludes_claims [of r ex_db1 3000010 2000000] show ?thesis by auto
qed

text \<open>Finalization is atomic under a crash at any checkpoint: an accepted finalization (of an issued
  envelope, in a reachable state) has written the job row, exactly one event and exactly one outbox row, keyed by job,
  attempt and event type; anything else, an exception included, has written nothing.\<close>

theorem finalization_atomic:
  assumes "legal job_valid job_act ops init_sys" and "s = snd (run_ops job_act ops init_sys)"
    and "job \<in> set (sys_issued s)"
    and "out = finalize_claim hook now env job worker st res err delay (sys_db s)"
  shows "if finalized (fst out)
     then \<exists>r st' res' err' e row. r \<in> set (jd_jobs (sys_db s)) \<and> jr_id r = je_id job \<and> jr_status r = RUNNING
       \<and> jr_fencing_token r = je_fencing_token job
       \<and> finalize_values now st' res' err' delay r \<in> set (jd_jobs (snd out))
       \<and> db_events (jd_outbox (snd out)) = db_events (jd_outbox (sys_db s)) @ [e]
       \<and> db_outbox (jd_outbox (snd out)) = db_outbox (jd_outbox (sys_db s)) @ [row]
       \<and> ev_type e = event_type_for st' \<and> ev_aggregate_id e = je_id job
       \<and> or_deduplication_key row = Some (attempt_key (je_id job) (je_attempt job) (event_type_for st'))
     else snd out = sys_db s"
proof (cases "finalized (fst out)")
  case True
  note ig = issued_genuine [OF assms(1-3)]
  from finalize_claim_written [OF ig True [unfolded assms(4)] refl, folded assms(4)] obtain r st' res' err' e row where
    "r \<in> set (jd_jobs (sys_db s))" "jr_id r = je_id job" "jr_status r = RUNNING"
    "jr_fencing_token r = je_fencing_token job" "finalize_values now st' res' err' delay r \<in> set (jd_jobs (snd out))"
    "db_events (jd_outbox (snd out)) = db_events (jd_outbox (sys_db s)) @ [e]"
    "db_outbox (jd_outbox (snd out)) = db_outbox (jd_outbox (sys_db s)) @ [row]"
    "ev_type e = event_type_for st'" "ev_aggregate_id e = je_id job"
    "or_deduplication_key row = Some (attempt_key (je_id job) (je_attempt job) (event_type_for st'))"
    by (elim exE conjE) (rule that)
  then show ?thesis
    unfolding if_P [OF True]
    by (intro exI [of _ r] exI [of _ st'] exI [of _ res'] exI [of _ err'] exI [of _ e] exI [of _ row] conjI)
next
  case False
  then show ?thesis using rejected_unchanged assms(4) by simp
qed

theorem finalization_atomic_witness:
  "let out = finalize_claim (\<lambda>c. c = ''after_event_write'') 20 ex_env ex_job ''w'' SUCCEEDED None None 0
ex_db1
   in \<not> finalized (fst out) \<and> snd out = ex_db1"
proof -
  have f: "\<not> finalized (fst (finalize_claim (\<lambda>c. c = ''after_event_write'') 20 ex_env ex_job ''w'' SUCCEEDED None None 0
        ex_db1))" by code_simp
  have "ex_sys1 = snd (run_ops job_act ex_claimed init_sys)" by (simp add: ex_claimed_state)
  from finalization_atomic [OF ex_claimed_legal this _ refl, of ex_job "\<lambda>c. c = ''after_event_write''" 20 ex_env
      "''w''" SUCCEEDED None None 0] f
  show ?thesis by (simp add: Let_def)
qed

text \<open>An accepted finalization of a row whose cancellation was requested answers that it cancelled.\<close>

lemma finalize_claim_cancelled:
  assumes "job_inv db" and "r \<in> set (jd_jobs db)" and "jr_id r = je_id job" and "jr_cancellation_requested_at r \<noteq> None"
    and "finalize_claim hook now env job worker st res err delay db = (Inr z, db')" and "fz_accepted z"
  shows "fz_status z = CANCELLED \<and> \<not> fz_retry_scheduled z"
proof -
  have d: "distinct (map jr_id (jd_jobs db))" using assms(1) by (simp add: job_inv_def jobs_inv_def)
  have row: "find (\<lambda>r. jr_id r = je_id job) (jd_jobs db) = Some r"
    using find_key [OF d assms(2)] assms(3) by simp
  from assms(5) obtain w t where "run_tx hook (finalize_body hook now env job w t st res err delay) db = (Inr z, db')"
    by (auto simp: finalize_claim_def split: sum.splits)
  with assms(6) row assms(4) show ?thesis
    by (auto simp: run_tx_def finalize_body_def finalize_write_def stale_finalization_def Let_def
        split: tx_end.splits if_splits sum.splits)
qed

text \<open>C11: Cancellation wins: when cancellation of a running job was requested, the finalization that is accepted, whether the
  worker reports a result, a failure (retryable or not) or the cancellation, ends the job as cancelled, completed and without
  a result; no retry is scheduled, and the answer says so.\<close>

theorem cancellation_wins:
  assumes "legal job_valid job_act ops init_sys" and "s = snd (run_ops job_act ops init_sys)"
    and "job \<in> set (sys_issued s)"
    and "r \<in> set (jd_jobs (sys_db s))" and "jr_id r = je_id job" and "jr_cancellation_requested_at r \<noteq> None"
    and "(\<exists>res. fin = complete hook now env job worker res)
      \<or> (\<exists>t0 err retryable delay. fin = fail hook t0 now env job worker err retryable delay)
      \<or> fin = cancel_claim hook now env job worker"
    and "fin (sys_db s) = (Inr z, db')" and "fz_accepted z"
  shows "fz_status z = CANCELLED \<and> \<not> fz_retry_scheduled z
    \<and> (\<exists>r' \<in> set (jd_jobs db'). jr_id r' = je_id job \<and> jr_status r' = CANCELLED \<and> jr_result r' = None
         \<and> jr_completed_at r' = Some now)"
proof -
  note ig = issued_genuine [OF assms(1-3)]
  from assms(7,8) obtain st res err delay where
    c: "finalize_claim hook now env job worker st res err delay (sys_db s) = (Inr z, db')"
    by (elim disjE exE) (auto simp: complete_def fail_def cancel_claim_def split: sum.splits)
  have acc: "finalized (fst (finalize_claim hook now env job worker st res err delay (sys_db s)))"
    using c assms(9) by (simp add: finalized_def)
  from finalize_claim_written [OF ig acc refl] c obtain r0 st' res' err' where
    r0: "r0 \<in> set (jd_jobs (sys_db s))" "jr_id r0 = je_id job"
    "st' = (if jr_cancellation_requested_at r0 \<noteq> None then CANCELLED else st)"
    "jr_cancellation_requested_at r0 \<noteq> None \<longrightarrow> res' = None"
    "finalize_values now st' res' err' delay r0 \<in> set (jd_jobs db')"
    by auto
  have "r0 = r" using ig(1) jobs_inv_unique r0(1,2) assms(4,5) by (fastforce simp: job_inv_def)
  with r0 assms(6) have st: "st' = CANCELLED" "res' = None" by auto
  have "jr_id (finalize_values now st' res' err' delay r0) = je_id job"
    using r0(2) by (simp add: core_view_eqD(1) [OF finalize_values_core(1)])
  with r0(5) st have row: "\<exists>r' \<in> set (jd_jobs db'). jr_id r' = je_id job \<and> jr_status r' = CANCELLED \<and> jr_result r' = None
      \<and> jr_completed_at r' = Some now"
    by (intro bexI [where x = "finalize_values now st' res' err' delay r0"])
      (simp_all add: finalize_values_def Let_def terminal_def)
  have "fz_status z = CANCELLED \<and> \<not> fz_retry_scheduled z"
    by (rule finalize_claim_cancelled [OF ig(1) assms(4-6) c assms(9)])
  with row show ?thesis by blast
qed

definition ex_cancelled :: "job_op list" where
  "ex_cancelled = ex_claimed @ [Request_Cancel no_hook 12 ex_env (je_id ex_job)]"

lemma ex_cancelled_legal: "legal job_valid job_act ex_cancelled init_sys"
  by (simp add: ex_cancelled_def legal_append ex_claimed_legal ex_claimed_state)

lemma ex_cancelled_state:
  "snd (run_ops job_act ex_cancelled init_sys) = snd (job_act (Request_Cancel no_hook 12 ex_env (je_id ex_job)) ex_sys1)"
  by (simp add: ex_cancelled_def snd_run_append ex_claimed_state)

lemma ex_cancelled_facts:
  "ex_job \<in> set (sys_issued (snd (job_act (Request_Cancel no_hook 12 ex_env (je_id ex_job)) ex_sys1)))
   \<and> list_ex (\<lambda>r. jr_id r = je_id ex_job \<and> jr_cancellation_requested_at r \<noteq> None)
       (jd_jobs (sys_db (snd (job_act (Request_Cancel no_hook 12 ex_env (je_id ex_job)) ex_sys1))))
   \<and> finalized (fst (fail no_hook 15 20 ex_env ex_job ''w'' ''boom'' True 5
       (sys_db (snd (job_act (Request_Cancel no_hook 12 ex_env (je_id ex_job)) ex_sys1)))))"
  by code_simp

theorem cancellation_wins_witness:
  "\<exists>z db'. fail no_hook 15 20 ex_env ex_job ''w'' ''boom'' True 5 (sys_db (snd (run_ops job_act ex_cancelled init_sys))) = (Inr z, db')
     \<and> fz_status z = CANCELLED \<and> (\<exists>r' \<in> set (jd_jobs db'). jr_id r' = je_id ex_job \<and> jr_status r' = CANCELLED \<and> jr_result r' = None)"
proof -
  let ?f = "fail no_hook 15 20 ex_env ex_job ''w'' ''boom'' True 5"
  from ex_cancelled_facts obtain r where r: "r \<in> set (jd_jobs (sys_db (snd (run_ops job_act ex_cancelled init_sys))))"
    "jr_id r = je_id ex_job" "jr_cancellation_requested_at r \<noteq> None"
    unfolding list_ex_iff ex_cancelled_state by blast
  from ex_cancelled_facts have "finalized (fst (?f (sys_db (snd (run_ops job_act ex_cancelled init_sys)))))"
    unfolding ex_cancelled_state by blast
  then obtain z db' where z: "?f (sys_db (snd (run_ops job_act ex_cancelled init_sys))) = (Inr z, db')" "fz_accepted z"
    by (cases "?f (sys_db (snd (run_ops job_act ex_cancelled init_sys)))") (auto simp: finalized_def split: sum.splits)
  have "ex_job \<in> set (sys_issued (snd (run_ops job_act ex_cancelled init_sys)))"
    using ex_cancelled_facts unfolding ex_cancelled_state by blast
  moreover have "(\<exists>res. ?f = complete no_hook 20 ex_env ex_job ''w'' res)
      \<or> (\<exists>t0 err retryable delay. ?f = fail no_hook t0 20 ex_env ex_job ''w'' err retryable delay)
      \<or> ?f = cancel_claim no_hook 20 ex_env ex_job ''w''" by blast
  ultimately show ?thesis
    using cancellation_wins [where fin = ?f, OF ex_cancelled_legal refl _ r _ z] z by blast
qed

text \<open>C12: Recovery is complete: a pass of at most \<open>limit\<close> rounds that ends normally has finalized exactly as many crashed claims
  (running, lease expired, cancellation requested or out of attempts) as it reports. Each of them is cancelled if its
  cancellation was requested and failed otherwise, with the error that says so, completed now and without claim and lease;
  every other row is as it was. If fewer than the limit are reported, no such claim is left (but those whose rows other
  transactions hold).\<close>

theorem recovery_complete:
  assumes "legal job_valid job_act ops init_sys" and "db = sys_db (snd (run_ops job_act ops init_sys))"
    and "recover_expired hook skip locked now envs limit db = (Inr m, db')"
  shows "int m \<le> limit \<and> recover_count now (jd_jobs db') + m = recover_count now (jd_jobs db)
       \<and> (int m < limit \<longrightarrow> recover_scan skip locked now (jd_jobs db') = [])
       \<and> (\<exists>ids. distinct ids \<and> length ids = m \<and> (\<forall>i \<in> set ids. \<exists>r \<in> set (jd_jobs db). jr_id r = i \<and> recoverable now r)
            \<and> jd_jobs db' = map (\<lambda>r. if jr_id r \<notin> set ids then r
                else r\<lparr>jr_status := (if jr_cancellation_requested_at r \<noteq> None then CANCELLED else FAILED),
                  jr_last_error := Some (if jr_cancellation_requested_at r \<noteq> None then ''cancellation requested''
                    else ''lease expired after maximum attempts''),
                  jr_completed_at := Some now, jr_updated_at := now,
                  jr_claimed_by := None, jr_fencing_token := None, jr_lease_expires_at := None\<rparr>) (jd_jobs db))"
proof -
  have inv: "job_inv db" using reachable_inv [OF assms(1)] assms(2) by (simp add: sys_inv_def)
  from assms(3) have "1 \<le> limit" "recover_loop hook skip locked now envs (nat limit) 0 db = (Inr m, db')"
    by (simp_all add: recover_expired_def split: if_splits)
  from this(1) recover_loop_result [OF inv this(2)] obtain ids where
    m: "int m \<le> limit" "recover_count now (jd_jobs db') + m = recover_count now (jd_jobs db)"
      "int m < limit \<longrightarrow> recover_scan skip locked now (jd_jobs db') = []"
    and ids: "length ids = m" "crashed_to now ids (jd_jobs db) (jd_jobs db')" by auto
  have "(\<lambda>r. if jr_id r \<in> set ids then crash_result now r else r) = (\<lambda>r. if jr_id r \<notin> set ids then r else crash_result now r)"
    by auto
  with ids(2) have "distinct ids" "\<forall>i \<in> set ids. \<exists>r \<in> set (jd_jobs db). jr_id r = i \<and> recoverable now r"
    "jd_jobs db' = map (\<lambda>r. if jr_id r \<notin> set ids then r else crash_result now r) (jd_jobs db)"
    by (simp_all add: crashed_to_def)
  with m ids(1) show ?thesis unfolding crash_result_def by blast
qed

lemma ex_recovered:
  "fst (recover_expired no_hook False [] 50000000 (\<lambda>_. ex_env) 100
     (sys_db (snd (job_act (Request_Cancel no_hook 12 ex_env (je_id ex_job)) ex_sys1)))) = Inr 1"
  by code_simp

theorem recovery_complete_witness:
  "recover_scan False [] 50000000 (jd_jobs (snd (recover_expired no_hook False [] 50000000 (\<lambda>_. ex_env) 100
     (sys_db (snd (run_ops job_act ex_cancelled init_sys)))))) = []"
proof -
  have "recover_expired no_hook False [] 50000000 (\<lambda>_. ex_env) 100 (sys_db (snd (run_ops job_act ex_cancelled init_sys)))
      = (Inr 1, snd (recover_expired no_hook False [] 50000000 (\<lambda>_. ex_env) 100
           (sys_db (snd (run_ops job_act ex_cancelled init_sys)))))"
    using ex_recovered by (simp add: ex_cancelled_state prod_eq_iff)
  from recovery_complete [OF ex_cancelled_legal refl this] show ?thesis by simp
qed

text \<open>Submissions with the same idempotency key are answered with the same job, whatever happens between
  them and however stale the view of each first look-up is.\<close>

theorem idempotent_submission:
  assumes "legal job_valid job_act ops init_sys" and "s1 = snd (run_ops job_act ops init_sys)"
    and "make_submission v1 raw1 = Inr j1" and "make_submission v2 raw2 = Inr j2"
    and "js_idempotency_key j1 = Some key" and "js_idempotency_key j2 = Some key"
    and "advances snap1 (jd_jobs (sys_db s1))"
    and "submit snap1 at1 now1 (uuid_text w1) j1 (sys_db s1) = (Inr rc1, db1)"
    and "legal job_valid job_act later (s1\<lparr>sys_db := db1\<rparr>)"
    and "db2 = sys_db (snd (run_ops job_act later (s1\<lparr>sys_db := db1\<rparr>)))"
    and "advances snap2 (jd_jobs db2)"
    and "submit snap2 at2 now2 (uuid_text w2) j2 db2 = (Inr rc2, db3)"
  shows "rc_job_id rc2 = rc_job_id rc1"
proof -
  have i1: "sys_inv s1" using reachable_inv [OF assms(1)] assms(2) by simp
  have b1: "job_inv (sys_db s1)" using i1 by (simp add: sys_inv_def)
  have "job_inv db1 \<and> advances (jd_jobs (sys_db s1)) (jd_jobs db1)"
    using job_insert_inv [OF b1 assms(3) uuid_chars_text, of snap1 now1 w1 at1] assms(8)
    by (simp add: submit_def)
  from sys_advance [OF i1 this] have i1': "sys_inv (s1\<lparr>sys_db := db1\<rparr>)" .
  have "sys_inv (snd (run_ops job_act later (s1\<lparr>sys_db := db1\<rparr>)))"
    using jobs.run_ok [OF i1' assms(9)] .
  then have b2: "job_inv db2" using assms(10) by (simp add: sys_inv_def)
  have adv: "advances (jd_jobs db1) (jd_jobs db2)"
    using run_advances [OF i1' assms(9)] assms(10) by simp
  show ?thesis
    by (rule submissions_agree [OF i1 assms(3) assms(5,6) assms(8) [unfolded submit_def] adv b2 assms(7,11)
        assms(12) [unfolded submit_def] assms(4)])
qed

definition ex_frozen :: job_submission where
  "ex_frozen = ex_submission\<lparr>js_payload := PMap True [(PStr ''a'', PInt 1)]\<rparr>"

definition ex_db0 :: job_db where
  "ex_db0 = snd (submit [] 0 0 (uuid_text 5) ex_frozen empty_jobs)"

lemma ex_submitted_twice:
  "make_submission None ex_submission = Inr ex_frozen"
  "fst (submit [] 0 0 (uuid_text 5) ex_frozen empty_jobs) = Inr \<lparr>rc_job_id = je_id ex_job, rc_deduplicated = False\<rparr>"
  "fst (submit [] 5 5 (uuid_text 3) ex_frozen ex_db0) = Inr \<lparr>rc_job_id = je_id ex_job, rc_deduplicated = True\<rparr>"
  by code_simp+

theorem idempotent_submission_witness:
  "\<exists>rc1 rc2 db3. submit [] 0 0 (uuid_text 5) ex_frozen empty_jobs = (Inr rc1, ex_db0)
     \<and> submit [] 5 5 (uuid_text 3) ex_frozen ex_db0 = (Inr rc2, db3) \<and> rc_job_id rc2 = rc_job_id rc1"
proof -
  obtain rc1 where s1: "submit [] 0 0 (uuid_text 5) ex_frozen empty_jobs = (Inr rc1, ex_db0)"
    using ex_submitted_twice(2) by (metis ex_db0_def prod.collapse)
  obtain rc2 db3 where s2: "submit [] 5 5 (uuid_text 3) ex_frozen ex_db0 = (Inr rc2, db3)"
    using ex_submitted_twice(3) by (metis prod.collapse)
  have e: "init_sys = snd (run_ops job_act [] init_sys)" "legal job_valid job_act [] init_sys"
    "legal job_valid job_act [] (init_sys\<lparr>sys_db := ex_db0\<rparr>)"
    "ex_db0 = sys_db (snd (run_ops job_act [] (init_sys\<lparr>sys_db := ex_db0\<rparr>)))"
    by simp_all
  have nil: "advances [] xs" for xs by (simp add: advances_def)
  have k: "js_idempotency_key ex_frozen = Some ''k''" by (simp add: ex_frozen_def ex_submission_def)
  have s1': "submit [] 0 0 (uuid_text 5) ex_frozen (sys_db init_sys) = (Inr rc1, ex_db0)"
    using s1 by (simp add: init_sys_def)
  have "rc_job_id rc2 = rc_job_id rc1"
    by (rule idempotent_submission [OF e(2,1) ex_submitted_twice(1,1) k k nil s1' e(3,4) nil s2])
  with s1 s2 show ?thesis by blast
qed

text \<open>A claim may run on a scan that is arbitrarily stale (every scanned row is a past version of a current
  one): the guards and constraints still keep the invariant, no row goes back, and an envelope that is handed out
  is genuine.\<close>

theorem stale_scan_harmless:
  assumes "legal job_valid job_act ops init_sys" and "db = sys_db (snd (run_ops job_act ops init_sys))"
    and "list_all (past_row now (jd_jobs db)) scanned"
  shows "claim_good db (claim_loop now worker expires rnd aid i scanned db)"
proof -
  have "job_inv db" using reachable_inv [OF assms(1)] assms(2) by (simp add: sys_inv_def)
  from claim_loop_inv [OF this assms(3)] show ?thesis .
qed

text \<open>The scan of the witness still sees the job before its first claim.\<close>

definition ex_stale_row :: job_row where
  "ex_stale_row = (hd (jd_jobs ex_db1))\<lparr>jr_attempt_count := 0, jr_status := PENDING, jr_updated_at := 0,
     jr_started_at := None, jr_claimed_by := None, jr_fencing_token := None, jr_lease_generation := 0,
     jr_lease_expires_at := None\<rparr>"

theorem stale_scan_harmless_witness:
  "claim_good ex_db1 (claim_loop 20 ''v'' 50 (\<lambda>_. 8) ''a2'' 0 [ex_stale_row] ex_db1)"
proof (rule stale_scan_harmless [OF ex_claimed_legal])
  show "ex_db1 = sys_db (snd (run_ops job_act ex_claimed init_sys))" by (simp add: ex_claimed_state)
  show "list_all (past_row 20 (jd_jobs ex_db1)) [ex_stale_row]" by code_simp
qed

end
