(* ===== verification/Worker.thy ===== *)
theory Worker
  imports Job_System Publisher
begin

text \<open>
  The worker engine of \<^verbatim>\<open>apps/worker/src/windagent_worker\<close> (\<^verbatim>\<open>runtime.py\<close>, \<^verbatim>\<open>lease.py\<close>): one poll
  cycle, the supervision of a running handler, the reports. It is written against the queue
  port \<^verbatim>\<open>DurableJobQueue\<close>; the locale \<open>durable_queue\<close> states what the worker needs of the port,
  and \<open>Worker_System\<close> interprets it on the SQL queue. Telemetry has no effect on the state and
  is left out; a handler is the function from payloads to what the event loop observes.
\<close>

section \<open>Retry policy\<close>

record retry_policy =
  rp_base_delay_s :: seconds
  rp_max_delay_s :: seconds

definition make_retry_policy :: "seconds \<Rightarrow> seconds \<Rightarrow> exn + retry_policy" where
  "make_retry_policy base max_delay =
     (if base < 0 then Inl (ValueError ''base_delay_s must be non-negative'')
      else if max_delay < base then Inl (ValueError ''max_delay_s must be at least base_delay_s'')
      else Inr \<lparr>rp_base_delay_s = base, rp_max_delay_s = max_delay\<rparr>)"

text \<open>
  \<^verbatim>\<open>float(2 ** (attempt - 1))\<close> raises from \<open>2 ^ 1024\<close> on. Below, multiplying a float by a power of
  two only moves the exponent, so the product is exact or (past the largest float) above every
  finite maximum: the rational minimum is the float minimum.
\<close>

definition delay_for :: "retry_policy \<Rightarrow> int \<Rightarrow> exn + seconds" where
  "delay_for p attempt =
     (if attempt < 1 then Inl (ValueError ''attempt must be at least 1'')
      else if 1024 \<le> attempt - 1 then Inl OverflowError
      else Inr (min (rp_max_delay_s p) (rp_base_delay_s p * 2 ^ nat (attempt - 1))))"

section \<open>The queue port\<close>

record 's queue_port =
  q_recover :: "('s, nat) act"
  q_claim :: "string \<Rightarrow> seconds \<Rightarrow> ('s, job_envelope option) act"
  q_heartbeat :: "job_envelope \<Rightarrow> string \<Rightarrow> seconds \<Rightarrow> ('s, job_lease_state) act"
  q_complete :: "job_envelope \<Rightarrow> string \<Rightarrow> pyobj \<Rightarrow> ('s, job_finalization) act"
  q_fail :: "job_envelope \<Rightarrow> string \<Rightarrow> string \<Rightarrow> bool \<Rightarrow> seconds \<Rightarrow> ('s, job_finalization) act"
  q_cancel_claim :: "job_envelope \<Rightarrow> string \<Rightarrow> ('s, job_finalization) act"

section \<open>Handlers\<close>

text \<open>
  What the supervising loop sees of a running handler: the rounds in which the wait ended before
  the handler (was the stop event set, the reading of the loop clock, the reading of the wall
  clock), then how the handler ended.
\<close>

record handler_poll =
  hp_stop :: bool
  hp_loop :: seconds
  hp_now :: time

datatype outcome = Returned pyobj | Raised string | Was_Cancelled

record execution =
  hx_started :: seconds
  hx_polls :: "handler_poll list"
  hx_outcome :: outcome

type_synonym handler = "pyobj \<Rightarrow> execution"

section \<open>The worker\<close>

datatype tick_status =
  TICK_IDLE | TICK_SUCCEEDED | TICK_RETRY_SCHEDULED | TICK_FAILED | TICK_CANCELLED | TICK_STALE

record tick_report =
  tr_status :: tick_status
  tr_job_id :: "string option"
  tr_attempt :: "int option"
  tr_outbox_published :: nat
  tr_error :: "string option"
  tr_run_id :: "string option"
  tr_task_id :: "string option"

record 's worker =
  wk_queue :: "'s queue_port"
  wk_handlers :: "handler registry"
  wk_worker_id :: string
  wk_lease_s :: seconds
  wk_heartbeat_interval_s :: seconds
  wk_retry_policy :: retry_policy
  wk_publisher :: "('s, nat) act option"

definition default_retry_policy :: retry_policy where
  "default_retry_policy = \<lparr>rp_base_delay_s = 1, rp_max_delay_s = 60\<rparr>"

definition make_worker ::
  "'s queue_port \<Rightarrow> handler registry \<Rightarrow> string \<Rightarrow> seconds \<Rightarrow> seconds \<Rightarrow> retry_policy option
     \<Rightarrow> ('s, nat) act option \<Rightarrow> exn + 's worker" where
  "make_worker queue handlers worker_id lease_s interval_s policy publisher =
     (if py_strip worker_id = [] then Inl (ValueError ''worker_id must be non-empty text'')
      else if lease_s \<le> 0 then Inl (ValueError ''lease_s must be positive'')
      else if interval_s \<le> 0 \<or> lease_s \<le> interval_s
      then Inl (ValueError ''heartbeat_interval_s must be positive and lower than lease_s'')
      else Inr \<lparr>wk_queue = queue, wk_handlers = handlers, wk_worker_id = py_strip worker_id,
                wk_lease_s = lease_s, wk_heartbeat_interval_s = interval_s,
                wk_retry_policy = (case policy of None \<Rightarrow> default_retry_policy | Some p \<Rightarrow> p),
                wk_publisher = publisher\<rparr>)"

text \<open>\<^verbatim>\<open>LeaseGuard.heartbeat\<close> and \<^verbatim>\<open>LeaseGuard.check_authority\<close>.\<close>

definition guard_heartbeat :: "'s worker \<Rightarrow> job_envelope \<Rightarrow> ('s, job_lease_state) act" where
  "guard_heartbeat wk job = q_heartbeat (wk_queue wk) job (wk_worker_id wk) (wk_lease_s wk)"

definition check_authority :: "'s worker \<Rightarrow> job_envelope \<Rightarrow> ('s, job_lease_state) act" where
  "check_authority wk job = guard_heartbeat wk job"

definition publish_outbox :: "'s worker \<Rightarrow> ('s, nat) act" where
  "publish_outbox wk = (case wk_publisher wk of None \<Rightarrow> act_return 0 | Some p \<Rightarrow> p)"

definition report :: "job_envelope \<Rightarrow> tick_status \<Rightarrow> nat \<Rightarrow> string option \<Rightarrow> tick_report" where
  "report job st published err =
     \<lparr>tr_status = st, tr_job_id = Some (je_id job), tr_attempt = Some (je_attempt job),
      tr_outbox_published = published, tr_error = err, tr_run_id = None, tr_task_id = None\<rparr>"

fun tick_of :: "job_status \<Rightarrow> tick_status" where
  "tick_of SUCCEEDED = TICK_SUCCEEDED"
| "tick_of RETRY_WAIT = TICK_RETRY_SCHEDULED"
| "tick_of FAILED = TICK_FAILED"
| "tick_of CANCELLED = TICK_CANCELLED"
| "tick_of _ = TICK_STALE"

definition final_report :: "'s worker \<Rightarrow> job_envelope \<Rightarrow> job_status \<Rightarrow> string option \<Rightarrow> ('s, tick_report) act" where
  "final_report wk job st err =
     act_bind (publish_outbox wk) (\<lambda>published. act_return (report job (tick_of st) published err))"

definition worker_fail :: "'s worker \<Rightarrow> job_envelope \<Rightarrow> string \<Rightarrow> bool \<Rightarrow> ('s, tick_report) act" where
  "worker_fail wk job err retryable =
     (case delay_for (wk_retry_policy wk) (je_attempt job) of Inl x \<Rightarrow> act_raise x
      | Inr delay \<Rightarrow> act_bind (q_fail (wk_queue wk) job (wk_worker_id wk) err retryable delay)
          (\<lambda>f. if \<not> fz_accepted f
               then act_return (report job TICK_STALE 0 (Some ''stale failure rejected''))
               else final_report wk job (fz_status f) (Some err)))"

definition worker_cancel :: "'s worker \<Rightarrow> job_envelope \<Rightarrow> ('s, tick_report) act" where
  "worker_cancel wk job =
     act_bind (q_cancel_claim (wk_queue wk) job (wk_worker_id wk)) (\<lambda>f. final_report wk job (fz_status f) None)"

section \<open>Supervising a handler\<close>

definition past_deadline :: "job_envelope \<Rightarrow> time \<Rightarrow> bool" where
  "past_deadline job now \<longleftrightarrow> (case je_deadline job of None \<Rightarrow> False | Some d \<Rightarrow> d \<le> now)"

definition timed_out :: "job_envelope \<Rightarrow> seconds \<Rightarrow> seconds \<Rightarrow> bool" where
  "timed_out job started loop_time \<longleftrightarrow>
     (case je_timeout_s job of None \<Rightarrow> False | Some t \<Rightarrow> started + t \<le> loop_time)"

text \<open>What follows the loop: the handler's result under a last authority check.\<close>

definition conclude :: "'s worker \<Rightarrow> job_envelope \<Rightarrow> outcome \<Rightarrow> ('s, tick_report) act" where
  "conclude wk job out =
     (case out of
        Was_Cancelled \<Rightarrow> worker_fail wk job ''handler cancelled'' True
      | Raised err \<Rightarrow> worker_fail wk job err True
      | Returned raw \<Rightarrow> act_bind (check_authority wk job) (\<lambda>l.
          if \<not> ls_authoritative l then act_return (report job TICK_STALE 0 (Some ''stale result rejected''))
          else if ls_cancellation_requested l then worker_cancel wk job
          else (case validate_job_result raw of
              Inl x \<Rightarrow> (case freeze_json raw of
                  Inl (TypeError m) \<Rightarrow> worker_fail wk job m False
                | Inl (ValueError m) \<Rightarrow> worker_fail wk job m False
                | _ \<Rightarrow> act_raise x)
            | Inr v \<Rightarrow> act_bind (q_complete (wk_queue wk) job (wk_worker_id wk) v) (\<lambda>f.
                if \<not> fz_accepted f then act_return (report job TICK_STALE 0 (Some ''stale result rejected''))
                else final_report wk job (fz_status f) None))))"

text \<open>The loop: an early return of \<^verbatim>\<open>_execute_claimed_job\<close>, or the end of the handler.\<close>

fun supervise :: "'s worker \<Rightarrow> job_envelope \<Rightarrow> seconds \<Rightarrow> outcome \<Rightarrow> handler_poll list \<Rightarrow> ('s, tick_report) act" where
  "supervise wk job started out [] = conclude wk job out"
| "supervise wk job started out (p # ps) =
     (if hp_stop p then worker_fail wk job ''worker stopped'' True
      else if timed_out job started (hp_loop p) then worker_fail wk job ''job execution timed out'' True
      else if past_deadline job (hp_now p) then worker_fail wk job ''job deadline exceeded'' True
      else act_bind (guard_heartbeat wk job) (\<lambda>l.
        if \<not> ls_authoritative l then act_return (report job TICK_STALE 0 (Some ''lease authority lost''))
        else if ls_cancellation_requested l then worker_cancel wk job
        else supervise wk job started out ps))"

definition execute_claimed_job :: "'s worker \<Rightarrow> time \<Rightarrow> job_envelope \<Rightarrow> ('s, tick_report) act" where
  "execute_claimed_job wk now job =
     act_bind (check_authority wk job) (\<lambda>l.
       if \<not> ls_authoritative l then act_return (report job TICK_STALE 0 (Some ''lease authority lost''))
       else if ls_cancellation_requested l then worker_cancel wk job
       else if past_deadline job now then worker_fail wk job ''job deadline exceeded'' True
       else (case registry_get (je_job_type job) (wk_handlers wk) of
          None \<Rightarrow> worker_fail wk job (''no handler registered for job type '' @ py_repr (je_job_type job)) False
        | Some h \<Rightarrow> (let x = h (je_payload job)
            in supervise wk job (hx_started x) (hx_outcome x) (hx_polls x))))"

text \<open>The readings of one poll cycle.\<close>

record tick_input =
  ti_now :: time
  ti_run_id :: string
  ti_task_id :: string

definition run_claimed_job :: "'s worker \<Rightarrow> tick_input \<Rightarrow> job_envelope \<Rightarrow> ('s, tick_report) act" where
  "run_claimed_job wk t job =
     act_bind (execute_claimed_job wk (ti_now t) job) (\<lambda>r.
       act_return (r\<lparr>tr_run_id := Some (ti_run_id t), tr_task_id := Some (ti_task_id t)\<rparr>))"

definition run_once :: "'s worker \<Rightarrow> tick_input \<Rightarrow> ('s, tick_report) act" where
  "run_once wk t =
     act_bind (q_recover (wk_queue wk)) (\<lambda>_.
     act_bind (q_claim (wk_queue wk) (wk_worker_id wk) (wk_lease_s wk)) (\<lambda>claimed.
       case claimed of
         None \<Rightarrow> act_bind (publish_outbox wk) (\<lambda>published. act_return
           \<lparr>tr_status = TICK_IDLE, tr_job_id = None, tr_attempt = None, tr_outbox_published = published,
            tr_error = None, tr_run_id = None, tr_task_id = None\<rparr>)
       | Some job \<Rightarrow> run_claimed_job wk t job))"

text \<open>\<^verbatim>\<open>WorkerRuntime.run\<close> until the stop event is set: one input per cycle.\<close>

fun worker_loop :: "'s worker \<Rightarrow> tick_input list \<Rightarrow> nat \<Rightarrow> ('s, nat) act" where
  "worker_loop wk [] processed = act_return processed"
| "worker_loop wk (t # ts) processed = act_bind (run_once wk t) (\<lambda>r.
     worker_loop wk ts (if tr_status r = TICK_IDLE then processed else processed + 1))"

definition worker_run :: "'s worker \<Rightarrow> seconds \<Rightarrow> tick_input list \<Rightarrow> ('s, nat) act" where
  "worker_run wk idle_interval_s ts =
     (if idle_interval_s \<le> 0 then act_raise (ValueError ''idle_interval_s must be positive'')
      else worker_loop wk ts 0)"

section \<open>What a report tells\<close>

definition keeps :: "('s \<Rightarrow> bool) \<Rightarrow> ('s \<Rightarrow> 's \<Rightarrow> bool) \<Rightarrow> ('s, 'a) act \<Rightarrow> bool" where
  "keeps ok later m \<longleftrightarrow> (\<forall>s0. act_triple (\<lambda>s. ok s \<and> later s0 s) m
     (\<lambda>_ s. ok s \<and> later s0 s) (\<lambda>s. ok s \<and> later s0 s))"

definition publisher_keeps :: "('s \<Rightarrow> bool) \<Rightarrow> ('s \<Rightarrow> 's \<Rightarrow> bool) \<Rightarrow> 's worker \<Rightarrow> bool" where
  "publisher_keeps ok later wk \<longleftrightarrow> (case wk_publisher wk of None \<Rightarrow> True | Some p \<Rightarrow> keeps ok later p)"

text \<open>
  The report of a job is borne out by the durable state: success means that the handler returned,
  that its result passed the JSON boundary and that exactly this result is stored; failure and
  cancellation are stored too.
\<close>

definition borne_out ::
  "('s \<Rightarrow> string \<Rightarrow> job_status \<Rightarrow> pyobj \<Rightarrow> bool) \<Rightarrow> job_envelope \<Rightarrow> outcome option \<Rightarrow> tick_report \<Rightarrow> 's \<Rightarrow> bool" where
  "borne_out finished job out r s \<longleftrightarrow> tr_job_id r = Some (je_id job) \<and>
     (case tr_status r of
        TICK_SUCCEEDED \<Rightarrow> (\<exists>raw v. out = Some (Returned raw) \<and> validate_job_result raw = Inr v
                             \<and> finished s (je_id job) SUCCEEDED v)
      | TICK_FAILED \<Rightarrow> finished s (je_id job) FAILED PNone
      | TICK_CANCELLED \<Rightarrow> finished s (je_id job) CANCELLED PNone
      | TICK_IDLE \<Rightarrow> False
      | _ \<Rightarrow> True)"

definition told ::
  "('s \<Rightarrow> bool) \<Rightarrow> ('s \<Rightarrow> 's \<Rightarrow> bool) \<Rightarrow> ('s \<Rightarrow> string \<Rightarrow> job_status \<Rightarrow> pyobj \<Rightarrow> bool)
     \<Rightarrow> ('s \<Rightarrow> job_envelope \<Rightarrow> bool) \<Rightarrow> 's \<Rightarrow> job_envelope \<Rightarrow> outcome option \<Rightarrow> tick_report \<Rightarrow> 's \<Rightarrow> bool" where
  "told ok later finished superseded s0 job out r s \<longleftrightarrow>
     ok s \<and> later s0 s \<and> borne_out finished job out r s \<and> (superseded s0 job \<longrightarrow> tr_status r = TICK_STALE)"

text \<open>The rounds of the loop that let a handler go on.\<close>

definition quiet :: "job_envelope \<Rightarrow> seconds \<Rightarrow> handler_poll \<Rightarrow> bool" where
  "quiet job started p \<longleftrightarrow>
     \<not> hp_stop p \<and> \<not> timed_out job started (hp_loop p) \<and> \<not> past_deadline job (hp_now p)"

text \<open>
  The outcome of the handler when nothing kept it from ending: before its start the deadline, in
  the loop the stop event, the timeout or the deadline.
\<close>

definition handled :: "'s worker \<Rightarrow> time \<Rightarrow> job_envelope \<Rightarrow> outcome option" where
  "handled wk now job =
     (if past_deadline job now then None
      else (case registry_get (je_job_type job) (wk_handlers wk) of None \<Rightarrow> None
        | Some h \<Rightarrow> (let x = h (je_payload job)
            in if list_all (quiet job (hx_started x)) (hx_polls x) then Some (hx_outcome x) else None)))"

section \<open>The contract of the queue port\<close>

text \<open>
  \<open>later\<close> orders states by what can have happened in between, \<open>issued\<close> says that the envelope came
  from a claim, \<open>finished s k st res\<close> that job \<open>k\<close> has ended in status \<open>st\<close> with result \<open>res\<close>, and
  \<open>superseded\<close> that the claim of the envelope is over.
\<close>

locale durable_queue =
  fixes q :: "'s queue_port"
    and ok :: "'s \<Rightarrow> bool"
    and later :: "'s \<Rightarrow> 's \<Rightarrow> bool"
    and issued :: "'s \<Rightarrow> job_envelope \<Rightarrow> bool"
    and finished :: "'s \<Rightarrow> string \<Rightarrow> job_status \<Rightarrow> pyobj \<Rightarrow> bool"
    and superseded :: "'s \<Rightarrow> job_envelope \<Rightarrow> bool"
  assumes later_refl: "later s s"
    and later_trans: "later s1 s2 \<Longrightarrow> later s2 s3 \<Longrightarrow> later s1 s3"
    and issued_later: "issued s job \<Longrightarrow> later s s' \<Longrightarrow> issued s' job"
    and finished_later: "finished s k st res \<Longrightarrow> later s s' \<Longrightarrow> finished s' k st res"
    and superseded_later: "superseded s job \<Longrightarrow> later s s' \<Longrightarrow> superseded s' job"
    and recover_law: "act_triple (\<lambda>s. ok s \<and> later s0 s) (q_recover q)
          (\<lambda>_ s. ok s \<and> later s0 s) (\<lambda>s. ok s \<and> later s0 s)"
    and claim_law: "act_triple (\<lambda>s. ok s \<and> later s0 s) (q_claim q w x)
          (\<lambda>c s. ok s \<and> later s0 s \<and> (case c of None \<Rightarrow> True | Some job \<Rightarrow> issued s job))
          (\<lambda>s. ok s \<and> later s0 s)"
    and heartbeat_law: "act_triple (\<lambda>s. ok s \<and> later s0 s \<and> issued s job) (q_heartbeat q job w x)
          (\<lambda>l s. ok s \<and> later s0 s \<and> (superseded s0 job \<longrightarrow> \<not> ls_authoritative l)) (\<lambda>s. ok s \<and> later s0 s)"
    and complete_law: "is_frozen v \<Longrightarrow> act_triple (\<lambda>s. ok s \<and> later s0 s \<and> issued s job) (q_complete q job w v)
          (\<lambda>f s. ok s \<and> later s0 s \<and> (superseded s0 job \<longrightarrow> \<not> fz_accepted f)
             \<and> (fz_accepted f \<longrightarrow> fz_status f = SUCCEEDED \<and> finished s (je_id job) SUCCEEDED v
                  \<or> fz_status f = CANCELLED \<and> finished s (je_id job) CANCELLED PNone))
          (\<lambda>s. ok s \<and> later s0 s)"
    and fail_law: "act_triple (\<lambda>s. ok s \<and> later s0 s \<and> issued s job) (q_fail q job w err retryable d)
          (\<lambda>f s. ok s \<and> later s0 s \<and> (superseded s0 job \<longrightarrow> \<not> fz_accepted f)
             \<and> (fz_accepted f \<longrightarrow> fz_status f = RETRY_WAIT
                  \<or> fz_status f \<in> {FAILED, CANCELLED} \<and> finished s (je_id job) (fz_status f) PNone))
          (\<lambda>s. ok s \<and> later s0 s)"
    and cancel_law: "act_triple (\<lambda>s. ok s \<and> later s0 s \<and> issued s job) (q_cancel_claim q job w)
          (\<lambda>f s. ok s \<and> later s0 s \<and> (superseded s0 job \<longrightarrow> \<not> fz_accepted f)
             \<and> (if fz_accepted f then fz_status f = CANCELLED \<and> finished s (je_id job) CANCELLED PNone
                else fz_status f = RUNNING))
          (\<lambda>s. ok s \<and> later s0 s)"

context durable_queue
begin

lemma publish_law:
  assumes "publisher_keeps ok later wk"
  shows "act_triple (\<lambda>s. ok s \<and> later s0 s) (publish_outbox wk) (\<lambda>_ s. ok s \<and> later s0 s) (\<lambda>s. ok s \<and> later s0 s)"
  using assms by (auto simp: publish_outbox_def publisher_keeps_def keeps_def act_triple_return split: option.splits)

text \<open>Publishing keeps what a finalization has established.\<close>

lemma final_report_law:
  assumes p: "publisher_keeps ok later wk"
    and x: "\<And>s s'. X s \<Longrightarrow> later s s' \<Longrightarrow> X s'"
    and b: "\<And>n s. X s \<Longrightarrow> Q (report job (tick_of st) n err) s"
  shows "act_triple (\<lambda>s. ok s \<and> later s0 s \<and> X s) (final_report wk job st err)
    (\<lambda>r s. ok s \<and> later s0 s \<and> Q r s) (\<lambda>s. ok s \<and> later s0 s)"
proof -
  have 1: "act_triple (\<lambda>s. ok s \<and> later s0 s \<and> X s) (publish_outbox wk)
      (\<lambda>_ s. ok s \<and> later s0 s \<and> X s) (\<lambda>s. ok s \<and> later s0 s)"
    unfolding act_triple_def
  proof (intro allI impI)
    fix s assume s: "ok s \<and> later s0 s \<and> X s"
    obtain out s' where o: "publish_outbox wk s = (out, s')" by fastforce
    from act_tripleD [OF publish_law [OF p, of s] _ o] s later_refl [of s]
    have "ok s' \<and> later s s'" by (cases out) auto
    then have "ok s' \<and> later s0 s' \<and> X s'" using s later_trans x by blast
    then show "case publish_outbox wk s of (Inl e, s') \<Rightarrow> ok s' \<and> later s0 s'
        | (Inr y, s') \<Rightarrow> ok s' \<and> later s0 s' \<and> X s'" by (simp add: o split: sum.split)
  qed
  show ?thesis unfolding final_report_def
    by (rule act_triple_bind [OF 1]) (rule act_triple_return, use b in blast)
qed

text \<open>The three ways to end a claim.\<close>

lemma final_told:
  assumes p: "publisher_keeps ok later wk"
    and n: "superseded s0 job \<Longrightarrow> False"
    and b: "\<And>n s. X s \<Longrightarrow> borne_out finished job out (report job (tick_of st) n err) s"
    and x: "\<And>s s'. X s \<Longrightarrow> later s s' \<Longrightarrow> X s'"
  shows "act_triple (\<lambda>s. ok s \<and> later s0 s \<and> X s) (final_report wk job st err)
    (told ok later finished superseded s0 job out)
    (\<lambda>s. ok s \<and> later s0 s)"
  unfolding told_def by (rule final_report_law [OF p x]) (use n b in blast)+

lemma stale_told:
  assumes "\<And>s. P s \<Longrightarrow> ok s \<and> later s0 s"
  shows "act_triple P (act_return (report job TICK_STALE 0 err))
    (told ok later finished superseded s0 job out)
    (\<lambda>s. ok s \<and> later s0 s)"
  by (rule act_triple_return) (use assms in \<open>simp add: told_def borne_out_def report_def\<close>)

lemma worker_fail_law:
  assumes p: "publisher_keeps ok later wk" and q: "wk_queue wk = q"
  shows "act_triple (\<lambda>s. ok s \<and> later s0 s \<and> issued s job) (worker_fail wk job err retryable)
    (told ok later finished superseded s0 job out)
    (\<lambda>s. ok s \<and> later s0 s)"
proof (cases "delay_for (wk_retry_policy wk) (je_attempt job)")
  case (Inl x)
  then show ?thesis by (auto simp: worker_fail_def intro!: act_triple_raise)
next
  case (Inr d)
  let ?X = "\<lambda>st s. if st \<in> {FAILED, CANCELLED} then finished s (je_id job) st PNone else st = RETRY_WAIT"
  have "act_triple (\<lambda>s. ok s \<and> later s0 s \<and> (superseded s0 job \<longrightarrow> \<not> fz_accepted f)
             \<and> (fz_accepted f \<longrightarrow> fz_status f = RETRY_WAIT
                  \<or> fz_status f \<in> {FAILED, CANCELLED} \<and> finished s (je_id job) (fz_status f) PNone))
      (if \<not> fz_accepted f then act_return (report job TICK_STALE 0 (Some ''stale failure rejected''))
               else final_report wk job (fz_status f) (Some err))
      (told ok later finished superseded s0 job out)
      (\<lambda>s. ok s \<and> later s0 s)" for f
  proof (cases "fz_accepted f \<and> \<not> superseded s0 job")
    case True
    have t: "act_triple (\<lambda>s. ok s \<and> later s0 s \<and> ?X (fz_status f) s) (final_report wk job (fz_status f) (Some err))
      (told ok later finished superseded s0 job out)
      (\<lambda>s. ok s \<and> later s0 s)"
      by (rule final_told [OF p])
        (use True finished_later in \<open>auto simp: borne_out_def report_def split: if_splits\<close>)
    show ?thesis using True by simp (rule act_triple_weaken [OF t]; auto)
  next
    case False
    then show ?thesis
      by (cases "fz_accepted f") (simp_all add: act_triple_vacuous stale_told)
  qed
  from act_triple_bind [OF fail_law this] Inr q show ?thesis by (simp add: worker_fail_def)
qed

lemma worker_cancel_law:
  assumes p: "publisher_keeps ok later wk" and q: "wk_queue wk = q"
  shows "act_triple (\<lambda>s. ok s \<and> later s0 s \<and> issued s job) (worker_cancel wk job)
    (told ok later finished superseded s0 job out) (\<lambda>s. ok s \<and> later s0 s)"
proof -
  have "act_triple (\<lambda>s. ok s \<and> later s0 s \<and> (superseded s0 job \<longrightarrow> \<not> fz_accepted f)
             \<and> (if fz_accepted f then fz_status f = CANCELLED \<and> finished s (je_id job) CANCELLED PNone
                else fz_status f = RUNNING))
      (final_report wk job (fz_status f) None) (told ok later finished superseded s0 job out)
      (\<lambda>s. ok s \<and> later s0 s)" for f
  proof (cases "fz_accepted f")
    case True
    have "act_triple (\<lambda>s. ok s \<and> later s0 s \<and> (\<not> superseded s0 job \<and> fz_status f = CANCELLED
          \<and> finished s (je_id job) CANCELLED PNone)) (final_report wk job (fz_status f) None)
        (told ok later finished superseded s0 job out) (\<lambda>s. ok s \<and> later s0 s)"
      unfolding told_def
      by (rule final_report_law [OF p]) (use finished_later in \<open>auto simp: borne_out_def report_def\<close>)
    with True show ?thesis by (auto elim!: act_triple_weaken)
  next
    case False
    have "act_triple (\<lambda>s. ok s \<and> later s0 s \<and> fz_status f = RUNNING) (final_report wk job (fz_status f) None)
        (told ok later finished superseded s0 job out) (\<lambda>s. ok s \<and> later s0 s)"
      unfolding told_def by (rule final_report_law [OF p]) (auto simp: borne_out_def report_def)
    with False show ?thesis by (auto elim!: act_triple_weaken)
  qed
  from act_triple_bind [OF cancel_law this] q show ?thesis by (simp add: worker_cancel_def)
qed

lemma heartbeat_told:
  assumes q: "wk_queue wk = q"
    and go: "act_triple (\<lambda>s. ok s \<and> later s0 s \<and> issued s job) m (told ok later finished superseded s0 job out)
               (\<lambda>s. ok s \<and> later s0 s)"
    and p: "publisher_keeps ok later wk"
  shows "act_triple (\<lambda>s. ok s \<and> later s0 s \<and> issued s job)
    (act_bind (guard_heartbeat wk job) (\<lambda>l.
       if \<not> ls_authoritative l then act_return (report job TICK_STALE 0 err)
       else if ls_cancellation_requested l then worker_cancel wk job else m))
    (told ok later finished superseded s0 job out) (\<lambda>s. ok s \<and> later s0 s)"
proof (rule act_triple_bind)
  show "act_triple (\<lambda>s. ok s \<and> later s0 s \<and> issued s job) (guard_heartbeat wk job)
      (\<lambda>l s. ok s \<and> later s0 s \<and> issued s job) (\<lambda>s. ok s \<and> later s0 s)"
    unfolding act_triple_def
  proof (intro allI impI)
    fix s assume s: "ok s \<and> later s0 s \<and> issued s job"
    obtain o1 s' where o: "guard_heartbeat wk job s = (o1, s')" by fastforce
    then have h: "q_heartbeat q job (wk_worker_id wk) (wk_lease_s wk) s = (o1, s')"
      using q by (simp add: guard_heartbeat_def)
    from act_tripleD [OF heartbeat_law [of s] _ h] s later_refl [of s]
    have "ok s' \<and> later s s'" by (cases o1) auto
    then have "ok s' \<and> later s0 s' \<and> issued s' job" using s later_trans issued_later by blast
    then show "case guard_heartbeat wk job s of (Inl e, s') \<Rightarrow> ok s' \<and> later s0 s'
        | (Inr y, s') \<Rightarrow> ok s' \<and> later s0 s' \<and> issued s' job" by (simp add: o split: sum.split)
  qed
  fix l
  show "act_triple (\<lambda>s. ok s \<and> later s0 s \<and> issued s job)
      (if \<not> ls_authoritative l then act_return (report job TICK_STALE 0 err)
       else if ls_cancellation_requested l then worker_cancel wk job else m)
      (told ok later finished superseded s0 job out) (\<lambda>s. ok s \<and> later s0 s)"
    using stale_told [of "\<lambda>s. ok s \<and> later s0 s \<and> issued s job" s0 job err out] worker_cancel_law [OF p q, of s0 job out] go by simp
qed

lemma conclude_law:
  assumes p: "publisher_keeps ok later wk" and q: "wk_queue wk = q"
  shows "act_triple (\<lambda>s. ok s \<and> later s0 s \<and> issued s job) (conclude wk job out)
    (told ok later finished superseded s0 job (Some out)) (\<lambda>s. ok s \<and> later s0 s)"
proof (cases out)
  case (Returned raw)
  have fin: "act_triple (\<lambda>s. ok s \<and> later s0 s \<and> issued s job)
      (act_bind (q_complete (wk_queue wk) job (wk_worker_id wk) v) (\<lambda>f.
         if \<not> fz_accepted f then act_return (report job TICK_STALE 0 (Some ''stale result rejected''))
         else final_report wk job (fz_status f) None))
      (told ok later finished superseded s0 job (Some out)) (\<lambda>s. ok s \<and> later s0 s)"
    if v: "validate_job_result raw = Inr v" for v
  proof (unfold q, rule act_triple_bind [OF complete_law])
    show "is_frozen v" using v freeze_frozen(1) by (auto simp: validate_job_result_Inr)
  next
    fix f
    let ?R = "\<lambda>s. superseded s0 job \<longrightarrow> \<not> fz_accepted f"
    let ?F = "\<lambda>s. fz_status f = SUCCEEDED \<and> finished s (je_id job) SUCCEEDED v
                  \<or> fz_status f = CANCELLED \<and> finished s (je_id job) CANCELLED PNone"
    have "act_triple (\<lambda>s. ok s \<and> later s0 s \<and> (\<not> superseded s0 job \<and> ?F s)) (final_report wk job (fz_status f) None)
        (told ok later finished superseded s0 job (Some out)) (\<lambda>s. ok s \<and> later s0 s)"
      unfolding told_def
      by (rule final_report_law [OF p]) (use finished_later Returned v in \<open>auto simp: borne_out_def report_def\<close>)
    then show "act_triple (\<lambda>s. ok s \<and> later s0 s \<and> ?R s \<and> (fz_accepted f \<longrightarrow> ?F s))
        (if \<not> fz_accepted f then act_return (report job TICK_STALE 0 (Some ''stale result rejected''))
         else final_report wk job (fz_status f) None)
        (told ok later finished superseded s0 job (Some out)) (\<lambda>s. ok s \<and> later s0 s)"
      by (cases "fz_accepted f") (auto elim!: act_triple_weaken intro: stale_told)
  qed
  show ?thesis
    unfolding conclude_def Returned outcome.case check_authority_def
    by (rule heartbeat_told [OF q _ p])
      (use fin worker_fail_law [OF p q] in \<open>auto simp: Returned intro!: act_triple_raise split: sum.split exn.split\<close>)
qed (use worker_fail_law [OF p q] in \<open>simp_all add: conclude_def\<close>)

text \<open>A completed handler was never interrupted by the loop.\<close>

lemma supervise_law:
  assumes p: "publisher_keeps ok later wk" and q: "wk_queue wk = q"
  shows "act_triple (\<lambda>s. ok s \<and> later s0 s \<and> issued s job) (supervise wk job started out ps)
    (told ok later finished superseded s0 job (if list_all (quiet job started) ps then Some out else None))
    (\<lambda>s. ok s \<and> later s0 s)"
proof (induction ps)
  case Nil
  then show ?case using conclude_law [OF p q] by simp
next
  case (Cons x ps)
  show ?case
  proof (cases "quiet job started x")
    case True
    then have "supervise wk job started out (x # ps) = act_bind (guard_heartbeat wk job) (\<lambda>l.
        if \<not> ls_authoritative l then act_return (report job TICK_STALE 0 (Some ''lease authority lost''))
        else if ls_cancellation_requested l then worker_cancel wk job
        else supervise wk job started out ps)" by (simp add: quiet_def)
    then show ?thesis using heartbeat_told [OF q Cons.IH p] True by simp
  next
    case False
    then show ?thesis using worker_fail_law [OF p q] by (auto simp: quiet_def)
  qed
qed

text \<open>What the handler did, as the report of the whole execution can rely on it.\<close>

lemma execute_law:
  assumes p: "publisher_keeps ok later wk" and q: "wk_queue wk = q"
  shows "act_triple (\<lambda>s. ok s \<and> later s0 s \<and> issued s job) (execute_claimed_job wk now job)
    (told ok later finished superseded s0 job (handled wk now job)) (\<lambda>s. ok s \<and> later s0 s)"
  unfolding execute_claimed_job_def check_authority_def
proof (rule heartbeat_told [OF q _ p])
  show "act_triple (\<lambda>s. ok s \<and> later s0 s \<and> issued s job)
     (if past_deadline job now then worker_fail wk job ''job deadline exceeded'' True
       else (case registry_get (je_job_type job) (wk_handlers wk) of
          None \<Rightarrow> worker_fail wk job (''no handler registered for job type '' @ py_repr (je_job_type job)) False
        | Some h \<Rightarrow> (let x = h (je_payload job)
            in supervise wk job (hx_started x) (hx_outcome x) (hx_polls x))))
     (told ok later finished superseded s0 job (handled wk now job)) (\<lambda>s. ok s \<and> later s0 s)"
    using worker_fail_law [OF p q] supervise_law [OF p q]
    by (auto simp: handled_def Let_def split: option.split)
qed

lemma borne_out_later:
  "borne_out finished job out r s \<Longrightarrow> later s s' \<Longrightarrow> borne_out finished job out r s'"
  using finished_later by (auto simp: borne_out_def split: tick_status.splits)

lemma borne_out_ids:
  "borne_out finished job out (r\<lparr>tr_run_id := a, tr_task_id := b\<rparr>) s = borne_out finished job out r s"
  by (simp add: borne_out_def)

lemma run_once_law:
  assumes p: "publisher_keeps ok later wk" and q: "wk_queue wk = q"
  shows "act_triple (\<lambda>s. ok s \<and> later s0 s) (run_once wk t)
    (\<lambda>r s. ok s \<and> later s0 s \<and> (tr_status r = TICK_IDLE
       \<or> (\<exists>job. issued s job \<and> borne_out finished job (handled wk (ti_now t) job) r s)))
    (\<lambda>s. ok s \<and> later s0 s)" (is "act_triple ?P _ ?Q ?P")
proof -
  have claimed: "act_triple (\<lambda>s. ?P s \<and> issued s job) (run_claimed_job wk t job) ?Q ?P" for job
    unfolding act_triple_def
  proof (intro allI impI)
    fix s assume s: "?P s \<and> issued s job"
    obtain o1 s1 where o: "execute_claimed_job wk (ti_now t) job s = (o1, s1)" by fastforce
    from act_tripleD [OF execute_law [OF p q, of s] _ o] s later_refl [of s]
    have e: "ok s1 \<and> later s s1" and b: "\<And>r. o1 = Inr r \<Longrightarrow> borne_out finished job (handled wk (ti_now t) job) r s1"
      by (auto simp: told_def split: sum.splits)
    have l: "later s0 s1" "issued s1 job" using s e later_trans issued_later by blast+
    show "case run_claimed_job wk t job s of (Inl e, s') \<Rightarrow> ?P s' | (Inr r, s') \<Rightarrow> ?Q r s'"
    proof (cases o1)
      case (Inr r)
      with b have "borne_out finished job (handled wk (ti_now t) job)
          (r\<lparr>tr_run_id := Some (ti_run_id t), tr_task_id := Some (ti_task_id t)\<rparr>) s1" by (simp only: borne_out_ids)
      with Inr e l show ?thesis
        by (auto simp: run_claimed_job_def act_bind_def o act_return_def)
    qed (use e l in \<open>simp add: run_claimed_job_def act_bind_def o\<close>)
  qed
  show ?thesis
    unfolding run_once_def q
  proof (rule act_triple_bind [OF recover_law], rule act_triple_bind [OF claim_law])
    fix c :: "job_envelope option"
    show "act_triple (\<lambda>s. ok s \<and> later s0 s \<and> (case c of None \<Rightarrow> True | Some job \<Rightarrow> issued s job))
        (case c of None \<Rightarrow> act_bind (publish_outbox wk) (\<lambda>published. act_return
           \<lparr>tr_status = TICK_IDLE, tr_job_id = None, tr_attempt = None, tr_outbox_published = published,
            tr_error = None, tr_run_id = None, tr_task_id = None\<rparr>)
         | Some job \<Rightarrow> run_claimed_job wk t job) ?Q ?P"
    proof (cases c)
      case None
      then show ?thesis
        by (auto intro!: act_triple_bind [OF publish_law [OF p]] act_triple_return)
    qed (use claimed in \<open>simp add: conj_assoc\<close>)
  qed
qed

lemma worker_loop_law:
  assumes p: "publisher_keeps ok later wk" and q: "wk_queue wk = q"
  shows "keeps ok later (worker_loop wk ts n)"
proof (induction ts arbitrary: n)
  case Nil
  then show ?case by (simp add: keeps_def act_triple_return)
next
  case (Cons t ts)
  show ?case
    unfolding keeps_def worker_loop.simps
  proof (intro allI, rule act_triple_bind [OF run_once_law [OF p q]])
    fix s0 r
    show "act_triple (\<lambda>s. ok s \<and> later s0 s \<and> (tr_status r = TICK_IDLE
          \<or> (\<exists>job. issued s job \<and> borne_out finished job (handled wk (ti_now t) job) r s)))
        (worker_loop wk ts (if tr_status r = TICK_IDLE then n else n + 1))
        (\<lambda>_ s. ok s \<and> later s0 s) (\<lambda>s. ok s \<and> later s0 s)"
      by (rule act_triple_weaken [OF Cons.IH [unfolded keeps_def, rule_format]]) auto
  qed
qed

end

end
