(* ===== verification/Worker_System.thy ===== *)
theory Worker_System
  imports Worker Job_Properties
begin

text \<open>
  The worker on the SQL queue. Other workers, schedulers, clients that cancel, recoveries and
  publishers run between any two operations of the worker: \<open>rd_others\<close> lists their operations,
  and only those that their position allows take effect (an envelope can be presented when it
  was issued). The locale of the port is interpreted here and the worker's properties follow.
\<close>

section \<open>The queue port on the tables\<close>

text \<open>The readings of one operation: clocks, random identifiers, locks of others, crash gates.\<close>

record readings =
  rd_others :: "job_op list"
  rd_hook :: hook
  rd_skip :: bool
  rd_locked :: "string list"
  rd_before :: time
  rd_now :: time
  rd_tx :: tx_env
  rd_txs :: "nat \<Rightarrow> tx_env"
  rd_rnd :: "nat \<Rightarrow> 128 word"
  rd_attempt_id :: string
  rd_token :: string
  rd_clock :: "nat \<Rightarrow> time"
  rd_publishing :: "nat \<Rightarrow> outbox_op list"

record world =
  wd_sys :: job_sys
  wd_step :: nat

fun run_others :: "job_op list \<Rightarrow> job_sys \<Rightarrow> job_sys" where
  "run_others [] s = s"
| "run_others (op # ops) s = run_others ops (if job_valid s op then snd (job_act op s) else s)"

definition arrive :: "readings \<Rightarrow> world \<Rightarrow> job_sys" where
  "arrive r w = run_others (rd_others r) (wd_sys w)"

definition on_db ::
  "(nat \<Rightarrow> readings) \<Rightarrow> (readings \<Rightarrow> job_db \<Rightarrow> (exn + 'a) \<times> job_db) \<Rightarrow> ('a \<Rightarrow> job_envelope list)
     \<Rightarrow> (world, 'a) act" where
  "on_db env f new w =
     (let r = env (wd_step w); s = arrive r w
      in case f r (sys_db s) of
           (out, db) \<Rightarrow> (out, \<lparr>wd_sys = s\<lparr>sys_db := db,
             sys_issued := (case out of Inl _ \<Rightarrow> [] | Inr x \<Rightarrow> new x) @ sys_issued s\<rparr>, wd_step = wd_step w + 1\<rparr>))"

definition sql_queue :: "(nat \<Rightarrow> readings) \<Rightarrow> world queue_port" where
  "sql_queue env = \<lparr>
     q_recover = on_db env (\<lambda>r. recover_expired (rd_hook r) (rd_skip r) (rd_locked r) (rd_now r) (rd_txs r) 100) (\<lambda>_. []),
     q_claim = (\<lambda>w lease_s. on_db env (\<lambda>r. claim_next (rd_skip r) (rd_locked r) (rd_now r) (rd_rnd r)
        (rd_attempt_id r) w lease_s) (\<lambda>c. case c of None \<Rightarrow> [] | Some job \<Rightarrow> [job])),
     q_heartbeat = (\<lambda>job w lease_s. on_db env (\<lambda>r. heartbeat (rd_now r) job w lease_s) (\<lambda>_. [])),
     q_complete = (\<lambda>job w v. on_db env (\<lambda>r. complete (rd_hook r) (rd_now r) (rd_tx r) job w v) (\<lambda>_. [])),
     q_fail = (\<lambda>job w err retryable d. on_db env (\<lambda>r. fail (rd_hook r) (rd_before r) (rd_now r) (rd_tx r)
        job w err retryable d) (\<lambda>_. [])),
     q_cancel_claim = (\<lambda>job w. on_db env (\<lambda>r. cancel_claim (rd_hook r) (rd_now r) (rd_tx r) job w) (\<lambda>_. []))\<rparr>"

section \<open>What the queue promises its workers\<close>

definition sys_later :: "job_sys \<Rightarrow> job_sys \<Rightarrow> bool" where
  "sys_later s s' \<longleftrightarrow> advances (jd_jobs (sys_db s)) (jd_jobs (sys_db s')) \<and> set (sys_issued s) \<subseteq> set (sys_issued s')"

definition stored_result :: "pyobj \<Rightarrow> pyobj option" where
  "stored_result v = (if v = PNone then None else Some (json_dump v))"

definition job_finished :: "job_sys \<Rightarrow> string \<Rightarrow> job_status \<Rightarrow> pyobj \<Rightarrow> bool" where
  "job_finished s k st res \<longleftrightarrow> terminal st \<and> list_ex (\<lambda>r. jr_id r = k \<and> jr_status r = st
     \<and> (st = SUCCEEDED \<longrightarrow> jr_result r = stored_result res)) (jd_jobs (sys_db s))"

definition claim_over :: "job_sys \<Rightarrow> job_envelope \<Rightarrow> bool" where
  "claim_over s job \<longleftrightarrow> (case je_fencing_token job of None \<Rightarrow> False | Some t \<Rightarrow> job_retired s (je_id job) t)"

lemma sys_later_refl [simp]: "sys_later s s"
  by (simp add: sys_later_def)

lemma sys_later_trans: "sys_later s1 s2 \<Longrightarrow> sys_later s2 s3 \<Longrightarrow> sys_later s1 s3"
  unfolding sys_later_def using advances_trans by blast

lemma job_finished_later:
  assumes "job_finished s k st res" and "sys_later s s'" shows "job_finished s' k st res"
proof -
  from assms(1) obtain r where r: "r \<in> set (jd_jobs (sys_db s))" "jr_id r = k" "jr_status r = st" "terminal st"
    "st = SUCCEEDED \<longrightarrow> jr_result r = stored_result res" by (auto simp: job_finished_def list_ex_iff)
  from assms(2) advances_row [OF _ r(1)] obtain r' where "r' \<in> set (jd_jobs (sys_db s'))" "row_le r r'"
    unfolding sys_later_def by blast
  with r have "r \<in> set (jd_jobs (sys_db s'))" by (simp add: row_le_def)
  with r show ?thesis by (auto simp: job_finished_def list_ex_iff)
qed

lemma claim_over_later: "claim_over s job \<Longrightarrow> sys_later s s' \<Longrightarrow> claim_over s' job"
  using job_retired_stable by (auto simp: claim_over_def sys_later_def split: option.splits)

lemma job_act_issued: "set (sys_issued s) \<subseteq> set (sys_issued (snd (job_act op s)))"
  by (cases op) (auto simp: case_prod_beta split: sum.splits option.splits prod.splits)

lemma run_others_ok:
  assumes "sys_inv s" shows "sys_inv (run_others ops s) \<and> sys_later s (run_others ops s)"
  using assms
proof (induction ops arbitrary: s)
  case (Cons op ops)
  have "sys_inv (if job_valid s op then snd (job_act op s) else s)"
    and "sys_later s (if job_valid s op then snd (job_act op s) else s)"
    using Cons.prems job_act_inv job_act_steps job_act_issued by (auto simp: sys_later_def)
  with Cons.IH sys_later_trans show ?case by (metis run_others.simps(2))
qed simp

lemma arrive_ok: "sys_inv (wd_sys w) \<Longrightarrow> sys_inv (arrive r w) \<and> sys_later (wd_sys w) (arrive r w)"
  by (simp add: arrive_def run_others_ok)

text \<open>
  Each operation of the port: it keeps the invariant, moves rows forward, and establishes \<open>Q\<close> on
  the state it met once the others had their turn.
\<close>

lemma on_db_law:
  assumes "\<And>s s'. I s \<Longrightarrow> sys_later s s' \<Longrightarrow> I s'"
    and step: "\<And>r (s :: job_sys). sys_inv s \<Longrightarrow> I s \<Longrightarrow>
      job_inv (snd (f r (sys_db s))) \<and> advances (jd_jobs (sys_db s)) (jd_jobs (snd (f r (sys_db s))))"
    and post: "\<And>r (s :: job_sys) x. sys_inv s \<Longrightarrow> I s \<Longrightarrow> fst (f r (sys_db s)) = Inr x \<Longrightarrow>
      (\<forall>job \<in> set (new x). genuine (jd_jobs (snd (f r (sys_db s)))) job)
      \<and> Q x (s\<lparr>sys_db := snd (f r (sys_db s)), sys_issued := new x @ sys_issued s\<rparr>)"
  shows "act_triple (\<lambda>w. sys_inv (wd_sys w) \<and> sys_later (wd_sys start) (wd_sys w) \<and> I (wd_sys w)) (on_db env f new)
    (\<lambda>x w. sys_inv (wd_sys w) \<and> sys_later (wd_sys start) (wd_sys w) \<and> Q x (wd_sys w))
    (\<lambda>w. sys_inv (wd_sys w) \<and> sys_later (wd_sys start) (wd_sys w))"
  unfolding act_triple_def
proof (intro allI impI)
  fix w :: world assume w: "sys_inv (wd_sys w) \<and> sys_later (wd_sys start) (wd_sys w) \<and> I (wd_sys w)"
  let ?r = "env (wd_step w)"
  let ?s = "arrive ?r w"
  have s: "sys_inv ?s" "sys_later (wd_sys start) ?s" "I ?s"
    using arrive_ok w sys_later_trans assms(1) by blast+
  obtain out db where f: "f ?r (sys_db ?s) = (out, db)" by fastforce
  have j: "job_inv db" "advances (jd_jobs (sys_db ?s)) (jd_jobs db)" using step [OF s(1,3), of ?r] f by simp_all
  have old: "genuine (jd_jobs db) e" if "e \<in> set (sys_issued ?s)" for e
    using s(1) that genuine_advances [OF _ j(2)] by (auto simp: sys_inv_def list_all_iff)
  let ?s' = "\<lambda>xs. ?s\<lparr>sys_db := db, sys_issued := xs @ sys_issued ?s\<rparr>"
  have "sys_later ?s (?s' xs)" for xs using j(2) by (simp add: sys_later_def)
  with s(2) have l: "sys_later (wd_sys start) (?s' xs)" for xs using sys_later_trans by blast
  show "case on_db env f new w of (Inl e, w') \<Rightarrow> sys_inv (wd_sys w') \<and> sys_later (wd_sys start) (wd_sys w')
      | (Inr x, w') \<Rightarrow> sys_inv (wd_sys w') \<and> sys_later (wd_sys start) (wd_sys w') \<and> Q x (wd_sys w')"
  proof (cases out)
    case (Inl e)
    then show ?thesis using l [of "[]"] j old
      by (simp add: on_db_def Let_def f sys_inv_def list_all_iff)
  next
    case (Inr x)
    from post [OF s(1,3), of ?r x] f Inr have n: "\<forall>job \<in> set (new x). genuine (jd_jobs db) job" "Q x (?s' (new x))"
      by simp_all
    then show ?thesis using l [of "new x"] j old Inr
      by (auto simp: on_db_def Let_def f sys_inv_def list_all_iff)
  qed
qed

section \<open>Outcomes of the finalizations\<close>

lemma finalize_write_commit_status:
  "finalize_write hook now env job worker token st res err delay db = TxCommit z db' \<Longrightarrow> fz_accepted z \<and> fz_status z = st"
  by (rule finalize_write_commit) auto

lemma finalize_rejected_status:
  assumes "finalize_claim hook now env job worker st res err delay db = (Inr f, db')" and "\<not> fz_accepted f"
  shows "fz_status f = RUNNING"
proof -
  have w: "finalize_write hook now env job w t st' res' err' delay d = TxReturn z \<Longrightarrow> z = stale_finalization"
    for w t st' res' err' z d
    by (auto simp: finalize_write_def Let_def split: if_splits sum.splits)
  have r: "finalize_body hook now env job w t st res err delay d = TxReturn z \<Longrightarrow> z = stale_finalization" for w t z d
    using w by (auto simp: finalize_body_def split: if_splits option.splits)
  have c: "finalize_body hook now env job w t st res err delay d = TxCommit z d' \<Longrightarrow> fz_accepted z" for w t z d d'
    using finalize_write_commit_status by (auto simp: finalize_body_def split: if_splits option.splits)
  from assms show ?thesis
    by (auto simp: finalize_claim_def run_tx_def stale_finalization_def split: sum.splits tx_end.splits if_splits
        dest: r c)
qed

lemma finalize_accepted_stored:
  assumes "finalize_claim hook now env job worker st res0 err0 delay db = (Inr f, db')" and "fz_accepted f"
  obtains r res err where "r \<in> set (jd_jobs db)" "jr_id r = je_id job" "jr_fencing_token r = je_fencing_token job"
    "fz_status f = (if jr_cancellation_requested_at r \<noteq> None then CANCELLED else st)"
    "res = (if jr_cancellation_requested_at r \<noteq> None then None else case res0 of Some PNone \<Rightarrow> None | _ \<Rightarrow> res0)"
    "finalize_values now (fz_status f) res err delay r \<in> set (jd_jobs db')"
proof -
  from assms(1) obtain w t where t: "je_fencing_token job = Some t"
    and run: "run_tx hook (finalize_body hook now env job w t st res0 err0 delay) db = (Inr f, db')"
    by (auto simp: finalize_claim_def required_fencing_token_def split: sum.splits option.splits)
  from run assms(2) have body: "finalize_body hook now env job w t st res0 err0 delay db = TxCommit f db'"
    using finalize_body_result by (auto simp: run_tx_def split: tx_end.splits if_splits)
  then obtain r st' res err where r: "r \<in> set (jd_jobs db)" "jr_id r = je_id job"
    "owns_claim_row (je_id job) w t now r"
    and st': "st' = (if jr_cancellation_requested_at r \<noteq> None then CANCELLED else st)"
    and res: "res = (if jr_cancellation_requested_at r \<noteq> None then None else case res0 of Some PNone \<Rightarrow> None | _ \<Rightarrow> res0)"
    and wr: "finalize_write hook now env job w t st' res err delay db = TxCommit f db'"
    by (rule finalize_body_commit)
  from wr obtain ob where "db' = db\<lparr>jd_jobs := sql_update (owns_claim_row (je_id job) w t now)
               (finalize_values now st' res err delay) (jd_jobs db),
             jd_attempts := sql_update (running_attempt (je_id job) t)
               (close_attempt (if st' = RETRY_WAIT then ''failed'' else status_value st') now err) (jd_attempts db),
             jd_outbox := ob\<rparr>" by (rule finalize_write_commit)
  then have "finalize_values now st' res err delay r \<in> set (jd_jobs db')"
    using r(1,3) by (force simp: set_sql_update)
  moreover have "fz_status f = st'" using finalize_write_commit_status [OF wr] by simp
  ultimately show thesis using that r(1,2) owns_claim_rowD(4) [OF r(3)] t st' res by simp
qed

lemma finalize_accepted_finished:
  assumes "finalize_claim hook now env job worker st res0 err0 delay (sys_db s) = (Inr f, db')" and "fz_accepted f"
    and "case res0 of None \<Rightarrow> st \<noteq> SUCCEEDED | Some v \<Rightarrow> True"
  shows "fz_status f \<in> {st, CANCELLED}
       \<and> (terminal (fz_status f) \<longrightarrow> job_finished (s\<lparr>sys_db := db', sys_issued := xs\<rparr>) (je_id job) (fz_status f)
             (case res0 of None \<Rightarrow> PNone | Some v \<Rightarrow> v))"
proof -
  from finalize_accepted_stored [OF assms(1,2)] obtain r res err where
    r: "jr_id r = je_id job" "fz_status f = (if jr_cancellation_requested_at r \<noteq> None then CANCELLED else st)"
    "res = (if jr_cancellation_requested_at r \<noteq> None then None else case res0 of Some PNone \<Rightarrow> None | _ \<Rightarrow> res0)"
    and m: "finalize_values now (fz_status f) res err delay r \<in> set (jd_jobs db')" by metis
  have "jr_result (finalize_values now (fz_status f) res err delay r) = stored_result (case res0 of None \<Rightarrow> PNone | Some v \<Rightarrow> v)"
    if "fz_status f = SUCCEEDED"
    using that r(2,3) assms(3)
    by (auto simp: finalize_values_def Let_def stored_result_def split: if_splits option.splits pyobj.splits)
  moreover have "jr_id (finalize_values now (fz_status f) res err delay r) = je_id job"
    using r(1) core_view_eqD(1) [OF finalize_values_core(1)] by metis
  ultimately show ?thesis
    using m r(2) by (auto simp: job_finished_def list_ex_iff intro!: bexI [OF _ m])
qed

section \<open>A claim that is over\<close>

lemma heartbeat_over:
  assumes "sys_inv s" and "claim_over s job" and "fst (heartbeat now job w x (sys_db s)) = Inr l"
  shows "\<not> ls_authoritative l"
proof -
  have inv: "job_inv (sys_db s)" using assms(1) by (simp add: sys_inv_def)
  from assms(2) obtain t where t: "je_fencing_token job = Some t" "job_retired s (je_id job) t"
    by (auto simp: claim_over_def split: option.splits)
  have "\<not> owns_claim_row (je_id job) v t now r" if "r \<in> set (jd_jobs (sys_db s))" for r v
    using job_retired_not_owner [OF inv t(2) that] by (auto simp: owns_claim_row_def)
  then have "find (owns_claim_row (je_id job) v t now) (jd_jobs (sys_db s)) = None" for v
    by (simp add: find_None_iff)
  then show ?thesis
    using assms(3) t(1) by (auto simp: heartbeat_def required_fencing_token_def Let_def split: sum.splits)
qed

lemma finalize_over:
  assumes "sys_inv s" and "claim_over s job"
    and "finalize_claim hook now env job w st res err delay (sys_db s) = (Inr f, db)"
  shows "\<not> fz_accepted f"
  using assms finalize_claim_retired [of s job _ hook now env w st res err delay]
  by (auto simp: claim_over_def sys_inv_def finalized_def split: option.splits)

lemma validated_again: "is_frozen v \<Longrightarrow> validate_job_result v = Inr v"
  by (simp add: validate_job_result_def freeze_of_frozen)

text \<open>The operations that present an envelope: \<open>good\<close> is the answer that only a live claim gets.\<close>

lemma port_law:
  assumes step: "\<And>r (s :: job_sys). job_inv (sys_db s) \<Longrightarrow> genuine (jd_jobs (sys_db s)) job \<Longrightarrow>
        job_inv (snd (f r (sys_db s))) \<and> advances (jd_jobs (sys_db s)) (jd_jobs (snd (f r (sys_db s))))"
    and post: "\<And>r (s :: job_sys) z. fst (f r (sys_db s)) = Inr z \<Longrightarrow>
        Q z (s\<lparr>sys_db := snd (f r (sys_db s)), sys_issued := sys_issued s\<rparr>)"
    and over: "\<And>r (s :: job_sys) z. sys_inv s \<Longrightarrow> claim_over s job \<Longrightarrow> fst (f r (sys_db s)) = Inr z \<Longrightarrow> \<not> good z"
  shows "act_triple (\<lambda>w. sys_inv (wd_sys w) \<and> sys_later (wd_sys start) (wd_sys w) \<and> job \<in> set (sys_issued (wd_sys w)))
    (on_db env f (\<lambda>_. []))
    (\<lambda>z w. sys_inv (wd_sys w) \<and> sys_later (wd_sys start) (wd_sys w) \<and> (claim_over (wd_sys start) job \<longrightarrow> \<not> good z)
       \<and> Q z (wd_sys w))
    (\<lambda>w. sys_inv (wd_sys w) \<and> sys_later (wd_sys start) (wd_sys w))"
proof -
  let ?I = "\<lambda>s. job \<in> set (sys_issued s) \<and> (claim_over (wd_sys start) job \<longrightarrow> claim_over s job)"
  let ?Q = "\<lambda>z s. (claim_over (wd_sys start) job \<longrightarrow> \<not> good z) \<and> Q z s"
  have t: "act_triple (\<lambda>w. sys_inv (wd_sys w) \<and> sys_later (wd_sys start) (wd_sys w) \<and> ?I (wd_sys w)) (on_db env f (\<lambda>_. []))
    (\<lambda>z w. sys_inv (wd_sys w) \<and> sys_later (wd_sys start) (wd_sys w) \<and> ?Q z (wd_sys w))
    (\<lambda>w. sys_inv (wd_sys w) \<and> sys_later (wd_sys start) (wd_sys w))"
  proof (rule on_db_law [where I = ?I and Q = ?Q])
    show "?I s'" if "?I s" "sys_later s s'" for s s'
      using that claim_over_later [of s job s'] by (auto simp: sys_later_def)
    show "job_inv (snd (f r (sys_db s))) \<and> advances (jd_jobs (sys_db s)) (jd_jobs (snd (f r (sys_db s))))"
      if "sys_inv s" "?I s" for r s
      by (rule step) (use that in \<open>simp_all add: sys_inv_def list_all_iff\<close>)
    show "(\<forall>e \<in> set []. genuine (jd_jobs (snd (f r (sys_db s)))) e)
        \<and> ?Q z (s\<lparr>sys_db := snd (f r (sys_db s)), sys_issued := [] @ sys_issued s\<rparr>)"
      if "sys_inv s" "?I s" "fst (f r (sys_db s)) = Inr z" for r s z
      using post [OF that(3)] over [OF that(1) _ that(3)] that(2) by simp
  qed
  show ?thesis
    by (rule act_triple_weaken [OF t]) (use claim_over_later in blast)+
qed

section \<open>The SQL queue keeps the contract\<close>

interpretation worker_queue:
  durable_queue "sql_queue env" "\<lambda>w. sys_inv (wd_sys w)" "\<lambda>w w'. sys_later (wd_sys w) (wd_sys w')"
    "\<lambda>w job. job \<in> set (sys_issued (wd_sys w))" "\<lambda>w. job_finished (wd_sys w)" "\<lambda>w. claim_over (wd_sys w)"
  for env
proof
  fix s0 :: world and job :: job_envelope and w :: string and x :: seconds
  have db: "job_inv (sys_db s)" if "sys_inv s" for s using that by (simp add: sys_inv_def)
  have gen: "genuine (jd_jobs (sys_db s)) job" if "sys_inv s" "job \<in> set (sys_issued s)" for s
    using that by (simp add: sys_inv_def list_all_iff)
  let ?E = "\<lambda>w. sys_inv (wd_sys w) \<and> sys_later (wd_sys s0) (wd_sys w)"
  show "act_triple ?E (q_recover (sql_queue env)) (\<lambda>_. ?E) ?E"
    using on_db_law [where I = "\<lambda>_. True" and Q = "\<lambda>_ _. True" and new = "\<lambda>_. []" and start = s0 and env = env,
        of "\<lambda>r. recover_expired (rd_hook r) (rd_skip r) (rd_locked r) (rd_now r) (rd_txs r) 100"]
      recover_expired_inv [OF db] by (simp add: sql_queue_def)
  show "act_triple ?E (q_claim (sql_queue env) w x)
      (\<lambda>c w. sys_inv (wd_sys w) \<and> sys_later (wd_sys s0) (wd_sys w)
         \<and> (case c of None \<Rightarrow> True | Some job \<Rightarrow> job \<in> set (sys_issued (wd_sys w)))) ?E"
  proof -
    let ?c = "\<lambda>r s. claim_next (rd_skip r) (rd_locked r) (rd_now r) (rd_rnd r) (rd_attempt_id r) w x (sys_db s)"
    have c: "claim_good (sys_db s) (?c r s)" if "sys_inv s" for r s using claim_next_inv [OF db [OF that]] .
    have new: "genuine (jd_jobs (snd (?c r s))) e" if "sys_inv s" "fst (?c r s) = Inr (Some e)" for r s e
      using c [OF that(1), of r] that(2) by (simp add: claim_good_def)
    show ?thesis
      unfolding sql_queue_def queue_port.simps
      by (rule act_triple_weaken [OF on_db_law [where I = "\<lambda>_. True" and start = s0
            and Q = "\<lambda>c s. case c of None \<Rightarrow> True | Some job \<Rightarrow> job \<in> set (sys_issued s)"]])
        (use c new in \<open>auto simp: claim_good_def split: option.splits\<close>)
  qed
  show "act_triple (\<lambda>w. sys_inv (wd_sys w) \<and> sys_later (wd_sys s0) (wd_sys w) \<and> job \<in> set (sys_issued (wd_sys w)))
      (q_heartbeat (sql_queue env) job w x)
      (\<lambda>l w. sys_inv (wd_sys w) \<and> sys_later (wd_sys s0) (wd_sys w) \<and> (claim_over (wd_sys s0) job \<longrightarrow> \<not> ls_authoritative l)) ?E"
    unfolding sql_queue_def queue_port.simps
    by (rule act_triple_weaken [OF port_law [where good = ls_authoritative and Q = "\<lambda>_ _. True"]])
      (use heartbeat_inv heartbeat_over in auto)
  let ?law = "\<lambda>m Q. act_triple
      (\<lambda>w. sys_inv (wd_sys w) \<and> sys_later (wd_sys s0) (wd_sys w) \<and> job \<in> set (sys_issued (wd_sys w))) m
      (\<lambda>z w. sys_inv (wd_sys w) \<and> sys_later (wd_sys s0) (wd_sys w) \<and> (claim_over (wd_sys s0) job \<longrightarrow> \<not> fz_accepted z)
         \<and> Q z (wd_sys w)) ?E"
  show "?law (q_complete (sql_queue env) job w v) (\<lambda>z s. fz_accepted z \<longrightarrow>
        fz_status z = SUCCEEDED \<and> job_finished s (je_id job) SUCCEEDED v
      \<or> fz_status z = CANCELLED \<and> job_finished s (je_id job) CANCELLED PNone)" if "is_frozen v" for v
    unfolding sql_queue_def queue_port.simps
  proof (rule port_law)
    fix r :: readings and s :: job_sys
    show "job_inv (sys_db s) \<Longrightarrow> genuine (jd_jobs (sys_db s)) job \<Longrightarrow>
        job_inv (snd (complete (rd_hook r) (rd_now r) (rd_tx r) job w v (sys_db s)))
        \<and> advances (jd_jobs (sys_db s)) (jd_jobs (snd (complete (rd_hook r) (rd_now r) (rd_tx r) job w v (sys_db s))))"
      by (rule complete_inv)
    fix z assume z: "fst (complete (rd_hook r) (rd_now r) (rd_tx r) job w v (sys_db s)) = Inr z"
    have eq: "complete (rd_hook r) (rd_now r) (rd_tx r) job w v (sys_db s) =
        finalize_claim (rd_hook r) (rd_now r) (rd_tx r) job w SUCCEEDED (Some v) None 0 (sys_db s)"
      by (simp add: complete_def validated_again [OF that])
    then have f: "finalize_claim (rd_hook r) (rd_now r) (rd_tx r) job w SUCCEEDED (Some v) None 0 (sys_db s)
        = (Inr z, snd (complete (rd_hook r) (rd_now r) (rd_tx r) job w v (sys_db s)))" using z by (simp add: prod_eq_iff)
    show "fz_accepted z \<longrightarrow> fz_status z = SUCCEEDED
        \<and> job_finished (s\<lparr>sys_db := snd (complete (rd_hook r) (rd_now r) (rd_tx r) job w v (sys_db s)),
            sys_issued := sys_issued s\<rparr>) (je_id job) SUCCEEDED v
      \<or> fz_status z = CANCELLED
        \<and> job_finished (s\<lparr>sys_db := snd (complete (rd_hook r) (rd_now r) (rd_tx r) job w v (sys_db s)),
            sys_issued := sys_issued s\<rparr>) (je_id job) CANCELLED PNone"
      using finalize_accepted_finished [OF f, of "sys_issued s"] by (auto simp: terminal_def job_finished_def)
    show "sys_inv s \<Longrightarrow> claim_over s job \<Longrightarrow> \<not> fz_accepted z" using finalize_over [OF _ _ f] .
  qed
  show "?law (q_fail (sql_queue env) job w err retryable d) (\<lambda>z s. fz_accepted z \<longrightarrow> fz_status z = RETRY_WAIT
      \<or> fz_status z \<in> {FAILED, CANCELLED} \<and> job_finished s (je_id job) (fz_status z) PNone)" for err retryable d
    unfolding sql_queue_def queue_port.simps
  proof (rule port_law)
    fix r :: readings and s :: job_sys
    let ?f = "fail (rd_hook r) (rd_before r) (rd_now r) (rd_tx r) job w err retryable d (sys_db s)"
    show "job_inv (sys_db s) \<Longrightarrow> genuine (jd_jobs (sys_db s)) job \<Longrightarrow>
        job_inv (snd ?f) \<and> advances (jd_jobs (sys_db s)) (jd_jobs (snd ?f))" by (rule fail_inv)
    fix z assume z: "fst ?f = Inr z"
    from z obtain m where f: "finalize_claim (rd_hook r) (rd_now r) (rd_tx r) job w
        (if can_retry (rd_before r) job retryable then RETRY_WAIT else FAILED) None (Some m) d (sys_db s) = (Inr z, snd ?f)"
      by (auto simp: fail_def prod_eq_iff split: sum.splits split del: if_split)
    show "fz_accepted z \<longrightarrow> fz_status z = RETRY_WAIT \<or> fz_status z \<in> {FAILED, CANCELLED}
        \<and> job_finished (s\<lparr>sys_db := snd ?f, sys_issued := sys_issued s\<rparr>) (je_id job) (fz_status z) PNone"
      using finalize_accepted_finished [OF f, of "sys_issued s"]
      by (cases "can_retry (rd_before r) job retryable"; cases "fz_status z") (auto simp: terminal_def)
    show "sys_inv s \<Longrightarrow> claim_over s job \<Longrightarrow> \<not> fz_accepted z" using finalize_over [OF _ _ f] .
  qed
  show "?law (q_cancel_claim (sql_queue env) job w) (\<lambda>z s. if fz_accepted z
      then fz_status z = CANCELLED \<and> job_finished s (je_id job) CANCELLED PNone else fz_status z = RUNNING)"
    unfolding sql_queue_def queue_port.simps
  proof (rule port_law)
    fix r :: readings and s :: job_sys
    let ?f = "cancel_claim (rd_hook r) (rd_now r) (rd_tx r) job w (sys_db s)"
    show "job_inv (sys_db s) \<Longrightarrow> genuine (jd_jobs (sys_db s)) job \<Longrightarrow>
        job_inv (snd ?f) \<and> advances (jd_jobs (sys_db s)) (jd_jobs (snd ?f))" by (rule cancel_claim_inv)
    fix z assume z: "fst ?f = Inr z"
    then have f: "finalize_claim (rd_hook r) (rd_now r) (rd_tx r) job w CANCELLED None
        (Some ''cancellation requested'') 0 (sys_db s) = (Inr z, snd ?f)" by (simp add: cancel_claim_def prod_eq_iff)
    show "if fz_accepted z then fz_status z = CANCELLED
        \<and> job_finished (s\<lparr>sys_db := snd ?f, sys_issued := sys_issued s\<rparr>) (je_id job) CANCELLED PNone
      else fz_status z = RUNNING"
      using finalize_accepted_finished [OF f, of "sys_issued s"] finalize_rejected_status [OF f]
      by (auto simp: terminal_def)
    show "sys_inv s \<Longrightarrow> claim_over s job \<Longrightarrow> \<not> fz_accepted z" using finalize_over [OF _ _ f] .
  qed
qed (auto intro: advances_trans sys_later_trans job_finished_later claim_over_later simp: sys_later_def)

section \<open>The outbox publisher inside the worker\<close>

text \<open>Between two finalizations of the publisher other components use the outbox for their events.\<close>

fun run_foreign :: "outbox_op list \<Rightarrow> outbox_db \<Rightarrow> outbox_db" where
  "run_foreign [] ob = ob"
| "run_foreign (op # ops) ob = run_foreign ops (if foreign_op op then snd (outbox_act op ob) else ob)"

definition publish_step ::
  "publisher \<Rightarrow> (event_envelope \<Rightarrow> string option) \<Rightarrow> (outbox_row \<Rightarrow> exn option) \<Rightarrow> readings \<Rightarrow> job_db
     \<Rightarrow> (exn + nat) \<times> job_db" where
  "publish_step pb transport dead r db =
     (case publish_pending pb transport dead (rd_skip r) (rd_locked r) (rd_now r) (rd_token r) (rd_clock r)
             (\<lambda>i. run_foreign (rd_publishing r i)) (jd_outbox db) of
        (out, ob) \<Rightarrow> (map_sum id pr_published out, db\<lparr>jd_outbox := ob\<rparr>))"

definition sql_publisher ::
  "(nat \<Rightarrow> readings) \<Rightarrow> publisher \<Rightarrow> (event_envelope \<Rightarrow> string option) \<Rightarrow> (outbox_row \<Rightarrow> exn option)
     \<Rightarrow> (world, nat) act" where
  "sql_publisher env pb transport dead = on_db env (publish_step pb transport dead) (\<lambda>_. [])"

lemma run_foreign_events: "events_inv vs ob \<Longrightarrow> events_inv vs (run_foreign ops ob)"
  by (induction ops arbitrary: ob) (auto intro: events_inv_foreign)

lemma publish_step_inv:
  assumes "job_inv db"
  shows "job_inv (snd (publish_step pb transport dead r db))
       \<and> jd_jobs (snd (publish_step pb transport dead r db)) = jd_jobs db"
proof -
  let ?vs = "map status_view (jd_jobs db)"
  have ev: "events_inv ?vs (jd_outbox db)" using assms by (simp add: job_inv_def)
  have c: "events_inv ?vs (snd (claim_batch skip locked now w n x tok (jd_outbox db)))" for skip locked now w n x tok
    using events_inv_foreign [OF ev, of "Claim_Batch skip locked now w n x tok"] by (simp add: case_prod_beta)
  have "events_inv ?vs (snd (publish_pending pb transport dead skip locked now tok clock
      (\<lambda>i. run_foreign (o1 i)) (jd_outbox db)))" for skip locked now tok clock o1
    unfolding publish_pending_def case_prod_beta
  proof (rule publish_rows_keeps [where P = "events_inv ?vs"])
    show "events_inv ?vs (snd (claim_batch skip locked now (pb_worker_id pb) (pb_batch_size pb) (pb_lease_s pb) tok
        (jd_outbox db)))" by (rule c)
    show "events_inv ?vs (snd (mark_published t k tok d))" if "events_inv ?vs d" for t k tok d
      using events_inv_foreign [OF that, of "Mark_Published t k tok"] by simp
    show "events_inv ?vs (snd (mark_failed t (pb_max_attempts pb) (pb_backoff_s pb) k tok e d))"
      if "events_inv ?vs d" for t k tok e d
      using events_inv_foreign [OF that, of "Mark_Failed t (pb_max_attempts pb) (pb_backoff_s pb) k tok e"] by simp
  qed (rule run_foreign_events)
  then show ?thesis using assms by (simp add: publish_step_def case_prod_beta job_inv_def)
qed

definition sql_worker :: "(nat \<Rightarrow> readings) \<Rightarrow> world worker \<Rightarrow> bool" where
  "sql_worker env wk \<longleftrightarrow> wk_queue wk = sql_queue env
     \<and> (wk_publisher wk = None \<or> (\<exists>pb transport dead. wk_publisher wk = Some (sql_publisher env pb transport dead)))"

lemma sql_worker_publisher:
  assumes "sql_worker env wk"
  shows "publisher_keeps (\<lambda>w. sys_inv (wd_sys w)) (\<lambda>w w'. sys_later (wd_sys w) (wd_sys w')) wk"
proof -
  have "act_triple (\<lambda>w. sys_inv (wd_sys w) \<and> sys_later (wd_sys s0) (wd_sys w)) (sql_publisher env pb transport dead)
      (\<lambda>_ w. sys_inv (wd_sys w) \<and> sys_later (wd_sys s0) (wd_sys w))
      (\<lambda>w. sys_inv (wd_sys w) \<and> sys_later (wd_sys s0) (wd_sys w))" for pb transport dead and s0 :: world
    unfolding sql_publisher_def
    by (rule act_triple_weaken [OF on_db_law [where I = "\<lambda>_. True" and Q = "\<lambda>_ _. True"]])
      (use publish_step_inv in \<open>auto simp: sys_inv_def\<close>)
  with assms show ?thesis by (auto simp: sql_worker_def publisher_keeps_def keeps_def)
qed

section \<open>A worker on concrete tables\<close>

definition ex_reading :: "nat \<Rightarrow> readings" where
  "ex_reading i = \<lparr>rd_others = [], rd_hook = no_hook, rd_skip = False, rd_locked = [], rd_before = 10,
     rd_now = 10 + int i, rd_tx = ex_env, rd_txs = (\<lambda>_. ex_env), rd_rnd = (\<lambda>_. 7), rd_attempt_id = ''a1'',
     rd_token = ''t1'', rd_clock = (\<lambda>_. 20), rd_publishing = (\<lambda>_. [])\<rparr>"

definition ex_worker :: "world worker" where
  "ex_worker = \<lparr>wk_queue = sql_queue ex_reading,
     wk_handlers = [(''mail'', \<lambda>payload. \<lparr>hx_started = 0,
       hx_polls = [\<lparr>hp_stop = False, hp_loop = 5, hp_now = 12\<rparr>], hx_outcome = Returned (PInt 3)\<rparr>)],
     wk_worker_id = ''w'', wk_lease_s = 3, wk_heartbeat_interval_s = 1,
     wk_retry_policy = default_retry_policy, wk_publisher = None\<rparr>"

definition ex_tick :: tick_input where
  "ex_tick = \<lparr>ti_now = 11, ti_run_id = ''r'', ti_task_id = ''t''\<rparr>"

definition ex_world :: world where
  "ex_world = \<lparr>wd_sys = snd (run_ops job_act (take 1 ex_claimed) init_sys), wd_step = 0\<rparr>"

definition ex_finished_world :: world where
  "ex_finished_world = \<lparr>wd_sys = snd (run_ops job_act ex_run init_sys), wd_step = 0\<rparr>"

lemma ex_sql_worker: "sql_worker ex_reading ex_worker"
  by (simp add: sql_worker_def ex_worker_def)

lemma ex_world_inv: "sys_inv (wd_sys ex_world)" "sys_inv (wd_sys ex_finished_world)"
proof -
  have "legal job_valid job_act (take 1 ex_claimed @ drop 1 ex_claimed) init_sys"
    using ex_claimed_legal by (simp only: append_take_drop_id)
  then have "legal job_valid job_act (take 1 ex_claimed) init_sys" by (simp only: legal_append)
  then show "sys_inv (wd_sys ex_world)" using reachable_inv by (simp add: ex_world_def)
  show "sys_inv (wd_sys ex_finished_world)" using reachable_inv ex_run_legal by (simp add: ex_finished_world_def)
qed

lemma ex_tick_succeeds: "map_sum (\<lambda>_. ()) tr_status (fst (run_once ex_worker ex_tick ex_world)) = Inr TICK_SUCCEEDED"
  by code_simp

lemma ex_over:
  "claim_over (wd_sys ex_finished_world) ex_job \<and> list_ex (\<lambda>j. j = ex_job) (sys_issued (wd_sys ex_finished_world))"
  by code_simp

section \<open>Properties\<close>



text \<open>Once the claim of a job is over (finished, or taken over by a later attempt), the worker that still
  executes the handler reports stale: nothing it submits is accepted, wherever in the supervision loop the
  claim was lost.\<close>

theorem superseded_worker_reports_stale:
  assumes "sql_worker env wk" and "sys_inv (wd_sys w)" and "job \<in> set (sys_issued (wd_sys w))"
    and "claim_over (wd_sys w) job" and "supervise wk job started out polls w = (Inr r, w')"
  shows "tr_status r = TICK_STALE"
proof -
  have q: "wk_queue wk = sql_queue env" using assms(1) by (simp add: sql_worker_def)
  from act_tripleD [OF worker_queue.supervise_law [OF sql_worker_publisher [OF assms(1)] q, of w] _ assms(5)]
    assms(2-4) show ?thesis by (auto simp: told_def)
qed

theorem superseded_worker_reports_stale_witness:
  "\<exists>r w'. supervise ex_worker ex_job 0 (Returned (PInt 4)) [] ex_finished_world = (Inr r, w') \<and> tr_status r = TICK_STALE"
proof -
  have "isl (fst (supervise ex_worker ex_job 0 (Returned (PInt 4)) [] ex_finished_world)) = False" by code_simp
  then obtain r w' where r: "supervise ex_worker ex_job 0 (Returned (PInt 4)) [] ex_finished_world = (Inr r, w')"
    by (metis isl_def sum.exhaust_sel prod.collapse)
  have m: "ex_job \<in> set (sys_issued (wd_sys ex_finished_world))" using ex_over by (simp add: list_ex_iff)
  from superseded_worker_reports_stale [OF ex_sql_worker ex_world_inv(2) m _ r] r ex_over show ?thesis by blast
qed

text \<open>The worker loop keeps the invariant of jobs, attempts, events and outbox, in every interleaving with
  other processes and also when an operation raises.\<close>

theorem worker_run_consistent:
  assumes "sql_worker env wk" and "sys_inv (wd_sys w)"
  shows "sys_inv (wd_sys (snd (worker_run wk idle_s ts w))) \<and> sys_later (wd_sys w) (wd_sys (snd (worker_run wk idle_s ts w)))"
proof -
  have q: "wk_queue wk = sql_queue env" using assms(1) by (simp add: sql_worker_def)
  have k: "keeps (\<lambda>w. sys_inv (wd_sys w)) (\<lambda>w w'. sys_later (wd_sys w) (wd_sys w')) (worker_loop wk ts 0)"
    using worker_queue.worker_loop_law [OF sql_worker_publisher [OF assms(1)] q] .
  obtain out w' where o: "worker_loop wk ts 0 w = (out, w')" by fastforce
  from act_tripleD [OF k [unfolded keeps_def, rule_format, of w] _ o] assms(2)
  show ?thesis by (cases out) (auto simp: worker_run_def act_raise_def o)
qed

theorem worker_run_consistent_witness:
  "sys_inv (wd_sys (snd (worker_run ex_worker 1 [ex_tick, ex_tick] ex_world)))
   \<and> sys_later (wd_sys ex_world) (wd_sys (snd (worker_run ex_worker 1 [ex_tick, ex_tick] ex_world)))"
  by (rule worker_run_consistent [OF ex_sql_worker ex_world_inv(1)])

text \<open>The retry delay of attempts 1 to 1024 exists, doubles with the attempt until it reaches the maximum,
  and never leaves the range from the base delay to the maximum.\<close>

theorem retry_delay_bounds:
  assumes "make_retry_policy base m = Inr p" and "1 \<le> attempt" and "attempt \<le> 1024"
  shows "\<exists>d. delay_for p attempt = Inr d \<and> base \<le> d \<and> d \<le> m
     \<and> (d < m \<longrightarrow> d = base * 2 ^ nat (attempt - 1))
     \<and> (attempt < 1024 \<longrightarrow> delay_for p (attempt + 1) = Inr (min m (2 * d)))"
proof -
  from assms(1) have p: "p = \<lparr>rp_base_delay_s = base, rp_max_delay_s = m\<rparr>" "0 \<le> base" "base \<le> m"
    by (auto simp: make_retry_policy_def split: if_splits)
  let ?e = "base * 2 ^ nat (attempt - 1)"
  have "(1::rat) \<le> 2 ^ nat (attempt - 1)" by simp
  with p(2) have b: "base \<le> ?e" by (metis mult.right_neutral mult_left_mono)
  have n: "nat attempt = Suc (nat (attempt - 1))" using assms(2) by simp
  have "delay_for p attempt = Inr (min m ?e)" using assms(2,3) by (simp add: delay_for_def p(1))
  moreover have "delay_for p (attempt + 1) = Inr (min m (2 * min m ?e))" if "attempt < 1024"
  proof -
    have "delay_for p (attempt + 1) = Inr (min m (2 * ?e))"
      using that assms(2) n by (simp add: delay_for_def p(1) mult.left_commute)
    moreover have "min m (2 * ?e) = min m (2 * min m ?e)" using p(2,3) b by (auto simp: min_def)
    ultimately show ?thesis by simp
  qed
  ultimately show ?thesis using b p(2,3) by (auto simp: min_def)
qed

text \<open>From attempt 1025 on the delay is not computable: a worker that has to fail such an attempt raises
  before it reaches the queue, and the job stays running until its lease expires.\<close>

theorem late_failure_overflows:
  assumes "1025 \<le> je_attempt job"
  shows "worker_fail wk job err retryable w = (Inl OverflowError, w)"
  using assms by (simp add: worker_fail_def delay_for_def act_raise_def)

theorem late_failure_overflows_witness:
  "worker_fail ex_worker (ex_job\<lparr>je_attempt := 1025, je_max_attempts := 2000\<rparr>) ''boom'' True ex_world
     = (Inl OverflowError, ex_world)"
  by (rule late_failure_overflows) simp

theorem retry_delay_bounds_witness:
  "\<exists>d. delay_for \<lparr>rp_base_delay_s = 1, rp_max_delay_s = 60\<rparr> 7 = Inr d \<and> 1 \<le> d \<and> d \<le> 60
     \<and> (d < 60 \<longrightarrow> d = 1 * 2 ^ nat (7 - 1))
     \<and> (7 < (1024::int) \<longrightarrow> delay_for \<lparr>rp_base_delay_s = 1, rp_max_delay_s = 60\<rparr> (7 + 1) = Inr (min 60 (2 * d)))"
  by (rule retry_delay_bounds) (simp_all add: make_retry_policy_def)

end
