(* ===== verification/Agent_Lifecycles.thy ===== *)
theory Agent_Lifecycles
  imports Json_Values
begin

text \<open>
  The state machines of the agent runtime: \<^verbatim>\<open>modules/agent_runtime/domain/lifecycle.py\<close> (sessions,
  agent loops, tasks, workflows, steps), \<^verbatim>\<open>approvals.py\<close>, \<^verbatim>\<open>delegation.py\<close>, and the versioned
  aggregates of \<^verbatim>\<open>sessions.py\<close> and \<^verbatim>\<open>tasks.py\<close>. Each machine is an enum with its wire values, the
  table of moves and the checked transition. The locale \<open>lifecycle\<close> holds what follows from any
  checked transition, for arbitrary sequences of accepted and rejected requests.
\<close>

section \<open>Checked transitions in general\<close>

text \<open>A sequence of requests: a rejected one leaves the state alone.\<close>

fun pursue :: "('s \<Rightarrow> 's \<Rightarrow> exn + 's) \<Rightarrow> 's \<Rightarrow> 's list \<Rightarrow> 's" where
  "pursue chk s [] = s"
| "pursue chk s (t # ts) = pursue chk (case chk s t of Inl _ \<Rightarrow> s | Inr s' \<Rightarrow> s') ts"

locale lifecycle =
  fixes moves :: "'s \<Rightarrow> 's list"
    and chk :: "'s \<Rightarrow> 's \<Rightarrow> exn + 's"
  assumes accepts: "chk a b = Inr c \<longleftrightarrow> c = b \<and> (b = a \<or> b \<in> set (moves a))"
begin

lemma accepted_target: "chk a b = Inr c \<Longrightarrow> c = b"
  by (simp add: accepts)

lemma rejects: "(\<exists>e. chk a b = Inl e) \<longleftrightarrow> b \<noteq> a \<and> b \<notin> set (moves a)"
proof (cases "chk a b")
  case (Inl e)
  then have "\<not> (b = a \<or> b \<in> set (moves a))" using accepts [of a b b] by simp
  with Inl show ?thesis by simp
next
  case (Inr c)
  then show ?thesis using accepts [of a b c] by auto
qed

lemma pursue_path: "(s, pursue chk s ts) \<in> {(a, b). b \<in> set (moves a)}\<^sup>*"
proof (induction ts arbitrary: s)
  case (Cons t ts)
  show ?case
  proof (cases "chk s t")
    case (Inr s')
    then have "s' = t" "t = s \<or> t \<in> set (moves s)" using accepts by auto
    then have "(s, s') \<in> {(a, b). b \<in> set (moves a)}\<^sup>*" by auto
    with Cons.IH [of s'] Inr show ?thesis by simp
  qed (use Cons.IH in simp)
qed simp

text \<open>A set of states that no move leaves is left by no sequence of requests.\<close>

lemma pursue_closed:
  assumes "P s" and "\<And>a b. P a \<Longrightarrow> b \<in> set (moves a) \<Longrightarrow> P b" shows "P (pursue chk s ts)"
  using assms(1)
proof (induction ts arbitrary: s)
  case (Cons t ts)
  have "P s'" if "chk s t = Inr s'" for s'
    using that accepts [of s t s'] Cons.prems assms(2) [of s t] by auto
  with Cons show ?case by (auto split: sum.split)
qed simp

lemma dead_end: "moves s = [] \<Longrightarrow> pursue chk s ts = s"
  using pursue_closed [of "\<lambda>x. x = s" s] by simp

end

locale absorbing_lifecycle = lifecycle +
  fixes final :: "'s \<Rightarrow> bool"
  assumes final_moves: "final a \<Longrightarrow> moves a = []"
begin

lemma final_stays: "final s \<Longrightarrow> pursue chk s ts = s"
  using dead_end final_moves by blast

end

section \<open>SessionState\<close>

datatype session_state =
    SES_IDLE | SES_ACTIVE | SES_PAUSED | SES_COMPLETED | SES_FAILED | SES_CANCELLED | SES_ARCHIVED

fun session_value :: "session_state \<Rightarrow> string" where
  "session_value SES_IDLE = ''IDLE''"
| "session_value SES_ACTIVE = ''ACTIVE''"
| "session_value SES_PAUSED = ''PAUSED''"
| "session_value SES_COMPLETED = ''COMPLETED''"
| "session_value SES_FAILED = ''FAILED''"
| "session_value SES_CANCELLED = ''CANCELLED''"
| "session_value SES_ARCHIVED = ''ARCHIVED''"

definition session_states :: "session_state list" where
  "session_states = [
     SES_IDLE, SES_ACTIVE, SES_PAUSED, SES_COMPLETED, SES_FAILED, SES_CANCELLED, SES_ARCHIVED]"

definition session_parse :: "string \<Rightarrow> session_state option" where
  "session_parse t = find (\<lambda>s. session_value s = t) session_states"

definition session_terminal :: "session_state \<Rightarrow> bool" where
  "session_terminal s \<longleftrightarrow> s \<in> {SES_COMPLETED, SES_FAILED, SES_CANCELLED, SES_ARCHIVED}"

fun session_moves :: "session_state \<Rightarrow> session_state list" where
  "session_moves SES_IDLE = [SES_ACTIVE, SES_CANCELLED, SES_ARCHIVED]"
| "session_moves SES_ACTIVE = [SES_PAUSED, SES_COMPLETED, SES_FAILED, SES_CANCELLED, SES_ARCHIVED]"
| "session_moves SES_PAUSED = [SES_ACTIVE, SES_FAILED, SES_CANCELLED, SES_ARCHIVED]"
| "session_moves SES_COMPLETED = [SES_ARCHIVED]"
| "session_moves SES_FAILED = [SES_IDLE, SES_ARCHIVED]"
| "session_moves SES_CANCELLED = [SES_IDLE, SES_ARCHIVED]"
| "session_moves SES_ARCHIVED = []"

definition session_can :: "session_state \<Rightarrow> session_state \<Rightarrow> bool" where
  "session_can a b \<longleftrightarrow> a = b \<or> b \<in> set (session_moves a)"

definition session_transition :: "session_state \<Rightarrow> session_state \<Rightarrow> exn + session_state" where
  "session_transition a b = (if \<not> session_can a b then Inl (DomainErr ''AgentRuntimeInvalidTransitionError'') else Inr b)"

interpretation session: lifecycle session_moves session_transition
  by unfold_locales (auto simp: session_transition_def session_can_def)

section \<open>AgentLoopState\<close>

datatype loop_state =
    LOOP_CREATED | LOOP_READY | LOOP_RUNNING | LOOP_WAITING_TOOL | LOOP_WAITING_CHILD |
    LOOP_WAITING_SCHEDULE | LOOP_COMPACTING | LOOP_PAUSED | LOOP_COMPLETED | LOOP_FAILED |
    LOOP_CANCELLED | LOOP_ORPHANED

fun loop_value :: "loop_state \<Rightarrow> string" where
  "loop_value LOOP_CREATED = ''CREATED''"
| "loop_value LOOP_READY = ''READY''"
| "loop_value LOOP_RUNNING = ''RUNNING''"
| "loop_value LOOP_WAITING_TOOL = ''WAITING_TOOL''"
| "loop_value LOOP_WAITING_CHILD = ''WAITING_CHILD''"
| "loop_value LOOP_WAITING_SCHEDULE = ''WAITING_SCHEDULE''"
| "loop_value LOOP_COMPACTING = ''COMPACTING''"
| "loop_value LOOP_PAUSED = ''PAUSED''"
| "loop_value LOOP_COMPLETED = ''COMPLETED''"
| "loop_value LOOP_FAILED = ''FAILED''"
| "loop_value LOOP_CANCELLED = ''CANCELLED''"
| "loop_value LOOP_ORPHANED = ''ORPHANED''"

definition loop_states :: "loop_state list" where
  "loop_states = [
     LOOP_CREATED, LOOP_READY, LOOP_RUNNING, LOOP_WAITING_TOOL, LOOP_WAITING_CHILD,
     LOOP_WAITING_SCHEDULE, LOOP_COMPACTING, LOOP_PAUSED, LOOP_COMPLETED, LOOP_FAILED, LOOP_CANCELLED,
     LOOP_ORPHANED]"

definition loop_parse :: "string \<Rightarrow> loop_state option" where
  "loop_parse t = find (\<lambda>s. loop_value s = t) loop_states"

definition loop_terminal :: "loop_state \<Rightarrow> bool" where
  "loop_terminal s \<longleftrightarrow> s \<in> {LOOP_COMPLETED, LOOP_FAILED, LOOP_CANCELLED, LOOP_ORPHANED}"

fun loop_moves :: "loop_state \<Rightarrow> loop_state list" where
  "loop_moves LOOP_CREATED = [LOOP_READY, LOOP_FAILED, LOOP_CANCELLED]"
| "loop_moves LOOP_READY = [LOOP_RUNNING, LOOP_FAILED, LOOP_CANCELLED]"
| "loop_moves LOOP_RUNNING = [
     LOOP_WAITING_TOOL, LOOP_WAITING_CHILD, LOOP_WAITING_SCHEDULE, LOOP_COMPACTING, LOOP_PAUSED,
     LOOP_COMPLETED, LOOP_FAILED, LOOP_CANCELLED, LOOP_ORPHANED]"
| "loop_moves LOOP_WAITING_TOOL = [
     LOOP_RUNNING, LOOP_PAUSED, LOOP_COMPACTING, LOOP_COMPLETED, LOOP_FAILED, LOOP_CANCELLED,
     LOOP_ORPHANED]"
| "loop_moves LOOP_WAITING_CHILD = [
     LOOP_RUNNING, LOOP_PAUSED, LOOP_COMPACTING, LOOP_COMPLETED, LOOP_FAILED, LOOP_CANCELLED,
     LOOP_ORPHANED]"
| "loop_moves LOOP_WAITING_SCHEDULE = [
     LOOP_RUNNING, LOOP_PAUSED, LOOP_COMPACTING, LOOP_COMPLETED, LOOP_FAILED, LOOP_CANCELLED,
     LOOP_ORPHANED]"
| "loop_moves LOOP_COMPACTING = [LOOP_RUNNING, LOOP_PAUSED, LOOP_FAILED, LOOP_CANCELLED, LOOP_ORPHANED]"
| "loop_moves LOOP_PAUSED = [LOOP_RUNNING, LOOP_FAILED, LOOP_CANCELLED, LOOP_ORPHANED]"
| "loop_moves LOOP_COMPLETED = []"
| "loop_moves LOOP_FAILED = []"
| "loop_moves LOOP_CANCELLED = []"
| "loop_moves LOOP_ORPHANED = []"

definition loop_can :: "loop_state \<Rightarrow> loop_state \<Rightarrow> bool" where
  "loop_can a b \<longleftrightarrow> a = b \<or> b \<in> set (loop_moves a)"

definition loop_transition :: "loop_state \<Rightarrow> loop_state \<Rightarrow> exn + loop_state" where
  "loop_transition a b =
     (if a \<noteq> b \<and> \<not> loop_can a b then Inl (DomainErr ''AgentRuntimeInvalidTransitionError'')
      else if loop_terminal a \<and> a \<noteq> b then Inl (DomainErr ''AgentRuntimeInvalidTransitionError'')
      else Inr b)"

interpretation loop: absorbing_lifecycle loop_moves loop_transition loop_terminal
  by unfold_locales (auto simp: loop_transition_def loop_can_def loop_terminal_def)

section \<open>TaskState\<close>

datatype task_state =
    TASK_RECEIVED | TASK_CLASSIFYING | TASK_CONTEXT_BUILDING | TASK_PLANNING | TASK_READY |
    TASK_RUNNING | TASK_WAITING_PERMISSION | TASK_PAUSED | TASK_RETRY_WAIT | TASK_RECOVERING |
    TASK_VERIFYING | TASK_REVIEWING | TASK_COMPLETED | TASK_FAILED | TASK_CANCELLED

fun task_value :: "task_state \<Rightarrow> string" where
  "task_value TASK_RECEIVED = ''RECEIVED''"
| "task_value TASK_CLASSIFYING = ''CLASSIFYING''"
| "task_value TASK_CONTEXT_BUILDING = ''CONTEXT_BUILDING''"
| "task_value TASK_PLANNING = ''PLANNING''"
| "task_value TASK_READY = ''READY''"
| "task_value TASK_RUNNING = ''RUNNING''"
| "task_value TASK_WAITING_PERMISSION = ''WAITING_PERMISSION''"
| "task_value TASK_PAUSED = ''PAUSED''"
| "task_value TASK_RETRY_WAIT = ''RETRY_WAIT''"
| "task_value TASK_RECOVERING = ''RECOVERING''"
| "task_value TASK_VERIFYING = ''VERIFYING''"
| "task_value TASK_REVIEWING = ''REVIEWING''"
| "task_value TASK_COMPLETED = ''COMPLETED''"
| "task_value TASK_FAILED = ''FAILED''"
| "task_value TASK_CANCELLED = ''CANCELLED''"

definition task_states :: "task_state list" where
  "task_states = [
     TASK_RECEIVED, TASK_CLASSIFYING, TASK_CONTEXT_BUILDING, TASK_PLANNING, TASK_READY, TASK_RUNNING,
     TASK_WAITING_PERMISSION, TASK_PAUSED, TASK_RETRY_WAIT, TASK_RECOVERING, TASK_VERIFYING,
     TASK_REVIEWING, TASK_COMPLETED, TASK_FAILED, TASK_CANCELLED]"

definition task_parse :: "string \<Rightarrow> task_state option" where
  "task_parse t = find (\<lambda>s. task_value s = t) task_states"

definition task_terminal :: "task_state \<Rightarrow> bool" where
  "task_terminal s \<longleftrightarrow> s \<in> {TASK_COMPLETED, TASK_FAILED, TASK_CANCELLED}"

fun task_moves :: "task_state \<Rightarrow> task_state list" where
  "task_moves TASK_RECEIVED = [
     TASK_CLASSIFYING, TASK_CONTEXT_BUILDING, TASK_PLANNING, TASK_READY, TASK_RUNNING, TASK_FAILED,
     TASK_CANCELLED]"
| "task_moves TASK_CLASSIFYING = [TASK_CONTEXT_BUILDING, TASK_FAILED, TASK_CANCELLED]"
| "task_moves TASK_CONTEXT_BUILDING = [TASK_PLANNING, TASK_FAILED, TASK_CANCELLED]"
| "task_moves TASK_PLANNING = [TASK_READY, TASK_RUNNING, TASK_FAILED, TASK_CANCELLED]"
| "task_moves TASK_READY = [TASK_RUNNING, TASK_PAUSED, TASK_CANCELLED]"
| "task_moves TASK_RUNNING = [
     TASK_WAITING_PERMISSION, TASK_PAUSED, TASK_RETRY_WAIT, TASK_RECOVERING, TASK_VERIFYING,
     TASK_REVIEWING, TASK_COMPLETED, TASK_FAILED, TASK_CANCELLED]"
| "task_moves TASK_WAITING_PERMISSION = [TASK_RUNNING, TASK_PAUSED, TASK_CANCELLED, TASK_FAILED]"
| "task_moves TASK_PAUSED = [TASK_RUNNING, TASK_CANCELLED]"
| "task_moves TASK_RETRY_WAIT = [TASK_RUNNING, TASK_CANCELLED, TASK_FAILED]"
| "task_moves TASK_RECOVERING = [TASK_RUNNING, TASK_FAILED, TASK_CANCELLED]"
| "task_moves TASK_VERIFYING = [TASK_REVIEWING, TASK_COMPLETED, TASK_FAILED, TASK_CANCELLED]"
| "task_moves TASK_REVIEWING = [TASK_COMPLETED, TASK_FAILED, TASK_CANCELLED]"
| "task_moves TASK_COMPLETED = []"
| "task_moves TASK_FAILED = [TASK_RETRY_WAIT]"
| "task_moves TASK_CANCELLED = []"

definition task_can :: "task_state \<Rightarrow> task_state \<Rightarrow> bool" where
  "task_can a b \<longleftrightarrow> a = b \<or> b \<in> set (task_moves a)"

definition task_transition :: "task_state \<Rightarrow> task_state \<Rightarrow> exn + task_state" where
  "task_transition a b =
     (if \<not> task_can a b then Inl (DomainErr ''AgentRuntimeInvalidTransitionError'')
      else if task_terminal a \<and> a \<noteq> b \<and> \<not> (a = TASK_FAILED \<and> b = TASK_RETRY_WAIT)
      then Inl (DomainErr ''AgentRuntimeInvalidTransitionError'')
      else Inr b)"

interpretation task: lifecycle task_moves task_transition
  by unfold_locales (auto simp: task_transition_def task_can_def task_terminal_def)

section \<open>WorkflowState\<close>

datatype workflow_state =
    WF_DRAFT | WF_PENDING | WF_READY | WF_RUNNING | WF_PAUSED | WF_COMPLETED | WF_FAILED | WF_CANCELLED

fun workflow_value :: "workflow_state \<Rightarrow> string" where
  "workflow_value WF_DRAFT = ''DRAFT''"
| "workflow_value WF_PENDING = ''PENDING''"
| "workflow_value WF_READY = ''READY''"
| "workflow_value WF_RUNNING = ''RUNNING''"
| "workflow_value WF_PAUSED = ''PAUSED''"
| "workflow_value WF_COMPLETED = ''COMPLETED''"
| "workflow_value WF_FAILED = ''FAILED''"
| "workflow_value WF_CANCELLED = ''CANCELLED''"

definition workflow_states :: "workflow_state list" where
  "workflow_states = [
     WF_DRAFT, WF_PENDING, WF_READY, WF_RUNNING, WF_PAUSED, WF_COMPLETED, WF_FAILED, WF_CANCELLED]"

definition workflow_parse :: "string \<Rightarrow> workflow_state option" where
  "workflow_parse t = find (\<lambda>s. workflow_value s = t) workflow_states"

definition workflow_terminal :: "workflow_state \<Rightarrow> bool" where
  "workflow_terminal s \<longleftrightarrow> s \<in> {WF_COMPLETED, WF_FAILED, WF_CANCELLED}"

fun workflow_moves :: "workflow_state \<Rightarrow> workflow_state list" where
  "workflow_moves WF_DRAFT = [WF_READY, WF_CANCELLED]"
| "workflow_moves WF_PENDING = [WF_READY, WF_RUNNING, WF_PAUSED, WF_FAILED, WF_CANCELLED]"
| "workflow_moves WF_READY = [WF_RUNNING, WF_PAUSED, WF_CANCELLED]"
| "workflow_moves WF_RUNNING = [WF_PAUSED, WF_COMPLETED, WF_FAILED, WF_CANCELLED]"
| "workflow_moves WF_PAUSED = [WF_RUNNING, WF_CANCELLED]"
| "workflow_moves WF_COMPLETED = []"
| "workflow_moves WF_FAILED = []"
| "workflow_moves WF_CANCELLED = []"

definition workflow_can :: "workflow_state \<Rightarrow> workflow_state \<Rightarrow> bool" where
  "workflow_can a b \<longleftrightarrow> a = b \<or> b \<in> set (workflow_moves a)"

definition workflow_transition :: "workflow_state \<Rightarrow> workflow_state \<Rightarrow> exn + workflow_state" where
  "workflow_transition a b =
     (if \<not> workflow_can a b then Inl (DomainErr ''AgentRuntimeInvalidTransitionError'')
      else if workflow_terminal a \<and> a \<noteq> b then Inl (DomainErr ''AgentRuntimeInvalidTransitionError'')
      else Inr b)"

interpretation workflow: absorbing_lifecycle workflow_moves workflow_transition workflow_terminal
  by unfold_locales (auto simp: workflow_transition_def workflow_can_def workflow_terminal_def)

section \<open>StepState\<close>

datatype step_state =
    STEP_BLOCKED | STEP_PENDING | STEP_READY | STEP_CLAIMED | STEP_DISPATCHED | STEP_RUNNING |
    STEP_WAITING_PERMISSION | STEP_RETRY_WAIT | STEP_COMPLETED | STEP_FAILED | STEP_SKIPPED |
    STEP_CANCELLED

fun step_value :: "step_state \<Rightarrow> string" where
  "step_value STEP_BLOCKED = ''BLOCKED''"
| "step_value STEP_PENDING = ''PENDING''"
| "step_value STEP_READY = ''READY''"
| "step_value STEP_CLAIMED = ''CLAIMED''"
| "step_value STEP_DISPATCHED = ''DISPATCHED''"
| "step_value STEP_RUNNING = ''RUNNING''"
| "step_value STEP_WAITING_PERMISSION = ''WAITING_PERMISSION''"
| "step_value STEP_RETRY_WAIT = ''RETRY_WAIT''"
| "step_value STEP_COMPLETED = ''COMPLETED''"
| "step_value STEP_FAILED = ''FAILED''"
| "step_value STEP_SKIPPED = ''SKIPPED''"
| "step_value STEP_CANCELLED = ''CANCELLED''"

definition step_states :: "step_state list" where
  "step_states = [
     STEP_BLOCKED, STEP_PENDING, STEP_READY, STEP_CLAIMED, STEP_DISPATCHED, STEP_RUNNING,
     STEP_WAITING_PERMISSION, STEP_RETRY_WAIT, STEP_COMPLETED, STEP_FAILED, STEP_SKIPPED, STEP_CANCELLED]"

definition step_parse :: "string \<Rightarrow> step_state option" where
  "step_parse t = find (\<lambda>s. step_value s = t) step_states"

definition step_terminal :: "step_state \<Rightarrow> bool" where
  "step_terminal s \<longleftrightarrow> s \<in> {STEP_COMPLETED, STEP_FAILED, STEP_SKIPPED, STEP_CANCELLED}"

fun step_moves :: "step_state \<Rightarrow> step_state list" where
  "step_moves STEP_BLOCKED = [STEP_PENDING, STEP_SKIPPED, STEP_CANCELLED]"
| "step_moves STEP_PENDING = [STEP_READY, STEP_BLOCKED, STEP_CANCELLED]"
| "step_moves STEP_READY = [STEP_CLAIMED, STEP_CANCELLED]"
| "step_moves STEP_CLAIMED = [STEP_DISPATCHED, STEP_CANCELLED]"
| "step_moves STEP_DISPATCHED = [STEP_RUNNING, STEP_CANCELLED]"
| "step_moves STEP_RUNNING = [
     STEP_WAITING_PERMISSION, STEP_RETRY_WAIT, STEP_COMPLETED, STEP_FAILED, STEP_CANCELLED]"
| "step_moves STEP_WAITING_PERMISSION = [STEP_RUNNING, STEP_CANCELLED, STEP_FAILED]"
| "step_moves STEP_RETRY_WAIT = [STEP_RUNNING, STEP_FAILED, STEP_CANCELLED]"
| "step_moves STEP_COMPLETED = []"
| "step_moves STEP_FAILED = [STEP_RETRY_WAIT]"
| "step_moves STEP_SKIPPED = []"
| "step_moves STEP_CANCELLED = []"

definition step_can :: "step_state \<Rightarrow> step_state \<Rightarrow> bool" where
  "step_can a b \<longleftrightarrow> a = b \<or> b \<in> set (step_moves a)"

text \<open>
  The table lets a failed step wait for a retry, the terminal check of the transition does not:
  the moves that count are those of the states that are not terminal.
\<close>

definition step_transition :: "step_state \<Rightarrow> step_state \<Rightarrow> exn + step_state" where
  "step_transition a b =
     (if \<not> step_can a b then Inl (DomainErr ''AgentRuntimeInvalidTransitionError'')
      else if step_terminal a \<and> a \<noteq> b then Inl (DomainErr ''AgentRuntimeInvalidTransitionError'')
      else Inr b)"

definition step_effective_moves :: "step_state \<Rightarrow> step_state list" where
  "step_effective_moves a = (if step_terminal a then [] else step_moves a)"

interpretation step: absorbing_lifecycle step_effective_moves step_transition step_terminal
  by unfold_locales (auto simp: step_transition_def step_can_def step_effective_moves_def step_terminal_def)

section \<open>ApprovalState\<close>

datatype approval_state =
    APR_PENDING | APR_APPROVED | APR_DENIED | APR_EXPIRED

fun approval_value :: "approval_state \<Rightarrow> string" where
  "approval_value APR_PENDING = ''PENDING''"
| "approval_value APR_APPROVED = ''APPROVED''"
| "approval_value APR_DENIED = ''DENIED''"
| "approval_value APR_EXPIRED = ''EXPIRED''"

definition approval_states :: "approval_state list" where
  "approval_states = [
     APR_PENDING, APR_APPROVED, APR_DENIED, APR_EXPIRED]"

definition approval_parse :: "string \<Rightarrow> approval_state option" where
  "approval_parse t = find (\<lambda>s. approval_value s = t) approval_states"

definition approval_terminal :: "approval_state \<Rightarrow> bool" where
  "approval_terminal s \<longleftrightarrow> s \<in> {APR_APPROVED, APR_DENIED, APR_EXPIRED}"

fun approval_moves :: "approval_state \<Rightarrow> approval_state list" where
  "approval_moves APR_PENDING = [APR_APPROVED, APR_DENIED, APR_EXPIRED]"
| "approval_moves APR_APPROVED = []"
| "approval_moves APR_DENIED = []"
| "approval_moves APR_EXPIRED = []"

definition approval_transition :: "approval_state \<Rightarrow> approval_state \<Rightarrow> exn + approval_state" where
  "approval_transition a b =
     (if approval_terminal a \<and> b \<noteq> a then Inl (DomainErr ''AgentRuntimeInvalidTransitionError'')
      else if b \<noteq> a \<and> b \<notin> set (approval_moves a) then Inl (DomainErr ''AgentRuntimeInvalidTransitionError'')
      else Inr b)"

interpretation approval: absorbing_lifecycle approval_moves approval_transition approval_terminal
  by unfold_locales (auto simp: approval_transition_def approval_terminal_def)

record approval_record =
  apr_state :: approval_state
  apr_resolution :: "(string \<times> pyobj) list"
  apr_resolved_at :: "time option"

definition dict_set :: "'k \<Rightarrow> 'v \<Rightarrow> ('k \<times> 'v) list \<Rightarrow> ('k \<times> 'v) list" where
  "dict_set k v d =
     (if k \<in> fst ` set d then map (\<lambda>(x, y). (x, if x = k then v else y)) d else d @ [(k, v)])"

text \<open>\<^verbatim>\<open>ApprovalRecord.transition_to\<close>.\<close>

definition approval_transition_to ::
  "time \<Rightarrow> approval_state \<Rightarrow> (string \<times> pyobj) list option \<Rightarrow> string option \<Rightarrow> approval_record
     \<Rightarrow> exn + approval_record" where
  "approval_transition_to now target resolution reason r =
     (case approval_transition (apr_state r) target of Inl e \<Rightarrow> Inl e
      | Inr _ \<Rightarrow>
          let r1 = r\<lparr>apr_state := target\<rparr>
          in Inr (if \<not> approval_terminal target then r1
                  else (let r2 = r1\<lparr>apr_resolved_at := Some now\<rparr>;
                            r3 = (case resolution of None \<Rightarrow> r2 | Some d \<Rightarrow> r2\<lparr>apr_resolution := d\<rparr>)
                        in case reason of None \<Rightarrow> r3
                           | Some m \<Rightarrow> r3\<lparr>apr_resolution := dict_set ''reason'' (PStr m) (apr_resolution r)\<rparr>)))"

text \<open>A reason discards the resolution that was passed along with it.\<close>

lemma approval_reason_drops_resolution:
  "approval_transition_to now APR_APPROVED (Some d) (Some m) \<lparr>apr_state = APR_PENDING, apr_resolution = [], apr_resolved_at = None\<rparr>
     = Inr \<lparr>apr_state = APR_APPROVED, apr_resolution = [(''reason'', PStr m)], apr_resolved_at = Some now\<rparr>"
  by (simp add: approval_transition_to_def approval_transition_def approval_terminal_def dict_set_def)

section \<open>DelegationStatus\<close>

datatype delegation_status =
    DEL_PENDING | DEL_RUNNING | DEL_COMPLETED | DEL_FAILED | DEL_CANCELLED

fun delegation_value :: "delegation_status \<Rightarrow> string" where
  "delegation_value DEL_PENDING = ''PENDING''"
| "delegation_value DEL_RUNNING = ''RUNNING''"
| "delegation_value DEL_COMPLETED = ''COMPLETED''"
| "delegation_value DEL_FAILED = ''FAILED''"
| "delegation_value DEL_CANCELLED = ''CANCELLED''"

definition delegation_states :: "delegation_status list" where
  "delegation_states = [
     DEL_PENDING, DEL_RUNNING, DEL_COMPLETED, DEL_FAILED, DEL_CANCELLED]"

definition delegation_parse :: "string \<Rightarrow> delegation_status option" where
  "delegation_parse t = find (\<lambda>s. delegation_value s = t) delegation_states"

definition delegation_terminal :: "delegation_status \<Rightarrow> bool" where
  "delegation_terminal s \<longleftrightarrow> s \<in> {DEL_COMPLETED, DEL_FAILED, DEL_CANCELLED}"

fun delegation_moves :: "delegation_status \<Rightarrow> delegation_status list" where
  "delegation_moves DEL_PENDING = [DEL_RUNNING, DEL_CANCELLED]"
| "delegation_moves DEL_RUNNING = [DEL_COMPLETED, DEL_FAILED, DEL_CANCELLED]"
| "delegation_moves DEL_COMPLETED = []"
| "delegation_moves DEL_FAILED = []"
| "delegation_moves DEL_CANCELLED = []"

definition delegation_transition :: "delegation_status \<Rightarrow> delegation_status \<Rightarrow> exn + delegation_status" where
  "delegation_transition a b =
     (if b \<noteq> a \<and> b \<notin> set (delegation_moves a) then Inl (DomainErr ''AgentRuntimeDelegationError'')
      else if delegation_terminal a \<and> b \<noteq> a then Inl (DomainErr ''AgentRuntimeDelegationError'')
      else Inr b)"

interpretation delegation: absorbing_lifecycle delegation_moves delegation_transition delegation_terminal
  by unfold_locales (auto simp: delegation_transition_def delegation_terminal_def)

record delegation_record =
  dr_id :: string
  dr_parent :: string
  dr_child :: string
  dr_status :: delegation_status
  dr_completed :: "time option"

text \<open>
  The validators of \<^verbatim>\<open>DelegationRecord\<close>: blank text raises at once, parent and child must differ, and
  empty text fails the length check of the field.
\<close>

definition make_delegation :: "delegation_record \<Rightarrow> exn + delegation_record" where
  "make_delegation r =
     (let blank = (\<lambda>v. v \<noteq> [] \<and> py_strip v = []);
          r' = r\<lparr>dr_id := py_strip (dr_id r), dr_parent := py_strip (dr_parent r), dr_child := py_strip (dr_child r)\<rparr>
      in if blank (dr_id r) \<or> blank (dr_parent r) \<or> blank (dr_child r)
         then Inl (DomainErr ''AgentRuntimeValidationError'')
         else if dr_parent r' \<noteq> [] \<and> dr_child r' = dr_parent r' then Inl (DomainErr ''AgentRuntimeDelegationError'')
         else if dr_id r = [] \<or> dr_parent r = [] \<or> dr_child r = [] then Inl (ValueError ''DelegationRecord'')
         else Inr r')"

definition delegation_transition_to :: "time \<Rightarrow> delegation_status \<Rightarrow> delegation_record \<Rightarrow> exn + delegation_record" where
  "delegation_transition_to now target r =
     (case delegation_transition (dr_status r) target of Inl e \<Rightarrow> Inl e
      | Inr _ \<Rightarrow> Inr (if delegation_terminal target then r\<lparr>dr_status := target, dr_completed := Some now\<rparr>
                    else r\<lparr>dr_status := target\<rparr>))"

section \<open>Versioned aggregates\<close>

text \<open>
  \<^verbatim>\<open>AgentTask\<close> and \<^verbatim>\<open>AgentSession\<close>, reduced to the fields their methods read and write.
\<close>

record agent_task =
  agt_state :: task_state
  agt_attempt :: int
  agt_error :: "string option"
  agt_updated_at :: time
  agt_completed_at :: "time option"
  agt_version :: int

definition task_transition_to :: "time \<Rightarrow> time \<Rightarrow> task_state \<Rightarrow> int option \<Rightarrow> agent_task \<Rightarrow> exn + agent_task" where
  "task_transition_to now done_at target expected t =
     (if expected \<noteq> None \<and> expected \<noteq> Some (agt_version t)
      then Inl (DomainErr ''AgentRuntimeStaleVersionError'')
      else case task_transition (agt_state t) target of Inl e \<Rightarrow> Inl e
      | Inr s \<Rightarrow>
          if s = agt_state t then Inr t
          else (let t' = t\<lparr>agt_state := s, agt_updated_at := now, agt_version := agt_version t + 1\<rparr>
                in Inr (if s \<in> {TASK_COMPLETED, TASK_FAILED, TASK_CANCELLED}
                        then t'\<lparr>agt_completed_at := Some done_at\<rparr> else t')))"

definition record_attempt :: "time \<Rightarrow> string option \<Rightarrow> agent_task \<Rightarrow> agent_task" where
  "record_attempt now err t = t\<lparr>agt_attempt := agt_attempt t + 1, agt_error := err, agt_updated_at := now,
     agt_version := agt_version t + 1\<rparr>"

record agent_session =
  ags_state :: session_state
  ags_updated_at :: time
  ags_version :: int

definition session_transition_to ::
  "time \<Rightarrow> session_state \<Rightarrow> int option \<Rightarrow> agent_session \<Rightarrow> exn + agent_session" where
  "session_transition_to now target expected t =
     (if expected \<noteq> None \<and> expected \<noteq> Some (ags_version t)
      then Inl (DomainErr ''AgentRuntimeStaleVersionError'')
      else case session_transition (ags_state t) target of Inl e \<Rightarrow> Inl e
      | Inr s \<Rightarrow>
          if s = ags_state t then Inr t
          else Inr (t\<lparr>ags_state := s, ags_updated_at := now, ags_version := ags_version t + 1\<rparr>))"

section \<open>Properties\<close>

lemma parse_value [simp]:
  "session_parse (session_value s1) = Some s1" "loop_parse (loop_value s2) = Some s2"
  "task_parse (task_value s3) = Some s3" "workflow_parse (workflow_value s4) = Some s4"
  "step_parse (step_value s5) = Some s5" "approval_parse (approval_value s6) = Some s6"
  "delegation_parse (delegation_value s7) = Some s7"
       apply (cases s1; simp add: session_parse_def session_states_def)
      apply (cases s2; simp add: loop_parse_def loop_states_def)
     apply (cases s3; simp add: task_parse_def task_states_def)
    apply (cases s4; simp add: workflow_parse_def workflow_states_def)
   apply (cases s5; simp add: step_parse_def step_states_def)
  apply (cases s6; simp add: approval_parse_def approval_states_def)
  by (cases s7; simp add: delegation_parse_def delegation_states_def)

text \<open>No sequence of transition requests, accepted or rejected, takes an agent loop, a workflow, a workflow step,
  an approval or a delegation out of a terminal state, a session out of the archive, or a task out of
  completed or cancelled; a failed task stays failed until a retry is requested.\<close>

theorem terminal_states_absorb:
  "(loop_terminal l \<longrightarrow> pursue loop_transition l ls = l) \<and>
   (workflow_terminal w \<longrightarrow> pursue workflow_transition w ws = w) \<and>
   (step_terminal p \<longrightarrow> pursue step_transition p ps = p) \<and>
   (approval_terminal a \<longrightarrow> pursue approval_transition a as = a) \<and>
   (delegation_terminal d \<longrightarrow> pursue delegation_transition d ds = d) \<and>
   pursue session_transition SES_ARCHIVED ss = SES_ARCHIVED \<and>
   (t \<in> {TASK_COMPLETED, TASK_CANCELLED} \<longrightarrow> pursue task_transition t ts = t) \<and>
   (TASK_RETRY_WAIT \<notin> set ts \<longrightarrow> pursue task_transition TASK_FAILED ts = TASK_FAILED)"
proof -
  have "TASK_RETRY_WAIT \<notin> set ts \<Longrightarrow> pursue task_transition TASK_FAILED ts = TASK_FAILED"
    by (induction ts) (auto simp: task_transition_def task_can_def)
  then show ?thesis
    by (auto simp: loop.final_stays workflow.final_stays step.final_stays approval.final_stays
        delegation.final_stays session.dead_end task.dead_end)
qed

text \<open>A failed task is retried, a completed run stays completed whatever is requested next.\<close>

lemma terminal_states_absorb_witness:
  "loop_terminal LOOP_COMPLETED \<and> pursue loop_transition LOOP_COMPLETED [LOOP_RUNNING, LOOP_FAILED] = LOOP_COMPLETED \<and>
   pursue task_transition TASK_FAILED [TASK_RUNNING] = TASK_FAILED \<and>
   pursue task_transition TASK_FAILED [TASK_RUNNING, TASK_RETRY_WAIT, TASK_RUNNING] = TASK_RUNNING"
  using terminal_states_absorb [of LOOP_COMPLETED "[LOOP_RUNNING, LOOP_FAILED]" WF_FAILED "[]" STEP_FAILED "[]" APR_DENIED
      "[]" DEL_FAILED "[]" "[]" TASK_COMPLETED "[TASK_RUNNING]"]
  by (simp add: loop_terminal_def task_transition_def task_can_def task_terminal_def)

text \<open>Whatever is under way can be called off: from every state that is not terminal, a run, a task, a workflow, a step and a
  delegation accept cancellation directly, and a session too unless it is already archived or over.\<close>

theorem always_cancellable:
  "(\<not> loop_terminal l \<longrightarrow> loop_transition l LOOP_CANCELLED = Inr LOOP_CANCELLED) \<and>
   (\<not> task_terminal t \<longrightarrow> task_transition t TASK_CANCELLED = Inr TASK_CANCELLED) \<and>
   (\<not> workflow_terminal w \<longrightarrow> workflow_transition w WF_CANCELLED = Inr WF_CANCELLED) \<and>
   (\<not> step_terminal p \<longrightarrow> step_transition p STEP_CANCELLED = Inr STEP_CANCELLED) \<and>
   (\<not> delegation_terminal d \<longrightarrow> delegation_transition d DEL_CANCELLED = Inr DEL_CANCELLED) \<and>
   (\<not> session_terminal s \<longrightarrow> session_transition s SES_CANCELLED = Inr SES_CANCELLED)"
proof (intro conjI impI)
  show "loop_transition l LOOP_CANCELLED = Inr LOOP_CANCELLED" if "\<not> loop_terminal l"
    using that by (cases l) (simp_all add: loop.accepts loop_terminal_def)
  show "task_transition t TASK_CANCELLED = Inr TASK_CANCELLED" if "\<not> task_terminal t"
    using that by (cases t) (simp_all add: task.accepts task_terminal_def)
  show "workflow_transition w WF_CANCELLED = Inr WF_CANCELLED" if "\<not> workflow_terminal w"
    using that by (cases w) (simp_all add: workflow.accepts workflow_terminal_def)
  show "step_transition p STEP_CANCELLED = Inr STEP_CANCELLED" if "\<not> step_terminal p"
    using that by (cases p) (simp_all add: step.accepts step_terminal_def step_effective_moves_def)
  show "delegation_transition d DEL_CANCELLED = Inr DEL_CANCELLED" if "\<not> delegation_terminal d"
    using that by (cases d) (simp_all add: delegation.accepts delegation_terminal_def)
  show "session_transition s SES_CANCELLED = Inr SES_CANCELLED" if "\<not> session_terminal s"
    using that by (cases s) (simp_all add: session.accepts session_terminal_def)
qed

lemma always_cancellable_witness:
  "\<not> loop_terminal LOOP_WAITING_TOOL \<and> loop_transition LOOP_WAITING_TOOL LOOP_CANCELLED = Inr LOOP_CANCELLED"
  using always_cancellable [of LOOP_WAITING_TOOL TASK_READY WF_DRAFT STEP_READY DEL_PENDING SES_IDLE]
  by (simp add: loop_terminal_def)

end
