(* ===== verification/Agent_Policies.thy ===== *)
theory Agent_Policies
  imports Agent_Lifecycles "HOL-Library.Multiset"
begin

text \<open>
  The pure policies of the agent runtime: budget limits and their inheritance
  (\<^verbatim>\<open>domain/budget.py\<close>), the retry classifier with its backoff (\<^verbatim>\<open>domain/retry.py\<close>), the recovery
  decisions and the check of checkpoint sequences (\<^verbatim>\<open>domain/recovery.py\<close>). Floats are rationals
  whose overflow is explicit where the code can reach it; the digest of \<^verbatim>\<open>hashlib\<close> behind the jitter is a
  parameter.
\<close>

section \<open>Budgets\<close>

record budget_limits =
  bl_turns :: "int option"
  bl_wall_time_seconds :: "int option"
  bl_tokens :: "int option"
  bl_cost_usd :: "rat option"
  bl_model_failures :: "int option"
  bl_tool_failures :: "int option"
  bl_retries :: "int option"
  bl_child_agents :: "int option"
  bl_recursion_depth :: "int option"

record budget_usage =
  bu_turns :: int
  bu_wall_time_seconds :: int
  bu_tokens :: int
  bu_cost_usd :: rat
  bu_model_failures :: int
  bu_tool_failures :: int
  bu_retries :: int
  bu_child_agents :: int
  bu_recursion_depth :: int

definition no_limits :: budget_limits where
  "no_limits = \<lparr>bl_turns = None, bl_wall_time_seconds = None, bl_tokens = None, bl_cost_usd = None,
     bl_model_failures = None, bl_tool_failures = None, bl_retries = None, bl_child_agents = None,
     bl_recursion_depth = None\<rparr>"

definition no_usage :: budget_usage where
  "no_usage = \<lparr>bu_turns = 0, bu_wall_time_seconds = 0, bu_tokens = 0, bu_cost_usd = 0, bu_model_failures = 0,
     bu_tool_failures = 0, bu_retries = 0, bu_child_agents = 0, bu_recursion_depth = 0\<rparr>"

definition limit_fields :: "string list" where
  "limit_fields = [''max_turns'', ''max_wall_time_seconds'', ''max_tokens'', ''max_cost_usd'', ''max_model_failures'',
     ''max_tool_failures'', ''max_retries'', ''max_child_agents'', ''max_recursion_depth'']"

text \<open>
  \<^verbatim>\<open>clamp_limits\<close>; \<open>parse\<close> is the constructor of the pydantic model \<^verbatim>\<open>AgentBudgetLimits\<close>, which
  coerces and checks the values of the fields.
\<close>

datatype limits_arg = Limits_Object budget_limits | Limits_Dict "(string \<times> pyobj) list" | Limits_None

definition clamp_limits :: "((string \<times> pyobj) list \<Rightarrow> exn + budget_limits) \<Rightarrow> limits_arg \<Rightarrow> exn + budget_limits" where
  "clamp_limits parse a =
     (case a of Limits_Object l \<Rightarrow> Inr l
      | Limits_Dict d \<Rightarrow> parse (filter (\<lambda>(k, v). k \<in> set limit_fields) d)
      | Limits_None \<Rightarrow> Inr no_limits)"

definition reached :: "'a::linorder option \<Rightarrow> 'a \<Rightarrow> bool" where
  "reached limit used \<longleftrightarrow> (case limit of None \<Rightarrow> False | Some m \<Rightarrow> m \<le> used)"

text \<open>\<^verbatim>\<open>AgentBudgetSnapshot.is_exhausted\<close>: the first limit that is reached, in the order of the fields.\<close>

definition is_exhausted :: "budget_limits \<Rightarrow> budget_usage \<Rightarrow> string option" where
  "is_exhausted lims u =
     (if reached (bl_turns lims) (bu_turns u) then Some ''max_turns''
      else if reached (bl_wall_time_seconds lims) (bu_wall_time_seconds u) then Some ''max_wall_time_seconds''
      else if reached (bl_tokens lims) (bu_tokens u) then Some ''max_tokens''
      else if reached (bl_cost_usd lims) (bu_cost_usd u) then Some ''max_cost_usd''
      else if reached (bl_model_failures lims) (bu_model_failures u) then Some ''max_model_failures''
      else if reached (bl_tool_failures lims) (bu_tool_failures u) then Some ''max_tool_failures''
      else if reached (bl_retries lims) (bu_retries u) then Some ''max_retries''
      else if reached (bl_child_agents lims) (bu_child_agents u) then Some ''max_child_agents''
      else if reached (bl_recursion_depth lims) (bu_recursion_depth u) then Some ''max_recursion_depth''
      else None)"

text \<open>The loop of \<^verbatim>\<open>inherit_limits\<close> does this for each field.\<close>

definition tighter :: "'a::linorder option \<Rightarrow> 'a option \<Rightarrow> 'a option" where
  "tighter p c =
     (case p of None \<Rightarrow> c | Some a \<Rightarrow> (case c of None \<Rightarrow> Some a | Some b \<Rightarrow> Some (min a b)))"

definition inherit_limits :: "budget_limits \<Rightarrow> budget_limits \<Rightarrow> budget_limits" where
  "inherit_limits p c =
     \<lparr>bl_turns = tighter (bl_turns p) (bl_turns c),
      bl_wall_time_seconds = tighter (bl_wall_time_seconds p) (bl_wall_time_seconds c),
      bl_tokens = tighter (bl_tokens p) (bl_tokens c),
      bl_cost_usd = tighter (bl_cost_usd p) (bl_cost_usd c),
      bl_model_failures = tighter (bl_model_failures p) (bl_model_failures c),
      bl_tool_failures = tighter (bl_tool_failures p) (bl_tool_failures c),
      bl_retries = tighter (bl_retries p) (bl_retries c),
      bl_child_agents = tighter (bl_child_agents p) (bl_child_agents c),
      bl_recursion_depth = tighter (bl_recursion_depth p) (bl_recursion_depth c)\<rparr>"

lemma reached_tighter: "reached (tighter p c) u \<longleftrightarrow> reached p u \<or> reached c u"
  by (auto simp: reached_def tighter_def min_def split: option.splits)

lemma tighter_absorb [simp]: "tighter p (tighter p c) = tighter p c"
  by (auto simp: tighter_def min_def split: option.splits)

lemma is_exhausted_Some:
  "is_exhausted lims u \<noteq> None \<longleftrightarrow>
     reached (bl_turns lims) (bu_turns u) \<or> reached (bl_wall_time_seconds lims) (bu_wall_time_seconds u) \<or>
     reached (bl_tokens lims) (bu_tokens u) \<or> reached (bl_cost_usd lims) (bu_cost_usd u) \<or>
     reached (bl_model_failures lims) (bu_model_failures u) \<or> reached (bl_tool_failures lims) (bu_tool_failures u) \<or>
     reached (bl_retries lims) (bu_retries u) \<or> reached (bl_child_agents lims) (bu_child_agents u) \<or>
     reached (bl_recursion_depth lims) (bu_recursion_depth u)"
  by (simp add: is_exhausted_def)

section \<open>Retry\<close>

datatype retry_decision = DECIDE_RETRY | DECIDE_FAIL | DECIDE_RETRY_WAIT

definition retryable_substrings :: "string list" where
  "retryable_substrings = [''timeout'', ''timed out'', ''rate limited'', ''429'', ''503'', ''502'', ''connection reset'',
     ''connection refused'', ''temporarily unavailable'', ''transient'', ''overloaded'', ''throttled'',
     ''deadline exceeded'']"

definition terminal_substrings :: "string list" where
  "terminal_substrings = [''validation_error'', ''invalid_transition'', ''budget exhausted'', ''approval denied'',
     ''not_found'', ''forbidden'', ''unauthorized'', ''policy denied'', ''hash mismatch'', ''cycle detected'',
     ''unknown node'']"

definition attempts_left :: "int \<Rightarrow> int \<Rightarrow> retry_decision" where
  "attempts_left attempt max_attempts = (if attempt < max_attempts then DECIDE_RETRY else DECIDE_FAIL)"

text \<open>The substrings are searched in no particular order; all that matters is whether one occurs.\<close>

definition classify_error :: "string option \<Rightarrow> int \<Rightarrow> int \<Rightarrow> retry_decision" where
  "classify_error err attempt max_attempts =
     (case err of None \<Rightarrow> attempts_left attempt max_attempts
      | Some m \<Rightarrow>
          if py_strip m = [] then attempts_left attempt max_attempts
          else if list_ex (\<lambda>t. py_contains t (py_lower m)) terminal_substrings then DECIDE_FAIL
          else if list_ex (\<lambda>t. py_contains t (py_lower m)) retryable_substrings
          then attempts_left attempt max_attempts
          else attempts_left attempt max_attempts)"

text \<open>
  A float power overflows from \<open>2 ^ 1024\<close> on; \<open>digest attempt\<close> is the number in the first eight hexadecimal
  digits of the attempt's digest.
\<close>

definition float_pow :: "rat \<Rightarrow> nat \<Rightarrow> exn + rat" where
  "float_pow x n = (if 2 ^ 1024 \<le> x ^ n then Inl OverflowError else Inr (x ^ n))"

definition backoff_seconds :: "(int \<Rightarrow> nat) \<Rightarrow> rat \<Rightarrow> rat \<Rightarrow> rat \<Rightarrow> int \<Rightarrow> exn + rat" where
  "backoff_seconds digest base factor max_seconds attempt =
     (if attempt \<le> 0 then Inr base
      else case float_pow factor (nat (attempt - 1)) of Inl e \<Rightarrow> Inl e
      | Inr p \<Rightarrow>
          let capped = min (base * p) max_seconds;
              jitter = of_nat (digest attempt mod 2000) / 10000 - 1 / 10
          in Inr (max (1 / 10) (capped * (1 + jitter))))"

record task_retry_policy =
  tr_max_attempts :: int
  tr_base_backoff :: rat
  tr_factor :: rat
  tr_max_backoff :: rat

definition default_task_retry :: task_retry_policy where
  "default_task_retry = \<lparr>tr_max_attempts = 3, tr_base_backoff = 1, tr_factor = 2, tr_max_backoff = 60\<rparr>"

definition should_retry :: "task_retry_policy \<Rightarrow> int \<Rightarrow> string option \<Rightarrow> bool" where
  "should_retry p attempt err \<longleftrightarrow> classify_error err attempt (tr_max_attempts p) = DECIDE_RETRY"

definition next_backoff :: "(int \<Rightarrow> nat) \<Rightarrow> task_retry_policy \<Rightarrow> int \<Rightarrow> exn + rat" where
  "next_backoff digest p attempt = backoff_seconds digest (tr_base_backoff p) (tr_factor p) (tr_max_backoff p) attempt"

definition next_attempt :: "int \<Rightarrow> int" where
  "next_attempt attempt = attempt + 1"

section \<open>Recovery\<close>

datatype recovery_action = RESUME_RUN | RETRY_RUN | FAIL_RUN | CANCEL_RUN | RECOVER_RUN

definition recover_run_state :: "loop_state \<Rightarrow> bool \<Rightarrow> string option \<Rightarrow> int \<Rightarrow> int \<Rightarrow> recovery_action" where
  "recover_run_state st has_checkpoint exhaustion attempt max_attempts =
     (if exhaustion \<noteq> None then FAIL_RUN
      else if st \<in> {LOOP_FAILED, LOOP_CANCELLED, LOOP_COMPLETED, LOOP_ORPHANED} then FAIL_RUN
      else if has_checkpoint then RESUME_RUN
      else if attempt < max_attempts then RETRY_RUN
      else FAIL_RUN)"

definition recover_task_state :: "task_state \<Rightarrow> 'c option \<Rightarrow> string option \<Rightarrow> int \<Rightarrow> int \<Rightarrow> recovery_action" where
  "recover_task_state st cp err attempt max_attempts =
     (if st \<in> {TASK_COMPLETED, TASK_FAILED, TASK_CANCELLED} then FAIL_RUN
      else if cp \<noteq> None then RECOVER_RUN
      else if attempt < max_attempts \<and> (case err of None \<Rightarrow> False | Some m \<Rightarrow> py_contains ''timeout'' (py_lower m))
      then RETRY_RUN
      else if st = TASK_RETRY_WAIT \<and> attempt < max_attempts then RETRY_RUN
      else if st = TASK_RECOVERING then RECOVER_RUN
      else FAIL_RUN)"

record checkpoint_ref =
  cr_run_id :: string
  cr_task_id :: "string option"
  cr_seq :: int

text \<open>
  \<^verbatim>\<open>validate_checkpoint_seq\<close>: group by run and task in order of first occurrence, sort each group, and compare
  each sequence number with its position. \<open>Inl\<close> is the first gap: the expected and the found number.
\<close>

fun group_add :: "'k \<Rightarrow> 'v \<Rightarrow> ('k \<times> 'v list) list \<Rightarrow> ('k \<times> 'v list) list" where
  "group_add k v [] = [(k, [v])]"
| "group_add k v ((x, vs) # d) = (if x = k then (x, vs @ [v]) # d else (x, vs) # group_add k v d)"

definition by_scope :: "checkpoint_ref list \<Rightarrow> ((string \<times> string option) \<times> checkpoint_ref list) list" where
  "by_scope cps = foldl (\<lambda>d c. group_add (cr_run_id c, cr_task_id c) c d) [] cps"

fun check_positions :: "int \<Rightarrow> checkpoint_ref list \<Rightarrow> (int \<times> int) + unit" where
  "check_positions i [] = Inr ()"
| "check_positions i (c # cs) = (if cr_seq c \<noteq> i then Inl (i, cr_seq c) else check_positions (i + 1) cs)"

fun check_groups :: "('k \<times> checkpoint_ref list) list \<Rightarrow> (int \<times> int) + unit" where
  "check_groups [] = Inr ()"
| "check_groups ((k, cs) # d) =
     (case check_positions 0 (sort_key cr_seq cs) of Inl e \<Rightarrow> Inl e | Inr _ \<Rightarrow> check_groups d)"

definition validate_checkpoint_seq :: "checkpoint_ref list \<Rightarrow> (int \<times> int) + unit" where
  "validate_checkpoint_seq cps = check_groups (by_scope cps)"

lemma group_add_lookup:
  "map_of (group_add k v d) x = (if x = k then Some ((case map_of d k of None \<Rightarrow> [] | Some vs \<Rightarrow> vs) @ [v]) else map_of d x)"
  by (induction k v d rule: group_add.induct) auto

lemma group_add_keys: "fst ` set (group_add k v d) = insert k (fst ` set d)"
  by (induction k v d rule: group_add.induct) (simp_all add: insert_commute)

lemma group_add_distinct: "distinct (map fst d) \<Longrightarrow> distinct (map fst (group_add k v d))"
  by (induction k v d rule: group_add.induct) (auto simp: group_add_keys)

lemma by_scope_snoc: "by_scope (cps @ [c]) = group_add (cr_run_id c, cr_task_id c) c (by_scope cps)"
  by (simp add: by_scope_def)

definition scope_of :: "string \<times> string option \<Rightarrow> checkpoint_ref list \<Rightarrow> checkpoint_ref list" where
  "scope_of k cps = filter (\<lambda>c. (cr_run_id c, cr_task_id c) = k) cps"

lemma by_scope_lookup:
  "map_of (by_scope cps) k = (if scope_of k cps = [] then None else Some (scope_of k cps))"
proof (induction cps rule: rev_induct)
  case (snoc c cps)
  then show ?case by (auto simp: by_scope_snoc group_add_lookup scope_of_def)
qed (simp add: by_scope_def scope_of_def)

lemma by_scope_distinct: "distinct (map fst (by_scope cps))"
  by (induction cps rule: rev_induct) (simp add: by_scope_def, simp add: by_scope_snoc group_add_distinct)

lemma check_positions_ok: "check_positions i cs = Inr () \<longleftrightarrow> map cr_seq cs = map (\<lambda>j. i + int j) [0..<length cs]"
proof (induction cs arbitrary: i)
  case (Cons c cs)
  have "map (\<lambda>j. i + int j) [0..<length (c # cs)] = i # map (\<lambda>j. (i + 1) + int j) [0..<length cs]"
    by (simp add: upt_conv_Cons map_Suc_upt [symmetric] o_def algebra_simps del: upt_Suc map_Suc_upt)
  with Cons show ?case by auto
qed simp

lemma check_groups_ok:
  "check_groups d = Inr () \<longleftrightarrow> (\<forall>(k, cs) \<in> set d. check_positions 0 (sort_key cr_seq cs) = Inr ())"
  by (induction d) (auto split: sum.splits)

lemma inherited_exhaustion:
  "is_exhausted (inherit_limits p c) u \<noteq> None \<longleftrightarrow> is_exhausted p u \<noteq> None \<or> is_exhausted c u \<noteq> None"
  unfolding is_exhausted_Some inherit_limits_def by (auto simp: reached_tighter)

section \<open>Properties\<close>

text \<open>A run may only tighten the limits it inherits: with the limits \<^verbatim>\<open>inherit_limits\<close> computes, a usage is exhausted
  exactly when it is exhausted for the parent or for the requested limits, so along a chain of delegations no
  descendant outlives a limit of an ancestor; inheriting a second time changes nothing.\<close>

theorem inherited_limits_only_tighten:
  "(is_exhausted (inherit_limits p c) u \<noteq> None \<longleftrightarrow> is_exhausted p u \<noteq> None \<or> is_exhausted c u \<noteq> None) \<and>
   inherit_limits p (inherit_limits p c) = inherit_limits p c \<and>
   (\<forall>u ps. (\<exists>q \<in> set ps. is_exhausted q u \<noteq> None) \<longrightarrow> is_exhausted (foldr inherit_limits ps c) u \<noteq> None)"
proof (intro conjI allI impI)
  show "is_exhausted (inherit_limits p c) u \<noteq> None \<longleftrightarrow> is_exhausted p u \<noteq> None \<or> is_exhausted c u \<noteq> None"
    by (rule inherited_exhaustion)
  show "is_exhausted (foldr inherit_limits ps c) u \<noteq> None" if "\<exists>q \<in> set ps. is_exhausted q u \<noteq> None" for u ps
    using that
  proof (induction ps)
    case (Cons q ps)
    then show ?case using inherited_exhaustion [of q "foldr inherit_limits ps c" u] by (cases "is_exhausted q u = None") simp_all
  qed simp
qed (simp add: inherit_limits_def)

lemma inherited_limits_only_tighten_witness:
  "is_exhausted (foldr inherit_limits [no_limits\<lparr>bl_turns := Some 5\<rparr>, no_limits] (no_limits\<lparr>bl_turns := Some 9\<rparr>))
     (no_usage\<lparr>bu_turns := 6\<rparr>) \<noteq> None"
proof -
  have "is_exhausted (no_limits\<lparr>bl_turns := Some 5\<rparr>) (no_usage\<lparr>bu_turns := 6\<rparr>) \<noteq> None"
    by (simp add: is_exhausted_def reached_def no_usage_def)
  then have "\<exists>q \<in> set [no_limits\<lparr>bl_turns := Some 5\<rparr>, no_limits]. is_exhausted q (no_usage\<lparr>bu_turns := 6\<rparr>) \<noteq> None"
    by simp
  then show ?thesis
    using inherited_limits_only_tighten [of no_limits "no_limits\<lparr>bl_turns := Some 9\<rparr>" no_usage] by blast
qed

text \<open>The retry classifier fails an error for good exactly when the attempts are used up or the message contains a
  terminal phrase, whatever transient phrase it contains as well; it never answers with the retry wait.\<close>

theorem classify_error_decides:
  "classify_error err attempt max_attempts =
     (if attempt < max_attempts \<and>
         \<not> (\<exists>m t. err = Some m \<and> py_strip m \<noteq> [] \<and> t \<in> set terminal_substrings \<and> py_contains t (py_lower m))
      then DECIDE_RETRY else DECIDE_FAIL)"
  by (cases err) (auto simp: classify_error_def attempts_left_def list_ex_iff)

text \<open>The backoff of a task before a retry is at least a tenth of a second and at most eleven tenths of the maximum, for
  every attempt whose power is representable; with the default factor of two it raises from attempt 1025 on.\<close>

theorem backoff_bounds:
  assumes "1 \<le> attempt" and "0 \<le> base" and "0 \<le> factor" and "1 / 10 \<le> m"
  shows "(\<forall>w. backoff_seconds digest base factor m attempt = Inr w \<longrightarrow> 1 / 10 \<le> w \<and> w \<le> m * 11 / 10) \<and>
    (backoff_seconds digest base factor m attempt = Inl OverflowError \<longleftrightarrow> 2 ^ 1024 \<le> factor ^ nat (attempt - 1)) \<and>
    (1025 \<le> attempt \<longrightarrow> backoff_seconds digest base 2 m attempt = Inl OverflowError)"
proof (intro conjI allI impI)
  fix w assume w: "backoff_seconds digest base factor m attempt = Inr w"
  let ?j = "of_nat (digest attempt mod 2000) / 10000 - 1 / 10 :: rat"
  have "of_nat (digest attempt mod 2000) \<le> (2000 :: rat)"
    using mod_less_divisor [of 2000 "digest attempt"] by (metis less_imp_le of_nat_le_iff of_nat_numeral zero_less_numeral)
  then have j: "- 1 / 10 \<le> ?j" "?j \<le> 1 / 10" by simp_all
  from w assms(1) obtain p where p: "float_pow factor (nat (attempt - 1)) = Inr p"
    and w': "w = max (1 / 10) (min (base * p) m * (1 + ?j))"
    by (auto simp: backoff_seconds_def Let_def split: sum.splits)
  from p have "0 \<le> p" using assms(3) by (auto simp: float_pow_def split: if_splits)
  then have c: "0 \<le> min (base * p) m" "min (base * p) m \<le> m" using assms(2,4) by simp_all
  have "min (base * p) m * (1 + ?j) \<le> m * (11 / 10)"
    using c j assms(4) by (intro mult_mono) auto
  moreover have "1 / 10 \<le> m * 11 / 10" using assms(4) by simp
  ultimately show "1 / 10 \<le> w" "w \<le> m * 11 / 10" by (simp_all add: w')
next
  show "backoff_seconds digest base factor m attempt = Inl OverflowError \<longleftrightarrow> 2 ^ 1024 \<le> factor ^ nat (attempt - 1)"
    using assms(1) by (auto simp: backoff_seconds_def float_pow_def Let_def)
next
  assume "1025 \<le> attempt"
  then have "(2 :: rat) ^ 1024 \<le> 2 ^ nat (attempt - 1)" by (intro power_increasing) auto
  with assms(1) show "backoff_seconds digest base 2 m attempt = Inl OverflowError"
    by (simp add: backoff_seconds_def float_pow_def)
qed

lemma backoff_bounds_witness:
  "next_backoff (\<lambda>_. 1000) default_task_retry 3 = Inr 4 \<and> (4 :: rat) \<le> 60 * 11 / 10"
proof -
  have "backoff_seconds (\<lambda>_. 1000) 1 2 60 3 = Inr 4"
    by (simp add: backoff_seconds_def float_pow_def Let_def)
  with backoff_bounds [of 3 1 2 60 "\<lambda>_. 1000"] show ?thesis
    by (simp add: next_backoff_def default_task_retry_def)
qed

text \<open>The check of checkpoint sequences accepts a list of checkpoints exactly when, for every run and task, their sequence
  numbers are \<open>0, 1, 2, \<dots>\<close> without a gap or a repetition, in whatever order they are listed.\<close>

theorem checkpoint_seq_decides:
  "validate_checkpoint_seq cps = Inr () \<longleftrightarrow>
     (\<forall>k. sort (map cr_seq (scope_of k cps)) = map int [0..<length (scope_of k cps)])"
proof -
  have ok: "check_positions 0 (sort_key cr_seq cs) = Inr () \<longleftrightarrow> sort (map cr_seq cs) = map int [0..<length cs]" for cs
  proof -
    have "sort (map cr_seq cs) = map cr_seq (sort_key cr_seq cs)"
      by (rule properties_for_sort) (simp_all add: image_mset.compositionality)
    then show ?thesis by (simp add: check_positions_ok)
  qed
  have mem: "(k, cs) \<in> set (by_scope cps) \<longleftrightarrow> scope_of k cps \<noteq> [] \<and> cs = scope_of k cps" for k cs
    using map_of_eq_Some_iff [OF by_scope_distinct, of cps k cs] by (auto simp: by_scope_lookup split: if_splits)
  have "validate_checkpoint_seq cps = Inr () \<longleftrightarrow>
      (\<forall>k. scope_of k cps \<noteq> [] \<longrightarrow> sort (map cr_seq (scope_of k cps)) = map int [0..<length (scope_of k cps)])"
    by (auto simp: validate_checkpoint_seq_def check_groups_ok mem ok)
  also have "\<dots> \<longleftrightarrow> (\<forall>k. sort (map cr_seq (scope_of k cps)) = map int [0..<length (scope_of k cps)])"
    by (metis (no_types, lifting) list.map(1) list.size(3) sort_key_simps(1) upt_0)
  finally show ?thesis .
qed

end
