(* ===== verification/Agent_Workflow.thy ===== *)
theory Agent_Workflow
  imports Json_Values
begin

text \<open>
  Workflow graphs: \<^verbatim>\<open>modules/agent_runtime/domain/workflow.py\<close>. The validation that a definition
  is an acyclic graph, the topological order, both by Kahn's algorithm, and the nodes that are
  ready once others are completed. The algorithm is compared with acyclicity itself, the order
  with the edges, and readiness with progress: a valid workflow always has a node to run next.
\<close>

section \<open>Definitions\<close>

record workflow_node =
  wn_id :: string
  wn_name :: string
  wn_tool_name :: string
  wn_params :: "(string \<times> pyobj) list"
  wn_priority :: int
  wn_timeout :: "rat option"
  wn_max_attempts :: int

record workflow_edge =
  we_from :: string
  we_to :: string
  we_condition :: "string option"
  we_type :: string

text \<open>The dictionary of nodes is the list of its items, in insertion order; its keys are distinct.\<close>

record workflow_definition =
  wd_id :: string
  wd_name :: string
  wd_version :: int
  wd_nodes :: "(string \<times> workflow_node) list"
  wd_edges :: "workflow_edge list"

text \<open>The field validators of the three classes.\<close>

definition not_blank :: "string \<Rightarrow> exn + string" where
  "not_blank v = (if py_strip v = [] then Inl (DomainErr ''AgentRuntimeWorkflowError'') else Inr (py_strip v))"

datatype dag_error =
    NoNodes
  | UnknownFrom workflow_edge
  | UnknownTo workflow_edge
  | SelfLoop workflow_edge
  | DuplicateEdge workflow_edge
  | Cycle

abbreviation node_ids :: "workflow_definition \<Rightarrow> string list" where
  "node_ids d \<equiv> map fst (wd_nodes d)"

abbreviation edge_pair :: "workflow_edge \<Rightarrow> string \<times> string" where
  "edge_pair e \<equiv> (we_from e, we_to e)"

fun check_refs :: "string list \<Rightarrow> workflow_edge list \<Rightarrow> dag_error + unit" where
  "check_refs ids [] = Inr ()"
| "check_refs ids (e # es) =
     (if we_from e \<notin> set ids then Inl (UnknownFrom e)
      else if we_to e \<notin> set ids then Inl (UnknownTo e)
      else if we_from e = we_to e then Inl (SelfLoop e)
      else check_refs ids es)"

fun check_duplicates :: "(string \<times> string) set \<Rightarrow> workflow_edge list \<Rightarrow> dag_error + unit" where
  "check_duplicates seen [] = Inr ()"
| "check_duplicates seen (e # es) =
     (if edge_pair e \<in> seen then Inl (DuplicateEdge e) else check_duplicates (insert (edge_pair e) seen) es)"

text \<open>
  The dictionaries of in-degrees and successors are functions; they are read at node ids only.
  \<open>visit_successors\<close> is the inner loop, \<open>kahn\<close> the outer one; it returns the nodes in the order
  they leave the queue, whose number is the \<^verbatim>\<open>visited\<close> of the validation. \<open>ordered\<close> says whether
  the successors are sorted first, as \<^verbatim>\<open>topological_order\<close> does.
\<close>

definition in_degrees :: "workflow_edge list \<Rightarrow> string \<Rightarrow> int" where
  "in_degrees es = foldl (\<lambda>deg e. deg(we_to e := deg (we_to e) + 1)) (\<lambda>_. 0) es"

definition adjacency :: "workflow_edge list \<Rightarrow> string \<Rightarrow> string list" where
  "adjacency es = foldl (\<lambda>adj e. adj(we_from e := adj (we_from e) @ [we_to e])) (\<lambda>_. []) es"

fun visit_successors :: "string list \<Rightarrow> (string \<Rightarrow> int) \<Rightarrow> string list \<Rightarrow> (string \<Rightarrow> int) \<times> string list" where
  "visit_successors [] deg queue = (deg, queue)"
| "visit_successors (n # ns) deg queue =
     (let deg' = deg(n := deg n - 1)
      in visit_successors ns deg' (if deg' n = 0 then queue @ [n] else queue))"

definition successors :: "bool \<Rightarrow> workflow_edge list \<Rightarrow> string \<Rightarrow> string list" where
  "successors ordered es n = (if ordered then sort (adjacency es n) else adjacency es n)"

lemma adjacency_snoc: "adjacency (es @ [e]) = (adjacency es)(we_from e := adjacency es (we_from e) @ [we_to e])"
  by (simp add: adjacency_def)

lemma adjacency_eq: "adjacency es n = map we_to (filter (\<lambda>e. we_from e = n) es)"
  by (induction es rule: rev_induct) (auto simp: adjacency_snoc, simp add: adjacency_def)

lemma in_degrees_snoc: "in_degrees (es @ [e]) = (in_degrees es)(we_to e := in_degrees es (we_to e) + 1)"
  by (simp add: in_degrees_def)

lemma in_degrees_eq: "in_degrees es n = int (length (filter (\<lambda>e. we_to e = n) es))"
  by (induction es rule: rev_induct) (auto simp: in_degrees_snoc, simp add: in_degrees_def)

lemma set_successors: "set (successors ordered es n) = {b. (n, b) \<in> edge_pair ` set es}"
  by (auto simp: successors_def adjacency_eq image_iff)

text \<open>Each visit takes one from a degree; a node enters the queue when its degree reaches zero.\<close>

lemma visit_measure:
  assumes "visit_successors ns deg q = (deg', q')" and "set ns \<subseteq> T" and "finite T"
  shows "length q' + card {n \<in> T. 0 < deg' n} \<le> length q + card {n \<in> T. 0 < deg n}"
  using assms
proof (induction ns arbitrary: deg q)
  case (Cons n ns)
  let ?d = "deg(n := deg n - 1)"
  let ?q = "if ?d n = 0 then q @ [n] else q"
  have n: "n \<in> T" using Cons.prems(2) by simp
  have "visit_successors ns ?d ?q = (deg', q')" using Cons.prems(1) by (simp add: Let_def)
  from Cons.IH [OF this] Cons.prems(2,3)
  have ih: "length q' + card {n \<in> T. 0 < deg' n} \<le> length ?q + card {m \<in> T. 0 < ?d m}" by simp
  show ?case
  proof (cases "deg n = 1")
    case True
    then have "{m \<in> T. 0 < deg m} = insert n {m \<in> T. 0 < ?d m}" using n by auto
    moreover have "n \<notin> {m \<in> T. 0 < ?d m}" "finite {m \<in> T. 0 < ?d m}" using True Cons.prems(3) by auto
    ultimately have "card {m \<in> T. 0 < deg m} = Suc (card {m \<in> T. 0 < ?d m})" by simp
    with ih True show ?thesis by simp
  next
    case False
    have "card {m \<in> T. 0 < ?d m} \<le> card {m \<in> T. 0 < deg m}"
      using Cons.prems(3) by (intro card_mono) auto
    with ih False show ?thesis by (auto split: if_splits)
  qed
qed simp

function kahn :: "bool \<Rightarrow> workflow_edge list \<Rightarrow> (string \<Rightarrow> int) \<Rightarrow> string list \<Rightarrow> string list" where
  "kahn ordered es deg [] = []"
| "kahn ordered es deg (n # queue) =
     (let (deg', queue') = visit_successors (successors ordered es n) deg queue
      in n # kahn ordered es deg' queue')"
  by pat_completeness auto
termination
proof (relation "measure (\<lambda>(ordered, es, deg, q). length q + card {n \<in> we_to ` set es. 0 < deg n})")
  fix ordered es and deg :: "string \<Rightarrow> int" and n queue x deg' queue'
  assume "x = visit_successors (successors ordered es n) deg queue" and "(deg', queue') = x"
  then have v: "visit_successors (successors ordered es n) deg queue = (deg', queue')" by simp
  have "set (successors ordered es n) \<subseteq> we_to ` set es" by (auto simp: set_successors image_iff)
  from visit_measure [OF v this]
  show "((ordered, es, deg', queue'), ordered, es, deg, n # queue)
      \<in> measure (\<lambda>(ordered, es, deg, q). length q + card {n \<in> we_to ` set es. 0 < deg n})"
    by simp
qed simp

definition validate_dag :: "workflow_definition \<Rightarrow> dag_error + unit" where
  "validate_dag d =
     (if wd_nodes d = [] then Inl NoNodes
      else case check_refs (node_ids d) (wd_edges d) of Inl e \<Rightarrow> Inl e
      | Inr _ \<Rightarrow> (case check_duplicates {} (wd_edges d) of Inl e \<Rightarrow> Inl e
        | Inr _ \<Rightarrow>
            let deg = in_degrees (wd_edges d);
                visited = length (kahn False (wd_edges d) deg (filter (\<lambda>n. deg n = 0) (node_ids d)))
            in if visited \<noteq> length (wd_nodes d) then Inl Cycle else Inr ()))"

definition topological_order :: "workflow_definition \<Rightarrow> dag_error + string list" where
  "topological_order d =
     (case validate_dag d of Inl e \<Rightarrow> Inl e
      | Inr _ \<Rightarrow>
          let deg = in_degrees (wd_edges d)
          in Inr (kahn True (wd_edges d) deg (sort (filter (\<lambda>n. deg n = 0) (node_ids d)))))"

definition predecessors :: "workflow_definition \<Rightarrow> string \<Rightarrow> string set" where
  "predecessors d n = set (map we_from (filter (\<lambda>e. we_to e = n) (wd_edges d)))"

definition ready_nodes :: "workflow_definition \<Rightarrow> string set \<Rightarrow> workflow_node list" where
  "ready_nodes d completed =
     sort_key (\<lambda>n. (- wn_priority n, wn_id n))
       (map snd (filter (\<lambda>(k, n). k \<notin> completed \<and> predecessors d k \<subseteq> completed) (wd_nodes d)))"

section \<open>The algorithm\<close>

abbreviation edge_rel :: "workflow_edge list \<Rightarrow> (string \<times> string) set" where
  "edge_rel es \<equiv> edge_pair ` set es"

definition open_preds :: "workflow_edge list \<Rightarrow> string set \<Rightarrow> string \<Rightarrow> string set" where
  "open_preds es seen n = {a. (a, n) \<in> edge_rel es \<and> a \<notin> seen}"

text \<open>In a list of nodes every edge into a node comes from earlier in the list.\<close>

definition forward :: "workflow_edge list \<Rightarrow> string list \<Rightarrow> bool" where
  "forward es xs \<longleftrightarrow> (\<forall>i < length xs. \<forall>a. (a, xs ! i) \<in> edge_rel es \<longrightarrow> a \<in> set (take i xs))"

lemma forward_Nil [simp]: "forward es []"
  by (simp add: forward_def)

lemma forward_snoc: "forward es (xs @ [b]) \<longleftrightarrow> forward es xs \<and> open_preds es (set xs) b = {}"
  by (auto simp: forward_def open_preds_def nth_append less_Suc_eq)

lemma forward_trancl:
  assumes "forward es xs" and "(a, b) \<in> (edge_rel es)\<^sup>+" and "i < length xs" and "xs ! i = b"
  shows "a \<in> set (take i xs)"
  using assms(2-)
proof (induction arbitrary: i rule: trancl_induct)
  case (base y)
  then show ?case using assms(1) by (auto simp: forward_def)
next
  case (step y z)
  then have "y \<in> set (take i xs)" using assms(1) by (auto simp: forward_def)
  then obtain j where j: "j < i" "xs ! j = y" using step.prems by (auto simp: in_set_conv_nth)
  then have "a \<in> set (take j xs)" using step.IH [of j] step.prems by simp
  with j show ?case using set_take_subset_set_take [of j i xs] by auto
qed

lemma forward_acyclic:
  assumes "forward es xs" and "distinct xs" and "snd ` edge_rel es \<subseteq> set xs"
  shows "acyclic (edge_rel es)"
proof (rule acyclicI, rule allI, rule notI)
  fix a assume c: "(a, a) \<in> (edge_rel es)\<^sup>+"
  then obtain b where "(b, a) \<in> edge_rel es" by (meson tranclD2)
  then have "a \<in> snd ` edge_rel es" by (rule rev_image_eqI) simp
  then have "a \<in> set xs" using assms(3) by (rule rev_subsetD)
  then obtain i where i: "i < length xs" "xs ! i = a" by (auto simp: in_set_conv_nth)
  from forward_trancl [OF assms(1) c i] obtain j where "j < i" "xs ! j = a" by (auto simp: in_set_conv_nth)
  with i assms(2) show False using nth_eq_iff_index_eq [of xs j i] by simp
qed

lemma visit_successors_eq:
  "distinct ns \<Longrightarrow> visit_successors ns deg q
     = (\<lambda>n. if n \<in> set ns then deg n - 1 else deg n, q @ filter (\<lambda>n. deg n = 1) ns)"
proof (induction ns arbitrary: deg q)
  case (Cons n ns)
  then have "filter (\<lambda>m. (deg(n := deg n - 1)) m = 1) ns = filter (\<lambda>m. deg m = 1) ns"
    by (intro filter_cong) auto
  with Cons show ?case by (auto simp: Let_def fun_eq_iff)
qed simp

lemma distinct_successors:
  assumes "distinct (map edge_pair es)" shows "distinct (successors ordered es n)"
proof -
  have "distinct (map edge_pair (filter (\<lambda>e. we_from e = n) es))" using assms by (rule distinct_map_filter)
  then have "distinct (adjacency es n)"
    by (auto simp: adjacency_eq distinct_map inj_on_def)
  then show ?thesis by (simp add: successors_def)
qed

lemma in_degrees_card:
  assumes "distinct (map edge_pair es)" shows "in_degrees es n = int (card (open_preds es {} n))"
proof -
  have "distinct (map edge_pair (filter (\<lambda>e. we_to e = n) es))" using assms by (rule distinct_map_filter)
  then have "distinct (map we_from (filter (\<lambda>e. we_to e = n) es))"
    by (auto simp: distinct_map inj_on_def)
  moreover have "set (map we_from (filter (\<lambda>e. we_to e = n) es)) = open_preds es {} n"
    by (auto simp: open_preds_def image_iff)
  ultimately show ?thesis
    by (metis in_degrees_eq distinct_card length_map)
qed

lemma finite_open_preds [simp]: "finite (open_preds es s n)"
proof (rule finite_subset)
  show "open_preds es s n \<subseteq> fst ` edge_rel es" by (force simp: open_preds_def)
qed simp

lemma open_preds_insert: "open_preds es (insert b s) n = open_preds es s n - {b}"
  by (auto simp: open_preds_def)

text \<open>What holds whenever the outer loop tests its condition.\<close>

definition kahn_inv ::
  "workflow_edge list \<Rightarrow> string set \<Rightarrow> string list \<Rightarrow> (string \<Rightarrow> int) \<Rightarrow> string list \<Rightarrow> bool" where
  "kahn_inv es N seen deg q \<longleftrightarrow>
     distinct (seen @ q) \<and> set (seen @ q) \<subseteq> N \<and> forward es seen \<and>
     (\<forall>n. deg n = int (card (open_preds es (set seen) n))) \<and>
     (\<forall>n \<in> N. n \<in> set (seen @ q) \<longleftrightarrow> deg n = 0)"

lemma kahn_inv_step:
  assumes inv: "kahn_inv es N seen deg (n # q)" and es: "distinct (map edge_pair es)" "edge_rel es \<subseteq> N \<times> N"
    and v: "visit_successors (successors ordered es n) deg q = (deg', q')"
  shows "kahn_inv es N (seen @ [n]) deg' q'"
proof -
  let ?S = "set (successors ordered es n)"
  let ?new = "filter (\<lambda>m. deg m = 1) (successors ordered es n)"
  have S: "?S = {b. (n, b) \<in> edge_rel es}" by (rule set_successors)
  have d: "distinct (successors ordered es n)" using es(1) by (rule distinct_successors)
  from v have deg': "deg' = (\<lambda>m. if m \<in> ?S then deg m - 1 else deg m)" and q': "q' = q @ ?new"
    by (simp_all add: visit_successors_eq [OF d])
  from inv have dist: "distinct (seen @ n # q)" and sub: "set (seen @ n # q) \<subseteq> N" and fw: "forward es seen"
    and deg: "\<And>m. deg m = int (card (open_preds es (set seen) m))"
    and zero: "\<And>m. m \<in> N \<Longrightarrow> m \<in> set (seen @ n # q) \<longleftrightarrow> deg m = 0"
    by (auto simp: kahn_inv_def)
  have n: "n \<in> N" "n \<notin> set seen" "deg n = 0" using dist sub zero [of n] by auto
  have deg1: "deg' m = int (card (open_preds es (set (seen @ [n])) m))" for m
  proof (cases "m \<in> ?S")
    case True
    then have "n \<in> open_preds es (set seen) m" using n S by (auto simp: open_preds_def)
    then have "card (open_preds es (set seen) m) = Suc (card (open_preds es (set seen) m - {n}))"
      by (metis card.remove finite_open_preds)
    with True show ?thesis by (simp add: deg' deg open_preds_insert)
  next
    case False
    then have "n \<notin> open_preds es (set seen) m" using S by (auto simp: open_preds_def)
    with False show ?thesis by (simp add: deg' deg open_preds_insert)
  qed
  have new_N: "m \<in> N" if "m \<in> ?S" for m
    using that S es(2) by (metis (no_types, lifting) mem_Collect_eq mem_Sigma_iff subsetD)
  then have new: "set ?new \<subseteq> N" by auto
  have fresh: "m \<notin> set (seen @ n # q)" if "m \<in> set ?new" for m
    using that zero [of m] new_N [of m] by simp
  have "open_preds es (set seen) n = {}" using n(3) deg [of n] by simp
  then have fw1: "forward es (seen @ [n])" using fw by (simp add: forward_snoc)
  have zero1: "m \<in> set ((seen @ [n]) @ q') \<longleftrightarrow> deg' m = 0" if "m \<in> N" for m
  proof (cases "m \<in> ?S")
    case True
    then have "0 < deg m" using deg1 [of m] by (simp add: deg')
    then have "m \<notin> set (seen @ n # q)" using zero [OF that] by simp
    with True show ?thesis by (auto simp: deg' q')
  next
    case False
    then show ?thesis using zero [OF that] by (auto simp: deg' q')
  qed
  have "distinct ((seen @ [n]) @ q')" using dist d fresh by (auto simp: q')
  moreover have "set ((seen @ [n]) @ q') \<subseteq> N" using sub new by (auto simp: q')
  ultimately show ?thesis using fw1 deg1 zero1 by (simp add: kahn_inv_def)
qed

lemma kahn_run:
  assumes "kahn_inv es N seen deg q" and "distinct (map edge_pair es)" and "edge_rel es \<subseteq> N \<times> N"
  shows "\<exists>deg'. kahn_inv es N (seen @ kahn ordered es deg q) deg' []"
  using assms
proof (induction ordered es deg q arbitrary: seen rule: kahn.induct)
  case (1 ordered es deg)
  then show ?case by auto
next
  case (2 ordered es deg n q)
  obtain deg' q' where v: "visit_successors (successors ordered es n) deg q = (deg', q')" by fastforce
  have "kahn_inv es N (seen @ [n]) deg' q'"
    by (rule kahn_inv_step [OF "2.prems" v])
  from "2.IH" [OF v [symmetric] refl this 2(3,4)] v show ?case by simp
qed

lemma check_refs_ok:
  "check_refs ids es = Inr () \<longleftrightarrow> edge_rel es \<subseteq> set ids \<times> set ids \<and> (\<forall>e \<in> set es. we_from e \<noteq> we_to e)"
  by (induction es) auto

lemma check_duplicates_ok:
  "check_duplicates seen es = Inr () \<longleftrightarrow> distinct (map edge_pair es) \<and> seen \<inter> edge_rel es = {}"
  by (induction es arbitrary: seen) auto

lemma kahn_start:
  assumes "distinct N" and "distinct (map edge_pair es)" and "set q = {n \<in> set N. in_degrees es n = 0}" and "distinct q"
  shows "kahn_inv es (set N) [] (in_degrees es) q"
  using assms by (auto simp: kahn_inv_def in_degrees_card)

text \<open>What both uses of the algorithm get from it.\<close>

lemma kahn_result:
  fixes ordered :: bool
  assumes N: "distinct N" and es: "distinct (map edge_pair es)" "edge_rel es \<subseteq> set N \<times> set N"
    and q: "set q = {n \<in> set N. in_degrees es n = 0}" "distinct q"
  defines "r \<equiv> kahn ordered es (in_degrees es) q"
  shows "distinct r" and "set r \<subseteq> set N" and "forward es r" and "acyclic (edge_rel es) \<longleftrightarrow> set r = set N"
proof -
  obtain deg' where inv: "kahn_inv es (set N) r deg' []"
    using kahn_run [OF kahn_start [OF N es(1) q] es] unfolding r_def by auto
  then show d: "distinct r" and sub: "set r \<subseteq> set N" and f: "forward es r"
    by (auto simp: kahn_inv_def)
  have left: "open_preds es (set r) n \<noteq> {}" if "n \<in> set N - set r" for n
    using inv that unfolding kahn_inv_def by auto
  show "acyclic (edge_rel es) \<longleftrightarrow> set r = set N"
  proof
    assume a: "acyclic (edge_rel es)"
    show "set r = set N"
    proof (rule ccontr)
      assume "set r \<noteq> set N"
      then obtain x where x: "x \<in> set N - set r" using sub by auto
      have "wf (edge_rel es)" using a by (simp add: finite_acyclic_wf)
      then obtain z where z: "z \<in> set N - set r" "\<And>y. (y, z) \<in> edge_rel es \<Longrightarrow> y \<notin> set N - set r"
        using x by (rule wfE_min) blast
      obtain y where y: "(y, z) \<in> edge_rel es" "y \<notin> set r" using left [OF z(1)] by (auto simp: open_preds_def)
      have "y \<in> set N" using y(1) es(2) by blast
      with z(2) [OF y(1)] y(2) show False by simp
    qed
  next
    assume "set r = set N"
    moreover have "snd ` edge_rel es \<subseteq> set N" using es(2) by auto
    ultimately show "acyclic (edge_rel es)" using forward_acyclic [OF f d] by simp
  qed
qed

lemma validate_dag_iff:
  assumes ids: "distinct (node_ids d)"
  shows "validate_dag d = Inr () \<longleftrightarrow>
    wd_nodes d \<noteq> [] \<and> edge_rel (wd_edges d) \<subseteq> set (node_ids d) \<times> set (node_ids d) \<and>
    distinct (map edge_pair (wd_edges d)) \<and> acyclic (edge_rel (wd_edges d))"
proof (cases "edge_rel (wd_edges d) \<subseteq> set (node_ids d) \<times> set (node_ids d) \<and> distinct (map edge_pair (wd_edges d))")
  case True
  let ?es = "wd_edges d" and ?N = "node_ids d"
  let ?r = "kahn False ?es (in_degrees ?es) (filter (\<lambda>n. in_degrees ?es n = 0) ?N)"
  have q: "set (filter (\<lambda>n. in_degrees ?es n = 0) ?N) = {n \<in> set ?N. in_degrees ?es n = 0}"
    "distinct (filter (\<lambda>n. in_degrees ?es n = 0) ?N)" using ids by auto
  note r = kahn_result [OF ids conjunct2 [OF True] conjunct1 [OF True] q, where ordered = False]
  have len: "length ?r = length (wd_nodes d) \<longleftrightarrow> acyclic (edge_rel ?es)"
  proof -
    have n: "length ?r = card (set ?r)" "length (wd_nodes d) = card (set ?N)"
      using distinct_card [OF r(1)] distinct_card [OF ids] by simp_all
    have "set ?r = set ?N" if "card (set ?r) = card (set ?N)"
      using that r(2) by (intro card_subset_eq finite_set)
    then show ?thesis unfolding n r(4) by auto
  qed
  have noloop: "acyclic (edge_rel ?es) \<Longrightarrow> \<forall>e \<in> set ?es. we_from e \<noteq> we_to e"
    by (metis (no_types, lifting) acyclic_def imageI r_into_trancl')
  have dup: "check_duplicates {} ?es = Inr ()" using True by (simp add: check_duplicates_ok)
  show ?thesis
  proof (cases "\<forall>e \<in> set ?es. we_from e \<noteq> we_to e")
    case loops: True
    then have "check_refs ?N ?es = Inr ()" using True by (simp add: check_refs_ok)
    then show ?thesis using True len dup by (simp add: validate_dag_def Let_def)
  next
    case False
    then have "check_refs ?N ?es \<noteq> Inr ()" by (auto simp: check_refs_ok)
    moreover have "\<not> acyclic (edge_rel ?es)" using False noloop by blast
    ultimately show ?thesis by (auto simp: validate_dag_def split: sum.splits)
  qed
next
  case False
  then have "check_refs (node_ids d) (wd_edges d) \<noteq> Inr () \<or> check_duplicates {} (wd_edges d) \<noteq> Inr ()"
    by (auto simp: check_refs_ok check_duplicates_ok)
  with False show ?thesis by (auto simp: validate_dag_def split: sum.splits)
qed

section \<open>Readiness\<close>

lemma ready_nodes_mem:
  "n \<in> set (ready_nodes d c) \<longleftrightarrow> (\<exists>k. (k, n) \<in> set (wd_nodes d) \<and> k \<notin> c \<and> predecessors d k \<subseteq> c)"
  by (force simp: ready_nodes_def)

lemma predecessors_eq: "predecessors d k = {a. (a, k) \<in> edge_rel (wd_edges d)}"
  by (auto simp: predecessors_def image_iff)

lemma some_ready:
  assumes ids: "distinct (node_ids d)" and ok: "validate_dag d = Inr ()"
    and k: "k \<in> set (node_ids d)" "k \<notin> c"
  shows "\<exists>k n. (k, n) \<in> set (wd_nodes d) \<and> k \<notin> c \<and> predecessors d k \<subseteq> c"
proof -
  from ok ids have E: "edge_rel (wd_edges d) \<subseteq> set (node_ids d) \<times> set (node_ids d)"
    and wf: "wf (edge_rel (wd_edges d))"
    by (simp_all add: validate_dag_iff finite_acyclic_wf)
  have "k \<in> set (node_ids d) - c" using k by simp
  with wf obtain z where z: "z \<in> set (node_ids d) - c"
      "\<And>y. (y, z) \<in> edge_rel (wd_edges d) \<Longrightarrow> y \<notin> set (node_ids d) - c"
    by (rule wfE_min) blast
  have "predecessors d z \<subseteq> c"
  proof
    fix y assume "y \<in> predecessors d z"
    then have y: "(y, z) \<in> edge_rel (wd_edges d)" by (simp add: predecessors_eq)
    then have "y \<in> set (node_ids d)" using E by blast
    with z(2) [OF y] show "y \<in> c" by simp
  qed
  moreover from z(1) obtain n where "(z, n) \<in> set (wd_nodes d)" by auto
  ultimately show ?thesis using z(1) by blast
qed

text \<open>The workers run every ready node and report it completed under its id, again and again.\<close>

definition complete_round :: "workflow_definition \<Rightarrow> string set \<Rightarrow> string set" where
  "complete_round d c = c \<union> wn_id ` set (ready_nodes d c)"

lemma complete_round_grows:
  assumes ids: "distinct (node_ids d)" and ok: "validate_dag d = Inr ()"
    and key: "\<And>k n. (k, n) \<in> set (wd_nodes d) \<Longrightarrow> wn_id n = k"
    and left: "\<not> set (node_ids d) \<subseteq> c"
  shows "card (set (node_ids d) - complete_round d c) < card (set (node_ids d) - c)"
proof (rule psubset_card_mono)
  from left obtain k0 where "k0 \<in> set (node_ids d)" "k0 \<notin> c" by blast
  from some_ready [OF ids ok this] obtain k n
    where kn: "(k, n) \<in> set (wd_nodes d)" "k \<notin> c" "predecessors d k \<subseteq> c" by blast
  then have "n \<in> set (ready_nodes d c)" by (auto simp: ready_nodes_mem)
  with key [OF kn(1)] have "k \<in> complete_round d c" by (auto simp: complete_round_def)
  moreover have "k \<in> set (node_ids d)" using imageI [OF kn(1), of fst] by simp
  ultimately show "set (node_ids d) - complete_round d c \<subset> set (node_ids d) - c"
    using kn(2) by (auto simp: complete_round_def)
qed simp

lemma rounds_finish:
  assumes "distinct (node_ids d)" and "validate_dag d = Inr ()"
    and "\<And>k n. (k, n) \<in> set (wd_nodes d) \<Longrightarrow> wn_id n = k"
    and "card (set (node_ids d) - c) \<le> m"
  shows "set (node_ids d) \<subseteq> (complete_round d ^^ m) c"
  using assms(4)
proof (induction m arbitrary: c)
  case (Suc m)
  have mono: "c \<subseteq> (complete_round d ^^ i) c" for c i
    by (induction i) (auto simp: complete_round_def)
  show ?case
  proof (cases "set (node_ids d) \<subseteq> c")
    case True
    then show ?thesis using mono [of c "Suc m"] by (rule order_trans)
  next
    case False
    then have "card (set (node_ids d) - complete_round d c) \<le> m"
      using complete_round_grows [OF assms(1-3), of c] Suc.prems by simp
    from Suc.IH [OF this] show ?thesis by (simp only: funpow_Suc_right comp_apply)
  qed
qed auto

section \<open>Properties\<close>

text \<open>An example: two steps that wait for a first one.\<close>

definition sample_node :: "string \<Rightarrow> int \<Rightarrow> workflow_node" where
  "sample_node i prio = \<lparr>wn_id = i, wn_name = i, wn_tool_name = '''', wn_params = [], wn_priority = prio,
     wn_timeout = None, wn_max_attempts = 3\<rparr>"

definition sample_edge :: "string \<Rightarrow> string \<Rightarrow> workflow_edge" where
  "sample_edge a b = \<lparr>we_from = a, we_to = b, we_condition = None, we_type = ''dependency''\<rparr>"

definition sample_workflow :: workflow_definition where
  "sample_workflow = \<lparr>wd_id = ''w'', wd_name = ''w'', wd_version = 1,
     wd_nodes = [(''c'', sample_node ''c'' 1), (''b'', sample_node ''b'' 0), (''a'', sample_node ''a'' 0)],
     wd_edges = [sample_edge ''a'' ''c'', sample_edge ''a'' ''b'']\<rparr>"

lemmas sample_defs = sample_workflow_def sample_node_def sample_edge_def

lemma sample_valid: "validate_dag sample_workflow = Inr ()"
  by (simp add: validate_dag_def sample_defs in_degrees_def successors_def adjacency_def Let_def)

text \<open>C34: The validation of a workflow accepts exactly the graphs with at least one node, no edge to or from an unknown node,
  no edge given twice, and no cycle: Kahn's count of visited nodes decides acyclicity.\<close>

theorem validate_dag_decides:
  assumes "distinct (node_ids d)"
  shows "validate_dag d = Inr () \<longleftrightarrow>
    wd_nodes d \<noteq> [] \<and> (\<forall>e \<in> set (wd_edges d). we_from e \<in> set (node_ids d) \<and> we_to e \<in> set (node_ids d)) \<and>
    distinct (map edge_pair (wd_edges d)) \<and> acyclic (edge_rel (wd_edges d))"
proof -
  have "edge_rel (wd_edges d) \<subseteq> set (node_ids d) \<times> set (node_ids d) \<longleftrightarrow>
      (\<forall>e \<in> set (wd_edges d). we_from e \<in> set (node_ids d) \<and> we_to e \<in> set (node_ids d))" by auto
  with validate_dag_iff [OF assms] show ?thesis by simp
qed

lemma validate_dag_decides_witness:
  "validate_dag sample_workflow = Inr () \<and> acyclic {(''a'', ''c''), (''a'', ''b'')} \<and>
   validate_dag (sample_workflow\<lparr>wd_edges := [sample_edge ''a'' ''c'', sample_edge ''c'' ''a'']\<rparr>) \<noteq> Inr ()"
proof -
  have "acyclic (edge_rel (wd_edges sample_workflow))"
    using validate_dag_decides [of sample_workflow] sample_valid by (simp add: sample_defs)
  then have "acyclic {(''a'', ''c''), (''a'', ''b'')}" by (simp add: sample_defs)
  moreover have "validate_dag (sample_workflow\<lparr>wd_edges := [sample_edge ''a'' ''c'', sample_edge ''c'' ''a'']\<rparr>) \<noteq> Inr ()"
    by (simp add: sample_defs validate_dag_def in_degrees_def successors_def adjacency_def Let_def)
  ultimately show ?thesis using sample_valid by blast
qed

text \<open>A valid workflow has a topological order: the result lists every node exactly once, and every node comes after
  all the nodes it depends on.\<close>

theorem topological_order_sorts:
  assumes "distinct (node_ids d)" and "validate_dag d = Inr ()"
  shows "\<exists>xs. topological_order d = Inr xs \<and> distinct xs \<and> set xs = set (node_ids d) \<and>
    (\<forall>i < length xs. \<forall>e \<in> set (wd_edges d). we_to e = xs ! i \<longrightarrow> we_from e \<in> set (take i xs))"
proof -
  let ?es = "wd_edges d"
  let ?q = "sort (filter (\<lambda>n. in_degrees ?es n = 0) (node_ids d))"
  from assms have v: "edge_rel ?es \<subseteq> set (node_ids d) \<times> set (node_ids d)"
    "distinct (map edge_pair ?es)" "acyclic (edge_rel ?es)"
    by (simp_all add: validate_dag_iff)
  have q: "set ?q = {n \<in> set (node_ids d). in_degrees ?es n = 0}" "distinct ?q" using assms(1) by auto
  note r = kahn_result [OF assms(1) v(2,1) q, where ordered = True]
  have "topological_order d = Inr (kahn True ?es (in_degrees ?es) ?q)"
    using assms(2) by (simp add: topological_order_def Let_def)
  moreover have "we_from e \<in> set (take i xs)"
    if "forward ?es xs" "i < length xs" "e \<in> set ?es" "we_to e = xs ! i" for xs i e
    using that imageI [OF that(3), of edge_pair] by (simp add: forward_def)
  ultimately show ?thesis using r v(3) by blast
qed

lemma topological_order_sorts_witness:
  "topological_order sample_workflow = Inr [''a'', ''b'', ''c''] \<and> distinct [''a'', ''b'', ''c'']"
proof -
  have run: "topological_order sample_workflow = Inr [''a'', ''b'', ''c'']"
    using sample_valid by (simp add: sample_defs topological_order_def in_degrees_def successors_def adjacency_def Let_def)
  have "distinct (node_ids sample_workflow)" by (simp add: sample_defs)
  from topological_order_sorts [OF this sample_valid] run show ?thesis by simp
qed

text \<open>C35: In a valid workflow something is always ready until everything is completed: as long as a node is left,
  \<^verbatim>\<open>ready_nodes\<close> returns at least one node, all of them uncompleted with every predecessor completed, by falling
  priority and then by id; and when nodes are stored under their own id, running everything that is ready as many times
  as there are nodes completes the workflow.\<close>

theorem workflow_progress:
  assumes "distinct (node_ids d)" and "validate_dag d = Inr ()"
  shows "(\<not> set (node_ids d) \<subseteq> c \<longrightarrow> ready_nodes d c \<noteq> []) \<and>
    (\<forall>n. n \<in> set (ready_nodes d c) \<longleftrightarrow>
      (\<exists>k. (k, n) \<in> set (wd_nodes d) \<and> k \<notin> c \<and> (\<forall>e \<in> set (wd_edges d). we_to e = k \<longrightarrow> we_from e \<in> c))) \<and>
    sorted (map (\<lambda>n. (- wn_priority n, wn_id n)) (ready_nodes d c)) \<and>
    ((\<forall>(k, n) \<in> set (wd_nodes d). wn_id n = k) \<longrightarrow>
      set (node_ids d) \<subseteq> (complete_round d ^^ length (wd_nodes d)) c)"
proof (intro conjI impI)
  assume "\<not> set (node_ids d) \<subseteq> c"
  then obtain k where "k \<in> set (node_ids d)" "k \<notin> c" by blast
  from some_ready [OF assms this] obtain n where "n \<in> set (ready_nodes d c)"
    by (auto simp: ready_nodes_mem)
  then show "ready_nodes d c \<noteq> []" by auto
next
  show "\<forall>n. n \<in> set (ready_nodes d c) \<longleftrightarrow>
      (\<exists>k. (k, n) \<in> set (wd_nodes d) \<and> k \<notin> c \<and> (\<forall>e \<in> set (wd_edges d). we_to e = k \<longrightarrow> we_from e \<in> c))"
    unfolding ready_nodes_mem predecessors_def by (auto simp: subset_iff)
next
  show "sorted (map (\<lambda>n. (- wn_priority n, wn_id n)) (ready_nodes d c))"
    unfolding ready_nodes_def by (rule sorted_sort_key)
next
  assume key: "\<forall>(k, n) \<in> set (wd_nodes d). wn_id n = k"
  have "card (set (node_ids d) - c) \<le> card (set (node_ids d))" by (simp add: card_mono)
  also have "\<dots> \<le> length (wd_nodes d)" using card_length [of "node_ids d"] by simp
  finally show "set (node_ids d) \<subseteq> (complete_round d ^^ length (wd_nodes d)) c"
    using rounds_finish [OF assms, of c] key by blast
qed

lemma workflow_progress_witness:
  "ready_nodes sample_workflow {} = [sample_node ''a'' 0] \<and>
   ready_nodes sample_workflow {''a''} = [sample_node ''c'' 1, sample_node ''b'' 0] \<and>
   {''a'', ''b'', ''c''} \<subseteq> (complete_round sample_workflow ^^ 3) {}"
proof -
  have ids: "distinct (node_ids sample_workflow)" "length (wd_nodes sample_workflow) = 3"
    "set (node_ids sample_workflow) = {''a'', ''b'', ''c''}"
    "\<forall>(k, n) \<in> set (wd_nodes sample_workflow). wn_id n = k"
    by (auto simp: sample_defs)
  have "ready_nodes sample_workflow {} = [sample_node ''a'' 0]"
    "ready_nodes sample_workflow {''a''} = [sample_node ''c'' 1, sample_node ''b'' 0]"
    by (simp_all add: sample_defs ready_nodes_def predecessors_def)
  with workflow_progress [OF ids(1) sample_valid, of "{}"] ids(2-4) show ?thesis by simp
qed

end
