(* ===== verification/Agent_Store.thy ===== *)
theory Agent_Store
  imports Agent_Policies Agent_Workflow Outbox
begin

text \<open>
  The store of the agent runtime: the rows of \<^verbatim>\<open>application/models.py\<close>, the statements of
  \<^verbatim>\<open>SqlAgentRuntimeStore\<close> in \<^verbatim>\<open>infrastructure/repository.py\<close>, the transaction scope and the events of
  \<^verbatim>\<open>application/events.py\<close>. A state column holds the member of the enum whose value is stored, a JSON
  column that the service parses holds the parsed value, a JSON column it only passes on holds
  that value as it was given. Clock readings and random identifiers are drawn from the
  environment, one after the other.
\<close>

section \<open>Rows\<close>

record session_row =
  ss_id :: string
  ss_actor :: string
  ss_title :: string
  ss_state :: session_state
  ss_limits :: budget_limits
  ss_usage :: budget_usage
  ss_created :: time
  ss_updated :: time
  ss_version :: int
  ss_metadata :: pyobj

datatype budget_scope = SCOPE_CONVERSATION | SCOPE_PARENT_RUN | SCOPE_TASK_NODE | SCOPE_CHILD | SCOPE_TOOL

fun scope_parse :: "string \<Rightarrow> budget_scope option" where
  "scope_parse t =
     (if t = ''conversation'' then Some SCOPE_CONVERSATION
      else if t = ''parent_run'' then Some SCOPE_PARENT_RUN
      else if t = ''task_node'' then Some SCOPE_TASK_NODE
      else if t = ''child'' then Some SCOPE_CHILD
      else if t = ''tool'' then Some SCOPE_TOOL else None)"

record run_row =
  rn_id :: string
  rn_session :: string
  rn_parent :: "string option"
  rn_state :: loop_state
  rn_scope :: budget_scope
  rn_limits :: budget_limits
  rn_usage :: budget_usage
  rn_exhaustion :: "string option"
  rn_attempt :: int
  rn_max_attempts :: int
  rn_timeout :: "rat option"
  rn_created :: time
  rn_updated :: time
  rn_completed :: "time option"
  rn_version :: int
  rn_metadata :: pyobj

record task_row =
  tk_id :: string
  tk_session :: string
  tk_run :: "string option"
  tk_workflow :: "string option"
  tk_title :: string
  tk_description :: string
  tk_state :: task_state
  tk_priority :: int
  tk_attempt :: int
  tk_max_attempts :: int
  tk_timeout :: "rat option"
  tk_input :: pyobj
  tk_output :: "pyobj option"
  tk_error :: "string option"
  tk_awaiting :: "string option"
  tk_checkpoint :: "string option"
  tk_created :: time
  tk_updated :: time
  tk_completed :: "time option"
  tk_version :: int
  tk_metadata :: pyobj

record workflow_row =
  wr_id :: string
  wr_session :: string
  wr_name :: string
  wr_number :: int
  wr_state :: workflow_state
  wr_nodes :: "(string \<times> workflow_node) list"
  wr_edges :: "workflow_edge list"
  wr_created :: time
  wr_updated :: time
  wr_version :: int
  wr_metadata :: pyobj

record step_row =
  sr_id :: string
  sr_workflow :: string
  sr_run :: "string option"
  sr_task :: "string option"
  sr_node :: string
  sr_state :: step_state
  sr_attempt :: int
  sr_max_attempts :: int
  sr_priority :: int
  sr_result :: "pyobj option"
  sr_error :: "string option"
  sr_created :: time
  sr_updated :: time
  sr_version :: int

record checkpoint_row =
  cp_id :: string
  cp_run :: string
  cp_task :: "string option"
  cp_workflow :: "string option"
  cp_step :: "string option"
  cp_seq :: int
  cp_snapshot :: pyobj
  cp_hash :: string
  cp_created :: time

record approval_row =
  ap_id :: string
  ap_task :: string
  ap_run :: "string option"
  ap_requested_by :: string
  ap_state :: approval_state
  ap_payload :: pyobj
  ap_resolution :: "pyobj option"
  ap_created :: time
  ap_resolved :: "time option"
  ap_expires :: "time option"

record delegation_row =
  dl_id :: string
  dl_parent :: string
  dl_child :: string
  dl_status :: delegation_status
  dl_created :: time
  dl_completed :: "time option"
  dl_metadata :: pyobj

record agent_db =
  ad_sessions :: "session_row list"
  ad_runs :: "run_row list"
  ad_tasks :: "task_row list"
  ad_workflows :: "workflow_row list"
  ad_steps :: "step_row list"
  ad_checkpoints :: "checkpoint_row list"
  ad_approvals :: "approval_row list"
  ad_delegations :: "delegation_row list"
  ad_outbox :: outbox_db

definition empty_agent_db :: agent_db where
  "empty_agent_db = \<lparr>ad_sessions = [], ad_runs = [], ad_tasks = [], ad_workflows = [], ad_steps = [],
     ad_checkpoints = [], ad_approvals = [], ad_delegations = [], ad_outbox = empty_outbox\<rparr>"

section \<open>The transaction scope\<close>

text \<open>
  The working copy of the open transaction, the durable store, and how many readings were drawn.
  A command runs its body in a scope; what was not committed when the body ends, by returning
  or by raising, is rolled back. The environment also holds the two functions of other packages the
  service calls: the constructor of the limits and the canonical hash of a snapshot.
\<close>

record agent_env =
  ae_now :: "nat \<Rightarrow> time"
  ae_id :: "nat \<Rightarrow> string"
  ae_parse_limits :: "(string \<times> pyobj) list \<Rightarrow> exn + budget_limits"
  ae_hash :: "pyobj \<Rightarrow> string"

record agent_scope =
  as_db :: agent_db
  as_stored :: agent_db
  as_tick :: nat

record agent_world =
  aw_db :: agent_db
  aw_tick :: nat

definition in_scope :: "(agent_scope, 'a) act \<Rightarrow> (agent_world, 'a) act" where
  "in_scope body w =
     (case body \<lparr>as_db = aw_db w, as_stored = aw_db w, as_tick = aw_tick w\<rparr> of
        (out, s) \<Rightarrow> (out, \<lparr>aw_db = as_stored s, aw_tick = as_tick s\<rparr>))"

definition commit_scope :: "(agent_scope, unit) act" where
  "commit_scope s = (Inr (), s\<lparr>as_stored := as_db s\<rparr>)"

definition draw_time :: "agent_env \<Rightarrow> (agent_scope, time) act" where
  "draw_time env s = (Inr (ae_now env (as_tick s)), s\<lparr>as_tick := Suc (as_tick s)\<rparr>)"

definition draw_id :: "agent_env \<Rightarrow> (agent_scope, string) act" where
  "draw_id env s = (Inr (ae_id env (as_tick s)), s\<lparr>as_tick := Suc (as_tick s)\<rparr>)"

text \<open>\<^verbatim>\<open>except Exception: pass\<close> keeps the state the failing statement left.\<close>

definition act_ignore :: "('s, unit) act \<Rightarrow> ('s, unit) act" where
  "act_ignore m s = (case m s of (_, s') \<Rightarrow> (Inr (), s'))"

definition act_assert :: "'a option \<Rightarrow> ('s, 'a) act" where
  "act_assert x = (case x of None \<Rightarrow> act_raise (RuntimeErr ''AssertionError'') | Some y \<Rightarrow> act_return y)"

section \<open>Statements\<close>

definition fetch :: "(agent_db \<Rightarrow> 'r list) \<Rightarrow> ('r \<Rightarrow> string) \<Rightarrow> string \<Rightarrow> (agent_scope, 'r option) act" where
  "fetch rows key k s = (Inr (find (\<lambda>r. key r = k) (rows (as_db s))), s)"

definition select_rows :: "(agent_db \<Rightarrow> 'r list) \<Rightarrow> ('r \<Rightarrow> bool) \<Rightarrow> ('r \<Rightarrow> int) \<Rightarrow> (agent_scope, 'r list) act" where
  "select_rows rows p order s = (Inr (sort_key order (filter p (rows (as_db s)))), s)"

definition add_row ::
  "(agent_db \<Rightarrow> 'r list) \<Rightarrow> ('r list \<Rightarrow> agent_db \<Rightarrow> agent_db) \<Rightarrow> ('r \<Rightarrow> string) \<Rightarrow> 'r \<Rightarrow> (agent_scope, bool) act" where
  "add_row rows put key r s =
     (if find (\<lambda>x. key x = key r) (rows (as_db s)) \<noteq> None then (Inr False, s)
      else (Inr True, s\<lparr>as_db := put (rows (as_db s) @ [r]) (as_db s)\<rparr>))"

definition write_rows ::
  "(agent_db \<Rightarrow> 'r list) \<Rightarrow> ('r list \<Rightarrow> agent_db \<Rightarrow> agent_db) \<Rightarrow> ('r \<Rightarrow> bool) \<Rightarrow> ('r \<Rightarrow> 'r) \<Rightarrow> (agent_scope, nat) act" where
  "write_rows rows put p f s =
     (Inr (rowcount p (rows (as_db s))), s\<lparr>as_db := put (sql_update p f (rows (as_db s))) (as_db s)\<rparr>)"

text \<open>
  The five \<^verbatim>\<open>update_*\<close> methods with an optimistic version, and \<^verbatim>\<open>update_approval\<close> with an expected
  state: read the row, give up when it is missing or not the expected one, compute the
  assignment, write it under the same guard, give up when no row was hit, read the row again.
\<close>

definition change_row ::
  "(agent_db \<Rightarrow> 'r list) \<Rightarrow> ('r list \<Rightarrow> agent_db \<Rightarrow> agent_db) \<Rightarrow> ('r \<Rightarrow> string) \<Rightarrow> ('r \<Rightarrow> 'v) \<Rightarrow> string \<Rightarrow> 'v option
     \<Rightarrow> ('r \<Rightarrow> (agent_scope, 'r \<Rightarrow> 'r) act) \<Rightarrow> (agent_scope, 'r option) act" where
  "change_row rows put key ver k expected vals =
     act_bind (fetch rows key k) (\<lambda>ex. case ex of None \<Rightarrow> act_return None
     | Some r \<Rightarrow>
         if expected \<noteq> None \<and> expected \<noteq> Some (ver r) then act_return None
         else act_bind (vals r) (\<lambda>f.
           act_bind (write_rows rows put (\<lambda>x. key x = k \<and> (expected = None \<or> expected = Some (ver x))) f) (\<lambda>n.
             if expected \<noteq> None \<and> n = 0 then act_return None else fetch rows key k)))"

text \<open>An optional argument that is absent leaves the column alone.\<close>

definition keep :: "'a option \<Rightarrow> 'a \<Rightarrow> 'a" where
  "keep p old = (case p of None \<Rightarrow> old | Some x \<Rightarrow> x)"

definition completion :: "agent_env \<Rightarrow> time option \<Rightarrow> bool \<Rightarrow> (agent_scope, time option) act" where
  "completion env given auto =
     (if given \<noteq> None then act_return given
      else if auto then act_bind (draw_time env) (\<lambda>t. act_return (Some t))
      else act_return None)"

definition or_else :: "'a option \<Rightarrow> 'a option \<Rightarrow> 'a option" where
  "or_else p old = (case p of None \<Rightarrow> old | Some x \<Rightarrow> Some x)"

abbreviation matches :: "'a option \<Rightarrow> 'a \<Rightarrow> bool" where
  "matches p x \<equiv> p = None \<or> p = Some x"

subsection \<open>Sessions\<close>

definition put_sessions :: "session_row list \<Rightarrow> agent_db \<Rightarrow> agent_db" where
  "put_sessions rs db = db\<lparr>ad_sessions := rs\<rparr>"

definition insert_session :: "session_row \<Rightarrow> (agent_scope, bool) act" where
  "insert_session r = add_row ad_sessions put_sessions ss_id r"

definition get_session :: "string \<Rightarrow> (agent_scope, session_row option) act" where
  "get_session k = fetch ad_sessions ss_id k"

definition list_sessions :: "string option \<Rightarrow> (agent_scope, session_row list) act" where
  "list_sessions actor = select_rows ad_sessions (\<lambda>r. matches actor (ss_actor r)) ss_created"

record session_patch =
  sp_title :: "string option"
  sp_state :: "session_state option"
  sp_limits :: "budget_limits option"
  sp_usage :: "budget_usage option"
  sp_version :: "int option"
  sp_metadata :: "pyobj option"

definition no_session_patch :: session_patch where
  "no_session_patch = \<lparr>sp_title = None, sp_state = None, sp_limits = None, sp_usage = None, sp_version = None, sp_metadata = None\<rparr>"

definition session_values :: "time \<Rightarrow> session_patch \<Rightarrow> session_row \<Rightarrow> session_row" where
  "session_values now p r = r\<lparr>ss_updated := now, ss_title := keep (sp_title p) (ss_title r),
     ss_state := keep (sp_state p) (ss_state r), ss_limits := keep (sp_limits p) (ss_limits r),
     ss_usage := keep (sp_usage p) (ss_usage r), ss_version := keep (sp_version p) (ss_version r),
     ss_metadata := keep (sp_metadata p) (ss_metadata r)\<rparr>"

definition update_session ::
  "agent_env \<Rightarrow> string \<Rightarrow> session_patch \<Rightarrow> int option \<Rightarrow> (agent_scope, session_row option) act" where
  "update_session env k p expected = change_row ad_sessions put_sessions ss_id ss_version k expected
     (\<lambda>_. act_bind (draw_time env) (\<lambda>now. act_return (session_values now p)))"

subsection \<open>Runs\<close>

definition put_runs :: "run_row list \<Rightarrow> agent_db \<Rightarrow> agent_db" where
  "put_runs rs db = db\<lparr>ad_runs := rs\<rparr>"

definition insert_run :: "run_row \<Rightarrow> (agent_scope, bool) act" where
  "insert_run r = add_row ad_runs put_runs rn_id r"

definition get_run :: "string \<Rightarrow> (agent_scope, run_row option) act" where
  "get_run k = fetch ad_runs rn_id k"

definition list_runs :: "string option \<Rightarrow> string option \<Rightarrow> (agent_scope, run_row list) act" where
  "list_runs sid parent = select_rows ad_runs
     (\<lambda>r. matches sid (rn_session r) \<and> (parent = None \<or> rn_parent r = parent)) rn_created"

record run_patch =
  rp_state :: "loop_state option"
  rp_limits :: "budget_limits option"
  rp_usage :: "budget_usage option"
  rp_exhaustion :: "string option"
  rp_attempt :: "int option"
  rp_version :: "int option"
  rp_metadata :: "pyobj option"
  rp_completed :: "time option"

definition no_run_patch :: run_patch where
  "no_run_patch = \<lparr>rp_state = None, rp_limits = None, rp_usage = None, rp_exhaustion = None, rp_attempt = None,
     rp_version = None, rp_metadata = None, rp_completed = None\<rparr>"

definition run_values :: "time \<Rightarrow> time option \<Rightarrow> run_patch \<Rightarrow> run_row \<Rightarrow> run_row" where
  "run_values now done_at p r = r\<lparr>rn_updated := now, rn_state := keep (rp_state p) (rn_state r),
     rn_limits := keep (rp_limits p) (rn_limits r), rn_usage := keep (rp_usage p) (rn_usage r),
     rn_exhaustion := or_else (rp_exhaustion p) (rn_exhaustion r), rn_attempt := keep (rp_attempt p) (rn_attempt r),
     rn_version := keep (rp_version p) (rn_version r), rn_metadata := keep (rp_metadata p) (rn_metadata r),
     rn_completed := or_else done_at (rn_completed r)\<rparr>"

definition update_run :: "agent_env \<Rightarrow> string \<Rightarrow> run_patch \<Rightarrow> int option \<Rightarrow> (agent_scope, run_row option) act" where
  "update_run env k p expected = change_row ad_runs put_runs rn_id rn_version k expected
     (\<lambda>ex. act_bind (draw_time env) (\<lambda>now.
       act_bind (completion env (rp_completed p)
           (rp_state p \<in> {Some LOOP_COMPLETED, Some LOOP_FAILED, Some LOOP_CANCELLED, Some LOOP_ORPHANED}
              \<and> rn_completed ex = None)) (\<lambda>done_at.
         act_return (run_values now done_at p))))"

subsection \<open>Tasks\<close>

definition put_tasks :: "task_row list \<Rightarrow> agent_db \<Rightarrow> agent_db" where
  "put_tasks rs db = db\<lparr>ad_tasks := rs\<rparr>"

definition insert_task :: "task_row \<Rightarrow> (agent_scope, bool) act" where
  "insert_task r = add_row ad_tasks put_tasks tk_id r"

definition get_task :: "string \<Rightarrow> (agent_scope, task_row option) act" where
  "get_task k = fetch ad_tasks tk_id k"

definition list_tasks ::
  "string option \<Rightarrow> string option \<Rightarrow> string option \<Rightarrow> string option \<Rightarrow> (agent_scope, task_row list) act" where
  "list_tasks sid rid wid st = select_rows ad_tasks
     (\<lambda>r. matches sid (tk_session r) \<and> (rid = None \<or> tk_run r = rid) \<and> (wid = None \<or> tk_workflow r = wid)
        \<and> matches st (task_value (tk_state r))) tk_created"

record task_patch =
  tp_state :: "task_state option"
  tp_attempt :: "int option"
  tp_output :: "pyobj option"
  tp_error :: "string option"
  tp_awaiting :: "string option"
  tp_checkpoint :: "string option"
  tp_version :: "int option"
  tp_metadata :: "pyobj option"
  tp_completed :: "time option"

definition no_task_patch :: task_patch where
  "no_task_patch = \<lparr>tp_state = None, tp_attempt = None, tp_output = None, tp_error = None, tp_awaiting = None,
     tp_checkpoint = None, tp_version = None, tp_metadata = None, tp_completed = None\<rparr>"

text \<open>Leaving the permission wait clears the awaited approval.\<close>

definition task_values :: "time \<Rightarrow> time option \<Rightarrow> task_patch \<Rightarrow> task_row \<Rightarrow> task_row" where
  "task_values now done_at p r = r\<lparr>tk_updated := now, tk_state := keep (tp_state p) (tk_state r),
     tk_attempt := keep (tp_attempt p) (tk_attempt r), tk_output := or_else (tp_output p) (tk_output r),
     tk_error := or_else (tp_error p) (tk_error r),
     tk_awaiting := (case tp_awaiting p of Some a \<Rightarrow> Some a
       | None \<Rightarrow> if tp_state p \<noteq> None \<and> tp_state p \<noteq> Some TASK_WAITING_PERMISSION then None else tk_awaiting r),
     tk_checkpoint := or_else (tp_checkpoint p) (tk_checkpoint r),
     tk_version := keep (tp_version p) (tk_version r), tk_metadata := keep (tp_metadata p) (tk_metadata r),
     tk_completed := or_else done_at (tk_completed r)\<rparr>"

definition update_task :: "agent_env \<Rightarrow> string \<Rightarrow> task_patch \<Rightarrow> int option \<Rightarrow> (agent_scope, task_row option) act" where
  "update_task env k p expected = change_row ad_tasks put_tasks tk_id tk_version k expected
     (\<lambda>ex. act_bind (draw_time env) (\<lambda>now.
       act_bind (completion env (tp_completed p)
           (tp_state p \<in> {Some TASK_COMPLETED, Some TASK_FAILED, Some TASK_CANCELLED} \<and> tk_completed ex = None)) (\<lambda>done_at.
         act_return (task_values now done_at p))))"

subsection \<open>Workflows\<close>

definition put_workflows :: "workflow_row list \<Rightarrow> agent_db \<Rightarrow> agent_db" where
  "put_workflows rs db = db\<lparr>ad_workflows := rs\<rparr>"

definition insert_workflow :: "workflow_row \<Rightarrow> (agent_scope, bool) act" where
  "insert_workflow r = add_row ad_workflows put_workflows wr_id r"

definition get_workflow :: "string \<Rightarrow> (agent_scope, workflow_row option) act" where
  "get_workflow k = fetch ad_workflows wr_id k"

definition list_workflows :: "string option \<Rightarrow> (agent_scope, workflow_row list) act" where
  "list_workflows sid = select_rows ad_workflows (\<lambda>r. matches sid (wr_session r)) wr_created"

record workflow_patch =
  wp_state :: "workflow_state option"
  wp_nodes :: "(string \<times> workflow_node) list option"
  wp_edges :: "workflow_edge list option"
  wp_version :: "int option"
  wp_metadata :: "pyobj option"

definition no_workflow_patch :: workflow_patch where
  "no_workflow_patch = \<lparr>wp_state = None, wp_nodes = None, wp_edges = None, wp_version = None, wp_metadata = None\<rparr>"

definition workflow_values :: "time \<Rightarrow> workflow_patch \<Rightarrow> workflow_row \<Rightarrow> workflow_row" where
  "workflow_values now p r = r\<lparr>wr_updated := now, wr_state := keep (wp_state p) (wr_state r),
     wr_nodes := keep (wp_nodes p) (wr_nodes r), wr_edges := keep (wp_edges p) (wr_edges r),
     wr_version := keep (wp_version p) (wr_version r), wr_metadata := keep (wp_metadata p) (wr_metadata r)\<rparr>"

definition update_workflow ::
  "agent_env \<Rightarrow> string \<Rightarrow> workflow_patch \<Rightarrow> int option \<Rightarrow> (agent_scope, workflow_row option) act" where
  "update_workflow env k p expected = change_row ad_workflows put_workflows wr_id wr_version k expected
     (\<lambda>_. act_bind (draw_time env) (\<lambda>now. act_return (workflow_values now p)))"

subsection \<open>Steps\<close>

definition put_steps :: "step_row list \<Rightarrow> agent_db \<Rightarrow> agent_db" where
  "put_steps rs db = db\<lparr>ad_steps := rs\<rparr>"

definition insert_step :: "step_row \<Rightarrow> (agent_scope, bool) act" where
  "insert_step r = add_row ad_steps put_steps sr_id r"

definition get_step :: "string \<Rightarrow> (agent_scope, step_row option) act" where
  "get_step k = fetch ad_steps sr_id k"

definition list_steps :: "string option \<Rightarrow> string option \<Rightarrow> (agent_scope, step_row list) act" where
  "list_steps wid rid = select_rows ad_steps
     (\<lambda>r. matches wid (sr_workflow r) \<and> (rid = None \<or> sr_run r = rid)) sr_created"

definition get_step_by_node :: "string \<Rightarrow> string \<Rightarrow> (agent_scope, step_row option) act" where
  "get_step_by_node wid node s =
     (Inr (find (\<lambda>r. sr_workflow r = wid \<and> sr_node r = node) (ad_steps (as_db s))), s)"

record step_patch =
  sq_state :: "step_state option"
  sq_attempt :: "int option"
  sq_result :: "pyobj option"
  sq_error :: "string option"
  sq_version :: "int option"

definition no_step_patch :: step_patch where
  "no_step_patch = \<lparr>sq_state = None, sq_attempt = None, sq_result = None, sq_error = None, sq_version = None\<rparr>"

definition step_values :: "time \<Rightarrow> step_patch \<Rightarrow> step_row \<Rightarrow> step_row" where
  "step_values now p r = r\<lparr>sr_updated := now, sr_state := keep (sq_state p) (sr_state r),
     sr_attempt := keep (sq_attempt p) (sr_attempt r), sr_result := or_else (sq_result p) (sr_result r),
     sr_error := or_else (sq_error p) (sr_error r), sr_version := keep (sq_version p) (sr_version r)\<rparr>"

definition update_step :: "agent_env \<Rightarrow> string \<Rightarrow> step_patch \<Rightarrow> int option \<Rightarrow> (agent_scope, step_row option) act" where
  "update_step env k p expected = change_row ad_steps put_steps sr_id sr_version k expected
     (\<lambda>_. act_bind (draw_time env) (\<lambda>now. act_return (step_values now p)))"

subsection \<open>Checkpoints\<close>

text \<open>A second checkpoint of the same run with the same sequence number is refused, whatever its task.\<close>

definition put_checkpoints :: "checkpoint_row list \<Rightarrow> agent_db \<Rightarrow> agent_db" where
  "put_checkpoints rs db = db\<lparr>ad_checkpoints := rs\<rparr>"

definition insert_checkpoint :: "checkpoint_row \<Rightarrow> (agent_scope, bool) act" where
  "insert_checkpoint r s =
     (if find (\<lambda>x. cp_id x = cp_id r) (ad_checkpoints (as_db s)) \<noteq> None then (Inr False, s)
      else if find (\<lambda>x. cp_run x = cp_run r \<and> cp_seq x = cp_seq r) (ad_checkpoints (as_db s)) \<noteq> None then (Inr False, s)
      else (Inr True, s\<lparr>as_db := put_checkpoints (ad_checkpoints (as_db s) @ [r]) (as_db s)\<rparr>))"

definition get_checkpoint :: "string \<Rightarrow> (agent_scope, checkpoint_row option) act" where
  "get_checkpoint k = fetch ad_checkpoints cp_id k"

definition list_checkpoints :: "string option \<Rightarrow> string option \<Rightarrow> (agent_scope, checkpoint_row list) act" where
  "list_checkpoints rid tid = select_rows ad_checkpoints
     (\<lambda>r. matches rid (cp_run r) \<and> (tid = None \<or> cp_task r = tid)) cp_seq"

subsection \<open>Approvals\<close>

definition put_approvals :: "approval_row list \<Rightarrow> agent_db \<Rightarrow> agent_db" where
  "put_approvals rs db = db\<lparr>ad_approvals := rs\<rparr>"

definition insert_approval :: "approval_row \<Rightarrow> (agent_scope, bool) act" where
  "insert_approval r = add_row ad_approvals put_approvals ap_id r"

definition get_approval :: "string \<Rightarrow> (agent_scope, approval_row option) act" where
  "get_approval k = fetch ad_approvals ap_id k"

definition list_approvals :: "string option \<Rightarrow> string option \<Rightarrow> (agent_scope, approval_row list) act" where
  "list_approvals tid st = select_rows ad_approvals
     (\<lambda>r. matches tid (ap_task r) \<and> matches st (approval_value (ap_state r))) ap_created"

definition approval_values :: "time option \<Rightarrow> approval_state option \<Rightarrow> pyobj option \<Rightarrow> approval_row \<Rightarrow> approval_row" where
  "approval_values at_time st res r = r\<lparr>ap_state := keep st (ap_state r),
     ap_resolved := or_else at_time (ap_resolved r), ap_resolution := or_else res (ap_resolution r)\<rparr>"

definition update_approval ::
  "agent_env \<Rightarrow> string \<Rightarrow> approval_state option \<Rightarrow> pyobj option \<Rightarrow> approval_state option
     \<Rightarrow> (agent_scope, approval_row option) act" where
  "update_approval env k st res expected = change_row ad_approvals put_approvals ap_id ap_state k expected
     (\<lambda>_. act_bind (completion env None (st \<in> {Some APR_APPROVED, Some APR_DENIED, Some APR_EXPIRED}))
       (\<lambda>t. act_return (approval_values t st res)))"

subsection \<open>Delegations\<close>

definition put_delegations :: "delegation_row list \<Rightarrow> agent_db \<Rightarrow> agent_db" where
  "put_delegations rs db = db\<lparr>ad_delegations := rs\<rparr>"

definition insert_delegation :: "delegation_row \<Rightarrow> (agent_scope, bool) act" where
  "insert_delegation r = add_row ad_delegations put_delegations dl_id r"

definition get_delegation :: "string \<Rightarrow> (agent_scope, delegation_row option) act" where
  "get_delegation k = fetch ad_delegations dl_id k"

definition list_delegations :: "string option \<Rightarrow> string option \<Rightarrow> (agent_scope, delegation_row list) act" where
  "list_delegations parent child = select_rows ad_delegations
     (\<lambda>r. matches parent (dl_parent r) \<and> matches child (dl_child r)) dl_created"

definition delegation_values :: "time option \<Rightarrow> delegation_status option \<Rightarrow> delegation_row \<Rightarrow> delegation_row" where
  "delegation_values at_time st r = r\<lparr>dl_status := keep st (dl_status r), dl_completed := or_else at_time (dl_completed r)\<rparr>"

definition update_delegation ::
  "agent_env \<Rightarrow> string \<Rightarrow> delegation_status option \<Rightarrow> (agent_scope, delegation_row option) act" where
  "update_delegation env k st = change_row ad_delegations put_delegations dl_id dl_status k None
     (\<lambda>_. act_bind (completion env None (st \<in> {Some DEL_COMPLETED, Some DEL_FAILED, Some DEL_CANCELLED}))
       (\<lambda>t. act_return (delegation_values t st)))"

section \<open>Events\<close>

text \<open>
  The envelopes of the factory; identifier and instant are filled in when the envelope is
  constructed, the sequence when it is recorded.
\<close>

definition agent_event :: "string \<Rightarrow> string \<Rightarrow> string \<Rightarrow> (string \<times> string) list \<Rightarrow> event_envelope" where
  "agent_event ty agg ai kvs =
     \<lparr>ev_type = ty, ev_aggregate_type = agg, ev_aggregate_id = ai, ev_sequence = 0,
      ev_payload = PMap False (map (\<lambda>(k, v). (PStr k, PStr v)) kvs), ev_id = [], ev_version = 1,
      ev_occurred_at = 0, ev_actor_id = None, ev_correlation_id = None, ev_causation_id = None\<rparr>"

definition session_created :: "string \<Rightarrow> string \<Rightarrow> event_envelope" where
  "session_created sid actor = agent_event ''agent_runtime.session.created'' ''agent_session'' sid
     [(''session_id'', sid), (''actor_id'', actor)]"

definition session_transitioned :: "string \<Rightarrow> string \<Rightarrow> string \<Rightarrow> event_envelope" where
  "session_transitioned sid a b = agent_event ''agent_runtime.session.transitioned'' ''agent_session'' sid
     [(''session_id'', sid), (''from_state'', a), (''to_state'', b)]"

definition run_created :: "string \<Rightarrow> string \<Rightarrow> event_envelope" where
  "run_created rid sid = agent_event ''agent_runtime.run.created'' ''agent_run'' rid
     [(''run_id'', rid), (''session_id'', sid)]"

definition run_transitioned :: "string \<Rightarrow> string \<Rightarrow> string \<Rightarrow> event_envelope" where
  "run_transitioned rid a b = agent_event ''agent_runtime.run.transitioned'' ''agent_run'' rid
     [(''run_id'', rid), (''from_state'', a), (''to_state'', b)]"

definition run_budget_exhausted :: "string \<Rightarrow> string \<Rightarrow> event_envelope" where
  "run_budget_exhausted rid reason = agent_event ''agent_runtime.run.budget_exhausted'' ''agent_run'' rid
     [(''run_id'', rid), (''reason'', reason)]"

definition task_created :: "string \<Rightarrow> string \<Rightarrow> event_envelope" where
  "task_created tid sid = agent_event ''agent_runtime.task.created'' ''agent_task'' tid
     [(''task_id'', tid), (''session_id'', sid)]"

definition task_transitioned :: "string \<Rightarrow> string \<Rightarrow> string \<Rightarrow> event_envelope" where
  "task_transitioned tid a b = agent_event ''agent_runtime.task.transitioned'' ''agent_task'' tid
     [(''task_id'', tid), (''from_state'', a), (''to_state'', b)]"

definition task_completed :: "string \<Rightarrow> event_envelope" where
  "task_completed tid = agent_event ''agent_runtime.task.completed'' ''agent_task'' tid [(''task_id'', tid)]"

definition task_failed :: "string \<Rightarrow> string \<Rightarrow> event_envelope" where
  "task_failed tid err = agent_event ''agent_runtime.task.failed'' ''agent_task'' tid
     [(''task_id'', tid), (''error'', err)]"

definition workflow_created :: "string \<Rightarrow> string \<Rightarrow> event_envelope" where
  "workflow_created wid sid = agent_event ''agent_runtime.workflow.created'' ''agent_workflow'' wid
     [(''workflow_id'', wid), (''session_id'', sid)]"

definition workflow_transitioned :: "string \<Rightarrow> string \<Rightarrow> string \<Rightarrow> event_envelope" where
  "workflow_transitioned wid a b = agent_event ''agent_runtime.workflow.transitioned'' ''agent_workflow'' wid
     [(''workflow_id'', wid), (''from_state'', a), (''to_state'', b)]"

definition checkpoint_created :: "string \<Rightarrow> string \<Rightarrow> event_envelope" where
  "checkpoint_created cid rid = agent_event ''agent_runtime.checkpoint.created'' ''agent_checkpoint'' cid
     [(''checkpoint_id'', cid), (''run_id'', rid)]"

definition approval_requested :: "string \<Rightarrow> string \<Rightarrow> event_envelope" where
  "approval_requested aid tid = agent_event ''agent_runtime.approval.requested'' ''agent_approval'' aid
     [(''approval_id'', aid), (''task_id'', tid)]"

definition approval_resolved :: "string \<Rightarrow> string \<Rightarrow> event_envelope" where
  "approval_resolved aid st = agent_event ''agent_runtime.approval.resolved'' ''agent_approval'' aid
     [(''approval_id'', aid), (''state'', st)]"

definition delegation_created :: "string \<Rightarrow> string \<Rightarrow> string \<Rightarrow> event_envelope" where
  "delegation_created did p c = agent_event ''agent_runtime.delegation.created'' ''agent_delegation'' did
     [(''delegation_id'', did), (''parent_run_id'', p), (''child_run_id'', c)]"

definition delegation_transitioned :: "string \<Rightarrow> string \<Rightarrow> event_envelope" where
  "delegation_transitioned did st = agent_event ''agent_runtime.delegation.transitioned'' ''agent_delegation'' did
     [(''delegation_id'', did), (''status'', st)]"

text \<open>\<^verbatim>\<open>SqlTransactionScope.record_event\<close>; the scope of the module has no checkpoint hook.\<close>

definition record_event :: "agent_env \<Rightarrow> event_envelope \<Rightarrow> (agent_scope, unit) act" where
  "record_event env e =
     act_bind (draw_id env) (\<lambda>eid. act_bind (draw_time env) (\<lambda>occurred.
       case make_envelope (e\<lparr>ev_id := eid, ev_occurred_at := occurred\<rparr>) of Inl x \<Rightarrow> act_raise x
       | Inr w \<Rightarrow> act_bind (draw_time env) (\<lambda>now. act_bind (draw_id env) (\<lambda>rid s.
           case record_next no_hook now rid w None (ad_outbox (as_db s)) of Inl x \<Rightarrow> (Inl x, s)
           | Inr (b, ob) \<Rightarrow> (Inr (), s\<lparr>as_db := (as_db s)\<lparr>ad_outbox := ob\<rparr>\<rparr>)))))"

end
