(* ===== verification/Agent_Service.thy ===== *)
theory Agent_Service
  imports Agent_Store
begin

text \<open>
  The commands of \<^verbatim>\<open>AgentRuntimeService\<close> (\<^verbatim>\<open>modules/agent_runtime/application/services.py\<close>): each runs
  its body in one transaction scope over the store, checks the optimistic version the caller
  expects, moves the aggregate along its lifecycle, records the events and commits. A view is the
  row with its JSON columns parsed, which is what the rows of the model already are.
\<close>

abbreviation VALIDATION_ERR :: exn where "VALIDATION_ERR \<equiv> DomainErr ''AgentRuntimeValidationError''"
abbreviation NOT_FOUND_ERR :: exn where "NOT_FOUND_ERR \<equiv> DomainErr ''AgentRuntimeNotFoundError''"
abbreviation STALE_ERR :: exn where "STALE_ERR \<equiv> DomainErr ''AgentRuntimeStaleVersionError''"
abbreviation WORKFLOW_ERR :: exn where "WORKFLOW_ERR \<equiv> DomainErr ''AgentRuntimeWorkflowError''"

definition or_empty :: "pyobj option \<Rightarrow> pyobj" where
  "or_empty m = (case m of None \<Rightarrow> PMap False [] | Some x \<Rightarrow> x)"

definition outdated :: "int option \<Rightarrow> int \<Rightarrow> bool" where
  "outdated expected v \<longleftrightarrow> expected \<noteq> None \<and> expected \<noteq> Some v"

text \<open>Reading a row that must exist.\<close>

definition require_row :: "(agent_scope, 'r option) act \<Rightarrow> (agent_scope, 'r) act" where
  "require_row m = act_bind m (\<lambda>x. case x of None \<Rightarrow> act_raise NOT_FOUND_ERR | Some r \<Rightarrow> act_return r)"

definition check_row :: "string option \<Rightarrow> (string \<Rightarrow> (agent_scope, 'r option) act) \<Rightarrow> (agent_scope, unit) act" where
  "check_row k get_it =
     (case k of None \<Rightarrow> act_return ()
      | Some i \<Rightarrow> act_bind (require_row (get_it i)) (\<lambda>_. act_return ()))"

definition require_updated :: "(agent_scope, 'r option) act \<Rightarrow> (agent_scope, 'r) act" where
  "require_updated m = act_bind m (\<lambda>x. case x of None \<Rightarrow> act_raise STALE_ERR | Some r \<Rightarrow> act_return r)"

definition require_inserted :: "(agent_scope, bool) act \<Rightarrow> (agent_scope, unit) act" where
  "require_inserted m = act_bind m (\<lambda>ok. if ok then act_return () else act_raise VALIDATION_ERR)"

definition act_when :: "bool \<Rightarrow> ('s, unit) act \<Rightarrow> ('s, unit) act" where
  "act_when b m = (if b then m else act_return ())"

definition act_check :: "bool \<Rightarrow> exn \<Rightarrow> ('s, unit) act" where
  "act_check b e = (if b then act_return () else act_raise e)"

definition act_of :: "exn + 'a \<Rightarrow> ('s, 'a) act" where
  "act_of r = (case r of Inl e \<Rightarrow> act_raise e | Inr x \<Rightarrow> act_return x)"

section \<open>Sessions\<close>

definition create_session ::
  "agent_env \<Rightarrow> string \<Rightarrow> string \<Rightarrow> (string \<times> pyobj) list option \<Rightarrow> pyobj option \<Rightarrow> (agent_world, session_row) act" where
  "create_session env actor title limits metadata =
     (if py_strip actor = [] then act_raise VALIDATION_ERR
      else case clamp_limits (ae_parse_limits env) (Limits_Dict (keep limits [])) of Inl e \<Rightarrow> act_raise e
      | Inr lims \<Rightarrow> in_scope (
          act_bind (draw_id env) (\<lambda>sid. act_bind (draw_time env) (\<lambda>now.
          act_bind (require_inserted (insert_session
            \<lparr>ss_id = sid, ss_actor = py_strip actor,
             ss_title = (if py_strip title \<noteq> [] then py_strip title else ''Untitled session''),
             ss_state = SES_IDLE, ss_limits = lims, ss_usage = no_usage, ss_created = now, ss_updated = now,
             ss_version = 0, ss_metadata = or_empty metadata\<rparr>)) (\<lambda>_.
          act_bind (record_event env (session_created sid (py_strip actor))) (\<lambda>_.
          act_bind commit_scope (\<lambda>_.
          act_bind (get_session sid) act_assert)))))))"

definition transition_session ::
  "agent_env \<Rightarrow> string \<Rightarrow> string \<Rightarrow> int option \<Rightarrow> (agent_world, session_row) act" where
  "transition_session env sid target_state expected =
     (case session_parse target_state of None \<Rightarrow> act_raise VALIDATION_ERR
      | Some target \<Rightarrow> in_scope (
          act_bind (require_row (get_session sid)) (\<lambda>ex.
          act_bind (act_check (\<not> outdated expected (ss_version ex)) STALE_ERR) (\<lambda>_.
          act_bind (act_of (session_transition (ss_state ex) target)) (\<lambda>_.
          if ss_state ex = target then act_return ex
          else act_bind (require_updated (update_session env sid
                 (no_session_patch\<lparr>sp_state := Some target, sp_version := Some (ss_version ex + 1)\<rparr>)
                 (Some (keep expected (ss_version ex))))) (\<lambda>updated.
               act_bind (record_event env
                 (session_transitioned sid (session_value (ss_state ex)) (session_value target))) (\<lambda>_.
               act_bind commit_scope (\<lambda>_. act_return updated)))))))) "

definition read_session :: "string \<Rightarrow> (agent_world, session_row) act" where
  "read_session sid = in_scope (require_row (get_session sid))"

definition all_sessions :: "string option \<Rightarrow> (agent_world, session_row list) act" where
  "all_sessions actor = in_scope (list_sessions actor)"

section \<open>Runs\<close>

definition create_run ::
  "agent_env \<Rightarrow> string \<Rightarrow> string option \<Rightarrow> string \<Rightarrow> (string \<times> pyobj) list option \<Rightarrow> int \<Rightarrow> rat option \<Rightarrow> pyobj option
     \<Rightarrow> (agent_world, run_row) act" where
  "create_run env sid parent_id scope_text limits max_attempts timeout metadata =
     (if py_strip sid = [] then act_raise VALIDATION_ERR
      else if max_attempts < 1 then act_raise VALIDATION_ERR
      else if (case timeout of None \<Rightarrow> False | Some t \<Rightarrow> t \<le> 0) then act_raise VALIDATION_ERR
      else case scope_parse scope_text of None \<Rightarrow> act_raise VALIDATION_ERR
      | Some scope \<Rightarrow> case clamp_limits (ae_parse_limits env) (Limits_Dict (keep limits [])) of Inl e \<Rightarrow> act_raise e
      | Inr requested \<Rightarrow> in_scope (
          act_bind (require_row (get_session sid)) (\<lambda>_.
          act_bind (case parent_id of None \<Rightarrow> act_return requested
            | Some pid \<Rightarrow> act_bind (require_row (get_run pid)) (\<lambda>parent.
                act_bind (act_check (rn_session parent = sid) VALIDATION_ERR) (\<lambda>_.
                act_return (inherit_limits (rn_limits parent) requested)))) (\<lambda>lims.
          act_bind (draw_id env) (\<lambda>rid. act_bind (draw_time env) (\<lambda>now.
          act_bind (require_inserted (insert_run
            \<lparr>rn_id = rid, rn_session = sid, rn_parent = parent_id, rn_state = LOOP_CREATED, rn_scope = scope,
             rn_limits = lims, rn_usage = no_usage, rn_exhaustion = None, rn_attempt = 1,
             rn_max_attempts = max_attempts, rn_timeout = timeout, rn_created = now, rn_updated = now,
             rn_completed = None, rn_version = 0, rn_metadata = or_empty metadata\<rparr>)) (\<lambda>_.
          act_bind (record_event env (run_created rid sid)) (\<lambda>_.
          act_bind commit_scope (\<lambda>_.
          act_bind (get_run rid) act_assert)))))))))"

definition transition_run ::
  "agent_env \<Rightarrow> string \<Rightarrow> string \<Rightarrow> int option \<Rightarrow> string option \<Rightarrow> (agent_world, run_row) act" where
  "transition_run env rid target_state expected exhaustion =
     (case loop_parse target_state of None \<Rightarrow> act_raise VALIDATION_ERR
      | Some target \<Rightarrow> in_scope (
          act_bind (require_row (get_run rid)) (\<lambda>ex.
          act_bind (act_check (\<not> outdated expected (rn_version ex)) STALE_ERR) (\<lambda>_.
          act_bind (act_of (loop_transition (rn_state ex) target)) (\<lambda>_.
          if rn_state ex = target then act_return ex
          else act_bind (if target \<in> {LOOP_FAILED, LOOP_CANCELLED, LOOP_COMPLETED, LOOP_ORPHANED}
                 then act_bind (draw_time env) (\<lambda>t. act_return (Some t)) else act_return (rn_completed ex)) (\<lambda>done_at.
               act_bind (require_updated (update_run env rid
                 (no_run_patch\<lparr>rp_state := Some target, rp_exhaustion := exhaustion,
                    rp_version := Some (rn_version ex + 1), rp_completed := done_at\<rparr>)
                 (Some (keep expected (rn_version ex))))) (\<lambda>updated.
               act_bind (record_event env (run_transitioned rid (loop_value (rn_state ex)) (loop_value target))) (\<lambda>_.
               act_bind (case exhaustion of None \<Rightarrow> act_return ()
                 | Some reason \<Rightarrow> record_event env (run_budget_exhausted rid reason)) (\<lambda>_.
               act_bind commit_scope (\<lambda>_. act_return updated))))))))))"

datatype py_num = NInt int | NFloat rat

fun py_int :: "py_num \<Rightarrow> int" where
  "py_int (NInt i) = i"
| "py_int (NFloat x) = (if x < 0 then - \<lfloor>- x\<rfloor> else \<lfloor>x\<rfloor>)"

fun py_float :: "py_num \<Rightarrow> rat" where
  "py_float (NInt i) = of_int i"
| "py_float (NFloat x) = x"

text \<open>One item of the patch; an unknown field is passed over.\<close>

definition usage_add :: "budget_usage \<Rightarrow> string \<times> py_num \<Rightarrow> budget_usage" where
  "usage_add u kd = (case kd of (k, d) \<Rightarrow>
     if k = ''turns'' then u\<lparr>bu_turns := bu_turns u + py_int d\<rparr>
     else if k = ''wall_time_seconds'' then u\<lparr>bu_wall_time_seconds := bu_wall_time_seconds u + py_int d\<rparr>
     else if k = ''tokens'' then u\<lparr>bu_tokens := bu_tokens u + py_int d\<rparr>
     else if k = ''cost_usd'' then u\<lparr>bu_cost_usd := bu_cost_usd u + py_float d\<rparr>
     else if k = ''model_failures'' then u\<lparr>bu_model_failures := bu_model_failures u + py_int d\<rparr>
     else if k = ''tool_failures'' then u\<lparr>bu_tool_failures := bu_tool_failures u + py_int d\<rparr>
     else if k = ''retries'' then u\<lparr>bu_retries := bu_retries u + py_int d\<rparr>
     else if k = ''child_agents'' then u\<lparr>bu_child_agents := bu_child_agents u + py_int d\<rparr>
     else if k = ''recursion_depth'' then u\<lparr>bu_recursion_depth := bu_recursion_depth u + py_int d\<rparr>
     else u)"

definition usage_valid :: "budget_usage \<Rightarrow> bool" where
  "usage_valid u \<longleftrightarrow> 0 \<le> bu_turns u \<and> 0 \<le> bu_wall_time_seconds u \<and> 0 \<le> bu_tokens u \<and> 0 \<le> bu_cost_usd u
     \<and> 0 \<le> bu_model_failures u \<and> 0 \<le> bu_tool_failures u \<and> 0 \<le> bu_retries u \<and> 0 \<le> bu_child_agents u
     \<and> 0 \<le> bu_recursion_depth u"

definition run_exhaustion :: "budget_limits \<Rightarrow> budget_usage \<Rightarrow> string option" where
  "run_exhaustion lims u =
     (if reached (bl_turns lims) (bu_turns u) then Some ''max_turns''
      else if reached (bl_tokens lims) (bu_tokens u) then Some ''max_tokens''
      else if reached (bl_cost_usd lims) (bu_cost_usd u) then Some ''max_cost_usd''
      else if reached (bl_wall_time_seconds lims) (bu_wall_time_seconds u) then Some ''max_wall_time_seconds''
      else if reached (bl_model_failures lims) (bu_model_failures u) then Some ''max_model_failures''
      else if reached (bl_tool_failures lims) (bu_tool_failures u) then Some ''max_tool_failures''
      else if reached (bl_retries lims) (bu_retries u) then Some ''max_retries''
      else if reached (bl_child_agents lims) (bu_child_agents u) then Some ''max_child_agents''
      else if reached (bl_recursion_depth lims) (bu_recursion_depth u) then Some ''max_recursion_depth''
      else None)"

definition read_run :: "string \<Rightarrow> (agent_world, run_row) act" where
  "read_run rid = in_scope (require_row (get_run rid))"

definition all_runs :: "string option \<Rightarrow> string option \<Rightarrow> (agent_world, run_row list) act" where
  "all_runs sid parent = in_scope (list_runs sid parent)"

definition record_run_budget_usage ::
  "agent_env \<Rightarrow> string \<Rightarrow> (string \<times> py_num) list \<Rightarrow> int option \<Rightarrow> (agent_world, run_row) act" where
  "record_run_budget_usage env rid patch expected =
     (if patch = [] then read_run rid
      else in_scope (
        act_bind (require_row (get_run rid)) (\<lambda>ex.
        act_bind (act_check (\<not> outdated expected (rn_version ex)) STALE_ERR) (\<lambda>_.
        let usage = foldl usage_add (rn_usage ex) patch;
            reason = run_exhaustion (rn_limits ex) usage
        in act_bind (act_check (usage_valid usage) (ValueError ''AgentBudgetUsage'')) (\<lambda>_.
        act_bind (require_updated (update_run env rid
          (no_run_patch\<lparr>rp_usage := Some usage, rp_exhaustion := reason, rp_version := Some (rn_version ex + 1)\<rparr>)
          (Some (keep expected (rn_version ex))))) (\<lambda>updated.
        act_bind (case reason of None \<Rightarrow> act_return ()
          | Some why \<Rightarrow> act_when (rn_state updated \<noteq> LOOP_FAILED) (act_ignore (
              act_bind (update_run env rid
                (no_run_patch\<lparr>rp_state := Some LOOP_FAILED, rp_exhaustion := Some why,
                   rp_version := Some (rn_version updated + 1)\<rparr>)
                (Some (rn_version updated))) (\<lambda>_.
              act_bind (get_run rid) (\<lambda>_.
              act_bind (record_event env (run_budget_exhausted rid why)) (\<lambda>_.
              record_event env (run_transitioned rid (loop_value (rn_state ex)) (loop_value LOOP_FAILED)))))))) (\<lambda>_.
        act_bind commit_scope (\<lambda>_.
        act_bind (get_run rid) act_assert))))))))"

section \<open>Tasks\<close>

definition create_task ::
  "agent_env \<Rightarrow> string \<Rightarrow> string \<Rightarrow> string \<Rightarrow> string option \<Rightarrow> string option \<Rightarrow> int \<Rightarrow> int \<Rightarrow> rat option \<Rightarrow> pyobj option
     \<Rightarrow> pyobj option \<Rightarrow> (agent_world, task_row) act" where
  "create_task env sid title description rid wid priority max_attempts timeout input metadata =
     (if py_strip title = [] then act_raise VALIDATION_ERR
      else if max_attempts < 1 then act_raise VALIDATION_ERR
      else if (case timeout of None \<Rightarrow> False | Some t \<Rightarrow> t \<le> 0) then act_raise VALIDATION_ERR
      else in_scope (
        act_bind (draw_id env) (\<lambda>tid. act_bind (draw_time env) (\<lambda>now.
        act_bind (require_row (get_session sid)) (\<lambda>_.
        act_bind (check_row rid get_run) (\<lambda>_.
        act_bind (check_row wid get_workflow) (\<lambda>_.
        act_bind (require_inserted (insert_task
          \<lparr>tk_id = tid, tk_session = sid, tk_run = rid, tk_workflow = wid, tk_title = py_strip title,
           tk_description = description, tk_state = TASK_RECEIVED, tk_priority = priority, tk_attempt = 1,
           tk_max_attempts = max_attempts, tk_timeout = timeout, tk_input = or_empty input, tk_output = None,
           tk_error = None, tk_awaiting = None, tk_checkpoint = None, tk_created = now, tk_updated = now,
           tk_completed = None, tk_version = 0, tk_metadata = or_empty metadata\<rparr>)) (\<lambda>_.
        act_bind (record_event env (task_created tid sid)) (\<lambda>_.
        act_bind commit_scope (\<lambda>_.
        act_bind (get_task tid) act_assert))))))))))"

definition transition_task :: "agent_env \<Rightarrow> string \<Rightarrow> string \<Rightarrow> int option \<Rightarrow> (agent_world, task_row) act" where
  "transition_task env tid target_state expected =
     (case task_parse target_state of None \<Rightarrow> act_raise VALIDATION_ERR
      | Some target \<Rightarrow> in_scope (
          act_bind (require_row (get_task tid)) (\<lambda>ex.
          act_bind (act_check (\<not> outdated expected (tk_version ex)) STALE_ERR) (\<lambda>_.
          act_bind (act_of (task_transition (tk_state ex) target)) (\<lambda>_.
          if tk_state ex = target then act_return ex
          else act_bind (if target \<in> {TASK_COMPLETED, TASK_FAILED, TASK_CANCELLED}
                 then act_bind (draw_time env) (\<lambda>t. act_return (Some t)) else act_return None) (\<lambda>done_at.
               act_bind (require_updated (update_task env tid
                 (no_task_patch\<lparr>tp_state := Some target, tp_version := Some (tk_version ex + 1),
                    tp_completed := done_at\<rparr>)
                 (Some (keep expected (tk_version ex))))) (\<lambda>updated.
               act_bind (record_event env (task_transitioned tid (task_value (tk_state ex)) (task_value target))) (\<lambda>_.
               act_bind (if target = TASK_COMPLETED then record_event env (task_completed tid)
                 else if target = TASK_FAILED then record_event env (task_failed tid (keep (tk_error updated) []))
                 else act_return ()) (\<lambda>_.
               act_bind commit_scope (\<lambda>_. act_return updated))))))))))"

definition complete_task :: "agent_env \<Rightarrow> string \<Rightarrow> pyobj option \<Rightarrow> int option \<Rightarrow> (agent_world, task_row) act" where
  "complete_task env tid output expected = in_scope (
     act_bind (require_row (get_task tid)) (\<lambda>ex.
     act_bind (act_check (\<not> outdated expected (tk_version ex)) STALE_ERR) (\<lambda>_.
     act_bind (act_of (task_transition (tk_state ex) TASK_COMPLETED)) (\<lambda>_.
     act_bind (draw_time env) (\<lambda>done_at.
     act_bind (require_updated (update_task env tid
       (no_task_patch\<lparr>tp_state := Some TASK_COMPLETED, tp_output := Some (or_empty output),
          tp_version := Some (tk_version ex + 1), tp_completed := Some done_at\<rparr>)
       (Some (keep expected (tk_version ex))))) (\<lambda>updated.
     act_bind (record_event env (task_transitioned tid (task_value (tk_state ex)) (task_value TASK_COMPLETED))) (\<lambda>_.
     act_bind (record_event env (task_completed tid)) (\<lambda>_.
     act_bind commit_scope (\<lambda>_. act_return updated)))))))))"

definition fail_task :: "agent_env \<Rightarrow> string \<Rightarrow> string \<Rightarrow> int option \<Rightarrow> (agent_world, task_row) act" where
  "fail_task env tid err expected = in_scope (
     act_bind (require_row (get_task tid)) (\<lambda>ex.
     act_bind (act_check (\<not> outdated expected (tk_version ex)) STALE_ERR) (\<lambda>_.
     act_bind (act_check (tk_state ex \<notin> {TASK_COMPLETED, TASK_FAILED, TASK_CANCELLED}) VALIDATION_ERR) (\<lambda>_.
     act_bind (act_of (task_transition (tk_state ex) TASK_FAILED)) (\<lambda>_.
     act_bind (draw_time env) (\<lambda>done_at.
     act_bind (require_updated (update_task env tid
       (no_task_patch\<lparr>tp_state := Some TASK_FAILED, tp_error := Some (if err \<noteq> [] then err else ''task failed''),
          tp_version := Some (tk_version ex + 1), tp_completed := Some done_at\<rparr>)
       (Some (keep expected (tk_version ex))))) (\<lambda>updated.
     act_bind (record_event env (task_transitioned tid (task_value (tk_state ex)) (task_value TASK_FAILED))) (\<lambda>_.
     act_bind (record_event env (task_failed tid err)) (\<lambda>_.
     act_bind commit_scope (\<lambda>_. act_return updated))))))))))"

text \<open>
  The first and the third branch of \<^verbatim>\<open>retry_task\<close> take two hops, through the retry wait; a task that waits
  for a retry or recovers takes one. The absent error leaves the column alone.
\<close>

definition retry_two_hops :: "agent_env \<Rightarrow> string \<Rightarrow> task_row \<Rightarrow> int option \<Rightarrow> (agent_scope, task_row) act" where
  "retry_two_hops env tid ex expected =
     act_bind (act_of (task_transition (tk_state ex) TASK_RETRY_WAIT)) (\<lambda>_.
     act_bind (require_updated (update_task env tid
       (no_task_patch\<lparr>tp_state := Some TASK_RETRY_WAIT, tp_attempt := Some (tk_attempt ex + 1), tp_error := None,
          tp_version := Some (tk_version ex + 1)\<rparr>)
       (Some (keep expected (tk_version ex))))) (\<lambda>_.
     act_bind (record_event env (task_transitioned tid (task_value (tk_state ex)) (task_value TASK_RETRY_WAIT))) (\<lambda>_.
     act_bind (act_bind (get_task tid) act_assert) (\<lambda>after.
     act_bind (act_of (task_transition (tk_state after) TASK_RUNNING)) (\<lambda>_.
     act_bind (require_updated (update_task env tid
       (no_task_patch\<lparr>tp_state := Some TASK_RUNNING, tp_version := Some (tk_version after + 1)\<rparr>)
       (Some (tk_version after)))) (\<lambda>updated.
     act_bind (record_event env (task_transitioned tid (task_value TASK_RETRY_WAIT) (task_value TASK_RUNNING))) (\<lambda>_.
     act_bind commit_scope (\<lambda>_. act_return updated))))))))"

definition retry_task :: "agent_env \<Rightarrow> string \<Rightarrow> int option \<Rightarrow> (agent_world, task_row) act" where
  "retry_task env tid expected = in_scope (
     act_bind (require_row (get_task tid)) (\<lambda>ex.
     act_bind (act_check (\<not> outdated expected (tk_version ex)) STALE_ERR) (\<lambda>_.
     act_bind (act_check (tk_attempt ex < tk_max_attempts ex) VALIDATION_ERR) (\<lambda>_.
     if tk_state ex = TASK_FAILED then retry_two_hops env tid ex expected
     else if tk_state ex \<in> {TASK_RETRY_WAIT, TASK_RECOVERING}
     then act_bind (act_of (task_transition (tk_state ex) TASK_RUNNING)) (\<lambda>_.
          act_bind (require_updated (update_task env tid
            (no_task_patch\<lparr>tp_state := Some TASK_RUNNING, tp_attempt := Some (tk_attempt ex + 1), tp_error := None,
               tp_version := Some (tk_version ex + 1)\<rparr>)
            (Some (keep expected (tk_version ex))))) (\<lambda>updated.
          act_bind (record_event env (task_transitioned tid (task_value (tk_state ex)) (task_value TASK_RUNNING))) (\<lambda>_.
          act_bind commit_scope (\<lambda>_. act_return updated))))
     else retry_two_hops env tid ex expected))))"

definition read_task :: "string \<Rightarrow> (agent_world, task_row) act" where
  "read_task tid = in_scope (require_row (get_task tid))"

definition all_tasks ::
  "string option \<Rightarrow> string option \<Rightarrow> string option \<Rightarrow> string option \<Rightarrow> (agent_world, task_row list) act" where
  "all_tasks sid rid wid st = in_scope (list_tasks sid rid wid st)"

section \<open>Workflows\<close>

text \<open>The payloads of nodes and edges as the caller sends them; \<open>None\<close> is a payload that is no dictionary.\<close>

record raw_node =
  rw_id :: "string option"
  rw_name :: "string option"
  rw_tool_name :: "string option"
  rw_params :: "(string \<times> pyobj) list option"
  rw_priority :: "int option"
  rw_timeout :: "rat option"
  rw_max_attempts :: "int option"

record raw_edge =
  rg_from :: "string option"
  rg_to :: "string option"
  rg_condition :: "string option"
  rg_type :: "string option"

definition text_or :: "string option \<Rightarrow> string \<Rightarrow> string" where
  "text_or t other = (case t of None \<Rightarrow> other | Some x \<Rightarrow> if x = [] then other else x)"

definition int_or :: "int option \<Rightarrow> int \<Rightarrow> int" where
  "int_or i other = (case i of None \<Rightarrow> other | Some x \<Rightarrow> if x = 0 then other else x)"

text \<open>
  The constructors: a blank name raises at once, the length and range checks of the fields are
  reported together afterwards.
\<close>

definition make_node :: "workflow_node \<Rightarrow> exn + workflow_node" where
  "make_node n =
     (if wn_id n \<noteq> [] \<and> py_strip (wn_id n) = [] \<or> wn_name n \<noteq> [] \<and> py_strip (wn_name n) = [] then Inl WORKFLOW_ERR
      else if wn_id n = [] \<or> wn_name n = [] \<or> (case wn_timeout n of None \<Rightarrow> False | Some t \<Rightarrow> t \<le> 0) \<or> wn_max_attempts n < 1
      then Inl (ValueError ''WorkflowNode'')
      else Inr (n\<lparr>wn_id := py_strip (wn_id n), wn_name := py_strip (wn_name n)\<rparr>))"

definition make_edge :: "workflow_edge \<Rightarrow> exn + workflow_edge" where
  "make_edge e =
     (if we_from e \<noteq> [] \<and> py_strip (we_from e) = [] \<or> we_to e \<noteq> [] \<and> py_strip (we_to e) = [] then Inl WORKFLOW_ERR
      else if we_from e = [] \<or> we_to e = [] then Inl (ValueError ''WorkflowEdge'')
      else Inr (e\<lparr>we_from := py_strip (we_from e), we_to := py_strip (we_to e)\<rparr>))"

fun build_nodes ::
  "(string \<times> workflow_node) list \<Rightarrow> (string \<times> raw_node option) list \<Rightarrow> exn + (string \<times> workflow_node) list" where
  "build_nodes acc [] = Inr acc"
| "build_nodes acc ((k, None) # rest) = Inl VALIDATION_ERR"
| "build_nodes acc ((k, Some raw) # rest) =
     (let nid = text_or (rw_id raw) k
      in case make_node \<lparr>wn_id = nid, wn_name = text_or (rw_name raw) nid, wn_tool_name = text_or (rw_tool_name raw) [],
                         wn_params = keep (rw_params raw) [], wn_priority = int_or (rw_priority raw) 0,
                         wn_timeout = rw_timeout raw, wn_max_attempts = int_or (rw_max_attempts raw) 3\<rparr>
         of Inl e \<Rightarrow> Inl e | Inr n \<Rightarrow> build_nodes (dict_set nid n acc) rest)"

fun build_edges :: "raw_edge option list \<Rightarrow> exn + workflow_edge list" where
  "build_edges [] = Inr []"
| "build_edges (None # rest) = Inl VALIDATION_ERR"
| "build_edges (Some raw # rest) =
     (case rg_from raw of None \<Rightarrow> Inl (KeyError ''from_node_id'')
      | Some a \<Rightarrow> case rg_to raw of None \<Rightarrow> Inl (KeyError ''to_node_id'')
      | Some b \<Rightarrow> case make_edge \<lparr>we_from = a, we_to = b, we_condition = rg_condition raw,
                                 we_type = text_or (rg_type raw) ''dependency''\<rparr> of Inl e \<Rightarrow> Inl e
      | Inr e \<Rightarrow> case build_edges rest of Inl x \<Rightarrow> Inl x | Inr es \<Rightarrow> Inr (e # es))"

definition dag_check :: "workflow_definition \<Rightarrow> exn + unit" where
  "dag_check d =
     (if wd_nodes d = [] then Inr ()
      else case validate_dag d of Inl _ \<Rightarrow> Inl WORKFLOW_ERR | Inr _ \<Rightarrow> Inr ())"

definition workflow_def_of ::
  "string \<Rightarrow> string \<Rightarrow> (string \<times> workflow_node) list \<Rightarrow> workflow_edge list \<Rightarrow> workflow_definition" where
  "workflow_def_of i name nodes es = \<lparr>wd_id = i, wd_name = name, wd_version = 1, wd_nodes = nodes, wd_edges = es\<rparr>"

text \<open>
  The session is checked in a scope of its own. The JSON column of the nodes is written with sorted
  keys, so the nodes are stored in the order of their ids.
\<close>

definition create_workflow ::
  "agent_env \<Rightarrow> string \<Rightarrow> string \<Rightarrow> (string \<times> raw_node option) list \<Rightarrow> raw_edge option list \<Rightarrow> pyobj option
     \<Rightarrow> (agent_world, workflow_row) act" where
  "create_workflow env sid name nodes es metadata =
     (if py_strip name = [] then act_raise VALIDATION_ERR
      else act_bind (in_scope (require_row (get_session sid))) (\<lambda>_.
        case build_nodes [] nodes of Inl e \<Rightarrow> act_raise e
        | Inr ns \<Rightarrow> case build_edges es of Inl e \<Rightarrow> act_raise e
        | Inr edges \<Rightarrow> case dag_check (workflow_def_of ''tmp'' (py_strip name) ns edges) of Inl e \<Rightarrow> act_raise e
        | Inr _ \<Rightarrow> in_scope (
            act_bind (draw_id env) (\<lambda>wid. act_bind (draw_time env) (\<lambda>now.
            act_bind (require_inserted (insert_workflow
              \<lparr>wr_id = wid, wr_session = sid, wr_name = py_strip name, wr_number = 1, wr_state = WF_DRAFT,
               wr_nodes = sort_key fst ns, wr_edges = edges, wr_created = now, wr_updated = now, wr_version = 0,
               wr_metadata = or_empty metadata\<rparr>)) (\<lambda>_.
            act_bind (record_event env (workflow_created wid sid)) (\<lambda>_.
            act_bind commit_scope (\<lambda>_.
            act_bind (get_workflow wid) act_assert))))))))"

definition transition_workflow ::
  "agent_env \<Rightarrow> string \<Rightarrow> string \<Rightarrow> int option \<Rightarrow> (agent_world, workflow_row) act" where
  "transition_workflow env wid target_state expected =
     (case workflow_parse target_state of None \<Rightarrow> act_raise VALIDATION_ERR
      | Some target \<Rightarrow> in_scope (
          act_bind (require_row (get_workflow wid)) (\<lambda>ex.
          act_bind (act_check (\<not> outdated expected (wr_version ex)) STALE_ERR) (\<lambda>_.
          act_bind (act_of (workflow_transition (wr_state ex) target)) (\<lambda>_.
          if wr_state ex = target then act_return ex
          else act_bind (act_check (\<not> (target = WF_RUNNING \<and> wr_nodes ex = [])) VALIDATION_ERR) (\<lambda>_.
               act_bind (require_updated (update_workflow env wid
                 (no_workflow_patch\<lparr>wp_state := Some target, wp_version := Some (wr_version ex + 1)\<rparr>)
                 (Some (keep expected (wr_version ex))))) (\<lambda>updated.
               act_bind (record_event env
                 (workflow_transitioned wid (workflow_value (wr_state ex)) (workflow_value target))) (\<lambda>_.
               act_bind commit_scope (\<lambda>_. act_return updated)))))))))"

text \<open>
  \<^verbatim>\<open>schedule_workflow\<close>: a draft becomes ready first; then the workflow runs and every node gets a
  step, pending when it has no predecessor and blocked otherwise. The table of predecessors is
  built over the edges, whose targets must be nodes.
\<close>

fun add_steps ::
  "agent_env \<Rightarrow> string \<Rightarrow> string \<Rightarrow> time \<Rightarrow> workflow_definition \<Rightarrow> (string \<times> workflow_node) list \<Rightarrow> (agent_scope, unit) act" where
  "add_steps env wid rid now d [] = act_return ()"
| "add_steps env wid rid now d ((nid, n) # rest) =
     act_bind (draw_id env) (\<lambda>i.
     act_bind (insert_step
       \<lparr>sr_id = i, sr_workflow = wid, sr_run = Some rid, sr_task = None, sr_node = nid,
        sr_state = (if predecessors d nid = {} then STEP_PENDING else STEP_BLOCKED), sr_attempt = 1,
        sr_max_attempts = wn_max_attempts n, sr_priority = wn_priority n, sr_result = None, sr_error = None,
        sr_created = now, sr_updated = now, sr_version = 0\<rparr>) (\<lambda>_.
     add_steps env wid rid now d rest))"

definition move_workflow ::
  "agent_env \<Rightarrow> workflow_row \<Rightarrow> workflow_state \<Rightarrow> (agent_scope, workflow_row) act" where
  "move_workflow env wrow target =
     act_bind (act_of (workflow_transition (wr_state wrow) target)) (\<lambda>_.
     act_bind (act_bind (update_workflow env (wr_id wrow)
       (no_workflow_patch\<lparr>wp_state := Some target, wp_version := Some (wr_version wrow + 1)\<rparr>)
       (Some (wr_version wrow))) act_assert) (\<lambda>updated.
     act_bind (record_event env (workflow_transitioned (wr_id wrow) (workflow_value (wr_state wrow)) (workflow_value target))) (\<lambda>_.
     act_return updated)))"

definition schedule_workflow :: "agent_env \<Rightarrow> string \<Rightarrow> string \<Rightarrow> int option \<Rightarrow> (agent_world, workflow_row) act" where
  "schedule_workflow env wid rid expected = in_scope (
     act_bind (require_row (get_workflow wid)) (\<lambda>wrow.
     act_bind (require_row (get_run rid)) (\<lambda>run.
     act_bind (act_check (wr_session wrow = rn_session run) VALIDATION_ERR) (\<lambda>_.
     act_bind (act_check (wr_state wrow \<in> {WF_DRAFT, WF_READY, WF_PENDING}) VALIDATION_ERR) (\<lambda>_.
     act_bind (act_check (\<not> outdated expected (wr_version wrow)) STALE_ERR) (\<lambda>_.
     let d = workflow_def_of wid (wr_name wrow) (wr_nodes wrow) (wr_edges wrow)
     in act_bind (act_of (dag_check d)) (\<lambda>_.
     act_bind (if wr_state wrow = WF_DRAFT then move_workflow env wrow WF_READY else act_return wrow) (\<lambda>current.
     act_bind (move_workflow env current WF_RUNNING) (\<lambda>_.
     act_bind (act_check (list_all (\<lambda>e. we_to e \<in> set (node_ids d)) (wr_edges wrow)) (KeyError ''preds'')) (\<lambda>_.
     act_bind (draw_time env) (\<lambda>now.
     act_bind (add_steps env wid rid now d (wr_nodes wrow)) (\<lambda>_.
     act_bind commit_scope (\<lambda>_.
     act_bind (get_workflow wid) act_assert)))))))))))))"

definition read_workflow :: "string \<Rightarrow> (agent_world, workflow_row) act" where
  "read_workflow wid = in_scope (require_row (get_workflow wid))"

definition all_workflows :: "string option \<Rightarrow> (agent_world, workflow_row list) act" where
  "all_workflows sid = in_scope (list_workflows sid)"

section \<open>Steps\<close>

definition transition_step :: "agent_env \<Rightarrow> string \<Rightarrow> string \<Rightarrow> int option \<Rightarrow> (agent_world, step_row) act" where
  "transition_step env i target_state expected =
     (case step_parse target_state of None \<Rightarrow> act_raise VALIDATION_ERR
      | Some target \<Rightarrow> in_scope (
          act_bind (require_row (get_step i)) (\<lambda>ex.
          act_bind (act_check (\<not> outdated expected (sr_version ex)) STALE_ERR) (\<lambda>_.
          act_bind (act_of (step_transition (sr_state ex) target)) (\<lambda>_.
          if sr_state ex = target then act_return ex
          else act_bind (require_updated (update_step env i
                 (no_step_patch\<lparr>sq_state := Some target, sq_version := Some (sr_version ex + 1)\<rparr>)
                 (Some (keep expected (sr_version ex))))) (\<lambda>updated.
               act_bind commit_scope (\<lambda>_. act_return updated)))))))"

definition read_step :: "string \<Rightarrow> (agent_world, step_row) act" where
  "read_step i = in_scope (require_row (get_step i))"

definition all_steps :: "string option \<Rightarrow> string option \<Rightarrow> (agent_world, step_row list) act" where
  "all_steps wid rid = in_scope (list_steps wid rid)"

section \<open>Checkpoints\<close>

definition next_checkpoint_seq :: "checkpoint_row list \<Rightarrow> int" where
  "next_checkpoint_seq cps = (case map cp_seq cps of [] \<Rightarrow> - 1 | x # xs \<Rightarrow> fold max xs x) + 1"

definition create_checkpoint ::
  "agent_env \<Rightarrow> string \<Rightarrow> pyobj option \<Rightarrow> string option \<Rightarrow> string option \<Rightarrow> string option \<Rightarrow> int option
     \<Rightarrow> (agent_world, checkpoint_row) act" where
  "create_checkpoint env rid snapshot tid wid step_id seq = in_scope (
     act_bind (require_row (get_run rid)) (\<lambda>_.
     act_bind (check_row tid get_task) (\<lambda>_.
     act_bind (check_row wid get_workflow) (\<lambda>_.
     act_bind (check_row step_id get_step) (\<lambda>_.
     act_bind (case seq of Some n \<Rightarrow> act_return n
       | None \<Rightarrow> act_bind (list_checkpoints (Some rid) tid) (\<lambda>cps. act_return (next_checkpoint_seq cps))) (\<lambda>n.
     act_bind (draw_id env) (\<lambda>cid. act_bind (draw_time env) (\<lambda>now.
     act_bind (list_checkpoints (Some rid) tid) (\<lambda>cps.
     act_bind (act_check (filter (\<lambda>c. cp_seq c = n) cps = []) VALIDATION_ERR) (\<lambda>_.
     act_bind (require_inserted (insert_checkpoint
       \<lparr>cp_id = cid, cp_run = rid, cp_task = tid, cp_workflow = wid, cp_step = step_id, cp_seq = n,
        cp_snapshot = or_empty snapshot, cp_hash = ae_hash env (or_empty snapshot), cp_created = now\<rparr>)) (\<lambda>_.
     act_bind (case tid of None \<Rightarrow> act_return ()
       | Some t \<Rightarrow> act_bind (get_task t) (\<lambda>task. case task of None \<Rightarrow> act_return ()
           | Some tk \<Rightarrow> act_bind (update_task env t
               (no_task_patch\<lparr>tp_checkpoint := Some cid, tp_version := Some (tk_version tk + 1)\<rparr>)
               (Some (tk_version tk))) (\<lambda>_. act_return ()))) (\<lambda>_.
     act_bind (record_event env (checkpoint_created cid rid)) (\<lambda>_.
     act_bind commit_scope (\<lambda>_.
     act_bind (get_checkpoint cid) act_assert))))))))))))))"

definition read_checkpoint :: "string \<Rightarrow> (agent_world, checkpoint_row) act" where
  "read_checkpoint i = in_scope (require_row (get_checkpoint i))"

definition all_checkpoints :: "string option \<Rightarrow> string option \<Rightarrow> (agent_world, checkpoint_row list) act" where
  "all_checkpoints rid tid = in_scope (list_checkpoints rid tid)"

section \<open>Approvals\<close>

definition request_approval ::
  "agent_env \<Rightarrow> string \<Rightarrow> string \<Rightarrow> pyobj option \<Rightarrow> string option \<Rightarrow> seconds option \<Rightarrow> (agent_world, approval_row) act" where
  "request_approval env tid requested_by payload rid expires_in =
     (if py_strip tid = [] then act_raise VALIDATION_ERR
      else in_scope (
        act_bind (require_row (get_task tid)) (\<lambda>task.
        act_bind (act_check (tk_state task \<in> {TASK_RUNNING, TASK_WAITING_PERMISSION}) VALIDATION_ERR) (\<lambda>_.
        act_bind (draw_id env) (\<lambda>aid. act_bind (draw_time env) (\<lambda>now.
        act_bind (act_check (case expires_in of None \<Rightarrow> True | Some x \<Rightarrow> 0 < x) VALIDATION_ERR) (\<lambda>_.
        act_bind (require_inserted (insert_approval
          \<lparr>ap_id = aid, ap_task = tid,
           ap_run = (case truthy rid of None \<Rightarrow> tk_run task | Some r \<Rightarrow> Some r),
           ap_requested_by = (if py_strip requested_by = [] then ''system'' else py_strip requested_by),
           ap_state = APR_PENDING, ap_payload = or_empty payload, ap_resolution = None, ap_created = now,
           ap_resolved = None, ap_expires = map_option (\<lambda>x. now + timedelta_us x) expires_in\<rparr>)) (\<lambda>_.
        act_bind (if tk_state task \<noteq> TASK_WAITING_PERMISSION
          then act_bind (require_updated (update_task env tid
                 (no_task_patch\<lparr>tp_state := Some TASK_WAITING_PERMISSION, tp_awaiting := Some aid,
                    tp_version := Some (tk_version task + 1)\<rparr>)
                 (Some (tk_version task)))) (\<lambda>_.
               record_event env (task_transitioned tid (task_value (tk_state task)) (task_value TASK_WAITING_PERMISSION)))
          else act_when (tk_awaiting task \<noteq> Some aid)
                 (act_bind (update_task env tid
                   (no_task_patch\<lparr>tp_awaiting := Some aid, tp_version := Some (tk_version task + 1)\<rparr>)
                   (Some (tk_version task))) (\<lambda>_. act_return ()))) (\<lambda>_.
        act_bind (record_event env (approval_requested aid tid)) (\<lambda>_.
        act_bind commit_scope (\<lambda>_.
        act_bind (get_approval aid) act_assert)))))))))))"

definition denial_text :: "approval_state \<Rightarrow> string" where
  "denial_text target = ''approval '' @ py_lower (approval_value target)"

text \<open>
  The answer to an approval moves its task: approved, a waiting task runs again; denied or
  expired, the task fails. The outcome of these two updates is not looked at.
\<close>

definition settle_task :: "agent_env \<Rightarrow> approval_state \<Rightarrow> task_row \<Rightarrow> (agent_scope, unit) act" where
  "settle_task env target task =
     (if target = APR_APPROVED
      then act_when (tk_state task = TASK_WAITING_PERMISSION)
        (act_bind (update_task env (tk_id task)
          (no_task_patch\<lparr>tp_state := Some TASK_RUNNING, tp_version := Some (tk_version task + 1)\<rparr>)
          (Some (tk_version task))) (\<lambda>_.
        record_event env (task_transitioned (tk_id task) (task_value (tk_state task)) (task_value TASK_RUNNING))))
      else act_bind (draw_time env) (\<lambda>done_at.
        act_bind (update_task env (tk_id task)
          (no_task_patch\<lparr>tp_state := Some TASK_FAILED, tp_error := Some (denial_text target),
             tp_version := Some (tk_version task + 1), tp_completed := Some done_at\<rparr>)
          (Some (tk_version task))) (\<lambda>_.
        act_bind (record_event env (task_transitioned (tk_id task) (task_value (tk_state task)) (task_value TASK_FAILED))) (\<lambda>_.
        record_event env (task_failed (tk_id task) (denial_text target))))))"

definition resolve_approval :: "agent_env \<Rightarrow> string \<Rightarrow> string \<Rightarrow> pyobj option \<Rightarrow> (agent_world, approval_row) act" where
  "resolve_approval env aid target_state resolution =
     (case approval_parse target_state of None \<Rightarrow> act_raise VALIDATION_ERR
      | Some target \<Rightarrow>
          if target \<notin> {APR_APPROVED, APR_DENIED, APR_EXPIRED} then act_raise VALIDATION_ERR
          else in_scope (
            act_bind (require_row (get_approval aid)) (\<lambda>ex.
            act_bind (act_check (ap_state ex = APR_PENDING) VALIDATION_ERR) (\<lambda>_.
            act_bind (require_updated (update_approval env aid (Some target) (Some (or_empty resolution)) (Some APR_PENDING))) (\<lambda>_.
            act_bind (get_task (ap_task ex)) (\<lambda>task.
            act_bind (case task of None \<Rightarrow> act_return () | Some tk \<Rightarrow> settle_task env target tk) (\<lambda>_.
            act_bind (record_event env (approval_resolved aid (approval_value target))) (\<lambda>_.
            act_bind commit_scope (\<lambda>_.
            act_bind (get_approval aid) act_assert)))))))))"

definition read_approval :: "string \<Rightarrow> (agent_world, approval_row) act" where
  "read_approval i = in_scope (require_row (get_approval i))"

definition all_approvals :: "string option \<Rightarrow> string option \<Rightarrow> (agent_world, approval_row list) act" where
  "all_approvals tid st = in_scope (list_approvals tid st)"

section \<open>Delegations\<close>

definition delegate_run :: "agent_env \<Rightarrow> string \<Rightarrow> string \<Rightarrow> pyobj option \<Rightarrow> (agent_world, delegation_row) act" where
  "delegate_run env parent_id child_id metadata =
     (if parent_id = child_id then act_raise VALIDATION_ERR
      else in_scope (
        act_bind (require_row (get_run parent_id)) (\<lambda>parent.
        act_bind (require_row (get_run child_id)) (\<lambda>child.
        act_bind (act_check (rn_session parent = rn_session child) VALIDATION_ERR) (\<lambda>_.
        act_bind (act_check (\<not> reached (bl_child_agents (rn_limits parent)) (bu_child_agents (rn_usage parent))) VALIDATION_ERR) (\<lambda>_.
        act_bind (draw_id env) (\<lambda>did. act_bind (draw_time env) (\<lambda>now.
        act_bind (require_inserted (insert_delegation
          \<lparr>dl_id = did, dl_parent = parent_id, dl_child = child_id, dl_status = DEL_PENDING, dl_created = now,
           dl_completed = None, dl_metadata = or_empty metadata\<rparr>)) (\<lambda>_.
        act_bind (update_run env parent_id
          (no_run_patch\<lparr>rp_usage := Some ((rn_usage parent)\<lparr>bu_child_agents := bu_child_agents (rn_usage parent) + 1\<rparr>),
             rp_version := Some (rn_version parent + 1)\<rparr>)
          (Some (rn_version parent))) (\<lambda>_.
        act_bind (act_when (rn_state parent = LOOP_RUNNING) (act_ignore (
          act_bind (get_run parent_id) (\<lambda>refreshed. case refreshed of None \<Rightarrow> act_return ()
          | Some p \<Rightarrow> act_when (rn_state p = LOOP_RUNNING)
              (act_bind (update_run env parent_id
                (no_run_patch\<lparr>rp_state := Some LOOP_WAITING_CHILD, rp_version := Some (rn_version p + 1)\<rparr>)
                (Some (rn_version p))) (\<lambda>_.
              record_event env (run_transitioned parent_id (loop_value (rn_state parent)) (loop_value LOOP_WAITING_CHILD)))))))) (\<lambda>_.
        act_bind (record_event env (delegation_created did parent_id child_id)) (\<lambda>_.
        act_bind commit_scope (\<lambda>_.
        act_bind (get_delegation did) act_assert)))))))))))))"

definition still_blocking :: "string \<Rightarrow> delegation_row list \<Rightarrow> bool" where
  "still_blocking did siblings \<longleftrightarrow>
     list_ex (\<lambda>d. dl_status d \<in> {DEL_PENDING, DEL_RUNNING} \<and> dl_id d \<noteq> did) siblings"

text \<open>When the last open delegation of a waiting parent ends, the parent runs again.\<close>

definition unblock_parent :: "agent_env \<Rightarrow> string \<Rightarrow> string \<Rightarrow> (agent_scope, unit) act" where
  "unblock_parent env did parent_id =
     act_bind (get_run parent_id) (\<lambda>p. case p of None \<Rightarrow> act_return ()
     | Some parent \<Rightarrow> act_when (rn_state parent = LOOP_WAITING_CHILD)
         (act_bind (list_delegations (Some parent_id) None) (\<lambda>siblings.
          act_when (\<not> still_blocking did siblings)
            (act_bind (update_run env parent_id
              (no_run_patch\<lparr>rp_state := Some LOOP_RUNNING, rp_version := Some (rn_version parent + 1)\<rparr>)
              (Some (rn_version parent))) (\<lambda>_.
            record_event env (run_transitioned parent_id (loop_value LOOP_WAITING_CHILD) (loop_value LOOP_RUNNING)))))))"

definition transition_delegation :: "agent_env \<Rightarrow> string \<Rightarrow> string \<Rightarrow> (agent_world, delegation_row) act" where
  "transition_delegation env did target_status =
     (case delegation_parse target_status of None \<Rightarrow> act_raise VALIDATION_ERR
      | Some target \<Rightarrow> in_scope (
          act_bind (require_row (get_delegation did)) (\<lambda>ex.
          act_bind (act_of (make_delegation \<lparr>dr_id = dl_id ex, dr_parent = dl_parent ex, dr_child = dl_child ex,
            dr_status = dl_status ex, dr_completed = dl_completed ex\<rparr>)) (\<lambda>tmp.
          act_bind (if delegation_terminal target then draw_time env else act_return 0) (\<lambda>now.
          act_bind (act_of (delegation_transition_to now target tmp)) (\<lambda>_.
          act_bind (act_bind (update_delegation env did (Some target)) (\<lambda>u. case u of None \<Rightarrow> act_raise NOT_FOUND_ERR
            | Some r \<Rightarrow> act_return r)) (\<lambda>_.
          act_bind (record_event env (delegation_transitioned did (delegation_value target))) (\<lambda>_.
          act_bind (act_when (target \<in> {DEL_COMPLETED, DEL_FAILED, DEL_CANCELLED}) (unblock_parent env did (dl_parent ex))) (\<lambda>_.
          act_bind commit_scope (\<lambda>_.
          act_bind (get_delegation did) act_assert))))))))))"

definition read_delegation :: "string \<Rightarrow> (agent_world, delegation_row) act" where
  "read_delegation i = in_scope (require_row (get_delegation i))"

definition all_delegations :: "string option \<Rightarrow> string option \<Rightarrow> (agent_world, delegation_row list) act" where
  "all_delegations parent child = in_scope (list_delegations parent child)"

end
