(* ===== verification/Agent_Spec.thy ===== *)
theory Agent_Spec
  imports Agent_Service
begin

text \<open>
  What the agent runtime promises about its store, without saying how: every row that appears starts
  in its initial state, and every change of a row moves it along its lifecycle and raises its
  version. \<open>agent_step\<close> is one such change, \<open>agent_inv\<close> the consistency that all of them keep; the
  command bodies are shown to do nothing else.
\<close>

section \<open>Changes of rows\<close>

definition replace_row :: "'r \<Rightarrow> 'r \<Rightarrow> 'r list \<Rightarrow> 'r list" where
  "replace_row r r' rows = map (\<lambda>x. if x = r then r' else x) rows"

definition session_change :: "session_row \<Rightarrow> session_row \<Rightarrow> bool" where
  "session_change r r' \<longleftrightarrow>
     r' = r\<lparr>ss_state := ss_state r', ss_updated := ss_updated r', ss_version := ss_version r + 1\<rparr> \<and>
     ss_state r' \<in> set (session_moves (ss_state r))"

text \<open>A run moves along its lifecycle, or fails because a budget is exhausted.\<close>

definition run_change :: "run_row \<Rightarrow> run_row \<Rightarrow> bool" where
  "run_change r r' \<longleftrightarrow>
     r' = r\<lparr>rn_state := rn_state r', rn_usage := rn_usage r', rn_exhaustion := rn_exhaustion r',
           rn_updated := rn_updated r', rn_completed := rn_completed r', rn_version := rn_version r + 1\<rparr> \<and>
     (rn_state r' = rn_state r \<or> rn_state r' \<in> set (loop_moves (rn_state r)) \<or>
      rn_state r' = LOOP_FAILED \<and> rn_exhaustion r' \<noteq> None) \<and>
     (rn_exhaustion r \<noteq> None \<longrightarrow> rn_exhaustion r' \<noteq> None) \<and>
     (loop_terminal (rn_state r') \<and> rn_state r' \<noteq> rn_state r \<longrightarrow> rn_completed r' \<noteq> None) \<and>
     (\<not> loop_terminal (rn_state r') \<longrightarrow> rn_completed r' = rn_completed r) \<and>
     (rn_completed r \<noteq> None \<longrightarrow> rn_completed r' \<noteq> None)"

text \<open>A task moves along its lifecycle, or fails because an approval was refused.\<close>

definition task_change :: "task_row \<Rightarrow> task_row \<Rightarrow> bool" where
  "task_change r r' \<longleftrightarrow>
     r' = r\<lparr>tk_state := tk_state r', tk_attempt := tk_attempt r', tk_output := tk_output r', tk_error := tk_error r',
           tk_awaiting := tk_awaiting r', tk_checkpoint := tk_checkpoint r', tk_updated := tk_updated r',
           tk_completed := tk_completed r', tk_version := tk_version r + 1\<rparr> \<and>
     (tk_state r' = tk_state r \<or> tk_state r' \<in> set (task_moves (tk_state r)) \<or>
      tk_state r' = TASK_FAILED \<and> tk_error r' \<in> {Some (denial_text APR_DENIED), Some (denial_text APR_EXPIRED)}) \<and>
     (tk_attempt r' = tk_attempt r \<or> tk_attempt r' = tk_attempt r + 1 \<and> tk_attempt r < tk_max_attempts r) \<and>
     (tk_awaiting r' \<noteq> None \<longrightarrow> tk_state r' = TASK_WAITING_PERMISSION \<or>
        tk_awaiting r' = tk_awaiting r \<and> tk_state r' = tk_state r) \<and>
     (task_terminal (tk_state r') \<and> tk_state r' \<noteq> tk_state r \<longrightarrow> tk_completed r' \<noteq> None) \<and>
     (tk_completed r \<noteq> None \<longrightarrow> tk_completed r' \<noteq> None)"

definition workflow_change :: "workflow_row \<Rightarrow> workflow_row \<Rightarrow> bool" where
  "workflow_change r r' \<longleftrightarrow>
     r' = r\<lparr>wr_state := wr_state r', wr_updated := wr_updated r', wr_version := wr_version r + 1\<rparr> \<and>
     wr_state r' \<in> set (workflow_moves (wr_state r))"

definition step_change :: "step_row \<Rightarrow> step_row \<Rightarrow> bool" where
  "step_change r r' \<longleftrightarrow>
     r' = r\<lparr>sr_state := sr_state r', sr_updated := sr_updated r', sr_version := sr_version r + 1\<rparr> \<and>
     sr_state r' \<in> set (step_effective_moves (sr_state r))"

definition approval_change :: "approval_row \<Rightarrow> approval_row \<Rightarrow> bool" where
  "approval_change r r' \<longleftrightarrow>
     r' = r\<lparr>ap_state := ap_state r', ap_resolution := ap_resolution r', ap_resolved := ap_resolved r'\<rparr> \<and>
     ap_state r = APR_PENDING \<and> ap_state r' \<noteq> APR_PENDING \<and> ap_resolved r' \<noteq> None"

definition delegation_change :: "delegation_row \<Rightarrow> delegation_row \<Rightarrow> bool" where
  "delegation_change r r' \<longleftrightarrow>
     r' = r\<lparr>dl_status := dl_status r', dl_completed := dl_completed r'\<rparr> \<and>
     (dl_status r' = dl_status r \<or> dl_status r' \<in> set (delegation_moves (dl_status r)))"

section \<open>New rows\<close>

definition session_new :: "agent_db \<Rightarrow> session_row \<Rightarrow> bool" where
  "session_new db r \<longleftrightarrow> ss_state r = SES_IDLE \<and> ss_version r = 0"

definition run_new :: "agent_db \<Rightarrow> run_row \<Rightarrow> bool" where
  "run_new db r \<longleftrightarrow>
     rn_state r = LOOP_CREATED \<and> rn_version r = 0 \<and> rn_attempt r = 1 \<and> 1 \<le> rn_max_attempts r \<and>
     rn_completed r = None \<and> rn_session r \<in> ss_id ` set (ad_sessions db) \<and>
     (case rn_parent r of None \<Rightarrow> True
      | Some p \<Rightarrow> \<exists>q \<in> set (ad_runs db). rn_id q = p \<and> rn_session q = rn_session r \<and>
          inherit_limits (rn_limits q) (rn_limits r) = rn_limits r)"

definition task_new :: "agent_db \<Rightarrow> task_row \<Rightarrow> bool" where
  "task_new db r \<longleftrightarrow>
     tk_state r = TASK_RECEIVED \<and> tk_version r = 0 \<and> tk_attempt r = 1 \<and> 1 \<le> tk_max_attempts r \<and>
     tk_awaiting r = None \<and> tk_completed r = None \<and> tk_session r \<in> ss_id ` set (ad_sessions db) \<and>
     (case tk_run r of None \<Rightarrow> True | Some i \<Rightarrow> i \<in> rn_id ` set (ad_runs db)) \<and>
     (case tk_workflow r of None \<Rightarrow> True | Some i \<Rightarrow> i \<in> wr_id ` set (ad_workflows db))"

definition workflow_new :: "agent_db \<Rightarrow> workflow_row \<Rightarrow> bool" where
  "workflow_new db r \<longleftrightarrow>
     wr_state r = WF_DRAFT \<and> wr_version r = 0 \<and> wr_session r \<in> ss_id ` set (ad_sessions db) \<and>
     (wr_nodes r = [] \<or> validate_dag (workflow_def_of (wr_id r) (wr_name r) (wr_nodes r) (wr_edges r)) = Inr ())"

definition step_new :: "agent_db \<Rightarrow> step_row \<Rightarrow> bool" where
  "step_new db r \<longleftrightarrow>
     sr_state r \<in> {STEP_PENDING, STEP_BLOCKED} \<and> sr_version r = 0 \<and>
     sr_workflow r \<in> wr_id ` set (ad_workflows db) \<and>
     (case sr_run r of None \<Rightarrow> True | Some i \<Rightarrow> i \<in> rn_id ` set (ad_runs db))"

definition checkpoint_new :: "agent_db \<Rightarrow> checkpoint_row \<Rightarrow> bool" where
  "checkpoint_new db r \<longleftrightarrow>
     cp_run r \<in> rn_id ` set (ad_runs db) \<and>
     (cp_run r, cp_seq r) \<notin> (\<lambda>c. (cp_run c, cp_seq c)) ` set (ad_checkpoints db) \<and>
     (case cp_task r of None \<Rightarrow> True | Some i \<Rightarrow> i \<in> tk_id ` set (ad_tasks db)) \<and>
     (case cp_workflow r of None \<Rightarrow> True | Some i \<Rightarrow> i \<in> wr_id ` set (ad_workflows db)) \<and>
     (case cp_step r of None \<Rightarrow> True | Some i \<Rightarrow> i \<in> sr_id ` set (ad_steps db))"

definition approval_new :: "agent_db \<Rightarrow> approval_row \<Rightarrow> bool" where
  "approval_new db r \<longleftrightarrow> ap_state r = APR_PENDING \<and> ap_resolved r = None \<and> ap_task r \<in> tk_id ` set (ad_tasks db)"

definition delegation_new :: "agent_db \<Rightarrow> delegation_row \<Rightarrow> bool" where
  "delegation_new db r \<longleftrightarrow>
     dl_status r = DEL_PENDING \<and> dl_parent r \<noteq> dl_child r \<and>
     dl_parent r \<in> rn_id ` set (ad_runs db) \<and> dl_child r \<in> rn_id ` set (ad_runs db)"

section \<open>Steps of the store\<close>

inductive agent_step :: "agent_db \<Rightarrow> agent_db \<Rightarrow> bool" where
  add_session: "session_new db r \<Longrightarrow> ss_id r \<notin> ss_id ` set (ad_sessions db) \<Longrightarrow>
    agent_step db (put_sessions (ad_sessions db @ [r]) db)"
| change_session: "r \<in> set (ad_sessions db) \<Longrightarrow> session_change r r' \<Longrightarrow>
    agent_step db (put_sessions (replace_row r r' (ad_sessions db)) db)"
| add_run: "run_new db r \<Longrightarrow> rn_id r \<notin> rn_id ` set (ad_runs db) \<Longrightarrow>
    agent_step db (put_runs (ad_runs db @ [r]) db)"
| change_run: "r \<in> set (ad_runs db) \<Longrightarrow> run_change r r' \<Longrightarrow>
    agent_step db (put_runs (replace_row r r' (ad_runs db)) db)"
| add_task: "task_new db r \<Longrightarrow> tk_id r \<notin> tk_id ` set (ad_tasks db) \<Longrightarrow>
    agent_step db (put_tasks (ad_tasks db @ [r]) db)"
| change_task: "r \<in> set (ad_tasks db) \<Longrightarrow> task_change r r' \<Longrightarrow>
    agent_step db (put_tasks (replace_row r r' (ad_tasks db)) db)"
| add_workflow: "workflow_new db r \<Longrightarrow> wr_id r \<notin> wr_id ` set (ad_workflows db) \<Longrightarrow>
    agent_step db (put_workflows (ad_workflows db @ [r]) db)"
| change_workflow: "r \<in> set (ad_workflows db) \<Longrightarrow> workflow_change r r' \<Longrightarrow>
    agent_step db (put_workflows (replace_row r r' (ad_workflows db)) db)"
| add_step: "step_new db r \<Longrightarrow> sr_id r \<notin> sr_id ` set (ad_steps db) \<Longrightarrow>
    agent_step db (put_steps (ad_steps db @ [r]) db)"
| change_step: "r \<in> set (ad_steps db) \<Longrightarrow> step_change r r' \<Longrightarrow>
    agent_step db (put_steps (replace_row r r' (ad_steps db)) db)"
| add_checkpoint: "checkpoint_new db r \<Longrightarrow> cp_id r \<notin> cp_id ` set (ad_checkpoints db) \<Longrightarrow>
    agent_step db (put_checkpoints (ad_checkpoints db @ [r]) db)"
| add_approval: "approval_new db r \<Longrightarrow> ap_id r \<notin> ap_id ` set (ad_approvals db) \<Longrightarrow>
    agent_step db (put_approvals (ad_approvals db @ [r]) db)"
| change_approval: "r \<in> set (ad_approvals db) \<Longrightarrow> approval_change r r' \<Longrightarrow>
    agent_step db (put_approvals (replace_row r r' (ad_approvals db)) db)"
| add_delegation: "delegation_new db r \<Longrightarrow> dl_id r \<notin> dl_id ` set (ad_delegations db) \<Longrightarrow>
    agent_step db (put_delegations (ad_delegations db @ [r]) db)"
| change_delegation: "r \<in> set (ad_delegations db) \<Longrightarrow> delegation_change r r' \<Longrightarrow>
    agent_step db (put_delegations (replace_row r r' (ad_delegations db)) db)"
| emit: "record_next no_hook now rid e None (ad_outbox db) = Inr (b, ob) \<Longrightarrow>
    agent_step db (db\<lparr>ad_outbox := ob\<rparr>)"

inductive_cases agent_stepE: "agent_step db db'"

abbreviation agent_steps :: "agent_db \<Rightarrow> agent_db \<Rightarrow> bool" where
  "agent_steps \<equiv> agent_step\<^sup>*\<^sup>*"

section \<open>Consistency\<close>

definition keys_ok :: "agent_db \<Rightarrow> bool" where
  "keys_ok db \<longleftrightarrow>
     distinct (map ss_id (ad_sessions db)) \<and> distinct (map rn_id (ad_runs db)) \<and> distinct (map tk_id (ad_tasks db)) \<and>
     distinct (map wr_id (ad_workflows db)) \<and> distinct (map sr_id (ad_steps db)) \<and>
     distinct (map cp_id (ad_checkpoints db)) \<and> distinct (map ap_id (ad_approvals db)) \<and>
     distinct (map dl_id (ad_delegations db)) \<and>
     distinct (map (\<lambda>c. (cp_run c, cp_seq c)) (ad_checkpoints db))"

text \<open>
  The columns of a row that no change touches and that refer to other rows. What the code does not check is not part of
  \<open>refs_ok\<close>: the run named in a request for approval, and what a task says it awaits.
\<close>

definition run_face :: "run_row \<Rightarrow> string \<times> string \<times> string option \<times> budget_limits" where
  "run_face r = (rn_id r, rn_session r, rn_parent r, rn_limits r)"

definition session_ids :: "agent_db \<Rightarrow> string set" where "session_ids db = ss_id ` set (ad_sessions db)"
definition run_ids :: "agent_db \<Rightarrow> string set" where "run_ids db = rn_id ` set (ad_runs db)"
definition task_ids :: "agent_db \<Rightarrow> string set" where "task_ids db = tk_id ` set (ad_tasks db)"
definition workflow_ids :: "agent_db \<Rightarrow> string set" where "workflow_ids db = wr_id ` set (ad_workflows db)"
definition step_ids :: "agent_db \<Rightarrow> string set" where "step_ids db = sr_id ` set (ad_steps db)"

definition refs_ok :: "agent_db \<Rightarrow> bool" where
  "refs_ok db \<longleftrightarrow>
     (\<forall>r \<in> set (ad_runs db). rn_session r \<in> session_ids db) \<and>
     (\<forall>r \<in> set (ad_runs db). \<forall>p. rn_parent r = Some p \<longrightarrow>
        (\<exists>pp pl. (p, rn_session r, pp, pl) \<in> run_face ` set (ad_runs db) \<and> inherit_limits pl (rn_limits r) = rn_limits r)) \<and>
     (\<forall>r \<in> set (ad_tasks db). tk_session r \<in> session_ids db \<and> set_option (tk_run r) \<subseteq> run_ids db \<and>
        set_option (tk_workflow r) \<subseteq> workflow_ids db) \<and>
     (\<forall>r \<in> set (ad_workflows db). wr_session r \<in> session_ids db) \<and>
     (\<forall>r \<in> set (ad_steps db). sr_workflow r \<in> workflow_ids db \<and> set_option (sr_run r) \<subseteq> run_ids db) \<and>
     (\<forall>r \<in> set (ad_checkpoints db). cp_run r \<in> run_ids db \<and> set_option (cp_task r) \<subseteq> task_ids db \<and>
        set_option (cp_workflow r) \<subseteq> workflow_ids db \<and> set_option (cp_step r) \<subseteq> step_ids db) \<and>
     (\<forall>r \<in> set (ad_approvals db). ap_task r \<in> task_ids db) \<and>
     (\<forall>r \<in> set (ad_delegations db). dl_parent r \<noteq> dl_child r \<and> dl_parent r \<in> run_ids db \<and> dl_child r \<in> run_ids db)"

definition run_ok :: "run_row \<Rightarrow> bool" where
  "run_ok r \<longleftrightarrow> 0 \<le> rn_version r \<and> 1 \<le> rn_max_attempts r \<and> (loop_terminal (rn_state r) \<longleftrightarrow> rn_completed r \<noteq> None)"

definition task_ok :: "task_row \<Rightarrow> bool" where
  "task_ok r \<longleftrightarrow> 0 \<le> tk_version r \<and> 1 \<le> tk_attempt r \<and> tk_attempt r \<le> tk_max_attempts r \<and>
     (task_terminal (tk_state r) \<longrightarrow> tk_completed r \<noteq> None) \<and>
     (tk_awaiting r \<noteq> None \<longrightarrow> tk_state r = TASK_WAITING_PERMISSION)"

definition rows_fine :: "agent_db \<Rightarrow> bool" where
  "rows_fine db \<longleftrightarrow>
     (\<forall>r \<in> set (ad_sessions db). 0 \<le> ss_version r) \<and> (\<forall>r \<in> set (ad_runs db). run_ok r) \<and>
     (\<forall>r \<in> set (ad_tasks db). task_ok r) \<and> (\<forall>r \<in> set (ad_workflows db). 0 \<le> wr_version r) \<and>
     (\<forall>r \<in> set (ad_steps db). 0 \<le> sr_version r) \<and>
     (\<forall>r \<in> set (ad_approvals db). ap_state r = APR_PENDING \<longleftrightarrow> ap_resolved r = None)"

definition agent_inv :: "agent_db \<Rightarrow> bool" where
  "agent_inv db \<longleftrightarrow> keys_ok db \<and> refs_ok db \<and> rows_fine db \<and> outbox_inv (ad_outbox db)"

lemma map_replace_row: "f r' = f r \<Longrightarrow> map f (replace_row r r' rows) = map f rows"
  by (auto simp: replace_row_def)

lemma image_replace_row: "f r' = f r \<Longrightarrow> f ` set (replace_row r r' rows) = f ` set rows"
  by (metis list.set_map map_replace_row)

lemma replace_row_mem: "x \<in> set (replace_row r r' rows) \<Longrightarrow> x = r' \<or> x \<in> set rows"
  by (auto simp: replace_row_def split: if_splits)

lemma ball_replace_row:
  assumes "\<forall>x \<in> set rows. P x" and "r \<in> set rows" and "P r \<Longrightarrow> P r'"
  shows "\<forall>x \<in> set (replace_row r r' rows). P x"
  using assms by (auto dest: replace_row_mem)

lemmas put_defs = put_sessions_def put_runs_def put_tasks_def put_workflows_def put_steps_def
  put_checkpoints_def put_approvals_def put_delegations_def

lemmas ids_defs = session_ids_def run_ids_def task_ids_def workflow_ids_def step_ids_def

lemma session_change_keeps:
  assumes "session_change r r'"
  shows "ss_id r' = ss_id r" "ss_actor r' = ss_actor r" "ss_title r' = ss_title r" "ss_limits r' = ss_limits r" "ss_version r' = ss_version r + 1"
proof -
  note e = conjunct1 [OF assms [unfolded session_change_def]]
  show "ss_id r' = ss_id r" using arg_cong [OF e, of ss_id] by simp
  show "ss_actor r' = ss_actor r" using arg_cong [OF e, of ss_actor] by simp
  show "ss_title r' = ss_title r" using arg_cong [OF e, of ss_title] by simp
  show "ss_limits r' = ss_limits r" using arg_cong [OF e, of ss_limits] by simp
  show "ss_version r' = ss_version r + 1" using arg_cong [OF e, of ss_version] by simp
qed

lemma run_change_keeps:
  assumes "run_change r r'"
  shows "rn_id r' = rn_id r" "rn_session r' = rn_session r" "rn_parent r' = rn_parent r" "rn_limits r' = rn_limits r" "rn_attempt r' = rn_attempt r" "rn_max_attempts r' = rn_max_attempts r" "rn_version r' = rn_version r + 1"
proof -
  note e = conjunct1 [OF assms [unfolded run_change_def]]
  show "rn_id r' = rn_id r" using arg_cong [OF e, of rn_id] by simp
  show "rn_session r' = rn_session r" using arg_cong [OF e, of rn_session] by simp
  show "rn_parent r' = rn_parent r" using arg_cong [OF e, of rn_parent] by simp
  show "rn_limits r' = rn_limits r" using arg_cong [OF e, of rn_limits] by simp
  show "rn_attempt r' = rn_attempt r" using arg_cong [OF e, of rn_attempt] by simp
  show "rn_max_attempts r' = rn_max_attempts r" using arg_cong [OF e, of rn_max_attempts] by simp
  show "rn_version r' = rn_version r + 1" using arg_cong [OF e, of rn_version] by simp
qed

lemma task_change_keeps:
  assumes "task_change r r'"
  shows "tk_id r' = tk_id r" "tk_session r' = tk_session r" "tk_run r' = tk_run r" "tk_workflow r' = tk_workflow r" "tk_max_attempts r' = tk_max_attempts r" "tk_version r' = tk_version r + 1"
proof -
  note e = conjunct1 [OF assms [unfolded task_change_def]]
  show "tk_id r' = tk_id r" using arg_cong [OF e, of tk_id] by simp
  show "tk_session r' = tk_session r" using arg_cong [OF e, of tk_session] by simp
  show "tk_run r' = tk_run r" using arg_cong [OF e, of tk_run] by simp
  show "tk_workflow r' = tk_workflow r" using arg_cong [OF e, of tk_workflow] by simp
  show "tk_max_attempts r' = tk_max_attempts r" using arg_cong [OF e, of tk_max_attempts] by simp
  show "tk_version r' = tk_version r + 1" using arg_cong [OF e, of tk_version] by simp
qed

lemma workflow_change_keeps:
  assumes "workflow_change r r'"
  shows "wr_id r' = wr_id r" "wr_session r' = wr_session r" "wr_nodes r' = wr_nodes r" "wr_edges r' = wr_edges r" "wr_version r' = wr_version r + 1"
proof -
  note e = conjunct1 [OF assms [unfolded workflow_change_def]]
  show "wr_id r' = wr_id r" using arg_cong [OF e, of wr_id] by simp
  show "wr_session r' = wr_session r" using arg_cong [OF e, of wr_session] by simp
  show "wr_nodes r' = wr_nodes r" using arg_cong [OF e, of wr_nodes] by simp
  show "wr_edges r' = wr_edges r" using arg_cong [OF e, of wr_edges] by simp
  show "wr_version r' = wr_version r + 1" using arg_cong [OF e, of wr_version] by simp
qed

lemma step_change_keeps:
  assumes "step_change r r'"
  shows "sr_id r' = sr_id r" "sr_workflow r' = sr_workflow r" "sr_run r' = sr_run r" "sr_node r' = sr_node r" "sr_version r' = sr_version r + 1"
proof -
  note e = conjunct1 [OF assms [unfolded step_change_def]]
  show "sr_id r' = sr_id r" using arg_cong [OF e, of sr_id] by simp
  show "sr_workflow r' = sr_workflow r" using arg_cong [OF e, of sr_workflow] by simp
  show "sr_run r' = sr_run r" using arg_cong [OF e, of sr_run] by simp
  show "sr_node r' = sr_node r" using arg_cong [OF e, of sr_node] by simp
  show "sr_version r' = sr_version r + 1" using arg_cong [OF e, of sr_version] by simp
qed

lemma approval_change_keeps:
  assumes "approval_change r r'"
  shows "ap_id r' = ap_id r" "ap_task r' = ap_task r"
proof -
  note e = conjunct1 [OF assms [unfolded approval_change_def]]
  show "ap_id r' = ap_id r" using arg_cong [OF e, of ap_id] by simp
  show "ap_task r' = ap_task r" using arg_cong [OF e, of ap_task] by simp
qed

lemma delegation_change_keeps:
  assumes "delegation_change r r'"
  shows "dl_id r' = dl_id r" "dl_parent r' = dl_parent r" "dl_child r' = dl_child r"
proof -
  note e = conjunct1 [OF assms [unfolded delegation_change_def]]
  show "dl_id r' = dl_id r" using arg_cong [OF e, of dl_id] by simp
  show "dl_parent r' = dl_parent r" using arg_cong [OF e, of dl_parent] by simp
  show "dl_child r' = dl_child r" using arg_cong [OF e, of dl_child] by simp
qed

lemma run_change_face: "run_change r r' \<Longrightarrow> run_face r' = run_face r"
  by (simp add: run_face_def run_change_keeps)

lemmas change_keeps = session_change_keeps run_change_keeps run_change_face task_change_keeps workflow_change_keeps
  step_change_keeps approval_change_keeps delegation_change_keeps

section \<open>Every step keeps the store consistent\<close>

lemma keys_step:
  assumes "agent_step db db'" and "keys_ok db" shows "keys_ok db'"
  using assms
proof cases
  case (change_run r r')
  with assms(2) show ?thesis by (simp add: keys_ok_def put_defs map_replace_row run_change_keeps)
next
  case (change_session r r')
  with assms(2) show ?thesis by (simp add: keys_ok_def put_defs map_replace_row session_change_keeps)
next
  case (change_task r r')
  with assms(2) show ?thesis by (simp add: keys_ok_def put_defs map_replace_row task_change_keeps)
next
  case (change_workflow r r')
  with assms(2) show ?thesis by (simp add: keys_ok_def put_defs map_replace_row workflow_change_keeps)
next
  case (change_step r r')
  with assms(2) show ?thesis by (simp add: keys_ok_def put_defs map_replace_row step_change_keeps)
next
  case (change_approval r r')
  with assms(2) show ?thesis by (simp add: keys_ok_def put_defs map_replace_row approval_change_keeps)
next
  case (change_delegation r r')
  with assms(2) show ?thesis by (simp add: keys_ok_def put_defs map_replace_row delegation_change_keeps)
next
  case (add_checkpoint r)
  with assms(2) show ?thesis by (auto simp: keys_ok_def put_defs checkpoint_new_def)
qed (use assms(2) in \<open>auto simp: keys_ok_def put_defs\<close>)

lemma refs_step:
  assumes "agent_step db db'" and "refs_ok db" shows "refs_ok db'"
  using assms
proof cases
  case (add_session r)
  with assms(2) show ?thesis by (auto simp: refs_ok_def put_defs ids_defs)
next
  case (change_session r r')
  have "ss_id ` set (replace_row r r' (ad_sessions db)) = ss_id ` set (ad_sessions db)"
    using change_session by (intro image_replace_row) (rule session_change_keeps)
  with assms(2) change_session show ?thesis by (auto simp: refs_ok_def put_defs ids_defs)
next
  case (add_run r)
  have mono: "run_face ` set (ad_runs db) \<subseteq> run_face ` set (ad_runs db @ [r])" by auto
  have new: "\<exists>pp pl. (p, rn_session r, pp, pl) \<in> run_face ` set (ad_runs db) \<and> inherit_limits pl (rn_limits r) = rn_limits r"
    if "rn_parent r = Some p" for p
  proof -
    from add_run(2) that obtain q where "q \<in> set (ad_runs db)" "rn_id q = p" "rn_session q = rn_session r"
      "inherit_limits (rn_limits q) (rn_limits r) = rn_limits r" by (auto simp: run_new_def)
    then have "(p, rn_session r, rn_parent q, rn_limits q) \<in> run_face ` set (ad_runs db)"
      by (intro image_eqI [of _ _ q]) (simp_all add: run_face_def)
    with \<open>inherit_limits (rn_limits q) (rn_limits r) = rn_limits r\<close> show ?thesis by blast
  qed
  have old: "\<exists>pp pl. (p, rn_session x, pp, pl) \<in> run_face ` set (ad_runs db) \<and> inherit_limits pl (rn_limits x) = rn_limits x"
    if "x \<in> set (ad_runs db)" "rn_parent x = Some p" for x p
    using assms(2) that unfolding refs_ok_def by blast
  have parents: "\<exists>pp pl. (p, rn_session x, pp, pl) \<in> run_face ` set (ad_runs db @ [r]) \<and> inherit_limits pl (rn_limits x) = rn_limits x"
    if "x \<in> set (ad_runs db @ [r])" "rn_parent x = Some p" for x p
  proof (cases "x = r")
    case True
    with new [of p] that(2) mono show ?thesis by blast
  next
    case False
    with old [of x p] that mono show ?thesis by auto
  qed
  have s: "rn_session r \<in> session_ids db" using add_run(2) by (simp add: run_new_def session_ids_def)
  have runs: "ad_runs (put_runs rs db) = rs" for rs by (simp add: put_runs_def)
  show ?thesis unfolding refs_ok_def add_run(1)
  proof (intro conjI)
    show "\<forall>x \<in> set (ad_runs (put_runs (ad_runs db @ [r]) db)). \<forall>p. rn_parent x = Some p \<longrightarrow>
        (\<exists>pp pl. (p, rn_session x, pp, pl) \<in> run_face ` set (ad_runs (put_runs (ad_runs db @ [r]) db)) \<and>
          inherit_limits pl (rn_limits x) = rn_limits x)"
      using parents unfolding runs by blast
  qed (use assms(2) s in \<open>auto simp: refs_ok_def put_runs_def ids_defs\<close>)
next
  case (change_run r r')
  have f: "run_face ` set (replace_row r r' (ad_runs db)) = run_face ` set (ad_runs db)"
    "rn_id ` set (replace_row r r' (ad_runs db)) = rn_id ` set (ad_runs db)"
    using change_run by (simp_all add: image_replace_row run_change_face run_change_keeps)
  have k: "rn_session r' = rn_session r" "rn_parent r' = rn_parent r" "rn_limits r' = rn_limits r"
    using change_run by (simp_all add: run_change_keeps)
  from assms(2) show ?thesis unfolding refs_ok_def change_run put_defs ids_defs
    by (simp add: f) (intro conjI ball_replace_row [OF _ change_run(2)]; simp add: k)
next
  case (change_task r r')
  have f: "tk_id ` set (replace_row r r' (ad_tasks db)) = tk_id ` set (ad_tasks db)"
    using change_task by (simp add: image_replace_row task_change_keeps)
  have k: "tk_session r' = tk_session r" "tk_run r' = tk_run r" "tk_workflow r' = tk_workflow r"
    using change_task by (simp_all add: task_change_keeps)
  from assms(2) show ?thesis unfolding refs_ok_def change_task put_defs ids_defs
    by (simp add: f) (intro conjI ball_replace_row [OF _ change_task(2)]; simp add: k)
next
  case (change_workflow r r')
  have f: "wr_id ` set (replace_row r r' (ad_workflows db)) = wr_id ` set (ad_workflows db)"
    using change_workflow by (simp add: image_replace_row workflow_change_keeps)
  have k: "wr_session r' = wr_session r" using change_workflow by (simp add: workflow_change_keeps)
  from assms(2) show ?thesis unfolding refs_ok_def change_workflow put_defs ids_defs
    by (simp add: f) (intro conjI ball_replace_row [OF _ change_workflow(2)]; simp add: k)
next
  case (change_step r r')
  have k: "sr_workflow r' = sr_workflow r" "sr_run r' = sr_run r" using change_step by (simp_all add: step_change_keeps)
  have f: "sr_id ` set (replace_row r r' (ad_steps db)) = sr_id ` set (ad_steps db)"
    using change_step by (simp add: image_replace_row step_change_keeps)
  from assms(2) show ?thesis unfolding refs_ok_def change_step put_defs ids_defs
    by (simp add: f) (intro conjI ball_replace_row [OF _ change_step(2)]; simp add: k)
next
  case (change_approval r r')
  have k: "ap_task r' = ap_task r" using change_approval by (simp add: approval_change_keeps)
  from assms(2) show ?thesis unfolding refs_ok_def change_approval put_defs ids_defs
    by simp (intro conjI ball_replace_row [OF _ change_approval(2)]; simp add: k)
next
  case (change_delegation r r')
  have k: "dl_parent r' = dl_parent r" "dl_child r' = dl_child r"
    using change_delegation by (simp_all add: delegation_change_keeps)
  from assms(2) show ?thesis unfolding refs_ok_def change_delegation put_defs ids_defs
    by simp (intro conjI ball_replace_row [OF _ change_delegation(2)]; simp add: k)
next
  case (add_task r)
  with assms(2) show ?thesis by (auto simp: refs_ok_def put_defs ids_defs task_new_def split: option.splits)
next
  case (add_workflow r)
  with assms(2) show ?thesis by (auto simp: refs_ok_def put_defs ids_defs workflow_new_def)
next
  case (add_step r)
  with assms(2) show ?thesis by (auto simp: refs_ok_def put_defs ids_defs step_new_def split: option.splits)
next
  case (add_checkpoint r)
  with assms(2) show ?thesis by (auto simp: refs_ok_def put_defs ids_defs checkpoint_new_def split: option.splits)
next
  case (add_approval r)
  with assms(2) show ?thesis by (auto simp: refs_ok_def put_defs ids_defs approval_new_def)
next
  case (add_delegation r)
  with assms(2) show ?thesis by (auto simp: refs_ok_def put_defs ids_defs delegation_new_def)
next
  case (emit rid e b ob)
  with assms(2) show ?thesis by (simp add: refs_ok_def ids_defs)
qed

lemma run_change_ok:
  assumes c: "run_change r r'" and ok: "run_ok r" shows "run_ok r'"
proof -
  have m: "rn_state r' = rn_state r \<or> rn_state r' \<in> set (loop_moves (rn_state r)) \<or> rn_state r' = LOOP_FAILED"
    and d: "loop_terminal (rn_state r') \<and> rn_state r' \<noteq> rn_state r \<longrightarrow> rn_completed r' \<noteq> None"
      "\<not> loop_terminal (rn_state r') \<longrightarrow> rn_completed r' = rn_completed r"
      "rn_completed r \<noteq> None \<longrightarrow> rn_completed r' \<noteq> None"
    using c unfolding run_change_def by blast+
  have "loop_terminal (rn_state r) \<Longrightarrow> loop_terminal (rn_state r')"
    using m loop.final_moves [of "rn_state r"] by (auto simp: loop_terminal_def)
  with d ok have "loop_terminal (rn_state r') \<longleftrightarrow> rn_completed r' \<noteq> None"
    unfolding run_ok_def by metis
  with ok show ?thesis by (simp add: run_ok_def run_change_keeps [OF c])
qed

lemma task_change_ok:
  assumes c: "task_change r r'" and ok: "task_ok r" shows "task_ok r'"
proof -
  have n: "tk_attempt r' = tk_attempt r \<or> tk_attempt r' = tk_attempt r + 1 \<and> tk_attempt r < tk_max_attempts r"
    and d: "tk_awaiting r' \<noteq> None \<longrightarrow> tk_state r' = TASK_WAITING_PERMISSION \<or>
        tk_awaiting r' = tk_awaiting r \<and> tk_state r' = tk_state r"
      "task_terminal (tk_state r') \<and> tk_state r' \<noteq> tk_state r \<longrightarrow> tk_completed r' \<noteq> None"
      "tk_completed r \<noteq> None \<longrightarrow> tk_completed r' \<noteq> None"
    using c unfolding task_change_def by blast+
  have "task_terminal (tk_state r') \<longrightarrow> tk_completed r' \<noteq> None"
    "tk_awaiting r' \<noteq> None \<longrightarrow> tk_state r' = TASK_WAITING_PERMISSION"
    using d ok unfolding task_ok_def by metis+
  with n ok show ?thesis by (auto simp: task_ok_def task_change_keeps [OF c])
qed

lemma rows_step:
  assumes "agent_step db db'" and "rows_fine db" shows "rows_fine db'"
  using assms
proof cases
  case (change_session r r')
  then have "ss_version r' = ss_version r + 1" by (simp add: session_change_keeps)
  with change_session assms(2) show ?thesis
    unfolding rows_fine_def put_defs by simp (intro conjI ball_replace_row [OF _ change_session(2)]; simp)
next
  case (change_run r r')
  with assms(2) show ?thesis
    unfolding rows_fine_def put_defs
    by simp (intro conjI ball_replace_row [OF _ change_run(2)]; simp add: run_change_ok)
next
  case (change_task r r')
  with assms(2) show ?thesis
    unfolding rows_fine_def put_defs
    by simp (intro conjI ball_replace_row [OF _ change_task(2)]; simp add: task_change_ok)
next
  case (change_workflow r r')
  then have "wr_version r' = wr_version r + 1" by (simp add: workflow_change_keeps)
  with change_workflow assms(2) show ?thesis
    unfolding rows_fine_def put_defs by simp (intro conjI ball_replace_row [OF _ change_workflow(2)]; simp)
next
  case (change_step r r')
  then have "sr_version r' = sr_version r + 1" by (simp add: step_change_keeps)
  with change_step assms(2) show ?thesis
    unfolding rows_fine_def put_defs by simp (intro conjI ball_replace_row [OF _ change_step(2)]; simp)
next
  case (change_approval r r')
  then have "ap_state r' = APR_PENDING \<longleftrightarrow> ap_resolved r' = None" by (auto simp: approval_change_def)
  with change_approval assms(2) show ?thesis
    unfolding rows_fine_def put_defs by simp (intro conjI ball_replace_row [OF _ change_approval(2)]; simp)
qed (use assms(2) in \<open>auto simp: rows_fine_def put_defs session_new_def run_new_def run_ok_def loop_terminal_def task_new_def
    task_ok_def task_terminal_def workflow_new_def step_new_def approval_new_def\<close>)

lemma outbox_step:
  assumes "agent_step db db'" and "outbox_inv (ad_outbox db)" shows "outbox_inv (ad_outbox db')"
  using assms by cases (auto simp: put_defs intro: outbox_inv_record_next)

theorem agent_step_inv: "agent_step db db' \<Longrightarrow> agent_inv db \<Longrightarrow> agent_inv db'"
  by (simp add: agent_inv_def keys_step refs_step rows_step outbox_step)

lemma agent_steps_inv: "agent_steps db db' \<Longrightarrow> agent_inv db \<Longrightarrow> agent_inv db'"
  by (induction rule: rtranclp_induct) (auto intro: agent_step_inv)

lemma agent_inv_empty: "agent_inv empty_agent_db"
  by (simp add: agent_inv_def keys_ok_def refs_ok_def rows_fine_def empty_agent_db_def empty_outbox_def outbox_inv_def dedup_keys_def)

end
