(* ===== verification/Agent_Refinement.thy ===== *)
theory Agent_Refinement
  imports Agent_Spec
begin

text \<open>
  The commands of the service implement the specification of the store: started on a consistent
  store, a command that raises leaves it as it was, and a command that returns has taken it through
  steps of \<open>agent_step\<close> only. The proofs compute the outcome of a body statement by statement; the
  two locales hold what the statements on one table do, for all tables at once.
\<close>

section \<open>Outcomes\<close>

definition act_wp :: "('s, 'a) act \<Rightarrow> (exn + 'a \<Rightarrow> 's \<Rightarrow> bool) \<Rightarrow> 's \<Rightarrow> bool" where
  "act_wp m Q s \<longleftrightarrow> (case m s of (out, s') \<Rightarrow> Q out s')"

named_theorems wp_simps \<open>outcomes of statements that only read\<close>

lemma wp_return [wp_simps]: "act_wp (act_return x) Q s = Q (Inr x) s"
  by (simp add: act_wp_def act_return_def)

lemma wp_raise [wp_simps]: "act_wp (act_raise e) Q s = Q (Inl e) s"
  by (simp add: act_wp_def act_raise_def)

lemma wp_bind [wp_simps]:
  "act_wp (act_bind m f) Q s = act_wp m (\<lambda>out s'. case out of Inl e \<Rightarrow> Q (Inl e) s' | Inr x \<Rightarrow> act_wp (f x) Q s') s"
  by (auto simp: act_wp_def act_bind_def split: prod.splits sum.splits)

lemma wp_ignore [wp_simps]: "act_wp (act_ignore m) Q s = act_wp m (\<lambda>_ s'. Q (Inr ()) s') s"
  by (simp add: act_wp_def act_ignore_def case_prod_beta)

lemma wp_when [wp_simps]: "act_wp (act_when b m) Q s = (if b then act_wp m Q s else Q (Inr ()) s)"
  by (simp add: act_when_def wp_return)

lemma wp_check [wp_simps]: "act_wp (act_check b e) Q s = (if b then Q (Inr ()) s else Q (Inl e) s)"
  by (simp add: act_check_def wp_return wp_raise)

lemma wp_act_of [wp_simps]: "act_wp (act_of r) Q s = (case r of Inl e \<Rightarrow> Q (Inl e) s | Inr x \<Rightarrow> Q (Inr x) s)"
  by (simp add: act_of_def wp_return wp_raise split: sum.split)

lemma wp_assert [wp_simps]:
  "act_wp (act_assert x) Q s = (case x of None \<Rightarrow> Q (Inl (RuntimeErr ''AssertionError'')) s | Some y \<Rightarrow> Q (Inr y) s)"
  by (simp add: act_assert_def wp_return wp_raise split: option.split)

lemma wp_fetch [wp_simps]: "act_wp (fetch rows key k) Q s = Q (Inr (find (\<lambda>r. key r = k) (rows (as_db s)))) s"
  by (simp add: act_wp_def fetch_def)

lemma wp_select [wp_simps]:
  "act_wp (select_rows rows p ord) Q s = Q (Inr (sort_key ord (filter p (rows (as_db s))))) s"
  by (simp add: act_wp_def select_rows_def)

lemma wp_draw_time [wp_simps]:
  "act_wp (draw_time env) Q s = Q (Inr (ae_now env (as_tick s))) (s\<lparr>as_tick := Suc (as_tick s)\<rparr>)"
  by (simp add: act_wp_def draw_time_def)

lemma wp_draw_id [wp_simps]:
  "act_wp (draw_id env) Q s = Q (Inr (ae_id env (as_tick s))) (s\<lparr>as_tick := Suc (as_tick s)\<rparr>)"
  by (simp add: act_wp_def draw_id_def)

lemma wp_require_row [wp_simps]:
  "act_wp (require_row m) Q s = act_wp m (\<lambda>out s'. case out of Inl e \<Rightarrow> Q (Inl e) s'
     | Inr x \<Rightarrow> (case x of None \<Rightarrow> Q (Inl NOT_FOUND_ERR) s' | Some r \<Rightarrow> Q (Inr r) s')) s"
  by (auto simp: require_row_def act_bind_def act_wp_def act_raise_def act_return_def split: prod.splits sum.splits option.splits)

lemma wp_require_updated [wp_simps]:
  "act_wp (require_updated m) Q s = act_wp m (\<lambda>out s'. case out of Inl e \<Rightarrow> Q (Inl e) s'
     | Inr x \<Rightarrow> (case x of None \<Rightarrow> Q (Inl STALE_ERR) s' | Some r \<Rightarrow> Q (Inr r) s')) s"
  by (auto simp: require_updated_def act_bind_def act_wp_def act_raise_def act_return_def split: prod.splits sum.splits option.splits)

lemma wp_require_inserted [wp_simps]:
  "act_wp (require_inserted m) Q s = act_wp m (\<lambda>out s'. case out of Inl e \<Rightarrow> Q (Inl e) s'
     | Inr ok \<Rightarrow> if ok then Q (Inr ()) s' else Q (Inl VALIDATION_ERR) s') s"
  by (auto simp: require_inserted_def act_bind_def act_wp_def act_raise_def act_return_def split: prod.splits sum.splits)

lemma wp_mono: "act_wp m Q s \<Longrightarrow> (\<And>out s'. Q out s' \<Longrightarrow> Q' out s') \<Longrightarrow> act_wp m Q' s"
  by (auto simp: act_wp_def split: prod.splits)

section \<open>A body under way\<close>

definition running :: "agent_scope \<Rightarrow> bool" where
  "running s \<longleftrightarrow> agent_inv (as_db s) \<and> agent_steps (as_stored s) (as_db s)"

lemma running_tick [simp]: "running (s\<lparr>as_tick := n\<rparr>) = running s"
  by (simp add: running_def)

lemma running_inv: "running s \<Longrightarrow> agent_inv (as_db s)"
  by (simp add: running_def)

lemma running_step:
  assumes "running s" and "agent_step (as_db s) db"
  shows "running (s\<lparr>as_db := db, as_tick := n\<rparr>)" "running (s\<lparr>as_db := db\<rparr>)"
  using assms agent_step_inv [OF assms(2)] by (auto simp: running_def)

definition settled :: "agent_db \<Rightarrow> exn + 'a \<Rightarrow> agent_scope \<Rightarrow> bool" where
  "settled d out s \<longleftrightarrow> (case out of Inl e \<Rightarrow> as_stored s = d | Inr x \<Rightarrow> agent_steps d (as_stored s))"

lemma settled_Inl [simp]: "settled d (Inl e) s \<longleftrightarrow> as_stored s = d"
  and settled_Inr [simp]: "settled d (Inr x) s \<longleftrightarrow> agent_steps d (as_stored s)"
  by (simp_all add: settled_def)

lemma wp_commit:
  assumes "running s"
    and "\<And>s'. agent_steps (as_stored s) (as_stored s') \<Longrightarrow> as_stored s' = as_db s \<Longrightarrow> as_db s' = as_db s \<Longrightarrow> Q (Inr ()) s'"
  shows "act_wp commit_scope Q s"
  using assms by (simp add: act_wp_def commit_scope_def running_def)

lemma wp_record_event:
  assumes "running s"
    and "\<And>e s'. running s' \<Longrightarrow> as_stored s' = as_stored s \<Longrightarrow> as_db s' = as_db s \<Longrightarrow> Q (Inl e) s'"
    and "\<And>ob s'. running s' \<Longrightarrow> as_stored s' = as_stored s \<Longrightarrow> as_db s' = (as_db s)\<lparr>ad_outbox := ob\<rparr> \<Longrightarrow> Q (Inr ()) s'"
  shows "act_wp (record_event env e) Q s"
proof -
  let ?n = "as_tick s"
  show ?thesis
  proof (cases "make_envelope (e\<lparr>ev_id := ae_id env ?n, ev_occurred_at := ae_now env (Suc ?n)\<rparr>)")
    case (Inl x)
    then show ?thesis using assms(1) by (simp add: record_event_def wp_simps assms(2))
  next
    case (Inr w)
    let ?r = "record_next no_hook (ae_now env (Suc (Suc ?n))) (ae_id env (Suc (Suc (Suc ?n)))) w None (ad_outbox (as_db s))"
    show ?thesis
    proof (cases ?r)
      case x: (Inl x)
      with Inr have "record_event env e s = (Inl x, s\<lparr>as_tick := Suc (Suc (Suc (Suc ?n)))\<rparr>)"
        by (simp add: record_event_def act_bind_def draw_id_def draw_time_def)
      then show ?thesis using assms(1) by (simp add: act_wp_def assms(2))
    next
      case b: (Inr bo)
      obtain b ob where bo: "bo = (b, ob)" by fastforce
      have "agent_step (as_db s) ((as_db s)\<lparr>ad_outbox := ob\<rparr>)" using b bo by (auto intro: agent_step.emit)
      moreover from Inr b bo have "record_event env e s =
          (Inr (), s\<lparr>as_db := (as_db s)\<lparr>ad_outbox := ob\<rparr>, as_tick := Suc (Suc (Suc (Suc ?n)))\<rparr>)"
        by (simp add: record_event_def act_bind_def draw_id_def draw_time_def)
      ultimately show ?thesis using running_step(1) [OF assms(1)] by (simp add: act_wp_def assms(3))
    qed
  qed
qed

section \<open>Tables\<close>

locale agent_table =
  fixes rows :: "agent_db \<Rightarrow> 'r list"
    and put :: "'r list \<Rightarrow> agent_db \<Rightarrow> agent_db"
    and key :: "'r \<Rightarrow> string"
    and fresh :: "agent_db \<Rightarrow> 'r \<Rightarrow> bool"
  assumes rows_put: "rows (put rs db) = rs"
    and keys: "agent_inv db \<Longrightarrow> distinct (map key (rows db))"
    and step_add: "fresh db r \<Longrightarrow> key r \<notin> key ` set (rows db) \<Longrightarrow> agent_step db (put (rows db @ [r]) db)"
begin

lemma found: "agent_inv db \<Longrightarrow> r \<in> set (rows db) \<Longrightarrow> find (\<lambda>x. key x = key r) (rows db) = Some r"
  by (rule find_key [OF keys])

lemma wp_add:
  assumes "running s" and "fresh (as_db s) r"
    and "Q (Inr False) s"
    and "\<And>s'. running s' \<Longrightarrow> as_stored s' = as_stored s \<Longrightarrow> as_db s' = put (rows (as_db s) @ [r]) (as_db s) \<Longrightarrow>
      find (\<lambda>x. key x = key r) (rows (as_db s')) = Some r \<Longrightarrow> Q (Inr True) s'"
  shows "act_wp (add_row rows put key r) Q s"
proof (cases "find (\<lambda>x. key x = key r) (rows (as_db s))")
  case (Some x)
  then show ?thesis using assms(3) by (simp add: act_wp_def add_row_def)
next
  case None
  let ?s = "s\<lparr>as_db := put (rows (as_db s) @ [r]) (as_db s)\<rparr>"
  from None have "key r \<notin> key ` set (rows (as_db s))" by (auto simp: find_None_iff)
  with assms(2) have step: "agent_step (as_db s) (put (rows (as_db s) @ [r]) (as_db s))" by (rule step_add)
  have run: "running ?s" using running_step(2) [OF assms(1) step] .
  have "r \<in> set (rows (as_db ?s))" by (simp add: rows_put)
  with run have "find (\<lambda>x. key x = key r) (rows (as_db ?s)) = Some r" by (simp only: found running_inv)
  with None run show ?thesis using assms(4) [of ?s] by (simp add: act_wp_def add_row_def)
qed

end

locale changing_table = agent_table +
  fixes ver :: "'a \<Rightarrow> 'v"
    and change :: "'a \<Rightarrow> 'a \<Rightarrow> bool"
  assumes change_key: "change r r' \<Longrightarrow> key r' = key r"
    and step_change: "r \<in> set (rows db) \<Longrightarrow> change r r' \<Longrightarrow> agent_step db (put (replace_row r r' (rows db)) db)"
begin

lemma guarded_update:
  assumes "distinct (map key xs)" and "r \<in> set xs" and "matches expected (ver r)"
  shows "sql_update (\<lambda>x. key x = key r \<and> (expected = None \<or> expected = Some (ver x))) f xs = replace_row r (f r) xs"
    and "rowcount (\<lambda>x. key x = key r \<and> (expected = None \<or> expected = Some (ver x))) xs \<noteq> 0"
proof -
  have "x = r" if "x \<in> set xs" "key x = key r" for x
    using assms(1,2) that by (auto simp: distinct_map dest: inj_onD)
  then show "sql_update (\<lambda>x. key x = key r \<and> (expected = None \<or> expected = Some (ver x))) f xs = replace_row r (f r) xs"
    using assms(3) by (auto simp: sql_update_def replace_row_def)
  show "rowcount (\<lambda>x. key x = key r \<and> (expected = None \<or> expected = Some (ver x))) xs \<noteq> 0"
    using assms(2,3) by (auto simp: rowcount_zero)
qed

lemma wp_change:
  assumes run: "running s"
    and vals: "\<And>r. find (\<lambda>r. key r = k) (rows (as_db s)) = Some r \<Longrightarrow> matches expected (ver r) \<Longrightarrow>
      act_wp (vals r) (\<lambda>out s'. \<exists>f n. out = Inr f \<and> s' = s\<lparr>as_tick := n\<rparr> \<and> change r (f r) \<and> P r (f r)) s"
    and none: "\<forall>r. find (\<lambda>r. key r = k) (rows (as_db s)) = Some r \<longrightarrow> \<not> matches expected (ver r) \<Longrightarrow> Q (Inr None) s"
    and some: "\<And>r r' s'. running s' \<Longrightarrow> as_stored s' = as_stored s \<Longrightarrow>
      find (\<lambda>r. key r = k) (rows (as_db s)) = Some r \<Longrightarrow> matches expected (ver r) \<Longrightarrow> P r r' \<Longrightarrow>
      as_db s' = put (replace_row r r' (rows (as_db s))) (as_db s) \<Longrightarrow>
      find (\<lambda>x. key x = k) (rows (as_db s')) = Some r' \<Longrightarrow> Q (Inr (Some r')) s'"
  shows "act_wp (change_row rows put key ver k expected vals) Q s"
proof (cases "find (\<lambda>r. key r = k) (rows (as_db s))")
  case None
  then show ?thesis using none by (simp add: change_row_def wp_simps)
next
  case (Some r)
  then have r: "r \<in> set (rows (as_db s))" "key r = k" by (auto dest: find_SomeD)
  show ?thesis
  proof (cases "matches expected (ver r)")
    case False
    with Some none show ?thesis by (simp add: change_row_def wp_simps)
  next
    case True
    from vals [OF Some True] obtain f n where v: "vals r s = (Inr f, s\<lparr>as_tick := n\<rparr>)" and c: "change r (f r)" "P r (f r)"
      by (auto simp: act_wp_def split: prod.splits)
    let ?db = "put (replace_row r (f r) (rows (as_db s))) (as_db s)"
    let ?s = "s\<lparr>as_db := ?db, as_tick := n\<rparr>"
    note u = guarded_update [OF keys [OF running_inv [OF run]] r(1) True, unfolded r(2)]
    have run': "running ?s" using running_step(1) [OF run step_change [OF r(1) c(1)]] by simp
    have "f r \<in> set (rows ?db)" using r(1) by (auto simp: rows_put replace_row_def)
    moreover have "key (f r) = k" using change_key [OF c(1)] r(2) by simp
    moreover have "agent_inv ?db" using running_inv [OF run'] by simp
    ultimately have "find (\<lambda>x. key x = k) (rows ?db) = Some (f r)" using found [of ?db "f r"] by simp
    then have fin: "find (\<lambda>x. key x = k) (rows ?db) = Some (f r)" .
    then have "Q (Inr (Some (f r))) ?s"
      using some [OF run' _ Some True c(2)] by simp
    moreover have "change_row rows put key ver k expected vals s = (Inr (Some (f r)), ?s)"
      using Some True v u fin by (auto simp: change_row_def act_bind_def fetch_def write_rows_def)
    ultimately show ?thesis by (simp add: act_wp_def)
  qed
qed

end

interpretation tbl_sessions: changing_table ad_sessions put_sessions ss_id session_new ss_version session_change
  by unfold_locales (auto simp: put_sessions_def agent_inv_def keys_ok_def session_change_keeps
      intro: agent_step.intros [unfolded put_sessions_def])

interpretation tbl_runs: changing_table ad_runs put_runs rn_id run_new rn_version run_change
  by unfold_locales (auto simp: put_runs_def agent_inv_def keys_ok_def run_change_keeps
      intro: agent_step.intros [unfolded put_runs_def])

interpretation tbl_tasks: changing_table ad_tasks put_tasks tk_id task_new tk_version task_change
  by unfold_locales (auto simp: put_tasks_def agent_inv_def keys_ok_def task_change_keeps
      intro: agent_step.intros [unfolded put_tasks_def])

interpretation tbl_workflows: changing_table ad_workflows put_workflows wr_id workflow_new wr_version workflow_change
  by unfold_locales (auto simp: put_workflows_def agent_inv_def keys_ok_def workflow_change_keeps
      intro: agent_step.intros [unfolded put_workflows_def])

interpretation tbl_steps: changing_table ad_steps put_steps sr_id step_new sr_version step_change
  by unfold_locales (auto simp: put_steps_def agent_inv_def keys_ok_def step_change_keeps
      intro: agent_step.intros [unfolded put_steps_def])

interpretation tbl_checkpoints: agent_table ad_checkpoints put_checkpoints cp_id checkpoint_new
  by unfold_locales (auto simp: put_checkpoints_def agent_inv_def keys_ok_def
      intro: agent_step.intros [unfolded put_checkpoints_def])

interpretation tbl_approvals: changing_table ad_approvals put_approvals ap_id approval_new ap_state approval_change
  by unfold_locales (auto simp: put_approvals_def agent_inv_def keys_ok_def approval_change_keeps
      intro: agent_step.intros [unfolded put_approvals_def])

interpretation tbl_delegations: changing_table ad_delegations put_delegations dl_id delegation_new dl_status delegation_change
  by unfold_locales (auto simp: put_delegations_def agent_inv_def keys_ok_def delegation_change_keeps
      intro: agent_step.intros [unfolded put_delegations_def])

lemmas get_defs = get_session_def get_run_def get_task_def get_workflow_def get_step_def get_checkpoint_def
  get_approval_def get_delegation_def list_delegations_def list_checkpoints_def

lemmas wp_insert_session = tbl_sessions.wp_add [folded insert_session_def]
lemmas wp_insert_run = tbl_runs.wp_add [folded insert_run_def]
lemmas wp_insert_task = tbl_tasks.wp_add [folded insert_task_def]
lemmas wp_insert_workflow = tbl_workflows.wp_add [folded insert_workflow_def]
lemmas wp_insert_step = tbl_steps.wp_add [folded insert_step_def]
lemmas wp_insert_approval = tbl_approvals.wp_add [folded insert_approval_def]
lemmas wp_insert_delegation = tbl_delegations.wp_add [folded insert_delegation_def]

section \<open>Updates\<close>

definition completion_of :: "time option \<Rightarrow> bool \<Rightarrow> time option \<Rightarrow> bool" where
  "completion_of given auto done_at \<longleftrightarrow>
     (if given \<noteq> None then done_at = given else if auto then done_at \<noteq> None else done_at = None)"

definition run_auto :: "run_patch \<Rightarrow> run_row \<Rightarrow> bool" where
  "run_auto p r \<longleftrightarrow>
     rp_state p \<in> {Some LOOP_COMPLETED, Some LOOP_FAILED, Some LOOP_CANCELLED, Some LOOP_ORPHANED} \<and> rn_completed r = None"

definition task_auto :: "task_patch \<Rightarrow> task_row \<Rightarrow> bool" where
  "task_auto p r \<longleftrightarrow> tp_state p \<in> {Some TASK_COMPLETED, Some TASK_FAILED, Some TASK_CANCELLED} \<and> tk_completed r = None"

lemma wp_completion:
  assumes "\<And>done_at n. completion_of given auto done_at \<Longrightarrow> Q (Inr done_at) (s\<lparr>as_tick := n\<rparr>)"
  shows "act_wp (completion env given auto) Q s"
  using assms [of given "as_tick s"] assms [of "Some (ae_now env (as_tick s))" "Suc (as_tick s)"] assms [of None "as_tick s"]
  by (auto simp: completion_def completion_of_def wp_simps)

lemma timed_values:
  assumes "\<And>now done_at. completion_of given auto done_at \<Longrightarrow> C (vals now done_at)"
  shows "act_wp (act_bind (draw_time env) (\<lambda>now. act_bind (completion env given auto) (\<lambda>done_at.
      act_return (vals now done_at)))) (\<lambda>out s'. \<exists>f n. out = Inr f \<and> s' = s\<lparr>as_tick := n\<rparr> \<and> C f) s"
  using assms by (auto simp: wp_simps intro!: wp_completion)

lemma completed_values:
  assumes "\<And>t. completion_of None auto t \<Longrightarrow> C (vals t)"
  shows "act_wp (act_bind (completion env None auto) (\<lambda>t. act_return (vals t)))
      (\<lambda>out s'. \<exists>f n. out = Inr f \<and> s' = s\<lparr>as_tick := n\<rparr> \<and> C f) s"
  using assms by (auto simp: wp_simps intro!: wp_completion)

lemma wp_update_session:
  assumes "running s"
    and "\<And>r now. find (\<lambda>r. ss_id r = k) (ad_sessions (as_db s)) = Some r \<Longrightarrow> v = ss_version r \<Longrightarrow>
      session_change r (session_values now p r)"
    and "\<forall>r. find (\<lambda>r. ss_id r = k) (ad_sessions (as_db s)) = Some r \<longrightarrow> v \<noteq> ss_version r \<Longrightarrow> Q (Inr None) s"
    and "\<And>r r' now s'. running s' \<Longrightarrow> as_stored s' = as_stored s \<Longrightarrow>
      find (\<lambda>r. ss_id r = k) (ad_sessions (as_db s)) = Some r \<Longrightarrow> v = ss_version r \<Longrightarrow> r' = session_values now p r \<Longrightarrow>
      as_db s' = put_sessions (replace_row r r' (ad_sessions (as_db s))) (as_db s) \<Longrightarrow>
      find (\<lambda>x. ss_id x = k) (ad_sessions (as_db s')) = Some r' \<Longrightarrow> Q (Inr (Some r')) s'"
  shows "act_wp (update_session env k p (Some v)) Q s"
  unfolding update_session_def
  by (rule tbl_sessions.wp_change [where P = "\<lambda>r r'. \<exists>now. r' = session_values now p r", OF assms(1)])
    (use assms(2-4) in \<open>auto simp: wp_simps\<close>)

lemma wp_update_run:
  assumes "running s"
    and "\<And>r now done_at. find (\<lambda>r. rn_id r = k) (ad_runs (as_db s)) = Some r \<Longrightarrow> v = rn_version r \<Longrightarrow>
      completion_of (rp_completed p) (run_auto p r) done_at \<Longrightarrow> run_change r (run_values now done_at p r)"
    and "\<forall>r. find (\<lambda>r. rn_id r = k) (ad_runs (as_db s)) = Some r \<longrightarrow> v \<noteq> rn_version r \<Longrightarrow> Q (Inr None) s"
    and "\<And>r r' now done_at s'. running s' \<Longrightarrow> as_stored s' = as_stored s \<Longrightarrow>
      find (\<lambda>r. rn_id r = k) (ad_runs (as_db s)) = Some r \<Longrightarrow> v = rn_version r \<Longrightarrow> r' = run_values now done_at p r \<Longrightarrow>
      as_db s' = put_runs (replace_row r r' (ad_runs (as_db s))) (as_db s) \<Longrightarrow>
      find (\<lambda>x. rn_id x = k) (ad_runs (as_db s')) = Some r' \<Longrightarrow> Q (Inr (Some r')) s'"
  shows "act_wp (update_run env k p (Some v)) Q s"
  unfolding update_run_def run_auto_def [symmetric]
  by (rule tbl_runs.wp_change [where P = "\<lambda>r r'. \<exists>now done_at. r' = run_values now done_at p r", OF assms(1)])
    (rule timed_values, use assms(2-4) in \<open>auto simp del: insert_iff\<close>)

lemma wp_update_task:
  assumes "running s"
    and "\<And>r now done_at. find (\<lambda>r. tk_id r = k) (ad_tasks (as_db s)) = Some r \<Longrightarrow> v = tk_version r \<Longrightarrow>
      completion_of (tp_completed p) (task_auto p r) done_at \<Longrightarrow> task_change r (task_values now done_at p r)"
    and "\<forall>r. find (\<lambda>r. tk_id r = k) (ad_tasks (as_db s)) = Some r \<longrightarrow> v \<noteq> tk_version r \<Longrightarrow> Q (Inr None) s"
    and "\<And>r r' now done_at s'. running s' \<Longrightarrow> as_stored s' = as_stored s \<Longrightarrow>
      find (\<lambda>r. tk_id r = k) (ad_tasks (as_db s)) = Some r \<Longrightarrow> v = tk_version r \<Longrightarrow> r' = task_values now done_at p r \<Longrightarrow>
      as_db s' = put_tasks (replace_row r r' (ad_tasks (as_db s))) (as_db s) \<Longrightarrow>
      find (\<lambda>x. tk_id x = k) (ad_tasks (as_db s')) = Some r' \<Longrightarrow> Q (Inr (Some r')) s'"
  shows "act_wp (update_task env k p (Some v)) Q s"
  unfolding update_task_def task_auto_def [symmetric]
  by (rule tbl_tasks.wp_change [where P = "\<lambda>r r'. \<exists>now done_at. r' = task_values now done_at p r", OF assms(1)])
    (rule timed_values, use assms(2-4) in \<open>auto simp del: insert_iff\<close>)

lemma wp_update_workflow:
  assumes "running s"
    and "\<And>r now. find (\<lambda>r. wr_id r = k) (ad_workflows (as_db s)) = Some r \<Longrightarrow> v = wr_version r \<Longrightarrow>
      workflow_change r (workflow_values now p r)"
    and "\<forall>r. find (\<lambda>r. wr_id r = k) (ad_workflows (as_db s)) = Some r \<longrightarrow> v \<noteq> wr_version r \<Longrightarrow> Q (Inr None) s"
    and "\<And>r r' now s'. running s' \<Longrightarrow> as_stored s' = as_stored s \<Longrightarrow>
      find (\<lambda>r. wr_id r = k) (ad_workflows (as_db s)) = Some r \<Longrightarrow> v = wr_version r \<Longrightarrow> r' = workflow_values now p r \<Longrightarrow>
      as_db s' = put_workflows (replace_row r r' (ad_workflows (as_db s))) (as_db s) \<Longrightarrow>
      find (\<lambda>x. wr_id x = k) (ad_workflows (as_db s')) = Some r' \<Longrightarrow> Q (Inr (Some r')) s'"
  shows "act_wp (update_workflow env k p (Some v)) Q s"
  unfolding update_workflow_def
  by (rule tbl_workflows.wp_change [where P = "\<lambda>r r'. \<exists>now. r' = workflow_values now p r", OF assms(1)])
    (use assms(2-4) in \<open>auto simp: wp_simps\<close>)

lemma wp_update_step:
  assumes "running s"
    and "\<And>r now. find (\<lambda>r. sr_id r = k) (ad_steps (as_db s)) = Some r \<Longrightarrow> v = sr_version r \<Longrightarrow>
      step_change r (step_values now p r)"
    and "\<forall>r. find (\<lambda>r. sr_id r = k) (ad_steps (as_db s)) = Some r \<longrightarrow> v \<noteq> sr_version r \<Longrightarrow> Q (Inr None) s"
    and "\<And>r r' now s'. running s' \<Longrightarrow> as_stored s' = as_stored s \<Longrightarrow>
      find (\<lambda>r. sr_id r = k) (ad_steps (as_db s)) = Some r \<Longrightarrow> v = sr_version r \<Longrightarrow> r' = step_values now p r \<Longrightarrow>
      as_db s' = put_steps (replace_row r r' (ad_steps (as_db s))) (as_db s) \<Longrightarrow>
      find (\<lambda>x. sr_id x = k) (ad_steps (as_db s')) = Some r' \<Longrightarrow> Q (Inr (Some r')) s'"
  shows "act_wp (update_step env k p (Some v)) Q s"
  unfolding update_step_def
  by (rule tbl_steps.wp_change [where P = "\<lambda>r r'. \<exists>now. r' = step_values now p r", OF assms(1)])
    (use assms(2-4) in \<open>auto simp: wp_simps\<close>)

lemma wp_update_approval:
  assumes "running s"
    and "\<And>r t. find (\<lambda>r. ap_id r = k) (ad_approvals (as_db s)) = Some r \<Longrightarrow> v = ap_state r \<Longrightarrow>
      completion_of None (st \<in> {Some APR_APPROVED, Some APR_DENIED, Some APR_EXPIRED}) t \<Longrightarrow>
      approval_change r (approval_values t st res r)"
    and "\<forall>r. find (\<lambda>r. ap_id r = k) (ad_approvals (as_db s)) = Some r \<longrightarrow> v \<noteq> ap_state r \<Longrightarrow> Q (Inr None) s"
    and "\<And>r r' t s'. running s' \<Longrightarrow> as_stored s' = as_stored s \<Longrightarrow>
      find (\<lambda>r. ap_id r = k) (ad_approvals (as_db s)) = Some r \<Longrightarrow> v = ap_state r \<Longrightarrow>
      r' = approval_values t st res r \<Longrightarrow>
      as_db s' = put_approvals (replace_row r r' (ad_approvals (as_db s))) (as_db s) \<Longrightarrow>
      find (\<lambda>x. ap_id x = k) (ad_approvals (as_db s')) = Some r' \<Longrightarrow> Q (Inr (Some r')) s'"
  shows "act_wp (update_approval env k st res (Some v)) Q s"
  unfolding update_approval_def
  by (rule tbl_approvals.wp_change [where P = "\<lambda>r r'. \<exists>t. r' = approval_values t st res r", OF assms(1)])
    (rule completed_values, use assms(2-4) in \<open>auto simp del: insert_iff\<close>)

lemma wp_update_delegation:
  assumes "running s"
    and "\<And>r t. find (\<lambda>r. dl_id r = k) (ad_delegations (as_db s)) = Some r \<Longrightarrow>
      completion_of None (st \<in> {Some DEL_COMPLETED, Some DEL_FAILED, Some DEL_CANCELLED}) t \<Longrightarrow>
      delegation_change r (delegation_values t st r)"
    and "find (\<lambda>r. dl_id r = k) (ad_delegations (as_db s)) = None \<Longrightarrow> Q (Inr None) s"
    and "\<And>r r' t s'. running s' \<Longrightarrow> as_stored s' = as_stored s \<Longrightarrow>
      find (\<lambda>r. dl_id r = k) (ad_delegations (as_db s)) = Some r \<Longrightarrow>
      r' = delegation_values t st r \<Longrightarrow>
      as_db s' = put_delegations (replace_row r r' (ad_delegations (as_db s))) (as_db s) \<Longrightarrow>
      find (\<lambda>x. dl_id x = k) (ad_delegations (as_db s')) = Some r' \<Longrightarrow> Q (Inr (Some r')) s'"
  shows "act_wp (update_delegation env k st) Q s"
  unfolding update_delegation_def
  by (rule tbl_delegations.wp_change [where P = "\<lambda>r r'. \<exists>t. r' = delegation_values t st r", OF assms(1)])
    (rule completed_values, use assms(2-4) in \<open>auto simp del: insert_iff\<close>)

lemma wp_insert_checkpoint:
  assumes run: "running s"
    and new: "(cp_run r, cp_seq r) \<notin> (\<lambda>c. (cp_run c, cp_seq c)) ` set (ad_checkpoints (as_db s)) \<Longrightarrow> checkpoint_new (as_db s) r"
    and none: "Q (Inr False) s"
    and some: "\<And>s'. running s' \<Longrightarrow> as_stored s' = as_stored s \<Longrightarrow>
      as_db s' = put_checkpoints (ad_checkpoints (as_db s) @ [r]) (as_db s) \<Longrightarrow>
      find (\<lambda>x. cp_id x = cp_id r) (ad_checkpoints (as_db s')) = Some r \<Longrightarrow> Q (Inr True) s'"
  shows "act_wp (insert_checkpoint r) Q s"
proof (cases "find (\<lambda>x. cp_run x = cp_run r \<and> cp_seq x = cp_seq r) (ad_checkpoints (as_db s))")
  case None
  then have "checkpoint_new (as_db s) r" by (intro new) (auto simp: find_None_iff)
  from tbl_checkpoints.wp_add [OF run this, where Q = Q, OF none some]
  have "act_wp (add_row ad_checkpoints put_checkpoints cp_id r) Q s" .
  moreover have "insert_checkpoint r s = add_row ad_checkpoints put_checkpoints cp_id r s"
    using None by (simp add: insert_checkpoint_def add_row_def)
  ultimately show ?thesis by (simp only: act_wp_def)
next
  case (Some x)
  then have "insert_checkpoint r s = (Inr False, s)" by (simp add: insert_checkpoint_def)
  with none show ?thesis by (simp add: act_wp_def)
qed

section \<open>Refinement\<close>

definition refines_from :: "(agent_world, 'a) act \<Rightarrow> agent_world \<Rightarrow> bool" where
  "refines_from m w \<longleftrightarrow>
     (case m w of (Inl e, w') \<Rightarrow> aw_db w' = aw_db w | (Inr x, w') \<Rightarrow> agent_steps (aw_db w) (aw_db w'))"

lemma refines_from_raise: "refines_from (act_raise e) w"
  by (simp add: refines_from_def act_raise_def)

lemma refines_from_scope:
  assumes "agent_inv (aw_db w)"
    and "\<And>s. running s \<Longrightarrow> as_stored s = aw_db w \<Longrightarrow> as_db s = aw_db w \<Longrightarrow> act_wp body (settled (aw_db w)) s"
  shows "refines_from (in_scope body) w"
proof -
  let ?s = "\<lparr>as_db = aw_db w, as_stored = aw_db w, as_tick = aw_tick w\<rparr>"
  have "running ?s" using assms(1) by (simp add: running_def)
  with assms(2) [of ?s] have "act_wp body (settled (aw_db w)) ?s" by simp
  then show ?thesis
    by (auto simp: refines_from_def act_wp_def in_scope_def settled_def split: prod.splits sum.splits)
qed

definition refines :: "(agent_world, 'a) act \<Rightarrow> bool" where
  "refines m \<longleftrightarrow> (\<forall>w. agent_inv (aw_db w) \<longrightarrow> refines_from m w)"

lemma refines_raise [intro]: "refines (act_raise e)"
  by (simp add: refines_def refines_from_raise)

lemma refines_scope:
  assumes "\<And>d s. running s \<Longrightarrow> as_stored s = d \<Longrightarrow> as_db s = d \<Longrightarrow> act_wp body (settled d) s"
  shows "refines (in_scope body)"
  unfolding refines_def using refines_from_scope assms by blast

section \<open>Assignments of the updates\<close>

lemma no_patch_sels [simp]:
  "sp_title no_session_patch = None" "sp_state no_session_patch = None" "sp_limits no_session_patch = None"
  "sp_usage no_session_patch = None" "sp_version no_session_patch = None" "sp_metadata no_session_patch = None"
  "rp_state no_run_patch = None" "rp_limits no_run_patch = None" "rp_usage no_run_patch = None"
  "rp_exhaustion no_run_patch = None" "rp_attempt no_run_patch = None" "rp_version no_run_patch = None"
  "rp_metadata no_run_patch = None" "rp_completed no_run_patch = None"
  "tp_state no_task_patch = None" "tp_attempt no_task_patch = None" "tp_output no_task_patch = None"
  "tp_error no_task_patch = None" "tp_awaiting no_task_patch = None" "tp_checkpoint no_task_patch = None"
  "tp_version no_task_patch = None" "tp_metadata no_task_patch = None" "tp_completed no_task_patch = None"
  "wp_state no_workflow_patch = None" "wp_nodes no_workflow_patch = None" "wp_edges no_workflow_patch = None"
  "wp_version no_workflow_patch = None" "wp_metadata no_workflow_patch = None"
  "sq_state no_step_patch = None" "sq_attempt no_step_patch = None" "sq_result no_step_patch = None"
  "sq_error no_step_patch = None" "sq_version no_step_patch = None"
  by (simp_all add: no_session_patch_def no_run_patch_def no_task_patch_def no_workflow_patch_def no_step_patch_def)

lemma keep_simps [simp]: "keep None x = x" "keep (Some y) x = y" "or_else None z = z" "or_else (Some y) z = Some y"
  by (simp_all add: keep_def or_else_def)

lemma values_sels [simp]:
  "ss_id (session_values now sp ses) = ss_id ses" "ss_state (session_values now sp ses) = keep (sp_state sp) (ss_state ses)"
  "rn_id (run_values now d p r) = rn_id r" "rn_state (run_values now d p r) = keep (rp_state p) (rn_state r)"
  "rn_usage (run_values now d p r) = keep (rp_usage p) (rn_usage r)"
  "rn_exhaustion (run_values now d p r) = or_else (rp_exhaustion p) (rn_exhaustion r)"
  "rn_version (run_values now d p r) = keep (rp_version p) (rn_version r)"
  "tk_id (task_values now d q t) = tk_id t" "tk_state (task_values now d q t) = keep (tp_state q) (tk_state t)"
  "tk_error (task_values now d q t) = or_else (tp_error q) (tk_error t)"
  "tk_version (task_values now d q t) = keep (tp_version q) (tk_version t)"
  "tk_awaiting (task_values now d q t) = (case tp_awaiting q of Some a \<Rightarrow> Some a
     | None \<Rightarrow> if tp_state q \<noteq> None \<and> tp_state q \<noteq> Some TASK_WAITING_PERMISSION then None else tk_awaiting t)"
  "wr_id (workflow_values now wp w) = wr_id w" "wr_state (workflow_values now wp w) = keep (wp_state wp) (wr_state w)"
  "wr_name (workflow_values now wp w) = wr_name w" "wr_nodes (workflow_values now wp w) = keep (wp_nodes wp) (wr_nodes w)"
  "wr_edges (workflow_values now wp w) = keep (wp_edges wp) (wr_edges w)"
  "ap_id (approval_values d st res a) = ap_id a" "ap_state (approval_values d st res a) = keep st (ap_state a)"
  "ap_task (approval_values d st res a) = ap_task a"
  "dl_id (delegation_values d ds e) = dl_id e" "dl_status (delegation_values d ds e) = keep ds (dl_status e)"
  by (simp_all add: session_values_def run_values_def task_values_def workflow_values_def approval_values_def delegation_values_def)

lemma or_else_None: "or_else p z = None \<longleftrightarrow> p = None \<and> z = None"
  by (cases p) simp_all

lemma session_values_change:
  assumes "sp_title p = None" "sp_limits p = None" "sp_usage p = None" "sp_metadata p = None"
    and "sp_version p = Some (ss_version r + 1)" "sp_state p = Some t" "t \<in> set (session_moves (ss_state r))"
  shows "session_change r (session_values now p r)"
  using assms by (simp add: session_change_def session_values_def)

lemma run_values_change:
  assumes p: "rp_limits p = None" "rp_attempt p = None" "rp_metadata p = None" "rp_version p = Some (rn_version r + 1)"
    and st: "case rp_state p of None \<Rightarrow> True
      | Some t \<Rightarrow> t \<in> set (loop_moves (rn_state r)) \<or> t = LOOP_FAILED \<and> rp_exhaustion p \<noteq> None"
    and given: "rp_completed p = None \<or> rp_completed p = rn_completed r \<or> (\<exists>t. rp_state p = Some t \<and> loop_terminal t)"
    and done_at: "completion_of (rp_completed p)
(run_auto p r) d"
  shows "run_change r (run_values now d p r)"
proof -
  let ?r = "run_values now d p r"
  have auto: "run_auto p r \<longleftrightarrow> (case rp_state p of None \<Rightarrow> False | Some t \<Rightarrow> loop_terminal t) \<and> rn_completed r = None"
    by (auto simp: run_auto_def loop_terminal_def split: option.split)
  have "?r = r\<lparr>rn_state := rn_state ?r, rn_usage := rn_usage ?r, rn_exhaustion := rn_exhaustion ?r,
      rn_updated := rn_updated ?r, rn_completed := rn_completed ?r, rn_version := rn_version r + 1\<rparr>"
    using p by (simp add: run_values_def)
  moreover have "rn_state ?r = rn_state r \<or> rn_state ?r \<in> set (loop_moves (rn_state r)) \<or>
      rn_state ?r = LOOP_FAILED \<and> rn_exhaustion ?r \<noteq> None"
    using st by (cases "rp_state p") (auto simp: run_values_def or_else_None)
  moreover have "loop_terminal (rn_state ?r) \<and> rn_state ?r \<noteq> rn_state r \<longrightarrow> rn_completed ?r \<noteq> None"
    using done_at unfolding auto
    by (cases "rp_state p"; cases "rp_completed p") (auto simp: run_values_def completion_of_def or_else_None split: if_splits)
  moreover have "rn_completed ?r = rn_completed r" if nt: "\<not> loop_terminal (rn_state ?r)"
  proof -
    from nt have no: "rp_state p \<noteq> Some t" if "loop_terminal t" for t
      using that by (auto simp: run_values_def)
    then have "\<not> run_auto p r" unfolding auto by (auto split: option.split)
    with done_at have "d = rp_completed p" by (auto simp: completion_of_def split: if_splits)
    with given no have "d = None \<or> d = rn_completed r" by auto
    then show ?thesis by (auto simp: run_values_def or_else_def split: option.split)
  qed
  ultimately show ?thesis
    unfolding run_change_def by (intro conjI) (simp_all add: run_values_def or_else_None)
qed

lemma task_values_change:
  assumes p: "tp_metadata p = None" "tp_version p = Some (tk_version r + 1)"
    and st: "case tp_state p of None \<Rightarrow> True
      | Some t \<Rightarrow> t = tk_state r \<or> t \<in> set (task_moves (tk_state r)) \<or>
          t = TASK_FAILED \<and> tp_error p \<in> {Some (denial_text APR_DENIED), Some (denial_text APR_EXPIRED)}"
    and att: "case tp_attempt p of None \<Rightarrow> True | Some n \<Rightarrow> n = tk_attempt r + 1 \<and> tk_attempt r < tk_max_attempts r"
    and aw: "case tp_awaiting p of None \<Rightarrow> True | Some a \<Rightarrow>
      (case tp_state p of None \<Rightarrow> tk_state r = TASK_WAITING_PERMISSION | Some t \<Rightarrow> t = TASK_WAITING_PERMISSION)"
    and done_at: "completion_of (tp_completed p)
(task_auto p r) d"
  shows "task_change r (task_values now d p r)"
proof -
  let ?r = "task_values now d p r"
  have auto: "task_auto p r \<longleftrightarrow> (case tp_state p of None \<Rightarrow> False | Some t \<Rightarrow> task_terminal t) \<and> tk_completed r = None"
    by (auto simp: task_auto_def task_terminal_def split: option.split)
  have "?r = r\<lparr>tk_state := tk_state ?r, tk_attempt := tk_attempt ?r, tk_output := tk_output ?r, tk_error := tk_error ?r,
      tk_awaiting := tk_awaiting ?r, tk_checkpoint := tk_checkpoint ?r, tk_updated := tk_updated ?r,
      tk_completed := tk_completed ?r, tk_version := tk_version r + 1\<rparr>"
    using p by (simp add: task_values_def)
  moreover have "tk_state ?r = tk_state r \<or> tk_state ?r \<in> set (task_moves (tk_state r)) \<or>
      tk_state ?r = TASK_FAILED \<and> tk_error ?r \<in> {Some (denial_text APR_DENIED), Some (denial_text APR_EXPIRED)}"
    using st by (cases "tp_state p") (auto simp: task_values_def)
  moreover have "tk_attempt ?r = tk_attempt r \<or> tk_attempt ?r = tk_attempt r + 1 \<and> tk_attempt r < tk_max_attempts r"
    using att by (cases "tp_attempt p") (auto simp: task_values_def)
  moreover have "tk_awaiting ?r \<noteq> None \<longrightarrow> tk_state ?r = TASK_WAITING_PERMISSION \<or>
      tk_awaiting ?r = tk_awaiting r \<and> tk_state ?r = tk_state r"
    using aw by (cases "tp_awaiting p"; cases "tp_state p") (auto simp: task_values_def)
  moreover have "task_terminal (tk_state ?r) \<and> tk_state ?r \<noteq> tk_state r \<longrightarrow> tk_completed ?r \<noteq> None"
    using done_at unfolding auto
    by (cases "tp_state p"; cases "tp_completed p") (auto simp: task_values_def completion_of_def or_else_None split: if_splits)
  moreover have "tk_completed r \<noteq> None \<longrightarrow> tk_completed ?r \<noteq> None"
    by (simp add: task_values_def or_else_None)
  ultimately show ?thesis unfolding task_change_def by blast
qed

section \<open>Syntax-directed rules\<close>

named_theorems vcg \<open>one rule per statement, applied backwards through a body\<close>

lemma vcg_assoc [vcg]: "act_wp (act_bind m (\<lambda>x. act_bind (f x) g)) Q s \<Longrightarrow> act_wp (act_bind (act_bind m f) g) Q s"
  by (simp add: act_wp_def act_bind_def split: prod.splits sum.splits)

lemma vcg_return [vcg]:
  "Q (Inr x) s \<Longrightarrow> act_wp (act_return x) Q s" "act_wp (f x) Q' s \<Longrightarrow> act_wp (act_bind (act_return x) f) Q' s"
  by (simp_all add: wp_simps)

lemma vcg_raise [vcg]:
  "Q (Inl e) s \<Longrightarrow> act_wp (act_raise e) Q s" "Q' (Inl e) s \<Longrightarrow> act_wp (act_bind (act_raise e) f) Q' s"
  by (simp_all add: wp_simps)

lemma vcg_option [vcg]:
  "\<lbrakk>x = None \<Longrightarrow> act_wp a Q s; \<And>y. x = Some y \<Longrightarrow> act_wp (b y) Q s\<rbrakk> \<Longrightarrow> act_wp (case x of None \<Rightarrow> a | Some y \<Rightarrow> b y) Q s"
  "\<lbrakk>x = None \<Longrightarrow> act_wp (act_bind a f) Q' s; \<And>y. x = Some y \<Longrightarrow> act_wp (act_bind (b y) f) Q' s\<rbrakk> \<Longrightarrow>
     act_wp (act_bind (case x of None \<Rightarrow> a | Some y \<Rightarrow> b y) f) Q' s"
  by (cases x; simp)+

lemma vcg_if [vcg]:
  "\<lbrakk>c \<Longrightarrow> act_wp m Q s; \<not> c \<Longrightarrow> act_wp n Q s\<rbrakk> \<Longrightarrow> act_wp (if c then m else n) Q s"
  "\<lbrakk>c \<Longrightarrow> act_wp (act_bind m f) Q' s; \<not> c \<Longrightarrow> act_wp (act_bind n f) Q' s\<rbrakk> \<Longrightarrow> act_wp (act_bind (if c then m else n) f) Q' s"
  by (cases c; simp)+

lemma vcg_fetch [vcg]:
  "(\<And>x. find (\<lambda>r. key r = k) (rows (as_db s)) = x \<Longrightarrow> Q (Inr x) s) \<Longrightarrow> act_wp (fetch rows key k) Q s"
  "(\<And>x. find (\<lambda>r. key r = k) (rows (as_db s)) = x \<Longrightarrow> act_wp (f x) Q' s) \<Longrightarrow> act_wp (act_bind (fetch rows key k) f) Q' s"
  by (simp_all add: wp_simps)

lemma vcg_select [vcg]:
  "(\<And>xs. act_wp (f xs) Q s) \<Longrightarrow> act_wp (act_bind (select_rows rows p ord) f) Q s"
  by (simp add: wp_simps)

lemma vcg_draw [vcg]:
  "(\<And>t n. act_wp (f t) Q (s\<lparr>as_tick := n\<rparr>)) \<Longrightarrow> act_wp (act_bind (draw_time env) f) Q s"
  "(\<And>i n. act_wp (g i) Q' (s\<lparr>as_tick := n\<rparr>)) \<Longrightarrow> act_wp (act_bind (draw_id env) g) Q' s"
  by (simp_all add: wp_simps)

lemma vcg_require [vcg]:
  "act_wp (act_bind m (\<lambda>x. case x of None \<Rightarrow> act_raise NOT_FOUND_ERR | Some r \<Rightarrow> f r)) Q s \<Longrightarrow> act_wp (act_bind (require_row m) f) Q s"
  "act_wp (act_bind n (\<lambda>x. case x of None \<Rightarrow> act_raise STALE_ERR | Some r \<Rightarrow> g r)) Q' s \<Longrightarrow> act_wp (act_bind (require_updated n) g) Q' s"
  "act_wp (act_bind i (\<lambda>ok. if ok then h () else act_raise VALIDATION_ERR)) Q'' s \<Longrightarrow> act_wp (act_bind (require_inserted i) h) Q'' s"
  "act_wp (act_bind l (\<lambda>x. case x of None \<Rightarrow> act_raise NOT_FOUND_ERR | Some r \<Rightarrow> act_return r)) Q''' s \<Longrightarrow> act_wp (require_row l) Q''' s"
  by (auto simp: require_row_def require_updated_def require_inserted_def act_bind_def act_wp_def act_raise_def act_return_def
      split: prod.splits sum.splits option.splits if_splits)

lemma vcg_check [vcg]:
  "\<lbrakk>c \<Longrightarrow> act_wp (f ()) Q s; \<not> c \<Longrightarrow> Q (Inl e) s\<rbrakk> \<Longrightarrow> act_wp (act_bind (act_check c e) f) Q s"
  by (simp add: wp_simps)

lemma vcg_of [vcg]:
  "\<lbrakk>\<And>e. r = Inl e \<Longrightarrow> Q (Inl e) s; \<And>x. r = Inr x \<Longrightarrow> act_wp (f x) Q s\<rbrakk> \<Longrightarrow> act_wp (act_bind (act_of r) f) Q s"
  by (cases r) (simp_all add: wp_simps)

lemma vcg_when [vcg]:
  "\<lbrakk>c \<Longrightarrow> act_wp m Q s; \<not> c \<Longrightarrow> Q (Inr ()) s\<rbrakk> \<Longrightarrow> act_wp (act_when c m) Q s"
  "\<lbrakk>c \<Longrightarrow> act_wp (act_bind m f) Q' s; \<not> c \<Longrightarrow> act_wp (f ()) Q' s\<rbrakk> \<Longrightarrow> act_wp (act_bind (act_when c m) f) Q' s"
  by (cases c; simp add: wp_simps act_when_def)+

lemma vcg_ignore [vcg]: "act_wp m (\<lambda>_ s'. act_wp (f ()) Q s') s \<Longrightarrow> act_wp (act_bind (act_ignore m) f) Q s"
  by (simp add: wp_simps)

lemma vcg_assert [vcg]:
  "\<lbrakk>\<And>y. x = Some y \<Longrightarrow> Q (Inr y) s; x = None \<Longrightarrow> Q (Inl (RuntimeErr ''AssertionError'')) s\<rbrakk> \<Longrightarrow> act_wp (act_assert x) Q s"
  "\<lbrakk>\<And>y. x = Some y \<Longrightarrow> act_wp (f y) Q' s; x = None \<Longrightarrow> Q' (Inl (RuntimeErr ''AssertionError'')) s\<rbrakk> \<Longrightarrow>
     act_wp (act_bind (act_assert x) f) Q' s"
  by (cases x; simp add: wp_simps)+

lemma act_wp_bindI:
  "act_wp m (\<lambda>out s'. case out of Inl e \<Rightarrow> Q (Inl e) s' | Inr x \<Rightarrow> act_wp (f x) Q s') s \<Longrightarrow> act_wp (act_bind m f) Q s"
  by (simp add: wp_bind)

lemmas vcg_commit [vcg] = act_wp_bindI [OF wp_commit, simplified sum.case]
lemmas vcg_record [vcg] = wp_record_event act_wp_bindI [OF wp_record_event, simplified sum.case]
lemmas vcg_insert [vcg] = 
  act_wp_bindI [OF wp_insert_session, simplified sum.case] act_wp_bindI [OF wp_insert_run, simplified sum.case]
  act_wp_bindI [OF wp_insert_task, simplified sum.case] act_wp_bindI [OF wp_insert_workflow, simplified sum.case]
  act_wp_bindI [OF wp_insert_step, simplified sum.case] act_wp_bindI [OF wp_insert_checkpoint, simplified sum.case]
  act_wp_bindI [OF wp_insert_approval, simplified sum.case] act_wp_bindI [OF wp_insert_delegation, simplified sum.case]
lemmas vcg_update [vcg] =
  act_wp_bindI [OF wp_update_session, simplified sum.case] act_wp_bindI [OF wp_update_run, simplified sum.case]
  act_wp_bindI [OF wp_update_task, simplified sum.case] act_wp_bindI [OF wp_update_workflow, simplified sum.case]
  act_wp_bindI [OF wp_update_step, simplified sum.case] act_wp_bindI [OF wp_update_approval, simplified sum.case]
  act_wp_bindI [OF wp_update_delegation, simplified sum.case]


lemma refines_if: "\<lbrakk>c \<Longrightarrow> refines m; \<not> c \<Longrightarrow> refines n\<rbrakk> \<Longrightarrow> refines (if c then m else n)"
  by simp

lemma refines_option: "\<lbrakk>x = None \<Longrightarrow> refines a; \<And>y. x = Some y \<Longrightarrow> refines (b y)\<rbrakk> \<Longrightarrow> refines (case x of None \<Rightarrow> a | Some y \<Rightarrow> b y)"
  by (cases x) simp_all

lemma refines_sum: "\<lbrakk>\<And>e. x = Inl e \<Longrightarrow> refines (a e); \<And>y. x = Inr y \<Longrightarrow> refines (b y)\<rbrakk> \<Longrightarrow> refines (case x of Inl e \<Rightarrow> a e | Inr y \<Rightarrow> b y)"
  by (cases x) simp_all

lemma vcg_literal:
  "act_wp a Q s \<Longrightarrow> act_wp (case None of None \<Rightarrow> a | Some y \<Rightarrow> b y) Q s"
  "act_wp (b y) Q s \<Longrightarrow> act_wp (case Some y of None \<Rightarrow> a | Some y \<Rightarrow> b y) Q s"
  "act_wp a Q s \<Longrightarrow> act_wp (if True then a else c) Q s"
  "act_wp c Q s \<Longrightarrow> act_wp (if False then a else c) Q s"
  by simp_all

lemmas vc = vcg_literal refines_if refines_option refines_sum refines_raise refines_scope vcg

lemma found_id [simp]:
  "find (\<lambda>r. ss_id r = k) xs = Some s \<Longrightarrow> k \<in> ss_id ` set xs"
  "find (\<lambda>r. rn_id r = k) ys = Some r \<Longrightarrow> k \<in> rn_id ` set ys"
  "find (\<lambda>r. tk_id r = k) ts = Some t \<Longrightarrow> k \<in> tk_id ` set ts"
  "find (\<lambda>r. wr_id r = k) ws = Some w \<Longrightarrow> k \<in> wr_id ` set ws"
  by (auto dest!: find_SomeD)

end
