(* ===== verification/Agent_Commands.thy ===== *)
theory Agent_Commands
  imports Agent_Refinement
begin

text \<open>
  Every command of the service refines the specification of the store. Each proof applies the rules
  of \<open>vc\<close> backwards through the body; what remains are the side conditions that the assignments move a
  row along its lifecycle and that a new row refers to rows that exist.
\<close>

declare put_defs [simp]

lemma create_session_refines: "refines (create_session env actor title limits metadata)"
  unfolding create_session_def get_defs
  by (intro vc) (auto simp: session_new_def)

lemma transition_session_refines: "refines (transition_session env sid target expected)"
  unfolding transition_session_def get_defs
  by (intro vc) (auto simp: session.accepts intro!: session_values_change)

lemma loop_terminal_set: "t \<in> {LOOP_FAILED, LOOP_CANCELLED, LOOP_COMPLETED, LOOP_ORPHANED} \<longleftrightarrow> loop_terminal t"
  by (auto simp: loop_terminal_def)

lemma inherit_limits_idem: "inherit_limits p (inherit_limits p c) = inherit_limits p c"
  by (simp add: inherit_limits_def)

lemma create_run_refines: "refines (create_run env sid parent scope limits max_attempts timeout metadata)"
  unfolding create_run_def get_defs
  by (intro vc) (auto simp: run_new_def not_less inherit_limits_idem dest: find_SomeD)

lemma transition_run_refines: "refines (transition_run env rid target expected exhaustion)"
  unfolding transition_run_def loop_terminal_set get_defs
  by (intro vc) (auto simp: loop.accepts intro!: run_values_change)

lemma record_run_budget_usage_refines: "refines (record_run_budget_usage env rid patch expected)"
  unfolding record_run_budget_usage_def read_run_def get_defs Let_def
  by (intro vc) (auto intro!: run_values_change)

lemma create_task_refines: "refines (create_task env sid title description rid wid priority max_attempts timeout input metadata)"
  unfolding create_task_def check_row_def get_defs
  by (intro vc) (auto simp: task_new_def not_less)

lemma transition_task_refines: "refines (transition_task env tid target expected)"
  unfolding transition_task_def get_defs
  by (intro vc) (auto simp: task.accepts intro!: task_values_change)

lemma complete_task_refines: "refines (complete_task env tid output expected)"
  unfolding complete_task_def get_defs
  by (intro vc) (auto simp: task.accepts intro!: task_values_change)

lemma fail_task_refines: "refines (fail_task env tid err expected)"
  unfolding fail_task_def get_defs
  by (intro vc) (auto simp: task.accepts intro!: task_values_change)

lemma retry_task_refines: "refines (retry_task env tid expected)"
  unfolding retry_task_def retry_two_hops_def get_defs
  by (intro vc) (auto simp: task.accepts intro!: task_values_change)

lemma workflow_values_change:
  assumes "wp_nodes p = None" "wp_edges p = None" "wp_metadata p = None"
    and "wp_version p = Some (wr_version r + 1)" "wp_state p = Some t" "t \<in> set (workflow_moves (wr_state r))"
  shows "workflow_change r (workflow_values now p r)"
  using assms by (simp add: workflow_change_def workflow_values_def)

lemma step_values_change:
  assumes "sq_attempt p = None" "sq_result p = None" "sq_error p = None"
    and "sq_version p = Some (sr_version r + 1)" "sq_state p = Some t" "t \<in> set (step_effective_moves (sr_state r))"
  shows "step_change r (step_values now p r)"
  using assms by (simp add: step_change_def step_values_def)

lemma transition_workflow_refines: "refines (transition_workflow env wid target expected)"
  unfolding transition_workflow_def get_defs
  by (intro vc) (auto simp: workflow.accepts intro!: workflow_values_change)

lemma transition_step_refines: "refines (transition_step env i target expected)"
  unfolding transition_step_def get_defs
  by (intro vc) (auto simp: step.accepts intro!: step_values_change)

lemma found_more [simp]:
  "find (\<lambda>r. sr_id r = k) xs = Some s \<Longrightarrow> k \<in> sr_id ` set xs"
  "find (\<lambda>r. ap_id r = k) ys = Some r \<Longrightarrow> k \<in> ap_id ` set ys"
  by (auto dest!: find_SomeD)

lemma wp_check_row:
  assumes "set_option k \<subseteq> key ` set (rows (as_db s)) \<Longrightarrow> act_wp (f ()) Q s"
    and "Q (Inl NOT_FOUND_ERR) s"
  shows "act_wp (act_bind (check_row k (fetch rows key)) f) Q s"
proof (cases k)
  case None
  then show ?thesis using assms(1) by (simp add: check_row_def wp_simps)
next
  case (Some i)
  have "i \<in> key ` set (rows (as_db s))" if "find (\<lambda>r. key r = i) (rows (as_db s)) = Some r" for r
    using that by (auto dest: find_SomeD)
  then show ?thesis using Some assms by (auto simp: check_row_def wp_simps split: option.split)
qed

lemma create_checkpoint_refines: "refines (create_checkpoint env rid snapshot tid wid step_id seq)"
  unfolding create_checkpoint_def get_defs
  by (intro vc wp_check_row) (auto simp: checkpoint_new_def intro!: task_values_change split: option.split)

lemma request_approval_refines: "refines (request_approval env tid requested_by payload rid expires_in)"
  unfolding request_approval_def get_defs
  by (intro vc) (auto simp: approval_new_def intro!: task_values_change)

lemma find_self:
  "find (\<lambda>r. tk_id r = k) ts = Some t \<Longrightarrow> find (\<lambda>r. tk_id r = tk_id t) ts = Some t"
  by (auto dest: find_SomeD)

lemma wp_settle_task:
  assumes "running s" and "find (\<lambda>r. tk_id r = tk_id task) (ad_tasks (as_db s)) = Some task"
    and "target \<in> {APR_APPROVED, APR_DENIED, APR_EXPIRED}"
    and "\<And>e s'. running s' \<Longrightarrow> as_stored s' = as_stored s \<Longrightarrow> Q (Inl e) s'"
    and "\<And>s'. running s' \<Longrightarrow> as_stored s' = as_stored s \<Longrightarrow> ad_approvals (as_db s') = ad_approvals (as_db s) \<Longrightarrow> Q (Inr ()) s'"
  shows "act_wp (settle_task env target task) Q s"
  unfolding settle_task_def
  using assms(1-3) by (intro vcg) (auto intro!: assms(4,5) task_values_change)

lemmas vcg_settle = wp_settle_task act_wp_bindI [OF wp_settle_task, simplified sum.case]

lemma resolution_change:
  assumes "ap_state r = APR_PENDING" "target \<noteq> APR_PENDING" "completion_of None True t"
  shows "approval_change r (approval_values t (Some target) res r)"
  using assms by (auto simp: approval_change_def approval_values_def completion_of_def or_else_None)

lemma resolve_approval_refines: "refines (resolve_approval env aid target resolution)"
  unfolding resolve_approval_def get_defs
  by (intro vc vcg_settle) (auto intro!: resolution_change simp: find_self)

lemma delegation_values_change:
  assumes "make_delegation \<lparr>dr_id = i, dr_parent = p, dr_child = c, dr_status = dl_status r, dr_completed = d\<rparr> = Inr tmp"
    and "delegation_transition_to now target tmp = Inr x"
  shows "delegation_change r (delegation_values t (Some target) r)"
proof -
  have "dr_status tmp = dl_status r" using assms(1) by (auto simp: make_delegation_def Let_def split: if_splits)
  then show ?thesis using assms(2)
    by (auto simp: delegation_change_def delegation_values_def delegation_transition_to_def delegation.accepts or_else_def
        split: sum.splits)
qed

lemma transition_delegation_refines: "refines (transition_delegation env did target)"
  unfolding transition_delegation_def unblock_parent_def get_defs
  by (intro vc) (auto intro!: run_values_change intro: delegation_values_change)

lemma found_delegated [simp]: "find (\<lambda>r. dl_id r = k) xs = Some s \<Longrightarrow> k \<in> dl_id ` set xs"
  by (auto dest!: find_SomeD)

lemma read_refines:
  "refines (read_session i)" "refines (read_run i)" "refines (read_task i)" "refines (read_workflow i)" "refines (read_step i)"
  "refines (read_checkpoint i)" "refines (read_approval i)" "refines (read_delegation i)"
  unfolding read_session_def read_run_def read_task_def read_workflow_def read_step_def read_checkpoint_def
    read_approval_def read_delegation_def get_defs
  by (intro vc; simp)+

lemma list_refines: "refines (in_scope (select_rows rows p ord))"
  by (intro vc) (simp add: wp_simps)

lemmas list_defs = list_sessions_def list_runs_def list_tasks_def list_workflows_def list_steps_def list_checkpoints_def
  list_approvals_def list_delegations_def

lemma all_refines:
  "refines (all_sessions a)" "refines (all_runs a b)" "refines (all_tasks a b c d)" "refines (all_workflows a)"
  "refines (all_steps a b)" "refines (all_checkpoints a b)" "refines (all_approvals a b)" "refines (all_delegations a b)"
  by (simp_all only: all_sessions_def all_runs_def all_tasks_def all_workflows_def all_steps_def all_checkpoints_def
      all_approvals_def all_delegations_def list_defs list_refines)

lemma dict_set_distinct: "distinct (map fst d) \<Longrightarrow> distinct (map fst (dict_set k v d))"
  by (auto simp: dict_set_def comp_def case_prod_beta)

lemma build_nodes_distinct: "distinct (map fst acc) \<Longrightarrow> build_nodes acc raw = Inr ns \<Longrightarrow> distinct (map fst ns)"
  by (induction acc raw rule: build_nodes.induct) (auto simp: Let_def dict_set_distinct split: sum.splits)

lemma validate_dag_sorted:
  assumes d: "distinct (map fst ns)" and v: "validate_dag (workflow_def_of j m ns es) = Inr ()"
  shows "validate_dag (workflow_def_of i n (sort_key fst ns) es) = Inr ()"
proof -
  have "mset (map fst (sort_key fst ns)) = mset (map fst ns)" by simp
  then have "distinct (map fst (sort_key fst ns))" using d mset_eq_imp_distinct_iff by blast
  then have d': "distinct (node_ids (workflow_def_of i n (sort_key fst ns) es))" "distinct (node_ids (workflow_def_of j m ns es))"
    using d by (simp_all add: workflow_def_of_def)
  have e: "sort_key fst ns = [] \<longleftrightarrow> ns = []" by (simp flip: length_0_conv)
  show ?thesis
    using v unfolding validate_dag_iff [OF d'(1)] validate_dag_iff [OF d'(2)] by (simp add: workflow_def_of_def e)
qed

lemma wp_move_workflow:
  assumes "running s" and "find (\<lambda>r. wr_id r = wr_id w) (ad_workflows (as_db s)) = Some w"
    and "wr_state w \<noteq> target"
    and "\<And>e s'. running s' \<Longrightarrow> as_stored s' = as_stored s \<Longrightarrow> Q (Inl e) s'"
    and "\<And>w' s'. running s' \<Longrightarrow> as_stored s' = as_stored s \<Longrightarrow> wr_id w' = wr_id w \<Longrightarrow> wr_state w' = target \<Longrightarrow>
      wr_name w' = wr_name w \<Longrightarrow> wr_nodes w' = wr_nodes w \<Longrightarrow> wr_edges w' = wr_edges w \<Longrightarrow>
      ad_runs (as_db s') = ad_runs (as_db s) \<Longrightarrow> ad_steps (as_db s') = ad_steps (as_db s) \<Longrightarrow>
      find (\<lambda>r. wr_id r = wr_id w') (ad_workflows (as_db s')) = Some w' \<Longrightarrow> Q (Inr w') s'"
  shows "act_wp (move_workflow env w target) Q s"
  unfolding move_workflow_def
  using assms(1-3)
  by (intro vc) (auto simp: workflow.accepts intro!: assms(4,5) workflow_values_change)

lemmas vcg_move = wp_move_workflow act_wp_bindI [OF wp_move_workflow, simplified sum.case]

lemma wp_add_steps:
  assumes "running s" and "wid \<in> wr_id ` set (ad_workflows (as_db s))" and "rid \<in> rn_id ` set (ad_runs (as_db s))"
    and "\<And>s'. running s' \<Longrightarrow> as_stored s' = as_stored s \<Longrightarrow> ad_workflows (as_db s') = ad_workflows (as_db s) \<Longrightarrow>
      Q (Inr ()) s'"
  shows "act_wp (add_steps env wid rid now d ns) Q s"
  using assms
proof (induction ns arbitrary: s)
  case (Cons kn ns)
  obtain k n where kn: "kn = (k, n)" by fastforce
  show ?case unfolding kn add_steps.simps using Cons.prems
    by (intro vcg) (auto simp: step_new_def intro!: Cons.IH del: imageE)
qed (simp add: wp_simps)

lemmas vcg_steps = act_wp_bindI [OF wp_add_steps, simplified sum.case]

lemma schedule_workflow_refines: "refines (schedule_workflow env wid rid expected)"
  unfolding schedule_workflow_def get_defs Let_def
  by (intro vc vcg_move vcg_steps) (auto dest: find_SomeD)

lemma read_then:
  "act_bind (in_scope (require_row (get_session i))) f w =
     (case find (\<lambda>r. ss_id r = i) (ad_sessions (aw_db w)) of None \<Rightarrow> (Inl NOT_FOUND_ERR, w) | Some r \<Rightarrow> f r w)"
  by (cases w) (simp add: act_bind_def in_scope_def require_row_def get_session_def fetch_def act_raise_def act_return_def split: option.split)

lemma checked_sorted:
  assumes "build_nodes [] raw = Inr ns" and "dag_check (workflow_def_of j m ns es) = Inr ()" and "ns \<noteq> []"
  shows "validate_dag (workflow_def_of i n (sort_key fst ns) es) = Inr ()"
proof -
  have "distinct (map fst ns)" using assms(1) by (rule build_nodes_distinct [rotated]) simp
  moreover have "validate_dag (workflow_def_of j m ns es) = Inr ()"
    using assms(2,3) by (auto simp: dag_check_def workflow_def_of_def split: sum.splits)
  ultimately show ?thesis by (rule validate_dag_sorted)
qed

lemma create_workflow_refines: "refines (create_workflow env sid name nodes es metadata)"
proof -
  have "refines_from (create_workflow env sid name nodes es metadata) w" if w: "agent_inv (aw_db w)" for w
  proof (cases "find (\<lambda>r. ss_id r = sid) (ad_sessions (aw_db w))")
    case None
    then show ?thesis by (simp add: create_workflow_def refines_from_def read_then act_raise_def)
  next
    case (Some r)
    then show ?thesis
      unfolding create_workflow_def get_defs refines_from_def read_then [unfolded get_defs]
      by (simp, fold refines_from_def) (auto split: sum.split intro!: refines_from_raise refines_from_scope w;
        intro vc; auto simp: workflow_new_def dest: checked_sorted)
  qed
  then show ?thesis by (simp add: refines_def)
qed

lemma delegate_run_refines: "refines (delegate_run env parent_id child_id metadata)"
  unfolding delegate_run_def get_defs
  by (intro vc) (simp_all add: delegation_new_def run_values_change)

end
