(* ===== verification/Agent_System.thy ===== *)
theory Agent_System
  imports Agent_Commands
begin

text \<open>
  The agent runtime as a whole: its commands as data, executed one after the other on one store, and
  what becomes of a row over time. The locale of the tracked tables says that a row is only ever
  replaced along the changes of its table; the versions, and the final states, follow from it.
\<close>

section \<open>Sequences of commands\<close>

datatype agent_command =
    Create_Session string string "(string \<times> pyobj) list option" "pyobj option"
  | Transition_Session string string "int option"
  | Create_Run string "string option" string "(string \<times> pyobj) list option" int "rat option" "pyobj option"
  | Transition_Run string string "int option" "string option"
  | Record_Run_Usage string "(string \<times> py_num) list" "int option"
  | Create_Task string string string "string option" "string option" int int "rat option" "pyobj option" "pyobj option"
  | Transition_Task string string "int option"
  | Complete_Task string "pyobj option" "int option"
  | Fail_Task string string "int option"
  | Retry_Task string "int option"
  | Create_Workflow string string "(string \<times> raw_node option) list" "raw_edge option list" "pyobj option"
  | Transition_Workflow string string "int option"
  | Schedule_Workflow string string "int option"
  | Transition_Step string string "int option"
  | Create_Checkpoint string "pyobj option" "string option" "string option" "string option" "int option"
  | Request_Approval string string "pyobj option" "string option" "seconds option"
  | Resolve_Approval string string "pyobj option"
  | Delegate_Run string string "pyobj option"
  | Transition_Delegation string string

definition act_void :: "('s, 'a) act \<Rightarrow> ('s, unit) act" where
  "act_void m = act_bind m (\<lambda>_. act_return ())"

fun exec_command :: "agent_env \<Rightarrow> agent_command \<Rightarrow> (agent_world, unit) act" where
  "exec_command env (Create_Session actor title limits metadata) = act_void (create_session env actor title limits metadata)"
| "exec_command env (Transition_Session i target expected) = act_void (transition_session env i target expected)"
| "exec_command env (Create_Run sid parent scope limits maxatt timeout metadata) =
     act_void (create_run env sid parent scope limits maxatt timeout metadata)"
| "exec_command env (Transition_Run i target expected why) = act_void (transition_run env i target expected why)"
| "exec_command env (Record_Run_Usage i patch expected) = act_void (record_run_budget_usage env i patch expected)"
| "exec_command env (Create_Task sid title descr rid wid prio maxatt timeout inp metadata) =
     act_void (create_task env sid title descr rid wid prio maxatt timeout inp metadata)"
| "exec_command env (Transition_Task i target expected) = act_void (transition_task env i target expected)"
| "exec_command env (Complete_Task i output expected) = act_void (complete_task env i output expected)"
| "exec_command env (Fail_Task i err expected) = act_void (fail_task env i err expected)"
| "exec_command env (Retry_Task i expected) = act_void (retry_task env i expected)"
| "exec_command env (Create_Workflow sid name nodes es metadata) = act_void (create_workflow env sid name nodes es metadata)"
| "exec_command env (Transition_Workflow i target expected) = act_void (transition_workflow env i target expected)"
| "exec_command env (Schedule_Workflow i rid expected) = act_void (schedule_workflow env i rid expected)"
| "exec_command env (Transition_Step i target expected) = act_void (transition_step env i target expected)"
| "exec_command env (Create_Checkpoint rid snap tid wid sid seq) = act_void (create_checkpoint env rid snap tid wid sid seq)"
| "exec_command env (Request_Approval tid who payload rid expires) = act_void (request_approval env tid who payload rid expires)"
| "exec_command env (Resolve_Approval i target resolution) = act_void (resolve_approval env i target resolution)"
| "exec_command env (Delegate_Run parent child metadata) = act_void (delegate_run env parent child metadata)"
| "exec_command env (Transition_Delegation i target) = act_void (transition_delegation env i target)"

definition run_commands :: "agent_env \<Rightarrow> agent_command list \<Rightarrow> agent_world \<Rightarrow> agent_world" where
  "run_commands env cs w = fold (\<lambda>c w. snd (exec_command env c w)) cs w"

lemma refines_from_void: "refines_from m w \<Longrightarrow> refines_from (act_void m) w"
  by (cases "m w") (auto simp: refines_from_def act_void_def act_bind_def act_return_def split: sum.splits)

lemma refines_void: "refines m \<Longrightarrow> refines (act_void m)"
  by (simp add: refines_def refines_from_void)

lemmas command_refines = create_session_refines transition_session_refines create_run_refines transition_run_refines
  record_run_budget_usage_refines create_task_refines transition_task_refines complete_task_refines fail_task_refines
  retry_task_refines create_workflow_refines transition_workflow_refines schedule_workflow_refines transition_step_refines
  create_checkpoint_refines request_approval_refines resolve_approval_refines delegate_run_refines
  transition_delegation_refines

lemma exec_command_refines: "refines (exec_command env c)"
  by (cases c) (simp_all add: refines_void command_refines)

lemma refines_steps: "refines m \<Longrightarrow> agent_inv (aw_db w) \<Longrightarrow> agent_steps (aw_db w) (aw_db (snd (m w)))"
  by (cases "fst (m w)"; cases "m w") (auto simp: refines_def refines_from_def dest!: spec [of _ w])

lemma run_commands_steps:
  assumes "agent_inv (aw_db w)"
  shows "agent_steps (aw_db w) (aw_db (run_commands env cs w))"
  using assms
proof (induction cs arbitrary: w)
  case (Cons c cs)
  let ?w = "snd (exec_command env c w)"
  have s: "agent_steps (aw_db w) (aw_db ?w)" by (rule refines_steps [OF exec_command_refines Cons.prems])
  then have "agent_inv (aw_db ?w)" using Cons.prems by (rule agent_steps_inv)
  with s Cons.IH [of ?w] show ?case by (simp add: run_commands_def rtranclp_trans)
qed (simp add: run_commands_def)

lemma run_commands_inv: "agent_inv (aw_db w) \<Longrightarrow> agent_inv (aw_db (run_commands env cs w))"
  using run_commands_steps agent_steps_inv by blast

section \<open>The history of a row\<close>

inductive table_step :: "('r \<Rightarrow> 'r \<Rightarrow> bool) \<Rightarrow> 'r list \<Rightarrow> 'r list \<Rightarrow> bool" for change where
  table_same: "table_step change rs rs"
| table_add: "table_step change rs (rs @ [r])"
| table_change: "r \<in> set rs \<Longrightarrow> change r r' \<Longrightarrow> table_step change rs (replace_row r r' rs)"

declare table_step.intros [intro]

lemma table_step_row:
  assumes "table_step change rs rs'" and "r \<in> set rs"
  shows "\<exists>r' \<in> set rs'. change\<^sup>*\<^sup>* r r'"
  using assms by cases (auto simp: replace_row_def)

locale tracked_table = changing_table +
  assumes step_rows: "agent_step db db' \<Longrightarrow> table_step change (rows db) (rows db')"
begin

lemma history:
  assumes "agent_steps db db'" and "r \<in> set (rows db)"
  shows "\<exists>r' \<in> set (rows db'). change\<^sup>*\<^sup>* r r'"
  using assms
proof (induction rule: rtranclp_induct)
  case (step db1 db2)
  then obtain r1 where r1: "r1 \<in> set (rows db1)" "change\<^sup>*\<^sup>* r r1" by blast
  have "\<exists>r2 \<in> set (rows db2). change\<^sup>*\<^sup>* r1 r2"
    using table_step_row [OF step_rows [OF step.hyps(2)] r1(1)] .
  with r1(2) show ?case by (meson rtranclp_trans)
qed blast

lemma changes_key: "change\<^sup>*\<^sup>* r r' \<Longrightarrow> key r' = key r"
  by (induction rule: rtranclp_induct) (auto dest: change_key)

lemma current:
  assumes "agent_steps db db'" and "agent_inv db" and "r \<in> set (rows db)"
  obtains r' where "find (\<lambda>x. key x = key r) (rows db') = Some r'" "change\<^sup>*\<^sup>* r r'"
proof -
  from history [OF assms(1,3)] obtain r' where r': "r' \<in> set (rows db')" "change\<^sup>*\<^sup>* r r'" by blast
  have "find (\<lambda>x. key x = key r') (rows db') = Some r'"
    using agent_steps_inv [OF assms(1,2)] r'(1) by (rule found)
  with r'(2) that changes_key [OF r'(2)] show ?thesis by simp
qed

end

locale versioned_table = tracked_table rows put key fresh ver change
  for rows :: "agent_db \<Rightarrow> 'r list" and put and key and fresh and ver :: "'r \<Rightarrow> int" and change +
  assumes change_ver: "change r r' \<Longrightarrow> ver r' = ver r + 1"
begin

lemma changes_ver: "change\<^sup>*\<^sup>* r r' \<Longrightarrow> r' = r \<or> ver r < ver r'"
  by (induction rule: rtranclp_induct) (auto dest: change_ver)

lemma version_identifies:
  assumes "agent_steps db db'" and "r \<in> set (rows db)"
  shows "\<exists>r' \<in> set (rows db'). key r' = key r \<and> (r' = r \<or> ver r < ver r')"
  using history [OF assms] changes_key changes_ver by blast

end

interpretation sessions: versioned_table ad_sessions put_sessions ss_id session_new ss_version session_change
  by unfold_locales (auto elim!: agent_stepE simp: session_change_keeps)

interpretation runs: versioned_table ad_runs put_runs rn_id run_new rn_version run_change
  by unfold_locales (auto elim!: agent_stepE simp: run_change_keeps)

interpretation tasks: versioned_table ad_tasks put_tasks tk_id task_new tk_version task_change
  by unfold_locales (auto elim!: agent_stepE simp: task_change_keeps)

interpretation workflows: versioned_table ad_workflows put_workflows wr_id workflow_new wr_version workflow_change
  by unfold_locales (auto elim!: agent_stepE simp: workflow_change_keeps)

interpretation steps: versioned_table ad_steps put_steps sr_id step_new sr_version step_change
  by unfold_locales (auto elim!: agent_stepE simp: step_change_keeps)

interpretation approvals: tracked_table ad_approvals put_approvals ap_id approval_new ap_state approval_change
  by unfold_locales (auto elim!: agent_stepE)

interpretation delegations: tracked_table ad_delegations put_delegations dl_id delegation_new dl_status delegation_change
  by unfold_locales (auto elim!: agent_stepE)

end
