(* ===== verification/Agent_Outcomes.thy ===== *)
theory Agent_Outcomes
  imports Agent_System
begin

text \<open>
  What a command that returns has done: \<open>yields\<close> says that every result of a command satisfies a
  condition on the result and the committed store. The lemmas compute it for the commands whose effect
  goes beyond the row they name: the answer to an approval, the usage of a budget, the end of a
  delegation, the scheduling of a workflow.
\<close>

definition yields :: "(agent_world, 'a) act \<Rightarrow> ('a \<Rightarrow> agent_db \<Rightarrow> bool) \<Rightarrow> agent_world \<Rightarrow> bool" where
  "yields m P w \<longleftrightarrow> (\<forall>x w'. m w = (Inr x, w') \<longrightarrow> P x (aw_db w'))"

lemma yieldsD: "yields m P w \<Longrightarrow> m w = (Inr x, w') \<Longrightarrow> P x (aw_db w')"
  by (simp add: yields_def)

lemma yields_raise: "yields (act_raise e) P w"
  by (simp add: yields_def act_raise_def)

lemma yields_if: "\<lbrakk>c \<Longrightarrow> yields m P w; \<not> c \<Longrightarrow> yields n P w\<rbrakk> \<Longrightarrow> yields (if c then m else n) P w"
  by simp

lemma yields_option:
  "\<lbrakk>x = None \<Longrightarrow> yields a P w; \<And>y. x = Some y \<Longrightarrow> yields (b y) P w\<rbrakk> \<Longrightarrow> yields (case x of None \<Rightarrow> a | Some y \<Rightarrow> b y) P w"
  by (cases x) simp_all

lemma yields_scope:
  assumes "agent_inv (aw_db w)"
    and "\<And>d s. running s \<Longrightarrow> as_stored s = d \<Longrightarrow> as_db s = d \<Longrightarrow> d = aw_db w \<Longrightarrow>
      act_wp body (\<lambda>out s'. case out of Inl e \<Rightarrow> True | Inr y \<Rightarrow> P y (as_stored s')) s"
  shows "yields (in_scope body) P w"
proof -
  let ?s = "\<lparr>as_db = aw_db w, as_stored = aw_db w, as_tick = aw_tick w\<rparr>"
  have "running ?s" using assms(1) by (simp add: running_def)
  with assms(2) [of ?s] show ?thesis
    by (auto simp: yields_def act_wp_def in_scope_def split: prod.splits)
qed

lemmas yc = yields_raise yields_if yields_option yields_scope vcg_literal vcg

section \<open>Optimistic versions of tasks\<close>

definition task_past :: "string \<Rightarrow> int \<Rightarrow> agent_db \<Rightarrow> bool" where
  "task_past i v db \<longleftrightarrow> (case find (\<lambda>r. tk_id r = i) (ad_tasks db) of None \<Rightarrow> False | Some r \<Rightarrow> v < tk_version r)"

lemma complete_task_past:
  assumes "agent_inv (aw_db w)" shows "yields (complete_task env i out (Some v)) (\<lambda>_. task_past i v) w"
  unfolding complete_task_def get_defs
  by (intro yc assms) (auto simp: task.accepts task_past_def intro!: task_values_change)

lemma fail_task_past:
  assumes "agent_inv (aw_db w)" shows "yields (fail_task env i err (Some v)) (\<lambda>_. task_past i v) w"
  unfolding fail_task_def get_defs
  by (intro yc assms) (auto simp: task.accepts task_past_def intro!: task_values_change)

lemma retry_task_past:
  assumes "agent_inv (aw_db w)" shows "yields (retry_task env i (Some v)) (\<lambda>_. task_past i v) w"
  unfolding retry_task_def retry_two_hops_def get_defs
  by (intro yc assms) (auto simp: task.accepts task_past_def intro!: task_values_change)

lemma void_Inr: "act_void m w = (Inr (), w') \<longleftrightarrow> (\<exists>x. m w = (Inr x, w'))"
  and void_Inl: "fst (act_void m w) = Inl e \<longleftrightarrow> fst (m w) = Inl e"
  by (auto simp: act_void_def act_bind_def act_return_def split: prod.splits sum.splits)

lemma outdated_Some: "outdated (Some v) x \<longleftrightarrow> v \<noteq> x"
  by (simp add: outdated_def)

lemma past_is_stale:
  assumes "task_past i v (aw_db w)"
  shows "fst (complete_task env i out (Some v) w) = Inl STALE_ERR"
    and "fst (fail_task env i err (Some v) w) = Inl STALE_ERR"
    and "fst (retry_task env i (Some v) w) = Inl STALE_ERR"
  using assms unfolding complete_task_def fail_task_def retry_task_def get_defs
  by (auto simp: task_past_def in_scope_def act_bind_def require_row_def fetch_def act_return_def act_check_def
      outdated_Some act_raise_def split: option.splits)

lemma task_past_steps:
  assumes "agent_steps db db'" and "agent_inv db" and "task_past i v db"
  shows "task_past i v db'"
proof -
  from assms(3) obtain r where r: "find (\<lambda>r. tk_id r = i) (ad_tasks db) = Some r" "v < tk_version r"
    by (auto simp: task_past_def split: option.splits)
  then have "r \<in> set (ad_tasks db)" "tk_id r = i" by (auto dest: find_SomeD)
  with tasks.current [OF assms(1,2), of r] obtain r' where
    "find (\<lambda>x. tk_id x = i) (ad_tasks db') = Some r'" "task_change\<^sup>*\<^sup>* r r'" by metis
  then show ?thesis using r(2) tasks.changes_ver [of r r'] by (auto simp: task_past_def)
qed

section \<open>Approvals\<close>

definition answered :: "string \<Rightarrow> string \<Rightarrow> approval_row \<Rightarrow> agent_db \<Rightarrow> bool" where
  "answered aid target r db \<longleftrightarrow> find (\<lambda>x. ap_id x = aid) (ad_approvals db) = Some r \<and>
     approval_parse target = Some (ap_state r) \<and> ap_state r \<noteq> APR_PENDING"

lemma resolve_approval_answers:
  assumes "agent_inv (aw_db w)"
  shows "yields (resolve_approval env aid target res) (answered aid target) w"
  unfolding resolve_approval_def get_defs
  by (intro yc vcg_settle assms) (auto simp: answered_def find_self intro!: resolution_change)

lemma approvals_settled: "approval_change\<^sup>*\<^sup>* r r' \<Longrightarrow> ap_state r \<noteq> APR_PENDING \<Longrightarrow> r' = r"
  by (induction rule: rtranclp_induct) (auto simp: approval_change_def)

lemma answered_refuses:
  "find (\<lambda>x. ap_id x = aid) (ad_approvals (aw_db w)) = Some r \<Longrightarrow> ap_state r \<noteq> APR_PENDING \<Longrightarrow>
     \<exists>e. fst (resolve_approval env aid target res w) = Inl e"
  by (simp add: resolve_approval_def get_approval_def act_raise_def in_scope_def act_bind_def require_row_def fetch_def
      act_return_def act_check_def split: option.split)

definition refused :: "approval_row \<Rightarrow> agent_db \<Rightarrow> bool" where
  "refused r db \<longleftrightarrow> (ap_state r \<in> {APR_DENIED, APR_EXPIRED} \<longrightarrow>
     (\<exists>t. find (\<lambda>t. tk_id t = ap_task r) (ad_tasks db) = Some t \<and> tk_state t = TASK_FAILED \<and>
     tk_error t = Some (denial_text (ap_state r)) \<and> tk_awaiting t = None))"

lemma approval_task_exists:
  assumes "agent_inv db" and "find (\<lambda>x. ap_id x = aid) (ad_approvals db) = Some r"
  shows "find (\<lambda>t. tk_id t = ap_task r) (ad_tasks db) \<noteq> None"
proof -
  have "ap_task r \<in> task_ids db" using assms find_SomeD [OF assms(2)] by (auto simp: agent_inv_def refs_ok_def)
  then show ?thesis by (auto simp: task_ids_def find_None_iff)
qed

lemma resolve_approval_refuses:
  assumes "agent_inv (aw_db w)"
  shows "yields (resolve_approval env aid target res) refused w"
proof -
  have key: "tk_id t = k" if "find (\<lambda>r. tk_id r = k) ts = Some t" for k t ts using that by (auto dest: find_SomeD)
  show ?thesis
    unfolding resolve_approval_def get_defs settle_task_def
    by (intro yc vcg_settle assms; (auto simp: find_self refused_def approval_task_exists [OF assms]
        intro!: resolution_change task_values_change)?) (frule key, simp)+
qed

section \<open>Checkpoints\<close>

lemma checkpoint_taken: "find (\<lambda>x. cp_run x = cp_run r \<and> cp_seq x = cp_seq r) (ad_checkpoints (as_db s)) \<noteq> None \<Longrightarrow>
    insert_checkpoint r s = (Inr False, s)"
  by (simp add: insert_checkpoint_def)

section \<open>Budgets\<close>

lemma run_exhaustion_None: "run_exhaustion l u = None \<longleftrightarrow> is_exhausted l u = None"
  by (simp add: run_exhaustion_def is_exhausted_def)

definition budget_outcome :: "agent_db \<Rightarrow> string \<Rightarrow> (string \<times> py_num) list \<Rightarrow> run_row \<Rightarrow> agent_db \<Rightarrow> bool" where
  "budget_outcome db rid patch r db' \<longleftrightarrow> (\<forall>r0. find (\<lambda>x. rn_id x = rid) (ad_runs db) = Some r0 \<longrightarrow>
     rn_usage r = foldl usage_add (rn_usage r0) patch \<and>
     (if run_exhaustion (rn_limits r0) (rn_usage r) = None then rn_state r = rn_state r0
      else rn_state r = LOOP_FAILED \<and> rn_exhaustion r \<noteq> None))"

lemma wp_update_run_row:
  assumes "running s"
    and "\<And>r now done_at. find (\<lambda>r. rn_id r = k) (ad_runs (as_db s)) = Some r \<Longrightarrow> v = rn_version r \<Longrightarrow>
      completion_of (rp_completed p) (run_auto p r) done_at \<Longrightarrow> run_change r (run_values now done_at p r)"
    and "\<forall>r. find (\<lambda>r. rn_id r = k) (ad_runs (as_db s)) = Some r \<longrightarrow> v \<noteq> rn_version r \<Longrightarrow> Q (Inr None) s"
    and "\<And>r r' now done_at s'. running s' \<Longrightarrow> as_stored s' = as_stored s \<Longrightarrow>
      find (\<lambda>r. rn_id r = k) (ad_runs (as_db s)) = Some r \<Longrightarrow> v = rn_version r \<Longrightarrow> r' = run_values now done_at p r \<Longrightarrow>
      find (\<lambda>x. rn_id x = k) (ad_runs (as_db s')) = Some r' \<Longrightarrow> ad_delegations (as_db s') = ad_delegations (as_db s) \<Longrightarrow>
      Q (Inr (Some r')) s'"
  shows "act_wp (update_run env k p (Some v)) Q s"
  using assms by (intro wp_update_run) auto

lemmas vcg_update_run_row = act_wp_bindI [OF wp_update_run_row, simplified sum.case]

lemma record_run_budget_usage_outcome:
  assumes "agent_inv (aw_db w)" and "patch \<noteq> []"
  shows "yields (record_run_budget_usage env rid patch expected) (budget_outcome (aw_db w) rid patch) w"
  unfolding record_run_budget_usage_def get_defs Let_def if_not_P [OF assms(2)]
  by (intro vcg_update_run_row yc assms) (auto simp: budget_outcome_def intro!: run_values_change)

definition child_of :: "agent_db \<Rightarrow> (run_row \<times> run_row) set" where
  "child_of db = {(r, q). r \<in> set (ad_runs db) \<and> q \<in> set (ad_runs db) \<and> rn_parent r = Some (rn_id q)}"

lemma child_budget:
  assumes inv: "agent_inv db" and c: "(r, q) \<in> child_of db"
  shows "rn_session r = rn_session q \<and> (is_exhausted (rn_limits q) u \<noteq> None \<longrightarrow> is_exhausted (rn_limits r) u \<noteq> None)"
proof -
  from c have m: "r \<in> set (ad_runs db)" "q \<in> set (ad_runs db)" "rn_parent r = Some (rn_id q)" by (auto simp: child_of_def)
  from inv have "refs_ok db" by (simp add: agent_inv_def)
  with m have "\<exists>pp pl. (rn_id q, rn_session r, pp, pl) \<in> run_face ` set (ad_runs db) \<and> inherit_limits pl (rn_limits r) = rn_limits r"
    by (simp add: refs_ok_def)
  then obtain pp pl where f: "(rn_id q, rn_session r, pp, pl) \<in> run_face ` set (ad_runs db)"
    and l: "inherit_limits pl (rn_limits r) = rn_limits r" by blast
  from f obtain x where x: "x \<in> set (ad_runs db)" "rn_id x = rn_id q" "rn_session x = rn_session r" "rn_limits x = pl"
    by (auto simp: run_face_def)
  have "find (\<lambda>y. rn_id y = rn_id q) (ad_runs db) = Some x" using tbl_runs.found [OF inv x(1)] x(2) by simp
  moreover have "find (\<lambda>y. rn_id y = rn_id q) (ad_runs db) = Some q" by (rule tbl_runs.found [OF inv m(2)])
  ultimately have "x = q" by simp
  with x l inherited_exhaustion [of pl "rn_limits r" u] show ?thesis by auto
qed

section \<open>Delegations\<close>

definition unblocked :: "agent_db \<Rightarrow> string \<Rightarrow> delegation_row \<Rightarrow> agent_db \<Rightarrow> bool" where
  "unblocked db did d db' \<longleftrightarrow> (\<forall>p. delegation_terminal (dl_status d) \<and>
     find (\<lambda>x. rn_id x = dl_parent d) (ad_runs db) = Some p \<and> rn_state p = LOOP_WAITING_CHILD \<longrightarrow>
     (\<exists>p'. find (\<lambda>x. rn_id x = dl_parent d) (ad_runs db') = Some p' \<and>
       (if still_blocking did (filter (\<lambda>e. dl_parent e = dl_parent d) (ad_delegations db))
        then p' = p else rn_state p' = LOOP_RUNNING)))"

lemma vcg_siblings:
  "(\<And>xs. xs = sort_key ord (filter p (rows (as_db s))) \<Longrightarrow> act_wp (f xs) Q s) \<Longrightarrow> act_wp (act_bind (select_rows rows p ord) f) Q s"
  by (simp add: wp_simps)

lemma delegation_values_parent [simp]: "dl_parent (delegation_values t st r) = dl_parent r"
  by (simp add: delegation_values_def)

lemma still_blocking_sorted: "still_blocking did (sort_key f xs) = still_blocking did xs"
  by (simp add: still_blocking_def list_ex_iff)

lemma still_blocking_replaced:
  assumes "find (\<lambda>r. dl_id r = did) ds = Some r"
  shows "still_blocking did (filter (\<lambda>e. p = dl_parent e) (replace_row r (delegation_values t st r) ds)) =
    still_blocking did (filter (\<lambda>e. dl_parent e = p) ds)"
proof -
  have "dl_id r = did" using assms by (auto dest: find_SomeD)
  then show ?thesis by (auto simp: still_blocking_def list_ex_iff replace_row_def)
qed

lemma transition_delegation_unblocks:
  assumes "agent_inv (aw_db w)"
  shows "yields (transition_delegation env did target) (unblocked (aw_db w) did) w"
  unfolding transition_delegation_def unblock_parent_def get_defs delegation_terminal_def [symmetric]
  by (intro vcg_siblings vcg_update_run_row yc assms)
    (auto simp: unblocked_def still_blocking_sorted still_blocking_replaced intro!: run_values_change intro: delegation_values_change)

section \<open>Scheduling\<close>

fun planned_steps ::
  "agent_env \<Rightarrow> string \<Rightarrow> string \<Rightarrow> time \<Rightarrow> workflow_definition \<Rightarrow> nat \<Rightarrow> (string \<times> workflow_node) list \<Rightarrow> step_row list" where
  "planned_steps env wid rid now d n [] = []"
| "planned_steps env wid rid now d n ((nid, nd) # rest) =
     \<lparr>sr_id = ae_id env n, sr_workflow = wid, sr_run = Some rid, sr_task = None, sr_node = nid,
      sr_state = (if predecessors d nid = {} then STEP_PENDING else STEP_BLOCKED), sr_attempt = 1,
      sr_max_attempts = wn_max_attempts nd, sr_priority = wn_priority nd, sr_result = None, sr_error = None,
      sr_created = now, sr_updated = now, sr_version = 0\<rparr> # planned_steps env wid rid now d (Suc n) rest"

lemma planned_steps_shape:
  "map (\<lambda>s. (sr_node s, sr_state s, sr_workflow s, sr_run s)) (planned_steps env wid rid now d n ns) =
   map (\<lambda>(k, _). (k, if predecessors d k = {} then STEP_PENDING else STEP_BLOCKED, wid, Some rid)) ns"
  by (induction ns arbitrary: n) auto

lemma add_steps_result:
  assumes "inj (ae_id env)" and "\<forall>m \<ge> as_tick s. ae_id env m \<notin> sr_id ` set (ad_steps (as_db s))"
  shows "add_steps env wid rid now d ns s =
    (Inr (), s\<lparr>as_db := put_steps (ad_steps (as_db s) @ planned_steps env wid rid now d (as_tick s) ns) (as_db s),
               as_tick := as_tick s + length ns\<rparr>)"
  using assms(2)
proof (induction ns arbitrary: s)
  case Nil
  then show ?case by (cases s) (simp add: act_return_def)
next
  case (Cons kn ns)
  obtain k nd where kn: "kn = (k, nd)" by fastforce
  let ?row = "hd (planned_steps env wid rid now d (as_tick s) [kn])"
  let ?s = "s\<lparr>as_tick := Suc (as_tick s), as_db := put_steps (ad_steps (as_db s) @ [?row]) (as_db s)\<rparr>"
  have new: "find (\<lambda>x. sr_id x = ae_id env (as_tick s)) (ad_steps (as_db s)) = None"
    using Cons.prems [rule_format, of "as_tick s"] by (auto simp: find_None_iff image_iff)
  have "\<forall>m \<ge> as_tick ?s. ae_id env m \<notin> sr_id ` set (ad_steps (as_db ?s))"
    using Cons.prems assms(1) by (auto simp: kn put_steps_def dest: injD)
  from Cons.IH [OF this]
  have "add_steps env wid rid now d ns ?s = (Inr (), ?s\<lparr>as_db := put_steps (ad_steps (as_db ?s) @
      planned_steps env wid rid now d (Suc (as_tick s)) ns) (as_db ?s), as_tick := Suc (as_tick s) + length ns\<rparr>)" by simp
  moreover have "add_steps env wid rid now d (kn # ns) s = add_steps env wid rid now d ns ?s"
    using new by (simp add: kn act_bind_def draw_id_def insert_step_def add_row_def)
  ultimately show ?case by (simp add: kn put_steps_def)
qed

definition scheduled :: "agent_db \<Rightarrow> string \<Rightarrow> string \<Rightarrow> workflow_row \<Rightarrow> agent_db \<Rightarrow> bool" where
  "scheduled db wid rid r db' \<longleftrightarrow> wr_state r = WF_RUNNING \<and> find (\<lambda>x. wr_id x = wid) (ad_workflows db') = Some r \<and>
     (\<exists>new. ad_steps db' = ad_steps db @ new \<and>
        map (\<lambda>s. (sr_node s, sr_state s, sr_workflow s, sr_run s)) new =
        map (\<lambda>(k, _). (k, if predecessors (workflow_def_of wid (wr_name r) (wr_nodes r) (wr_edges r)) k = {}
            then STEP_PENDING else STEP_BLOCKED, wid, Some rid)) (wr_nodes r))"

lemma wp_add_steps_exactly:
  assumes "running s" and "wid \<in> wr_id ` set (ad_workflows (as_db s))" and "rid \<in> rn_id ` set (ad_runs (as_db s))"
    and "inj (ae_id env)" and "\<forall>m. ae_id env m \<notin> sr_id ` set (ad_steps (as_db s))"
    and "\<And>s'. running s' \<Longrightarrow> as_stored s' = as_stored s \<Longrightarrow>
      (\<exists>m. as_db s' = put_steps (ad_steps (as_db s) @ planned_steps env wid rid now d m ns) (as_db s)) \<Longrightarrow> Q (Inr ()) s'"
  shows "act_wp (add_steps env wid rid now d ns) Q s"
proof -
  have r: "add_steps env wid rid now d ns s =
    (Inr (), s\<lparr>as_db := put_steps (ad_steps (as_db s) @ planned_steps env wid rid now d (as_tick s) ns) (as_db s),
               as_tick := as_tick s + length ns\<rparr>)" (is "_ = (_, ?s)") using assms(4,5) by (intro add_steps_result) auto
  have "act_wp (add_steps env wid rid now d ns) (\<lambda>_ s'. running s') s"
    using assms(1-3) by (rule wp_add_steps)
  then have "running ?s" by (simp add: act_wp_def r)
  then show ?thesis using assms(6) [of ?s] by (auto simp: act_wp_def r)
qed


lemmas vcg_steps_exactly = act_wp_bindI [OF wp_add_steps_exactly, simplified sum.case]

lemma schedule_workflow_schedules:
  assumes "agent_inv (aw_db w)" and "inj (ae_id env)" and "\<forall>m. ae_id env m \<notin> sr_id ` set (ad_steps (aw_db w))"
  shows "yields (schedule_workflow env wid rid expected) (scheduled (aw_db w) wid rid) w"
  unfolding schedule_workflow_def get_defs Let_def
  by (intro yc vcg_move vcg_steps_exactly assms) (auto simp: assms(3) scheduled_def planned_steps_shape dest: find_SomeD)

end
