(* ===== verification/Agent_Properties.thy ===== *)
theory Agent_Properties
  imports Agent_Outcomes
begin

text \<open>
  The properties of the agent runtime as a whole, over arbitrary sequences of commands, and the store
  their witnesses run on.
\<close>

section \<open>A store to run on\<close>

definition ag_env :: agent_env where
  "ag_env = \<lparr>ae_now = int, ae_id = (\<lambda>n. replicate (Suc n) CHR ''i''), ae_parse_limits = (\<lambda>_. Inr no_limits), ae_hash = (\<lambda>_. [])\<rparr>"

definition ag_node :: "string \<Rightarrow> string \<times> workflow_node" where
  "ag_node k = (k, \<lparr>wn_id = k, wn_name = k, wn_tool_name = [], wn_params = [], wn_priority = 0, wn_timeout = None, wn_max_attempts = 3\<rparr>)"

definition ag_session :: session_row where
  "ag_session = \<lparr>ss_id = ''s'', ss_actor = ''a'', ss_title = ''t'', ss_state = SES_ACTIVE, ss_limits = no_limits, ss_usage = no_usage,
     ss_created = 0, ss_updated = 0, ss_version = 1, ss_metadata = PMap False []\<rparr>"

definition ag_run :: "string \<Rightarrow> string option \<Rightarrow> loop_state \<Rightarrow> budget_limits \<Rightarrow> run_row" where
  "ag_run i p st l = \<lparr>rn_id = i, rn_session = ''s'', rn_parent = p, rn_state = st, rn_scope = SCOPE_CONVERSATION,
     rn_limits = l, rn_usage = no_usage, rn_exhaustion = None, rn_attempt = 1, rn_max_attempts = 3, rn_timeout = None,
     rn_created = 0, rn_updated = 0, rn_completed = None, rn_version = 3, rn_metadata = PMap False []\<rparr>"

definition ag_task :: "string \<Rightarrow> task_state \<Rightarrow> time option \<Rightarrow> task_row" where
  "ag_task i st d = \<lparr>tk_id = i, tk_session = ''s'', tk_run = Some ''r'', tk_workflow = None, tk_title = ''x'', tk_description = [],
     tk_state = st, tk_priority = 0, tk_attempt = 1, tk_max_attempts = 3, tk_timeout = None, tk_input = PMap False [],
     tk_output = None, tk_error = None, tk_awaiting = None, tk_checkpoint = None, tk_created = 0, tk_updated = 0,
     tk_completed = d, tk_version = 4, tk_metadata = PMap False []\<rparr>"

definition ag_workflow :: workflow_row where
  "ag_workflow = \<lparr>wr_id = ''w'', wr_session = ''s'', wr_name = ''n'', wr_number = 1, wr_state = WF_DRAFT,
     wr_nodes = [ag_node ''a'', ag_node ''b''], wr_edges = [\<lparr>we_from = ''a'', we_to = ''b'', we_condition = None, we_type = []\<rparr>],
     wr_created = 0, wr_updated = 0, wr_version = 0, wr_metadata = PMap False []\<rparr>"

definition ag_world :: agent_world where
  "ag_world = \<lparr>aw_db = empty_agent_db\<lparr>ad_sessions := [ag_session],
     ad_runs := [ag_run ''r'' None LOOP_WAITING_CHILD (no_limits\<lparr>bl_turns := Some 2\<rparr>),
                 ag_run ''c'' (Some ''r'') LOOP_RUNNING (no_limits\<lparr>bl_turns := Some 2\<rparr>)],
     ad_tasks := [ag_task ''t'' TASK_COMPLETED (Some 0), ag_task ''u'' TASK_RUNNING None],
     ad_workflows := [ag_workflow],
     ad_checkpoints := [\<lparr>cp_id = ''k'', cp_run = ''r'', cp_task = Some ''t'', cp_workflow = None, cp_step = None, cp_seq = 0,
       cp_snapshot = PMap False [], cp_hash = [], cp_created = 0\<rparr>],
     ad_approvals := [\<lparr>ap_id = ''p'', ap_task = ''t'', ap_run = None, ap_requested_by = ''m'', ap_state = APR_PENDING,
       ap_payload = PMap False [], ap_resolution = None, ap_created = 0, ap_resolved = None, ap_expires = None\<rparr>],
     ad_delegations := [\<lparr>dl_id = ''d'', dl_parent = ''r'', dl_child = ''c'', dl_status = DEL_RUNNING, dl_created = 0,
       dl_completed = None, dl_metadata = PMap False []\<rparr>]\<rparr>, aw_tick = 0\<rparr>"

lemma ag_world_inv: "agent_inv (aw_db ag_world)"
  by (simp add: agent_inv_def keys_ok_def refs_ok_def rows_fine_def ids_defs ag_world_def empty_agent_db_def ag_session_def ag_run_def
      ag_task_def ag_workflow_def run_face_def inherit_limits_def tighter_def no_limits_def run_ok_def loop_terminal_def task_ok_def task_terminal_def
      empty_outbox_def outbox_inv_def dedup_keys_def)

section \<open>Properties\<close>


lemma ag_complete: "fst (exec_command ag_env (Complete_Task ''u'' None (Some 4)) ag_world) = Inr ()"
  by code_simp

lemma ag_completed: "exec_command ag_env (Complete_Task ''u'' None (Some 4)) ag_world =
    (Inr (), snd (exec_command ag_env (Complete_Task ''u'' None (Some 4)) ag_world))"
  using ag_complete by (simp add: prod_eq_iff)



definition advances :: "('r \<Rightarrow> string) \<Rightarrow> ('r \<Rightarrow> int) \<Rightarrow> 'r list \<Rightarrow> 'r list \<Rightarrow> bool" where
  "advances key ver old new \<longleftrightarrow> (\<forall>r \<in> set old. \<exists>r' \<in> set new. key r' = key r \<and> (r' = r \<or> ver r < ver r'))"

text \<open>A version identifies the contents of a row: after any sequence of commands every session, run, task, workflow
  and step is still there, and it is either unchanged or carries a higher version.\<close>

theorem versions_identify_rows:
  assumes "agent_inv (aw_db w)" and "db' = aw_db (run_commands env cs w)"
  shows "advances ss_id ss_version (ad_sessions (aw_db w)) (ad_sessions db') \<and>
     advances rn_id rn_version (ad_runs (aw_db w)) (ad_runs db') \<and>
     advances tk_id tk_version (ad_tasks (aw_db w)) (ad_tasks db') \<and>
     advances wr_id wr_version (ad_workflows (aw_db w)) (ad_workflows db') \<and>
     advances sr_id sr_version (ad_steps (aw_db w)) (ad_steps db')"
  using run_commands_steps [OF assms(1), of env cs] unfolding assms(2) advances_def
  by (simp add: sessions.version_identifies runs.version_identifies tasks.version_identifies
      workflows.version_identifies steps.version_identifies)

lemma versions_identify_rows_witness:
  "advances tk_id tk_version (ad_tasks (aw_db ag_world))
     (ad_tasks (aw_db (run_commands ag_env [Complete_Task ''u'' None (Some 4)] ag_world)))"
  using versions_identify_rows [OF ag_world_inv refl] by blast

fun edits_task :: "string \<Rightarrow> int \<Rightarrow> agent_command \<Rightarrow> bool" where
  "edits_task i v (Complete_Task j _ e) \<longleftrightarrow> j = i \<and> e = Some v"
| "edits_task i v (Fail_Task j _ e) \<longleftrightarrow> j = i \<and> e = Some v"
| "edits_task i v (Retry_Task j e) \<longleftrightarrow> j = i \<and> e = Some v"
| "edits_task _ _ _ \<longleftrightarrow> False"

text \<open>C38: Of all callers that complete, fail or retry a task with the same expected version, at most one succeeds:
  once one of them has, each later one is refused as stale, whatever other commands come in between.\<close>

theorem task_edit_wins_once:
  assumes "agent_inv (aw_db w)" and "edits_task i v c" and "edits_task i v c'"
    and "exec_command env c w = (Inr (), w')"
  shows "fst (exec_command env' c' (run_commands env cs w')) = Inl STALE_ERR"
proof -
  have inv: "agent_inv (aw_db w')"
    using refines_steps [OF exec_command_refines assms(1), of env c] agent_steps_inv assms(1,4) by auto
  have "task_past i v (aw_db w')"
    using assms(2,4) by (cases c) (auto simp: void_Inr yieldsD [OF complete_task_past [OF assms(1)]]
      yieldsD [OF fail_task_past [OF assms(1)]] yieldsD [OF retry_task_past [OF assms(1)]])
  then have "task_past i v (aw_db (run_commands env cs w'))"
    using run_commands_steps [OF inv] task_past_steps inv by blast
  from past_is_stale [OF this] show ?thesis
    using assms(3) by (cases c') (auto simp: void_Inl)
qed

lemma task_edit_wins_once_witness:
  "fst (exec_command ag_env (Fail_Task ''u'' ''e'' (Some 4)) (run_commands ag_env [Retry_Task ''u'' None]
     (snd (exec_command ag_env (Complete_Task ''u'' None (Some 4)) ag_world)))) = Inl STALE_ERR"
  using task_edit_wins_once [OF ag_world_inv _ _ ag_completed, of "''u''" 4 "Fail_Task ''u'' ''e'' (Some 4)"]
  by simp

text \<open>C39: An approval is answered once: after \<^verbatim>\<open>resolve_approval\<close> has returned, the approval carries the answer,
  no sequence of commands changes that row again, and every further attempt to resolve it raises.\<close>

theorem approval_resolved_once:
  assumes "agent_inv (aw_db w)" and "resolve_approval env aid target res w = (Inr r, w')"
  shows "approval_parse target = Some (ap_state r) \<and>
    find (\<lambda>x. ap_id x = aid) (ad_approvals (aw_db (run_commands env cs w'))) = Some r \<and>
    (\<exists>e. fst (resolve_approval env' aid target' res' (run_commands env cs w')) = Inl e)"
proof -
  from yieldsD [OF resolve_approval_answers [OF assms(1)] assms(2)]
  have r: "find (\<lambda>x. ap_id x = aid) (ad_approvals (aw_db w')) = Some r"
    "ap_state r \<noteq> APR_PENDING" "approval_parse target = Some (ap_state r)" by (auto simp: answered_def)
  have inv: "agent_inv (aw_db w')"
    using refines_steps [OF resolve_approval_refines assms(1), of env aid target res] agent_steps_inv assms by auto
  have "r \<in> set (ad_approvals (aw_db w'))" "ap_id r = aid" using r by (auto dest: find_SomeD)
  then obtain r' where "find (\<lambda>x. ap_id x = aid) (ad_approvals (aw_db (run_commands env cs w'))) = Some r'" "approval_change\<^sup>*\<^sup>* r r'"
    using approvals.current [OF run_commands_steps [OF inv] inv, of r env cs] by metis
  then have "find (\<lambda>x. ap_id x = aid) (ad_approvals (aw_db (run_commands env cs w'))) = Some r"
    using approvals_settled r by blast
  with answered_refuses r show ?thesis by blast
qed

lemma ag_deny: "map_sum id ap_task (fst (resolve_approval ag_env ''p'' ''DENIED'' None ag_world)) = Inr ''t''"
  by code_simp

lemma ag_denied:
  obtains r w' where "resolve_approval ag_env ''p'' ''DENIED'' None ag_world = (Inr r, w')" "ap_task r = ''t''"
  using ag_deny by (cases "resolve_approval ag_env ''p'' ''DENIED'' None ag_world"; cases "fst (resolve_approval ag_env ''p'' ''DENIED'' None ag_world)") auto

lemma approval_resolved_once_witness:
  "\<exists>e. fst (resolve_approval ag_env ''p'' ''APPROVED'' None
     (run_commands ag_env [] (snd (resolve_approval ag_env ''p'' ''DENIED'' None ag_world)))) = Inl e"
  by (rule ag_denied) (use approval_resolved_once [OF ag_world_inv] in \<open>metis snd_conv\<close>)

text \<open>A refused approval fails its task, whatever the task is doing by then: when \<^verbatim>\<open>resolve_approval\<close> has recorded a
  denial or an expiry, the task of the approval is failed with that reason and awaits nothing, even when it was
  completed before.\<close>

theorem refusal_fails_task:
  assumes "agent_inv (aw_db w)" and "resolve_approval env aid target res w = (Inr r, w')"
    and "ap_state r \<in> {APR_DENIED, APR_EXPIRED}"
  shows "\<exists>t. find (\<lambda>t. tk_id t = ap_task r) (ad_tasks (aw_db w')) = Some t \<and> tk_state t = TASK_FAILED \<and>
     tk_error t = Some (denial_text (ap_state r)) \<and> tk_awaiting t = None"
  using yieldsD [OF resolve_approval_refuses [OF assms(1)] assms(2)] assms(3) unfolding refused_def by auto

lemma refusal_fails_task_witness:
  "find (\<lambda>t. tk_id t = ''t'') (ad_tasks (aw_db ag_world)) = Some (ag_task ''t'' TASK_COMPLETED (Some 0)) \<and>
   (\<exists>t. find (\<lambda>t. tk_id t = ''t'') (ad_tasks (aw_db (snd (resolve_approval ag_env ''p'' ''DENIED'' None ag_world)))) = Some t \<and>
     tk_state t = TASK_FAILED)"
proof (rule ag_denied)
  fix r w' assume r: "resolve_approval ag_env ''p'' ''DENIED'' None ag_world = (Inr r, w')" "ap_task r = ''t''"
  have "approval_parse ''DENIED'' = Some (ap_state r)"
    using yieldsD [OF resolve_approval_answers [OF ag_world_inv] r(1)] by (simp add: answered_def)
  then have "ap_state r = APR_DENIED" by (simp add: approval_parse_def approval_states_def)
  with refusal_fails_task [OF ag_world_inv r(1)] r show ?thesis
    by (auto simp: ag_world_def ag_task_def)
qed

text \<open>The default sequence number of a checkpoint counts the checkpoints of its run and task, but the store refuses
  a second checkpoint of the run with the same number: once some task of a run has its first checkpoint, the first
  checkpoint of any other task of the run is refused.\<close>

theorem second_task_checkpoint_refused:
  assumes "find (\<lambda>r. rn_id r = rid) (ad_runs (aw_db w)) = Some r" and "find (\<lambda>r. tk_id r = tid) (ad_tasks (aw_db w)) = Some t"
    and "c \<in> set (ad_checkpoints (aw_db w))" and "cp_run c = rid" and "cp_seq c = 0"
    and "\<forall>c \<in> set (ad_checkpoints (aw_db w)). cp_run c = rid \<longrightarrow> cp_task c \<noteq> Some tid"
  shows "fst (create_checkpoint env rid snapshot (Some tid) None None None w) = Inl VALIDATION_ERR"
proof -
  have none: "filter (\<lambda>r. rid = cp_run r \<and> cp_task r = Some tid) (ad_checkpoints (aw_db w)) = []"
    using assms(6) by (auto simp: filter_empty_conv)
  have hit: "find (\<lambda>x. cp_run x = rid \<and> cp_seq x = 0) (ad_checkpoints (aw_db w)) \<noteq> None"
    using assms(3-5) by (auto simp: find_None_iff)
  show ?thesis unfolding create_checkpoint_def get_defs
    by (simp add: in_scope_def act_bind_def require_row_def fetch_def act_return_def check_row_def assms(1,2) checkpoint_taken hit
        select_rows_def next_checkpoint_seq_def draw_id_def draw_time_def act_check_def require_inserted_def act_raise_def none)
qed

lemma second_task_checkpoint_refused_witness:
  "fst (create_checkpoint ag_env ''r'' None (Some ''u'') None None None ag_world) = Inl VALIDATION_ERR"
  by (rule second_task_checkpoint_refused [where c = "hd (ad_checkpoints (aw_db ag_world))"])
    (simp_all add: ag_world_def ag_run_def ag_task_def)

text \<open>Recording usage is fail-closed: the run carries the sum of its usage and the increments, and it is failed
  with a reason exactly when that usage reaches one of its limits, where the order in which the command looks at the
  limits makes no difference to the verdict of \<^verbatim>\<open>is_exhausted\<close>; otherwise its state is unchanged.\<close>

theorem budget_exhaustion_fails_run:
  assumes "agent_inv (aw_db w)" and "patch \<noteq> []" and "find (\<lambda>x. rn_id x = rid) (ad_runs (aw_db w)) = Some r0"
    and "record_run_budget_usage env rid patch expected w = (Inr r, w')"
  shows "rn_usage r = foldl usage_add (rn_usage r0) patch \<and>
     (if is_exhausted (rn_limits r0) (rn_usage r) = None then rn_state r = rn_state r0
      else rn_state r = LOOP_FAILED \<and> rn_exhaustion r \<noteq> None)"
  using yieldsD [OF record_run_budget_usage_outcome [OF assms(1,2)] assms(4)] assms(3)
  by (simp add: budget_outcome_def run_exhaustion_None)

lemma ag_usage: "map_sum id rn_usage (fst (record_run_budget_usage ag_env ''c'' [(''turns'', NInt 3)] None ag_world)) =
    Inr (no_usage\<lparr>bu_turns := 3\<rparr>)"
  by code_simp

lemma budget_exhaustion_fails_run_witness:
  "\<exists>r w'. record_run_budget_usage ag_env ''c'' [(''turns'', NInt 3)] None ag_world = (Inr r, w') \<and> rn_state r = LOOP_FAILED"
proof -
  obtain r w' where r: "record_run_budget_usage ag_env ''c'' [(''turns'', NInt 3)] None ag_world = (Inr r, w')"
    using ag_usage by (cases "record_run_budget_usage ag_env ''c'' [(''turns'', NInt 3)] None ag_world";
      cases "fst (record_run_budget_usage ag_env ''c'' [(''turns'', NInt 3)] None ag_world)") auto
  with ag_usage have "rn_usage r = no_usage\<lparr>bu_turns := 3\<rparr>" by simp
  moreover have "find (\<lambda>x. rn_id x = ''c'') (ad_runs (aw_db ag_world)) =
      Some (ag_run ''c'' (Some ''r'') LOOP_RUNNING (no_limits\<lparr>bl_turns := Some 2\<rparr>))"
    by (simp add: ag_world_def ag_run_def)
  ultimately show ?thesis
    using budget_exhaustion_fails_run [OF ag_world_inv _ _ r, of "ag_run ''c'' (Some ''r'') LOOP_RUNNING (no_limits\<lparr>bl_turns := Some 2\<rparr>)"] r
    by (simp add: ag_run_def is_exhausted_def reached_def no_usage_def)
qed

text \<open>C40: No descendant of a run outlives a limit of that run: after any sequence of commands, a usage that exhausts the
  limits of a run exhausts the limits of every run below it, and the runs of one such tree belong to one session.\<close>

theorem descendants_within_budget:
  assumes "agent_inv (aw_db w)" and "(r, q) \<in> (child_of (aw_db (run_commands env cs w)))\<^sup>+"
    and "is_exhausted (rn_limits q) u \<noteq> None"
  shows "is_exhausted (rn_limits r) u \<noteq> None \<and> rn_session r = rn_session q"
proof -
  note inv = run_commands_inv [OF assms(1), of env cs]
  have "rn_session r = rn_session q \<and> (is_exhausted (rn_limits q) u \<noteq> None \<longrightarrow> is_exhausted (rn_limits r) u \<noteq> None)"
    using assms(2)
  proof (induction rule: trancl_induct)
    case (step y z)
    with child_budget [OF inv step.hyps(2), of u] show ?case by auto
  qed (rule child_budget [OF inv])
  then show ?thesis using assms(3) by auto
qed

lemma descendants_within_budget_witness:
  "is_exhausted (no_limits\<lparr>bl_turns := Some 2\<rparr>) (no_usage\<lparr>bu_turns := 5\<rparr>) \<noteq> None"
proof -
  let ?l = "no_limits\<lparr>bl_turns := Some 2\<rparr>"
  have "(ag_run ''c'' (Some ''r'') LOOP_RUNNING ?l, ag_run ''r'' None LOOP_WAITING_CHILD ?l) \<in>
      (child_of (aw_db (run_commands ag_env [] ag_world)))\<^sup>+"
    by (rule r_into_trancl) (simp add: child_of_def run_commands_def ag_world_def ag_run_def)
  from descendants_within_budget [OF ag_world_inv this, of "no_usage\<lparr>bu_turns := 5\<rparr>"] show ?thesis
    by (simp add: ag_run_def is_exhausted_def reached_def no_usage_def)
qed

text \<open>A parent that waits for its children goes on with the last of them: when \<^verbatim>\<open>transition_delegation\<close> has ended a
  delegation, its waiting parent is running again if no other delegation of the parent is open, and otherwise the
  parent is left as it was.\<close>

theorem last_delegation_unblocks:
  assumes "agent_inv (aw_db w)" and "transition_delegation env did target w = (Inr d, w')"
    and "delegation_terminal (dl_status d)"
    and "find (\<lambda>x. rn_id x = dl_parent d) (ad_runs (aw_db w)) = Some p" and "rn_state p = LOOP_WAITING_CHILD"
  shows "\<exists>p'. find (\<lambda>x. rn_id x = dl_parent d) (ad_runs (aw_db w')) = Some p' \<and>
     (if still_blocking did (filter (\<lambda>e. dl_parent e = dl_parent d) (ad_delegations (aw_db w)))
      then p' = p else rn_state p' = LOOP_RUNNING)"
  using yieldsD [OF transition_delegation_unblocks [OF assms(1)] assms(2)] assms(3-5) by (simp add: unblocked_def)

lemma ag_ended: "map_sum id (\<lambda>d. (dl_parent d, dl_status d)) (fst (transition_delegation ag_env ''d'' ''COMPLETED'' ag_world)) =
    Inr (''r'', DEL_COMPLETED)"
  by code_simp

lemma last_delegation_unblocks_witness:
  "\<exists>p. find (\<lambda>x. rn_id x = ''r'') (ad_runs (aw_db (snd (transition_delegation ag_env ''d'' ''COMPLETED'' ag_world)))) = Some p \<and>
     rn_state p = LOOP_RUNNING"
proof -
  obtain d w' where d: "transition_delegation ag_env ''d'' ''COMPLETED'' ag_world = (Inr d, w')"
    using ag_ended by (cases "transition_delegation ag_env ''d'' ''COMPLETED'' ag_world";
      cases "fst (transition_delegation ag_env ''d'' ''COMPLETED'' ag_world)") auto
  with ag_ended have e: "dl_parent d = ''r''" "dl_status d = DEL_COMPLETED" by simp_all
  have "\<not> still_blocking ''d'' (filter (\<lambda>e. dl_parent e = ''r'') (ad_delegations (aw_db ag_world)))"
    by (simp add: still_blocking_def ag_world_def)
  with last_delegation_unblocks [OF ag_world_inv d] d e show ?thesis
    by (simp add: delegation_terminal_def ag_world_def ag_run_def)
qed

text \<open>Scheduling a workflow runs it and gives every node exactly one step, in the order of the nodes: pending when
  no edge leads to the node, blocked otherwise, for the run that was named.\<close>

theorem schedule_creates_steps:
  assumes "agent_inv (aw_db w)" and "inj (ae_id env)" and "\<forall>m. ae_id env m \<notin> sr_id ` set (ad_steps (aw_db w))"
    and "schedule_workflow env wid rid expected w = (Inr r, w')"
  shows "wr_state r = WF_RUNNING \<and> find (\<lambda>x. wr_id x = wid) (ad_workflows (aw_db w')) = Some r \<and>
     (\<exists>new. ad_steps (aw_db w') = ad_steps (aw_db w) @ new \<and>
        map (\<lambda>s. (sr_node s, sr_state s, sr_workflow s, sr_run s)) new =
        map (\<lambda>(k, _). (k, if predecessors (workflow_def_of wid (wr_name r) (wr_nodes r) (wr_edges r)) k = {}
            then STEP_PENDING else STEP_BLOCKED, wid, Some rid)) (wr_nodes r))"
  using yieldsD [OF schedule_workflow_schedules [OF assms(1-3)] assms(4)] by (simp add: scheduled_def)

lemma ag_scheduled: "map_sum id wr_id (fst (schedule_workflow ag_env ''w'' ''c'' (Some 0) ag_world)) = Inr ''w''"
  by code_simp

lemma schedule_creates_steps_witness:
  "\<exists>r w'. schedule_workflow ag_env ''w'' ''c'' (Some 0) ag_world = (Inr r, w') \<and> wr_state r = WF_RUNNING"
proof -
  obtain r w' where r: "schedule_workflow ag_env ''w'' ''c'' (Some 0) ag_world = (Inr r, w')"
    using ag_scheduled by (cases "schedule_workflow ag_env ''w'' ''c'' (Some 0) ag_world";
      cases "fst (schedule_workflow ag_env ''w'' ''c'' (Some 0) ag_world)") auto
  have "inj (ae_id ag_env)" by (auto simp: ag_env_def inj_def dest: arg_cong [of _ _ length])
  with schedule_creates_steps [OF ag_world_inv _ _ r] r show ?thesis
    by (simp add: ag_world_def empty_agent_db_def)
qed

end
