(* ===== verification/Gateway_Policies.thy ===== *)
theory Gateway_Policies
  imports Json_Values
begin

text \<open>
  The pure policies of the model gateway (\<^verbatim>\<open>modules/model_gateway/domain\<close>): routing rules and their
  matcher (\<^verbatim>\<open>rules.py\<close>), cooldowns (\<^verbatim>\<open>cooldown.py\<close>), the circuit breaker (\<^verbatim>\<open>circuit.py\<close>), the failover
  decisions (\<^verbatim>\<open>errors.py\<close>, \<^verbatim>\<open>failover.py\<close>), the filter and the score of endpoints (\<^verbatim>\<open>selection.py\<close>), and
  the normalization of model identifiers (\<^verbatim>\<open>normalization.py\<close>). Floats are rationals except where the
  special values of \<open>pyfloat\<close> can occur.
\<close>

section \<open>Routing rules\<close>

record match_context =
  mc_scope_id :: string
  mc_scope_type :: string
  mc_task_labels :: "string list"
  mc_agent_type :: string
  mc_workflow_type :: string
  mc_capabilities :: "string list"
  mc_tokens :: int
  mc_tools :: bool
  mc_vision :: bool
  mc_cost_class :: string
  mc_local :: bool
  mc_private :: bool
  mc_preference :: "string option"

record routing_rule =
  ru_id :: string
  ru_version :: int
  ru_model :: string
  ru_description :: string
  ru_enabled :: bool
  ru_priority :: int
  ru_fallback :: "string option"
  ru_task_labels :: "string list"
  ru_agent_types :: "string list"
  ru_workflow_types :: "string list"
  ru_capabilities :: "string list"
  ru_min_tokens :: int
  ru_tools :: bool
  ru_vision :: bool
  ru_cost_classes :: "string list"
  ru_local :: bool
  ru_private :: bool
  ru_preference :: "string option"

definition rule_matches :: "('a) routing_rule_scheme \<Rightarrow> match_context \<Rightarrow> bool" where
  "rule_matches r c \<longleftrightarrow>
     ru_enabled r
   \<and> (ru_task_labels r = [] \<or> list_all (\<lambda>l. l \<in> set (mc_task_labels c)) (ru_task_labels r))
   \<and> (ru_agent_types r = [] \<or> mc_agent_type c \<in> set (ru_agent_types r))
   \<and> (ru_workflow_types r = [] \<or> mc_workflow_type c \<in> set (ru_workflow_types r))
   \<and> (ru_capabilities r = [] \<or> list_all (\<lambda>l. l \<in> set (mc_capabilities c)) (ru_capabilities r))
   \<and> \<not> (0 < ru_min_tokens r \<and> mc_tokens c < ru_min_tokens r)
   \<and> \<not> (ru_tools r \<and> \<not> mc_tools c)
   \<and> \<not> (ru_vision r \<and> \<not> mc_vision c)
   \<and> (ru_cost_classes r = [] \<or> mc_cost_class c \<in> set (ru_cost_classes r))
   \<and> \<not> (ru_local r \<and> \<not> mc_local c)
   \<and> \<not> (ru_private r \<and> \<not> mc_private c)
   \<and> (ru_preference r = None \<or> mc_preference c = ru_preference r)"

definition sorted_rules :: "routing_rule list \<Rightarrow> routing_rule list" where
  "sorted_rules rules = sort_key ru_priority (filter ru_enabled rules)"

fun scan_rules :: "routing_rule list \<Rightarrow> match_context \<Rightarrow> routing_rule option" where
  "scan_rules [] c = None"
| "scan_rules (r # rs) c = (if rule_matches r c then Some r else scan_rules rs c)"

definition find_first_match :: "routing_rule list \<Rightarrow> match_context \<Rightarrow> routing_rule option" where
  "find_first_match rules c = scan_rules (sorted_rules rules) c"

definition find_all_matches :: "routing_rule list \<Rightarrow> match_context \<Rightarrow> routing_rule list" where
  "find_all_matches rules c = filter (\<lambda>r. rule_matches r c) (sorted_rules rules)"

lemma scan_rules_filter: "scan_rules rs c = (case filter (\<lambda>r. rule_matches r c) rs of [] \<Rightarrow> None | r # _ \<Rightarrow> Some r)"
  by (induction rs) auto

lemma matching_enabled: "rule_matches r c \<Longrightarrow> ru_enabled r"
  by (simp add: rule_matches_def)

lemma find_all_eq: "find_all_matches rules c = sort_key ru_priority (filter (\<lambda>r. rule_matches r c) rules)"
proof -
  have "filter (\<lambda>r. rule_matches r c) (filter ru_enabled rules) = filter (\<lambda>r. rule_matches r c) rules"
    by (induction rules) (auto dest: matching_enabled)
  then show ?thesis by (simp add: find_all_matches_def sorted_rules_def filter_sort)
qed

lemma first_match_hd: "find_first_match rules c = (case find_all_matches rules c of [] \<Rightarrow> None | r # _ \<Rightarrow> Some r)"
  by (simp add: find_first_match_def find_all_matches_def scan_rules_filter)

lemma filter_find: "filter P xs = y # ys \<Longrightarrow> find P xs = Some y"
  by (induction xs) (auto split: if_splits)

text \<open>A stable sort keeps the order of elements with the same key.\<close>

lemma sort_key_hd_first:
  assumes "sort_key k xs = y # ys"
  shows "find (\<lambda>x. k x = k y) xs = Some y"
proof -
  have "filter (\<lambda>x. k x = k y) (sort_key k xs) = filter (\<lambda>x. k x = k y) xs" by (rule sort_key_stable)
  with assms have "filter (\<lambda>x. k x = k y) xs = y # filter (\<lambda>x. k x = k y) ys" by simp
  then show ?thesis by (rule filter_find)
qed

section \<open>Cooldowns\<close>

definition COOLDOWN_CEILING :: seconds where
  "COOLDOWN_CEILING = 300"

text \<open>The text of a decimal number: digits, single underscores between digits.\<close>

fun plain_digits :: "string \<Rightarrow> bool" where
  "plain_digits [] \<longleftrightarrow> False"
| "plain_digits [c] \<longleftrightarrow> is_digit c"
| "plain_digits (c # d # cs) \<longleftrightarrow> is_digit c \<and> plain_digits (if d = CHR ''_'' then cs else d # cs)"

definition digits_value :: "string \<Rightarrow> nat" where
  "digits_value s = read_nat (filter is_digit s)"

definition parse_exponent :: "string \<Rightarrow> int option" where
  "parse_exponent s =
     (case s of [] \<Rightarrow> None
      | c # cs \<Rightarrow> (let (sign, body) = (if c = CHR ''-'' then (-1, cs) else if c = CHR ''+'' then (1, cs) else (1, c # cs))
         in if plain_digits body then Some (sign * int (digits_value body)) else None))"

definition scale10 :: "rat \<Rightarrow> int \<Rightarrow> rat" where
  "scale10 x e = (if 0 \<le> e then x * 10 ^ nat e else x / 10 ^ nat (- e))"

definition parse_decimal :: "string \<Rightarrow> rat option" where
  "parse_decimal low =
     (let mant = takeWhile (\<lambda>c. c \<noteq> CHR ''e'') low; ex = dropWhile (\<lambda>c. c \<noteq> CHR ''e'') low;
          ip = takeWhile (\<lambda>c. c \<noteq> CHR ''.'') mant; fp = drop 1 (dropWhile (\<lambda>c. c \<noteq> CHR ''.'') mant)
      in if (ip = [] \<or> plain_digits ip) \<and> (fp = [] \<or> plain_digits fp) \<and> (ip \<noteq> [] \<or> fp \<noteq> [])
         then (case (if ex = [] then Some 0 else parse_exponent (tl ex)) of None \<Rightarrow> None
               | Some e \<Rightarrow> Some (scale10 (of_nat (digits_value (ip @ fp))) (e - int (length (filter is_digit fp)))))
         else None)"

text \<open>\<^verbatim>\<open>float(text)\<close>: None when it raises \<^verbatim>\<open>ValueError\<close>.\<close>

definition parse_float :: "string \<Rightarrow> pyfloat option" where
  "parse_float t =
     (let s = py_strip t;
          neg = (s \<noteq> [] \<and> hd s = CHR ''-'');
          low = py_lower (if s \<noteq> [] \<and> hd s \<in> {CHR ''-'', CHR ''+''} then tl s else s)
      in if low \<in> {''inf'', ''infinity''} then Some (if neg then NegInf else PosInf)
         else if low = ''nan'' then Some NaN
         else map_option (\<lambda>q. Finite (if neg then - q else q)) (parse_decimal low))"

fun retry_header :: "(string \<times> string) list \<Rightarrow> string option" where
  "retry_header [] = None"
| "retry_header ((k, v) # hs) =
     (if py_lower k = ''retry-after'' \<or> py_contains ''rate-limit-reset'' (py_lower k) then Some v else retry_header hs)"

definition retry_after_seconds_from_headers :: "(string \<times> string) list option \<Rightarrow> pyfloat" where
  "retry_after_seconds_from_headers headers =
     (case headers of None \<Rightarrow> Finite 1
      | Some hs \<Rightarrow> (case retry_header hs of None \<Rightarrow> Finite 1
         | Some raw \<Rightarrow> (case parse_float raw of None \<Rightarrow> Finite 1 | Some x \<Rightarrow> x)))"

text \<open>\<^verbatim>\<open>min(x, ceiling)\<close> keeps its first argument unless the second one is smaller.\<close>

fun ceiling_min :: "pyfloat \<Rightarrow> pyfloat" where
  "ceiling_min (Finite q) = Finite (min q COOLDOWN_CEILING)"
| "ceiling_min PosInf = Finite COOLDOWN_CEILING"
| "ceiling_min NegInf = NegInf"
| "ceiling_min NaN = NaN"

definition rate_limit_cooldown_seconds :: "(string \<times> string) list option \<Rightarrow> pyfloat" where
  "rate_limit_cooldown_seconds headers = ceiling_min (retry_after_seconds_from_headers headers)"

definition calculate_backoff_cooldown_seconds :: "nat \<Rightarrow> seconds \<Rightarrow> exn + seconds" where
  "calculate_backoff_cooldown_seconds i base =
     (if 1024 \<le> i then Inl OverflowError else Inr (min (base * 2 ^ i) COOLDOWN_CEILING))"

section \<open>Circuit breaker\<close>

record endpoint_state =
  es_streak :: int
  es_successes :: int
  es_failures :: int
  es_cooldown :: "time option"
  es_open :: "time option"
  es_latency :: rat
  es_last_success :: "time option"
  es_last_failure :: "time option"
  es_error :: "string option"

definition fresh_state :: endpoint_state where
  "fresh_state = \<lparr>es_streak = 0, es_successes = 0, es_failures = 0, es_cooldown = None, es_open = None, es_latency = 0,
     es_last_success = None, es_last_failure = None, es_error = None\<rparr>"

record circuit_policy =
  cb_threshold :: int
  cb_timeout :: seconds

definition make_circuit_policy :: "int \<Rightarrow> seconds \<Rightarrow> exn + circuit_policy" where
  "make_circuit_policy n t =
     (if n < 1 then Inl (ValueError ''failure_threshold must be at least 1'')
      else if t \<le> 0 then Inl (ValueError ''half_open_timeout_s must be positive'')
      else Inr \<lparr>cb_threshold = n, cb_timeout = t\<rparr>)"

definition default_circuit :: circuit_policy where
  "default_circuit = \<lparr>cb_threshold = 3, cb_timeout = 30\<rparr>"

definition blocks :: "time option \<Rightarrow> time \<Rightarrow> bool" where
  "blocks deadline now \<longleftrightarrow> (case deadline of None \<Rightarrow> False | Some t \<Rightarrow> now < t)"

definition circuit_state :: "endpoint_state \<Rightarrow> time \<Rightarrow> string" where
  "circuit_state s now = (if blocks (es_open s) now then ''open'' else ''closed'')"

definition is_available :: "endpoint_state \<Rightarrow> time \<Rightarrow> bool" where
  "is_available s now \<longleftrightarrow> \<not> blocks (es_cooldown s) now \<and> \<not> blocks (es_open s) now"

definition later :: "time option \<Rightarrow> time option \<Rightarrow> time option" where
  "later current candidate =
     (case candidate of None \<Rightarrow> current
      | Some c \<Rightarrow> (case current of None \<Rightarrow> Some c | Some d \<Rightarrow> Some (max d c)))"

definition after_success :: "endpoint_state \<Rightarrow> time \<Rightarrow> rat \<Rightarrow> endpoint_state" where
  "after_success s now latency = s\<lparr>es_streak := 0, es_successes := es_successes s + 1, es_cooldown := None, es_open := None,
     es_latency := latency, es_last_success := Some now\<rparr>"

definition after_failure :: "circuit_policy \<Rightarrow> endpoint_state \<Rightarrow> time \<Rightarrow> string \<Rightarrow> time option \<Rightarrow> endpoint_state" where
  "after_failure p s now err cooldown =
     s\<lparr>es_streak := es_streak s + 1, es_failures := es_failures s + 1, es_last_failure := Some now, es_error := Some err,
       es_cooldown := later (es_cooldown s) cooldown,
       es_open := (if cb_threshold p \<le> es_streak s + 1 then Some (now + timedelta_us (cb_timeout p)) else es_open s)\<rparr>"

definition with_cooldown :: "endpoint_state \<Rightarrow> time \<Rightarrow> endpoint_state" where
  "with_cooldown s t = s\<lparr>es_cooldown := later (es_cooldown s) (Some t)\<rparr>"

text \<open>What an endpoint reported, in order.\<close>

datatype endpoint_outcome = Succeeded time rat | Failed_At time string "time option"

fun observe :: "circuit_policy \<Rightarrow> endpoint_outcome \<Rightarrow> endpoint_state \<Rightarrow> endpoint_state" where
  "observe p (Succeeded now latency) s = after_success s now latency"
| "observe p (Failed_At now err cooldown) s = after_failure p s now err cooldown"

definition observed :: "circuit_policy \<Rightarrow> endpoint_outcome list \<Rightarrow> endpoint_state \<Rightarrow> endpoint_state" where
  "observed p os s = fold (observe p) os s"

fun is_failure :: "endpoint_outcome \<Rightarrow> bool" where
  "is_failure (Failed_At _ _ _) \<longleftrightarrow> True"
| "is_failure (Succeeded _ _) \<longleftrightarrow> False"

lemma later_keeps: "blocks t now \<Longrightarrow> blocks (later t c) now" "blocks c now \<Longrightarrow> blocks (later t c) now"
  by (auto simp: blocks_def later_def split: option.splits)

lemma observed_streak:
  "0 \<le> es_streak s \<Longrightarrow> list_all is_failure fs \<Longrightarrow> es_streak (observed p fs s) = es_streak s + int (length fs)"
proof (induction fs arbitrary: s)
  case (Cons f fs)
  then show ?case by (cases f) (simp_all add: observed_def after_failure_def)
qed (simp add: observed_def)

lemma observed_nonneg: "0 \<le> es_streak s \<Longrightarrow> 0 \<le> es_streak (observed p os s)"
proof (induction os arbitrary: s)
  case (Cons x xs)
  then show ?case by (cases x) (simp_all add: observed_def after_failure_def after_success_def)
qed (simp add: observed_def)

lemma observed_append: "observed p (xs @ ys) s = observed p ys (observed p xs s)"
  by (simp add: observed_def)

section \<open>Failures and failover\<close>

datatype failure_class =
    ProviderFailure | AuthenticationFailure | PermissionFailure | RateLimitFailure | QuotaExhaustedFailure
  | ModelNotFoundFailure | InvalidRequestFailure | ContextOverflowFailure | ContentPolicyFailure
  | ProviderUnavailableFailure | NetworkFailure | TimeoutFailure | ProtocolMismatchFailure
  | MalformedResponseFailure | CancellationFailure | SameModelEndpointExhausted

fun failure_kind :: "failure_class \<Rightarrow> string" where
  "failure_kind ProviderFailure = ''provider_failure''"
| "failure_kind AuthenticationFailure = ''authentication''"
| "failure_kind PermissionFailure = ''permission''"
| "failure_kind RateLimitFailure = ''rate_limit''"
| "failure_kind QuotaExhaustedFailure = ''quota_exhausted''"
| "failure_kind ModelNotFoundFailure = ''model_not_found''"
| "failure_kind InvalidRequestFailure = ''invalid_request''"
| "failure_kind ContextOverflowFailure = ''context_overflow''"
| "failure_kind ContentPolicyFailure = ''content_policy''"
| "failure_kind ProviderUnavailableFailure = ''provider_unavailable''"
| "failure_kind NetworkFailure = ''network''"
| "failure_kind TimeoutFailure = ''timeout''"
| "failure_kind ProtocolMismatchFailure = ''protocol_mismatch''"
| "failure_kind MalformedResponseFailure = ''malformed_response''"
| "failure_kind CancellationFailure = ''cancellation''"
| "failure_kind SameModelEndpointExhausted = ''same_model_endpoint_exhausted''"

fun default_status :: "failure_class \<Rightarrow> int option" where
  "default_status AuthenticationFailure = Some 401"
| "default_status PermissionFailure = Some 403"
| "default_status RateLimitFailure = Some 429"
| "default_status ModelNotFoundFailure = Some 404"
| "default_status InvalidRequestFailure = Some 400"
| "default_status ContextOverflowFailure = Some 400"
| "default_status ContentPolicyFailure = Some 400"
| "default_status ProviderUnavailableFailure = Some 503"
| "default_status TimeoutFailure = Some 408"
| "default_status _ = None"

fun default_message :: "failure_class \<Rightarrow> string" where
  "default_message ProviderFailure = ''Provider execution failed''"
| "default_message AuthenticationFailure = ''Invalid authentication credentials or API key''"
| "default_message PermissionFailure = ''Permission denied for requested model or endpoint''"
| "default_message RateLimitFailure = ''Provider rate limit exceeded (429)''"
| "default_message QuotaExhaustedFailure = ''Provider quota or credit balance has been exhausted''"
| "default_message ModelNotFoundFailure = ''Target model not found on provider endpoint''"
| "default_message InvalidRequestFailure = ''Invalid request payload parameters''"
| "default_message ContextOverflowFailure = ''Context window length exceeded''"
| "default_message ContentPolicyFailure = ''Request or completion blocked by content policy filter''"
| "default_message ProviderUnavailableFailure = ''Provider service unavailable or server error (5xx)''"
| "default_message NetworkFailure = ''Network connection failure to provider endpoint''"
| "default_message TimeoutFailure = ''Request execution timed out''"
| "default_message ProtocolMismatchFailure = ''Protocol mismatch detected during transport execution''"
| "default_message MalformedResponseFailure = ''Malformed or unparseable response payload from provider''"
| "default_message CancellationFailure = ''Model execution was cancelled''"
| "default_message SameModelEndpointExhausted = ''All exact-equivalent endpoints for the locked canonical model are exhausted''"

text \<open>
  A raised failure: its class, its message, its status and the numeric \<^verbatim>\<open>retry_after\<close> of its context.
\<close>

record provider_failure =
  pf_class :: failure_class
  pf_message :: string
  pf_status :: "int option"
  pf_retry_after :: "pyfloat option"

definition make_failure :: "failure_class \<Rightarrow> string \<Rightarrow> int option \<Rightarrow> pyfloat option \<Rightarrow> provider_failure" where
  "make_failure c msg status retry =
     \<lparr>pf_class = c, pf_message = (if py_strip msg = [] then default_message c else msg), pf_status = (case status of None \<Rightarrow> default_status c | Some n \<Rightarrow> Some n),
      pf_retry_after = retry\<rparr>"

text \<open>The policy for an attempt, without its explanatory sentence.\<close>

datatype failover_decision = FAILOVER | RETRY | STOP

record attempt_policy =
  at_decision :: failover_decision
  at_credential_invalid :: bool
  at_binding_stale :: bool

definition decide :: "failover_decision \<Rightarrow> attempt_policy" where
  "decide d = \<lparr>at_decision = d, at_credential_invalid = False, at_binding_stale = False\<rparr>"

fun classify_failure :: "failure_class \<Rightarrow> nat \<Rightarrow> nat \<Rightarrow> attempt_policy" where
  "classify_failure RateLimitFailure i n = decide FAILOVER"
| "classify_failure QuotaExhaustedFailure i n = decide FAILOVER"
| "classify_failure ProviderUnavailableFailure i n = decide (if i < n then RETRY else FAILOVER)"
| "classify_failure NetworkFailure i n = decide (if i < n then RETRY else FAILOVER)"
| "classify_failure TimeoutFailure i n = decide (if i < n then RETRY else FAILOVER)"
| "classify_failure AuthenticationFailure i n = (decide FAILOVER)\<lparr>at_credential_invalid := True\<rparr>"
| "classify_failure PermissionFailure i n = (decide FAILOVER)\<lparr>at_credential_invalid := True\<rparr>"
| "classify_failure ModelNotFoundFailure i n = (decide FAILOVER)\<lparr>at_binding_stale := True\<rparr>"
| "classify_failure ContextOverflowFailure i n = decide STOP"
| "classify_failure InvalidRequestFailure i n = decide STOP"
| "classify_failure CancellationFailure i n = decide STOP"
| "classify_failure _ i n = decide STOP"

section \<open>Selection of endpoints\<close>

record endpoint_candidate =
  ec_endpoint :: string
  ec_binding :: string
  ec_provider :: string
  ec_model :: string
  ec_base_url :: string
  ec_protocol :: string
  ec_credential :: "string option"
  ec_score :: rat
  ec_components :: "(string \<times> rat) list"

definition score_candidate :: "bool option \<Rightarrow> rat \<times> (string \<times> rat) list" where
  "score_candidate quota =
     (let components = [(''health'', 1), (''quota'', if quota = None \<or> quota = Some True then 1 else 0), (''priority'', 1),
        (''weight'', 1), (''latency'', 0), (''success_rate'', 1), (''cost'', 0), (''recent_429'', 0), (''circuit'', 1)]
      in (sum_list (map snd components), components))"

definition binding_is_selectable :: "bool \<Rightarrow> string \<Rightarrow> bool \<Rightarrow> string \<Rightarrow> bool \<Rightarrow> bool" where
  "binding_is_selectable enabled level has_credential protocol available =
     (if \<not> enabled then False
      else if level \<noteq> ''exact_revision'' then False
      else if \<not> has_credential \<and> protocol \<noteq> ''ollama'' then False
      else available)"

end
