(* ===== verification/Gateway_Normalization.thy ===== *)
theory Gateway_Normalization
  imports WA_Prelude
begin

text \<open>
  Model identifiers and their equivalence (\<^verbatim>\<open>modules/model_gateway/domain/normalization.py\<close>). The regular
  expressions of the source have fixed shapes; each is a function that tries the pattern at the beginning of
  a text, and \<open>re_search\<close> looks for the leftmost place where it succeeds.
\<close>

section \<open>Patterns\<close>

fun re_search :: "(string \<Rightarrow> string option) \<Rightarrow> string \<Rightarrow> string option" where
  "re_search m [] = m []"
| "re_search m (c # cs) = (case m (c # cs) of None \<Rightarrow> re_search m cs | Some g \<Rightarrow> Some g)"

definition fixed_shape :: "(char \<Rightarrow> bool) list \<Rightarrow> string \<Rightarrow> string option" where
  "fixed_shape ps s =
     (if length ps \<le> length s \<and> list_all2 (\<lambda>p c. p c) ps (take (length ps) s) then Some (take (length ps) s) else None)"

definition dash :: "char \<Rightarrow> bool" where
  "dash c \<longleftrightarrow> c = CHR ''-''"

definition version_shape :: "string \<Rightarrow> string option" where
  "version_shape s =
     (case s of [] \<Rightarrow> None
      | c # r \<Rightarrow>
          let a = takeWhile is_digit r; r2 = dropWhile is_digit r;
              b = takeWhile is_digit (tl r2); r3 = dropWhile is_digit (tl r2);
              d = takeWhile is_digit (tl r3)
          in if c \<noteq> CHR ''v'' \<or> a = [] \<or> r2 = [] \<or> hd r2 \<noteq> CHR ''.'' \<or> b = [] then None
             else Some (a @ [CHR ''.''] @ b @ (if r3 \<noteq> [] \<and> hd r3 = CHR ''.'' \<and> d \<noteq> [] then CHR ''.'' # d else [])))"

fun one_of :: "string list \<Rightarrow> string \<Rightarrow> string option" where
  "one_of [] s = None"
| "one_of (w # ws) s = (if take (length w) s = w then Some w else one_of ws s)"

definition tag_shape :: "string \<Rightarrow> string option" where
  "tag_shape s = (case s of [] \<Rightarrow> None
     | c # r \<Rightarrow> if c = CHR '':'' then one_of [''latest'', ''turbo'', ''mini'', ''preview'', ''exp''] r else None)"

definition revision_shapes :: "(string \<Rightarrow> string option) list" where
  "revision_shapes =
     [fixed_shape [is_digit, is_digit, is_digit, is_digit, dash, is_digit, is_digit, dash, is_digit, is_digit],
      fixed_shape (replicate 8 is_digit), version_shape, tag_shape]"

definition char_in :: "string \<Rightarrow> char \<Rightarrow> bool" where
  "char_in cs c \<longleftrightarrow> c \<in> set cs"

definition number_format :: "string \<Rightarrow> string option" where
  "number_format s = (if one_of [''fp16'', ''fp32'', ''bf16'', ''int8'', ''int4''] (py_lower (take 4 s)) \<noteq> None
     then Some (take 4 s) else None)"

definition quant_shapes :: "(string \<Rightarrow> string option) list" where
  "quant_shapes =
     [fixed_shape [char_in ''qQ'', is_digit, char_in ''_'', char_in ''kK'', char_in ''_'', char_in ''mMsSlL''],
      fixed_shape [char_in ''qQ'', is_digit, char_in ''_'', is_digit], number_format]"

definition size_shape :: "string \<Rightarrow> string option" where
  "size_shape s = (let a = takeWhile is_digit s; r = dropWhile is_digit s
     in if a \<noteq> [] \<and> r \<noteq> [] \<and> hd r \<in> {CHR ''b'', CHR ''B''} then Some (a @ [hd r]) else None)"

fun first_shape :: "(string \<Rightarrow> string option) list \<Rightarrow> string \<Rightarrow> string option" where
  "first_shape [] s = None"
| "first_shape (p # ps) s = (case re_search p s of None \<Rightarrow> first_shape ps s | Some g \<Rightarrow> Some g)"

section \<open>Normalization\<close>

record normalized_model =
  nm_raw :: string
  nm_vendor :: string
  nm_family :: string
  nm_revision :: "string option"
  nm_quantization :: "string option"
  nm_size :: "string option"
  nm_canonical :: string
  nm_fingerprint :: string

definition vendor_prefixes :: "string list" where
  "vendor_prefixes = [''openai'', ''anthropic'', ''google'', ''meta-llama'', ''mistralai'', ''openrouter'', ''ollama'', ''nvidia'']"

text \<open>\<^verbatim>\<open>text.replace(fragment, "")\<close> for a fragment that is not empty.\<close>

function py_remove :: "string \<Rightarrow> string \<Rightarrow> string" where
  "py_remove w s =
     (if s = [] then [] else if w \<noteq> [] \<and> take (length w) s = w then py_remove w (drop (length w) s) else hd s # py_remove w (tl s))"
  by pat_completeness auto

termination py_remove
  by (relation "measure (\<lambda>(w, s). length s)") auto

text \<open>\<^verbatim>\<open>re.sub("[:\\-_]+", "-", text)\<close>\<close>

definition separator :: "char \<Rightarrow> bool" where
  "separator c \<longleftrightarrow> c \<in> {CHR '':'', CHR ''-'', CHR ''_''}"

fun squeeze :: "bool \<Rightarrow> string \<Rightarrow> string" where
  "squeeze inside [] = []"
| "squeeze inside (c # cs) =
     (if separator c then (if inside then squeeze True cs else CHR ''-'' # squeeze True cs) else c # squeeze False cs)"

definition strip_dashes :: "string \<Rightarrow> string" where
  "strip_dashes s = rev (dropWhile dash (rev (dropWhile dash s)))"

definition drop_fragment :: "string option \<Rightarrow> string \<Rightarrow> string" where
  "drop_fragment w s = (case w of None \<Rightarrow> s | Some t \<Rightarrow> if t \<noteq> [] \<and> py_contains t s then py_remove t s else s)"

definition suffix_part :: "string option \<Rightarrow> string" where
  "suffix_part w = (case w of None \<Rightarrow> [] | Some t \<Rightarrow> if t = [] then [] else CHR ''-'' # t)"

definition text_or :: "string option \<Rightarrow> string \<Rightarrow> string" where
  "text_or w d = (case w of None \<Rightarrow> d | Some t \<Rightarrow> if t = [] then d else t)"

definition normalize_model_id :: "string \<Rightarrow> string \<Rightarrow> normalized_model" where
  "normalize_model_id raw default_vendor =
     (let effective = (if raw = [] then ''unknown-model'' else raw);
          stripped = py_strip effective;
          prefix = takeWhile (\<lambda>c. c \<noteq> CHR ''/'') stripped;
          vendored = (CHR ''/'' \<in> set stripped \<and> py_lower prefix \<in> set vendor_prefixes);
          vendor = (if vendored then py_lower prefix else default_vendor);
          clean = (if vendored then drop (Suc (length prefix)) stripped else stripped);
          revision = first_shape revision_shapes clean;
          quantization = map_option py_lower (first_shape quant_shapes clean);
          size = map_option py_lower (re_search size_shape clean);
          reduced = strip_dashes (squeeze False
            (drop_fragment size (drop_fragment quantization (drop_fragment revision (py_lower clean)))));
          family = (if reduced = [] then py_lower clean else reduced)
      in \<lparr>nm_raw = effective, nm_vendor = vendor, nm_family = family, nm_revision = revision, nm_quantization = quantization,
          nm_size = size, nm_canonical = family @ suffix_part size @ suffix_part revision,
          nm_fingerprint = vendor @ '':'' @ family @ '':'' @ text_or size ''base'' @ '':'' @ text_or revision ''floating'' @ '':''
            @ text_or quantization ''standard''\<rparr>)"

section \<open>Equivalence\<close>

text \<open>The assessment without its explanatory sentence.\<close>

datatype equivalence_level = EXACT_REVISION | EXACT_FAMILY_FLOATING_REVISION | COMPATIBLE_ALIAS | APPROXIMATE | UNKNOWN_LEVEL

record equivalence_assessment =
  ea_level :: equivalence_level
  ea_confidence :: rat
  ea_eligible :: bool

definition stripped_id :: "string \<Rightarrow> string" where
  "stripped_id raw = py_remove ''openrouter/'' (py_remove ''openai/'' raw)"

definition classify_equivalence :: "normalized_model \<Rightarrow> normalized_model \<Rightarrow> equivalence_assessment" where
  "classify_equivalence a b =
     (if nm_fingerprint a = nm_fingerprint b
      then \<lparr>ea_level = EXACT_REVISION, ea_confidence = 1, ea_eligible = True\<rparr>
      else if nm_family a = nm_family b \<and> nm_revision a = nm_revision b \<and> nm_quantization a \<noteq> nm_quantization b
      then \<lparr>ea_level = EXACT_FAMILY_FLOATING_REVISION, ea_confidence = 85 / 100, ea_eligible = False\<rparr>
      else if nm_family a = nm_family b \<and> nm_revision a \<noteq> nm_revision b
      then \<lparr>ea_level = EXACT_FAMILY_FLOATING_REVISION, ea_confidence = 80 / 100, ea_eligible = False\<rparr>
      else if stripped_id (nm_raw a) = stripped_id (nm_raw b)
      then \<lparr>ea_level = EXACT_REVISION, ea_confidence = 1, ea_eligible = True\<rparr>
      else \<lparr>ea_level = UNKNOWN_LEVEL, ea_confidence = 0, ea_eligible = False\<rparr>)"

end
