(* ===== verification/Scopes.thy ===== *)
theory Scopes
  imports Outbox
begin

text \<open>
  Code that opens transaction scopes, for any tables \<open>'d\<close> and any state \<open>'x\<close> that lives outside of the transactions (secrets,
  registries in memory). A scope works on a copy of the tables that a commit makes durable; the state outside is
  changed in place. With it what all such code shares: checks, swallowed exceptions, and \<open>keeps\<close>, the rules by which an
  invariant is kept by composed code.
\<close>

section \<open>Actions\<close>

definition act_check_that :: "bool \<Rightarrow> exn \<Rightarrow> ('s, unit) act" where
  "act_check_that b e = (if b then act_return () else act_raise e)"

definition act_some :: "'a option \<Rightarrow> exn \<Rightarrow> ('s, 'a) act" where
  "act_some x e = (case x of None \<Rightarrow> act_raise e | Some y \<Rightarrow> act_return y)"

definition act_lift :: "exn + 'a \<Rightarrow> ('s, 'a) act" where
  "act_lift r = (case r of Inl e \<Rightarrow> act_raise e | Inr x \<Rightarrow> act_return x)"

text \<open>\<^verbatim>\<open>except Exception\<close>: whatever is raised is dropped.\<close>

definition act_swallow :: "('s, unit) act \<Rightarrow> ('s, unit) act" where
  "act_swallow m s = (case m s of (_, s') \<Rightarrow> (Inr (), s'))"

lemma bind_assoc: "act_bind (act_bind m f) g = act_bind m (\<lambda>x. act_bind (f x) g)"
  by (rule ext) (simp add: act_bind_def split: prod.splits sum.splits)

lemma bind_return: "act_bind (act_return x) f = f x"
  by (rule ext) (simp add: act_bind_def act_return_def)

lemma bind_raise: "act_bind (act_raise e) f = act_raise e"
  by (rule ext) (simp add: act_bind_def act_raise_def)

lemma bind_if: "act_bind (if b then m else n) f = (if b then act_bind m f else act_bind n f)"
  by simp

lemma bind_option: "act_bind (case v of None \<Rightarrow> m | Some x \<Rightarrow> h x) f = (case v of None \<Rightarrow> act_bind m f | Some x \<Rightarrow> act_bind (h x) f)"
  by (cases v) simp_all

lemma bind_let: "act_bind (Let v h) f = Let v (\<lambda>x. act_bind (h x) f)"
  by simp

lemmas bind_laws = bind_assoc bind_return bind_raise bind_if bind_option

lemma bind_Inr: "act_bind m f s = (Inr y, s') \<longleftrightarrow> (\<exists>x s1. m s = (Inr x, s1) \<and> f x s1 = (Inr y, s'))"
  by (auto simp: act_bind_def split: prod.splits sum.splits)

lemma triple_pure: "(\<And>s. P s \<Longrightarrow> Q (snd (m s))) \<Longrightarrow> act_triple P m (\<lambda>_. Q) Q"
  unfolding act_triple_def by (auto split: prod.splits sum.splits) (metis snd_conv)+

lemma triple_if:
  "(b \<Longrightarrow> act_triple P m Q E) \<Longrightarrow> (\<not> b \<Longrightarrow> act_triple P n Q E) \<Longrightarrow> act_triple P (if b then m else n) Q E"
  by simp

lemma triple_sum:
  "(\<And>x. v = Inl x \<Longrightarrow> act_triple P (f x) Q E) \<Longrightarrow> (\<And>x. v = Inr x \<Longrightarrow> act_triple P (g x) Q E)
     \<Longrightarrow> act_triple P (case v of Inl x \<Rightarrow> f x | Inr x \<Rightarrow> g x) Q E"
  by (cases v) simp_all

lemma triple_known: "(c \<Longrightarrow> act_triple P m Q E) \<Longrightarrow> act_triple (\<lambda>s. P s \<and> c) m Q E"
  by (auto simp: act_triple_def)

section \<open>Keeping the invariant\<close>

definition keeps :: "('s \<Rightarrow> bool) \<Rightarrow> ('s, 'a) act \<Rightarrow> bool" where
  "keeps I m \<longleftrightarrow> act_triple I m (\<lambda>_. I) I"

named_theorems kp \<open>rules for what keeps an invariant\<close>

lemma keeps_return [kp]: "keeps I (act_return x)"
  by (simp add: keeps_def act_triple_return)

lemma keeps_raise [kp]: "keeps I (act_raise e)"
  by (simp add: keeps_def act_triple_raise)

lemma keeps_bind [kp]: "keeps I m \<Longrightarrow> (\<And>x. keeps I (f x)) \<Longrightarrow> keeps I (act_bind m f)"
  unfolding keeps_def by (rule act_triple_bind)

lemma keeps_if [kp]: "(b \<Longrightarrow> keeps I m) \<Longrightarrow> (\<not> b \<Longrightarrow> keeps I n) \<Longrightarrow> keeps I (if b then m else n)"
  by simp

lemma keeps_option [kp]: "keeps I m \<Longrightarrow> (\<And>x. keeps I (f x)) \<Longrightarrow> keeps I (case v of None \<Rightarrow> m | Some x \<Rightarrow> f x)"
  by (cases v) simp_all

lemma keeps_sum [kp]: "(\<And>x. keeps I (f x)) \<Longrightarrow> (\<And>x. keeps I (g x)) \<Longrightarrow> keeps I (case v of Inl x \<Rightarrow> f x | Inr x \<Rightarrow> g x)"
  by (cases v) simp_all

lemma keeps_prod [kp]: "(\<And>x y. keeps I (f x y)) \<Longrightarrow> keeps I (case v of (x, y) \<Rightarrow> f x y)"
  by (cases v) simp

lemma keeps_let [kp]: "(\<And>x. keeps I (f x)) \<Longrightarrow> keeps I (Let v f)"
  by simp

lemma keeps_check [kp]: "keeps I (act_check_that b e)"
  by (simp add: act_check_that_def keeps_return keeps_raise)

lemma keeps_some [kp]: "keeps I (act_some x e)"
  by (cases x) (simp_all add: act_some_def keeps_return keeps_raise)

lemma keeps_lift [kp]: "keeps I (act_lift r)"
  by (cases r) (simp_all add: act_lift_def keeps_return keeps_raise)

lemma keeps_swallow [kp]: "keeps I m \<Longrightarrow> keeps I (act_swallow m)"
  unfolding keeps_def act_triple_def act_swallow_def by (fastforce split: prod.splits sum.splits)

lemma keeps_pure: "(\<And>s. I s \<Longrightarrow> I (snd (m s))) \<Longrightarrow> keeps I m"
  unfolding keeps_def act_triple_def by (auto split: prod.splits sum.splits) (metis snd_conv)+

lemma keeps_state: "keeps I m \<Longrightarrow> I s \<Longrightarrow> I (snd (m s))"
  unfolding keeps_def act_triple_def by (cases "m s"; cases "fst (m s)") fastforce+

text \<open>A result that is known when the next step starts.\<close>

lemma keeps_result:
  assumes "keeps I m" and "\<And>s x. fst (m s) = Inr x \<Longrightarrow> keeps I (f x)"
  shows "keeps I (act_bind m f)"
proof (rule keeps_pure)
  fix s assume s: "I s"
  show "I (snd (act_bind m f s))"
  proof (cases "fst (m s)")
    case (Inl e)
    with keeps_state [OF assms(1) s] show ?thesis by (cases "m s") (simp add: act_bind_def)
  next
    case (Inr x)
    with keeps_state [OF assms(2) [OF Inr] keeps_state [OF assms(1) s]] show ?thesis by (cases "m s") (simp add: act_bind_def)
  qed
qed

section \<open>Scopes\<close>

text \<open>The environment draws clock readings and \<^verbatim>\<open>str(uuid4())\<close>; the world and a scope count how much was drawn.\<close>

record sys_env =
  en_now :: "nat \<Rightarrow> time"
  en_uuid :: "nat \<Rightarrow> string"

record ('d, 'x) world =
  wd_db :: 'd
  wd_side :: 'x
  wd_tick :: nat

record ('d, 'x) tx =
  tx_db :: 'd
  tx_stored :: 'd
  tx_side :: 'x
  tx_tick :: nat

definition tx_start :: "('d, 'x) world \<Rightarrow> ('d, 'x) tx" where
  "tx_start w = \<lparr>tx_db = wd_db w, tx_stored = wd_db w, tx_side = wd_side w, tx_tick = wd_tick w\<rparr>"

definition tx_end :: "('d, 'x) tx \<Rightarrow> ('d, 'x) world" where
  "tx_end s = \<lparr>wd_db = tx_stored s, wd_side = tx_side s, wd_tick = tx_tick s\<rparr>"

definition in_tx :: "(('d, 'x) tx, 'a) act \<Rightarrow> (('d, 'x) world, 'a) act" where
  "in_tx body w = (case body (tx_start w) of (out, s) \<Rightarrow> (out, tx_end s))"

definition tx_commit :: "(('d, 'x) tx, unit) act" where
  "tx_commit s = (Inr (), s\<lparr>tx_stored := tx_db s\<rparr>)"

definition tx_now :: "sys_env \<Rightarrow> (('d, 'x) tx, time) act" where
  "tx_now env s = (Inr (en_now env (tx_tick s)), s\<lparr>tx_tick := Suc (tx_tick s)\<rparr>)"

definition tx_uuid :: "sys_env \<Rightarrow> (('d, 'x) tx, string) act" where
  "tx_uuid env s = (Inr (en_uuid env (tx_tick s)), s\<lparr>tx_tick := Suc (tx_tick s)\<rparr>)"

definition wd_now :: "sys_env \<Rightarrow> (('d, 'x) world, time) act" where
  "wd_now env w = (Inr (en_now env (wd_tick w)), w\<lparr>wd_tick := Suc (wd_tick w)\<rparr>)"

definition wd_uuid :: "sys_env \<Rightarrow> (('d, 'x) world, string) act" where
  "wd_uuid env w = (Inr (en_uuid env (wd_tick w)), w\<lparr>wd_tick := Suc (wd_tick w)\<rparr>)"

definition tx_query :: "('d \<Rightarrow> 'a) \<Rightarrow> (('d, 'x) tx, 'a) act" where
  "tx_query f s = (Inr (f (tx_db s)), s)"

definition tx_modify :: "('d \<Rightarrow> 'd) \<Rightarrow> (('d, 'x) tx, unit) act" where
  "tx_modify f s = (Inr (), s\<lparr>tx_db := f (tx_db s)\<rparr>)"

definition tx_outside :: "('x \<Rightarrow> (exn + 'a) \<times> 'x) \<Rightarrow> (('d, 'x) tx, 'a) act" where
  "tx_outside f s = (case f (tx_side s) of (out, x) \<Rightarrow> (out, s\<lparr>tx_side := x\<rparr>))"

definition wd_outside :: "('x \<Rightarrow> (exn + 'a) \<times> 'x) \<Rightarrow> (('d, 'x) world, 'a) act" where
  "wd_outside f w = (case f (wd_side w) of (out, x) \<Rightarrow> (out, w\<lparr>wd_side := x\<rparr>))"

text \<open>\<^verbatim>\<open>TransactionScope.record_event\<close>: the factory's envelope gets its identifier and its instant, the outbox the next sequence.\<close>

definition tx_record_event ::
  "('d \<Rightarrow> outbox_db) \<Rightarrow> (outbox_db \<Rightarrow> 'd \<Rightarrow> 'd) \<Rightarrow> sys_env \<Rightarrow> event_envelope \<Rightarrow> (('d, 'x) tx, unit) act" where
  "tx_record_event get put env e =
     act_bind (tx_uuid env) (\<lambda>eid. act_bind (tx_now env) (\<lambda>occurred.
     act_bind (act_lift (make_envelope (e\<lparr>ev_id := eid, ev_occurred_at := occurred\<rparr>))) (\<lambda>e'.
     act_bind (tx_now env) (\<lambda>now. act_bind (tx_uuid env) (\<lambda>rid.
     act_bind (tx_query (\<lambda>d. record_next no_hook now rid e' None (get d))) (\<lambda>r.
     act_bind (act_lift r) (\<lambda>(b, ob). tx_modify (put ob))))))))"

text \<open>\<^verbatim>\<open>try ... except Exception as e\<close>\<close>

definition act_catch :: "('s, 'a) act \<Rightarrow> (exn \<Rightarrow> ('s, 'a) act) \<Rightarrow> ('s, 'a) act" where
  "act_catch m h s = (case m s of (Inl e, s') \<Rightarrow> h e s' | (Inr x, s') \<Rightarrow> (Inr x, s'))"

lemma keeps_catch [kp]:
  assumes "keeps I m" and "\<And>e. keeps I (h e)" shows "keeps I (act_catch m h)"
proof (rule keeps_pure)
  fix s assume s: "I s"
  obtain r t where m: "m s = (r, t)" by (cases "m s")
  have t: "I t" using keeps_state [OF assms(1) s] m by simp
  then have "I (snd (h e t))" for e by (rule keeps_state [OF assms(2)])
  with m t show "I (snd (act_catch m h s))" by (cases r) (simp_all add: act_catch_def)
qed

subsection \<open>Invariants of the tables\<close>

definition tx_ok :: "('x \<Rightarrow> 'd \<Rightarrow> bool) \<Rightarrow> ('d, 'x) tx \<Rightarrow> bool" where
  "tx_ok I s \<longleftrightarrow> I (tx_side s) (tx_db s) \<and> I (tx_side s) (tx_stored s)"

definition wd_ok :: "('x \<Rightarrow> 'd \<Rightarrow> bool) \<Rightarrow> ('d, 'x) world \<Rightarrow> bool" where
  "wd_ok I w \<longleftrightarrow> I (wd_side w) (wd_db w)"

lemma keeps_tx_draws [kp]:
  "keeps (tx_ok I) (tx_now env)" "keeps (tx_ok I) (tx_uuid env)" "keeps (wd_ok I) (wd_now env)" "keeps (wd_ok I) (wd_uuid env)"
  by (rule keeps_pure, simp add: tx_now_def tx_uuid_def wd_now_def wd_uuid_def tx_ok_def wd_ok_def)+

lemma keeps_tx_query [kp]: "keeps (tx_ok I) (tx_query f)"
  by (rule keeps_pure) (simp add: tx_query_def)

lemma keeps_tx_commit [kp]: "keeps (tx_ok I) tx_commit"
  by (rule keeps_pure) (simp add: tx_commit_def tx_ok_def)

lemma keeps_tx_modify: "(\<And>x d. I x d \<Longrightarrow> I x (f d)) \<Longrightarrow> keeps (tx_ok I) (tx_modify f)"
  by (rule keeps_pure) (simp add: tx_modify_def tx_ok_def)

lemma keeps_outside:
  assumes "\<And>x d. I x d \<Longrightarrow> I (snd (f x)) d"
  shows "keeps (tx_ok I) (tx_outside f)" and "keeps (wd_ok I) (wd_outside f)"
  using assms
  by (auto intro!: keeps_pure simp: tx_outside_def wd_outside_def tx_ok_def wd_ok_def split: prod.splits) (metis snd_conv)+

lemma keeps_in_tx [kp]: "keeps (tx_ok I) body \<Longrightarrow> keeps (wd_ok I) (in_tx body)"
proof (rule keeps_pure)
  fix w assume k: "keeps (tx_ok I) body" and w: "wd_ok I w"
  have "tx_ok I (tx_start w)" using w by (simp add: tx_ok_def wd_ok_def tx_start_def)
  from keeps_state [OF k this] show "wd_ok I (snd (in_tx body w))"
    by (auto simp: in_tx_def tx_end_def tx_ok_def wd_ok_def split: prod.splits)
qed

lemma keeps_tx_append:
  assumes "\<And>x d. I x d \<Longrightarrow> outbox_inv (get d)" and "\<And>x d ob. I x d \<Longrightarrow> outbox_inv ob \<Longrightarrow> I x (put ob d)"
  shows "keeps (tx_ok I) (act_bind (tx_query (\<lambda>d. record_next no_hook now rid e None (get d)))
      (\<lambda>r. act_bind (act_lift r) (\<lambda>(b, ob). tx_modify (put ob))))"
proof (rule keeps_pure)
  fix s assume s: "tx_ok I s"
  then have i: "I (tx_side s) (tx_db s)" by (simp add: tx_ok_def)
  show "tx_ok I (snd (act_bind (tx_query (\<lambda>d. record_next no_hook now rid e None (get d)))
      (\<lambda>r. act_bind (act_lift r) (\<lambda>(b, ob). tx_modify (put ob))) s))"
  proof (cases "record_next no_hook now rid e None (get (tx_db s))")
    case (Inl x)
    with s show ?thesis by (simp add: act_bind_def tx_query_def act_lift_def act_raise_def)
  next
    case (Inr p)
    obtain b ob where p: "p = (b, ob)" by (cases p)
    have "outbox_inv ob" using outbox_inv_record_next [OF assms(1) [OF i] Inr [unfolded p]] .
    from assms(2) [OF i this] s Inr p show ?thesis
      by (simp add: act_bind_def tx_query_def act_lift_def act_return_def tx_modify_def tx_ok_def)
  qed
qed

lemma keeps_tx_event:
  assumes "\<And>x d. I x d \<Longrightarrow> outbox_inv (get d)" and "\<And>x d ob. I x d \<Longrightarrow> outbox_inv ob \<Longrightarrow> I x (put ob d)"
  shows "keeps (tx_ok I) (tx_record_event get put env e)"
  unfolding tx_record_event_def by (intro keeps_bind keeps_tx_draws keeps_lift keeps_tx_append assms)

end
