(* ===== verification/Gateway_Store.thy ===== *)
theory Gateway_Store
  imports Gateway_Policies Gateway_Normalization Scopes
begin

text \<open>
  The store of the model gateway: the rows of \<^verbatim>\<open>application/models.py\<close> and \<^verbatim>\<open>domain/route_lock.py\<close>, the
  tables with their keys (\<^verbatim>\<open>infrastructure/tables.py\<close>), the statements of \<^verbatim>\<open>SqlModelGatewayStore\<close> and the
  transaction scope (\<^verbatim>\<open>infrastructure/repository.py\<close>). An insertion that violates a key raises
  \<^verbatim>\<open>IntegrityError\<close>. JSON columns hold the parsed values. The secret store is a map from names to secrets.
\<close>

section \<open>Rows\<close>

record provider_row =
  pv_id :: string
  pv_name :: string
  pv_display :: string
  pv_vendor :: string
  pv_base_url :: string
  pv_protocol :: string
  pv_discovery :: bool
  pv_enabled :: bool
  pv_created :: "time option"
  pv_updated :: "time option"

record endpoint_row =
  ep_id :: string
  ep_provider :: string
  ep_base_url :: string
  ep_protocol :: string
  ep_priority :: int
  ep_weight :: int
  ep_enabled :: bool
  ep_test :: string
  ep_created :: "time option"
  ep_updated :: "time option"

record credential_row =
  cr_id :: string
  cr_provider :: string
  cr_secret :: string
  cr_version :: int
  cr_label :: string
  cr_created :: "time option"
  cr_revoked :: "time option"

record model_row =
  mo_name :: string
  mo_vendor :: string
  mo_family :: string
  mo_revision :: "string option"
  mo_quantization :: "string option"
  mo_size :: "string option"
  mo_fingerprint :: string
  mo_window :: "int option"
  mo_capabilities :: "string list"
  mo_enabled :: bool
  mo_created :: "time option"
  mo_updated :: "time option"

record binding_row =
  bi_id :: string
  bi_endpoint :: string
  bi_model :: string
  bi_provider_model :: string
  bi_level :: string
  bi_fingerprint :: string
  bi_pricing :: string
  bi_priority :: int
  bi_availability :: string
  bi_active :: bool
  bi_discovered :: "time option"

text \<open>A durable rule is a rule with its time stamps; \<open>routing_rule.truncate\<close> is \<^verbatim>\<open>to_domain_rule\<close>.\<close>

record rule_row = routing_rule +
  rr_created :: "time option"
  rr_updated :: "time option"

definition to_domain_rule :: "rule_row \<Rightarrow> routing_rule" where
  "to_domain_rule r = routing_rule.truncate r"

record selectable_binding =
  sb_binding :: string
  sb_endpoint :: string
  sb_provider_name :: string
  sb_provider :: string
  sb_model :: string
  sb_base_url :: string
  sb_protocol :: string
  sb_level :: string
  sb_endpoint_enabled :: bool
  sb_binding_enabled :: bool
  sb_has_credential :: bool
  sb_secret :: "string option"

datatype lock_status = LOCK_ACTIVE | LOCK_RELEASED

record routing_snapshot =
  sn_rule :: string
  sn_version :: int
  sn_model :: string
  sn_selected :: rat
  sn_reason :: string

record route_lock =
  lk_id :: string
  lk_scope_type :: string
  lk_scope :: string
  lk_model :: string
  lk_snapshot :: routing_snapshot
  lk_status :: lock_status
  lk_created :: rat
  lk_released :: "rat option"
  lk_reselections :: int
  lk_fallback :: bool
  lk_source :: "string option"

record quota_row =
  qu_provider :: string
  qu_has :: bool
  qu_requests :: "int option"
  qu_tokens :: "int option"
  qu_reset :: "time option"
  qu_updated :: "time option"

record gw_attempt_row =
  ga_id :: string
  ga_lock :: string
  ga_endpoint :: string
  ga_binding :: string
  ga_index :: int
  ga_status :: string
  ga_error :: "string option"
  ga_http :: "int option"
  ga_started :: time
  ga_finished :: time
  ga_prompt_tokens :: int
  ga_completion_tokens :: int
  ga_latency :: rat

record receipt_row =
  rc_id :: string
  rc_task :: string
  rc_role :: "string option"
  rc_lock :: string
  rc_rule :: string
  rc_version :: int
  rc_provider :: string
  rc_model :: string
  rc_provider_model :: string
  rc_endpoint :: string
  rc_fallback :: bool
  rc_reason :: "string option"
  rc_status :: string
  rc_error :: "string option"
  rc_started :: time
  rc_completed :: time
  rc_created :: time

record gw_db =
  gd_providers :: "provider_row list"
  gd_endpoints :: "endpoint_row list"
  gd_credentials :: "credential_row list"
  gd_models :: "model_row list"
  gd_bindings :: "binding_row list"
  gd_rules :: "rule_row list"
  gd_locks :: "route_lock list"
  gd_states :: "(string \<times> endpoint_state) list"
  gd_quotas :: "quota_row list"
  gd_attempts :: "gw_attempt_row list"
  gd_receipts :: "receipt_row list"
  gd_outbox :: outbox_db

definition empty_gw_db :: gw_db where
  "empty_gw_db = \<lparr>gd_providers = [], gd_endpoints = [], gd_credentials = [], gd_models = [], gd_bindings = [], gd_rules = [],
     gd_locks = [], gd_states = [], gd_quotas = [], gd_attempts = [], gd_receipts = [], gd_outbox = empty_outbox\<rparr>"

section \<open>Scope\<close>

text \<open>
  The environment draws clock readings, \<^verbatim>\<open>str(uuid4())\<close> and \<^verbatim>\<open>uuid4().hex\<close>. The world outside a scope keeps the durable
  tables, the secrets, and how much was drawn; a scope adds the working copy.
\<close>

record gw_env =
  ge_now :: "nat \<Rightarrow> time"
  ge_uuid :: "nat \<Rightarrow> string"
  ge_hex :: "nat \<Rightarrow> string"

type_synonym secrets = "string \<Rightarrow> string option"

record gw_world =
  gw_db :: gw_db
  gw_secrets :: secrets
  gw_tick :: nat

record gw_scope =
  gs_db :: gw_db
  gs_stored :: gw_db
  gs_secrets :: secrets
  gs_tick :: nat

definition gw_in_scope :: "(gw_scope, 'a) act \<Rightarrow> (gw_world, 'a) act" where
  "gw_in_scope body w =
     (case body \<lparr>gs_db = gw_db w, gs_stored = gw_db w, gs_secrets = gw_secrets w, gs_tick = gw_tick w\<rparr> of
        (out, s) \<Rightarrow> (out, \<lparr>gw_db = gs_stored s, gw_secrets = gs_secrets s, gw_tick = gs_tick s\<rparr>))"

definition gw_commit :: "(gw_scope, unit) act" where
  "gw_commit s = (Inr (), s\<lparr>gs_stored := gs_db s\<rparr>)"

definition scope_now :: "gw_env \<Rightarrow> (gw_scope, time) act" where
  "scope_now env s = (Inr (ge_now env (gs_tick s)), s\<lparr>gs_tick := Suc (gs_tick s)\<rparr>)"

definition scope_uuid :: "gw_env \<Rightarrow> (gw_scope, string) act" where
  "scope_uuid env s = (Inr (ge_uuid env (gs_tick s)), s\<lparr>gs_tick := Suc (gs_tick s)\<rparr>)"

definition scope_hex :: "gw_env \<Rightarrow> nat \<Rightarrow> (gw_scope, string) act" where
  "scope_hex env n s = (Inr (take n (ge_hex env (gs_tick s))), s\<lparr>gs_tick := Suc (gs_tick s)\<rparr>)"

definition world_now :: "gw_env \<Rightarrow> (gw_world, time) act" where
  "world_now env w = (Inr (ge_now env (gw_tick w)), w\<lparr>gw_tick := Suc (gw_tick w)\<rparr>)"

definition world_uuid :: "gw_env \<Rightarrow> (gw_world, string) act" where
  "world_uuid env w = (Inr (ge_uuid env (gw_tick w)), w\<lparr>gw_tick := Suc (gw_tick w)\<rparr>)"

definition world_hex :: "gw_env \<Rightarrow> nat \<Rightarrow> (gw_world, string) act" where
  "world_hex env n w = (Inr (take n (ge_hex env (gw_tick w))), w\<lparr>gw_tick := Suc (gw_tick w)\<rparr>)"

definition timestamp :: "time \<Rightarrow> rat" where
  "timestamp t = of_int t / 1000000"

section \<open>Statements\<close>

definition query :: "(gw_db \<Rightarrow> 'a) \<Rightarrow> (gw_scope, 'a) act" where
  "query f s = (Inr (f (gs_db s)), s)"

definition modify :: "(gw_db \<Rightarrow> gw_db) \<Rightarrow> (gw_scope, unit) act" where
  "modify f s = (Inr (), s\<lparr>gs_db := f (gs_db s)\<rparr>)"

text \<open>\<^verbatim>\<open>INSERT\<close>: \<open>clash\<close> tells whether the new row and an old one violate a key.\<close>

definition insert_into ::
  "(gw_db \<Rightarrow> 'r list) \<Rightarrow> ('r list \<Rightarrow> gw_db \<Rightarrow> gw_db) \<Rightarrow> ('r \<Rightarrow> 'r \<Rightarrow> bool) \<Rightarrow> string \<Rightarrow> 'r \<Rightarrow> (gw_scope, unit) act" where
  "insert_into rows put clash table r s =
     (if list_ex (clash r) (rows (gs_db s)) then (Inl (IntegrityError table), s)
      else (Inr (), s\<lparr>gs_db := put (rows (gs_db s) @ [r]) (gs_db s)\<rparr>))"

definition put_providers :: "provider_row list \<Rightarrow> gw_db \<Rightarrow> gw_db" where "put_providers rs db = db\<lparr>gd_providers := rs\<rparr>"
definition put_endpoints :: "endpoint_row list \<Rightarrow> gw_db \<Rightarrow> gw_db" where "put_endpoints rs db = db\<lparr>gd_endpoints := rs\<rparr>"
definition put_credentials :: "credential_row list \<Rightarrow> gw_db \<Rightarrow> gw_db" where "put_credentials rs db = db\<lparr>gd_credentials := rs\<rparr>"
definition put_models :: "model_row list \<Rightarrow> gw_db \<Rightarrow> gw_db" where "put_models rs db = db\<lparr>gd_models := rs\<rparr>"
definition put_bindings :: "binding_row list \<Rightarrow> gw_db \<Rightarrow> gw_db" where "put_bindings rs db = db\<lparr>gd_bindings := rs\<rparr>"
definition put_rules :: "rule_row list \<Rightarrow> gw_db \<Rightarrow> gw_db" where "put_rules rs db = db\<lparr>gd_rules := rs\<rparr>"
definition put_locks :: "route_lock list \<Rightarrow> gw_db \<Rightarrow> gw_db" where "put_locks rs db = db\<lparr>gd_locks := rs\<rparr>"
definition put_quotas :: "quota_row list \<Rightarrow> gw_db \<Rightarrow> gw_db" where "put_quotas rs db = db\<lparr>gd_quotas := rs\<rparr>"
definition put_attempts :: "gw_attempt_row list \<Rightarrow> gw_db \<Rightarrow> gw_db" where "put_attempts rs db = db\<lparr>gd_attempts := rs\<rparr>"
definition put_receipts :: "receipt_row list \<Rightarrow> gw_db \<Rightarrow> gw_db" where "put_receipts rs db = db\<lparr>gd_receipts := rs\<rparr>"

lemmas gw_put_defs = put_providers_def put_endpoints_def put_credentials_def put_models_def put_bindings_def put_rules_def
  put_locks_def put_quotas_def put_attempts_def put_receipts_def

subsection \<open>Providers and endpoints\<close>

definition get_provider_row :: "string \<Rightarrow> (gw_scope, provider_row option) act" where
  "get_provider_row pid = query (\<lambda>db. find (\<lambda>r. pv_id r = pid) (gd_providers db))"

definition get_provider_by_name :: "string \<Rightarrow> (gw_scope, provider_row option) act" where
  "get_provider_by_name name = query (\<lambda>db. find (\<lambda>r. pv_name r = name) (gd_providers db))"

definition list_provider_rows :: "(gw_scope, provider_row list) act" where
  "list_provider_rows = query (\<lambda>db. sort_key pv_name (gd_providers db))"

text \<open>A missing time stamp is filled in when the row is written.\<close>

definition stamp :: "gw_env \<Rightarrow> time option \<Rightarrow> (gw_scope, time option) act" where
  "stamp env t = (if t = None then act_bind (scope_now env) (\<lambda>n. act_return (Some n)) else act_return t)"

definition write_provider :: "gw_env \<Rightarrow> provider_row \<Rightarrow> (gw_scope, unit) act" where
  "write_provider env row =
     act_bind (stamp env (pv_created row)) (\<lambda>c. act_bind (stamp env (pv_updated row)) (\<lambda>u.
       insert_into gd_providers put_providers (\<lambda>r x. pv_id x = pv_id r \<or> pv_name x = pv_name r) ''providers''
         (row\<lparr>pv_created := c, pv_updated := u\<rparr>)))"

definition write_endpoint :: "gw_env \<Rightarrow> endpoint_row \<Rightarrow> (gw_scope, unit) act" where
  "write_endpoint env row =
     act_bind (stamp env (ep_created row)) (\<lambda>c. act_bind (stamp env (ep_updated row)) (\<lambda>u.
       insert_into gd_endpoints put_endpoints (\<lambda>r x. ep_id x = ep_id r) ''endpoints''
         (row\<lparr>ep_created := c, ep_updated := u\<rparr>)))"

definition insert_provider :: "gw_env \<Rightarrow> provider_row \<Rightarrow> endpoint_row option \<Rightarrow> (gw_scope, bool) act" where
  "insert_provider env row endpoint =
     act_bind (get_provider_by_name (pv_name row)) (\<lambda>ex.
       if ex \<noteq> None then act_return False
       else act_bind (write_provider env row) (\<lambda>_.
         act_bind (case endpoint of None \<Rightarrow> act_return () | Some e \<Rightarrow> write_endpoint env e) (\<lambda>_. act_return True)))"

definition or_keep :: "'a option \<Rightarrow> 'a \<Rightarrow> 'a" where
  "or_keep p old = (case p of None \<Rightarrow> old | Some x \<Rightarrow> x)"

definition update_provider_row ::
  "gw_env \<Rightarrow> string \<Rightarrow> string option \<Rightarrow> string option \<Rightarrow> string option \<Rightarrow> bool option \<Rightarrow> (gw_scope, provider_row option) act" where
  "update_provider_row env pid display url protocol enabled =
     act_bind (scope_now env) (\<lambda>now.
     act_bind (modify (\<lambda>db. put_providers (sql_update (\<lambda>r. pv_id r = pid)
       (\<lambda>r. r\<lparr>pv_updated := Some now, pv_display := or_keep display (pv_display r), pv_base_url := or_keep url (pv_base_url r),
          pv_protocol := or_keep protocol (pv_protocol r), pv_enabled := or_keep enabled (pv_enabled r)\<rparr>) (gd_providers db)) db)) (\<lambda>_.
     get_provider_row pid))"

definition delete_provider_rows :: "string \<Rightarrow> (gw_scope, bool) act" where
  "delete_provider_rows pid =
     act_bind (get_provider_row pid) (\<lambda>p.
       if p = None then act_return False
       else act_bind (modify (\<lambda>db. put_endpoints (filter (\<lambda>r. ep_provider r \<noteq> pid) (gd_endpoints db)) db)) (\<lambda>_.
         act_bind (modify (\<lambda>db. put_credentials (filter (\<lambda>r. cr_provider r \<noteq> pid) (gd_credentials db)) db)) (\<lambda>_.
         act_bind (modify (\<lambda>db. put_providers (filter (\<lambda>r. pv_id r \<noteq> pid) (gd_providers db)) db)) (\<lambda>_. act_return True))))"

definition insert_endpoint :: "gw_env \<Rightarrow> endpoint_row \<Rightarrow> (gw_scope, bool) act" where
  "insert_endpoint env row =
     act_bind (get_provider_row (ep_provider row)) (\<lambda>p.
       if p = None then act_return False else act_bind (write_endpoint env row) (\<lambda>_. act_return True))"

definition get_endpoint :: "string \<Rightarrow> (gw_scope, endpoint_row option) act" where
  "get_endpoint eid = query (\<lambda>db. find (\<lambda>r. ep_id r = eid) (gd_endpoints db))"

definition list_endpoints_for_provider :: "string \<Rightarrow> (gw_scope, endpoint_row list) act" where
  "list_endpoints_for_provider pid =
     query (\<lambda>db. sort_key ep_priority (filter (\<lambda>r. ep_provider r = pid) (gd_endpoints db)))"

definition update_endpoint_status :: "gw_env \<Rightarrow> string \<Rightarrow> string \<Rightarrow> (gw_scope, bool) act" where
  "update_endpoint_status env eid status =
     act_bind (scope_now env) (\<lambda>now.
     act_bind (query (\<lambda>db. rowcount (\<lambda>r. ep_id r = eid) (gd_endpoints db))) (\<lambda>n.
     act_bind (modify (\<lambda>db. put_endpoints (sql_update (\<lambda>r. ep_id r = eid)
       (\<lambda>r. r\<lparr>ep_test := status, ep_updated := Some now\<rparr>) (gd_endpoints db)) db)) (\<lambda>_.
     act_return (n \<noteq> 0))))"

subsection \<open>Credentials\<close>

definition insert_credential :: "credential_row \<Rightarrow> (gw_scope, bool) act" where
  "insert_credential row =
     act_bind (get_provider_row (cr_provider row)) (\<lambda>p.
       if p = None then act_return False
       else act_bind (insert_into gd_credentials put_credentials (\<lambda>r x. cr_id x = cr_id r \<or> cr_secret x = cr_secret r)
          ''credentials'' row) (\<lambda>_. act_return True))"

definition active_credentials :: "string \<Rightarrow> credential_row list \<Rightarrow> credential_row list" where
  "active_credentials pid rows = filter (\<lambda>r. cr_provider r = pid \<and> cr_revoked r = None) rows"

text \<open>Descending order of \<^verbatim>\<open>created_at\<close>, where a missing value comes first, then of the identifier.\<close>

definition credential_age :: "credential_row \<Rightarrow> (int \<times> int) \<times> string" where
  "credential_age r = ((case cr_created r of None \<Rightarrow> (1, 0) | Some t \<Rightarrow> (0, t)), cr_id r)"

definition newest_credential :: "credential_row list \<Rightarrow> credential_row option" where
  "newest_credential rows = (case rev (sort_key credential_age rows) of [] \<Rightarrow> None | r # _ \<Rightarrow> Some r)"

definition active_credential_for_provider :: "string \<Rightarrow> (gw_scope, credential_row option) act" where
  "active_credential_for_provider pid = query (\<lambda>db. newest_credential (active_credentials pid (gd_credentials db)))"

definition revoke_active_credentials :: "string \<Rightarrow> time \<Rightarrow> (gw_scope, nat) act" where
  "revoke_active_credentials pid at_time =
     act_bind (query (\<lambda>db. length (active_credentials pid (gd_credentials db)))) (\<lambda>n.
     act_bind (modify (\<lambda>db. put_credentials (sql_update (\<lambda>r. cr_provider r = pid \<and> cr_revoked r = None)
       (\<lambda>r. r\<lparr>cr_revoked := Some at_time\<rparr>) (gd_credentials db)) db)) (\<lambda>_. act_return n))"

subsection \<open>Models and bindings\<close>

definition model_values :: "model_row \<Rightarrow> model_row \<Rightarrow> model_row" where
  "model_values row r = r\<lparr>mo_vendor := mo_vendor row, mo_family := mo_family row, mo_revision := mo_revision row,
     mo_quantization := mo_quantization row, mo_size := mo_size row, mo_fingerprint := mo_fingerprint row,
     mo_window := mo_window row, mo_updated := mo_updated row\<rparr>"

definition upsert_model :: "model_row \<Rightarrow> (gw_scope, bool) act" where
  "upsert_model row =
     act_bind (query (\<lambda>db. find (\<lambda>r. mo_name r = mo_name row) (gd_models db))) (\<lambda>ex.
       if ex = None
       then act_bind (insert_into gd_models put_models (\<lambda>r x. mo_name x = mo_name r) ''models'' row) (\<lambda>_. act_return True)
       else act_bind (modify (\<lambda>db. put_models (sql_update (\<lambda>r. mo_name r = mo_name row) (model_values row) (gd_models db)) db))
         (\<lambda>_. act_return False))"

definition get_model :: "string \<Rightarrow> (gw_scope, model_row option) act" where
  "get_model name = query (\<lambda>db. find (\<lambda>r. mo_name r = name) (gd_models db))"

definition list_model_rows :: "(gw_scope, model_row list) act" where
  "list_model_rows = query (\<lambda>db. sort_key mo_name (gd_models db))"

datatype upsert_outcome = Added | Updated | Unchanged

definition binding_changed :: "binding_row \<Rightarrow> binding_row \<Rightarrow> bool" where
  "binding_changed ex row \<longleftrightarrow> bi_provider_model ex \<noteq> bi_provider_model row \<or> bi_fingerprint ex \<noteq> bi_fingerprint row
     \<or> bi_availability ex \<noteq> ''active'' \<or> \<not> bi_active ex"

definition binding_values :: "binding_row \<Rightarrow> binding_row \<Rightarrow> binding_row" where
  "binding_values row r = r\<lparr>bi_provider_model := bi_provider_model row, bi_fingerprint := bi_fingerprint row,
     bi_availability := ''active'', bi_active := True, bi_discovered := bi_discovered row\<rparr>"

definition upsert_binding :: "binding_row \<Rightarrow> (gw_scope, upsert_outcome) act" where
  "upsert_binding row =
     act_bind (query (\<lambda>db. find (\<lambda>r. bi_endpoint r = bi_endpoint row \<and> bi_model r = bi_model row) (gd_bindings db))) (\<lambda>ex.
       case ex of
         None \<Rightarrow> act_bind (insert_into gd_bindings put_bindings
           (\<lambda>r x. bi_id x = bi_id r \<or> bi_endpoint x = bi_endpoint r \<and> bi_model x = bi_model r) ''bindings'' row)
           (\<lambda>_. act_return Added)
       | Some b \<Rightarrow> act_bind (modify (\<lambda>db. put_bindings (sql_update (\<lambda>r. bi_id r = bi_id b) (binding_values row) (gd_bindings db)) db))
           (\<lambda>_. act_return (if binding_changed b row then Updated else Unchanged)))"

definition list_bindings :: "string option \<Rightarrow> (gw_scope, binding_row list) act" where
  "list_bindings model = query (\<lambda>db. filter (\<lambda>r. model = None \<or> model = Some (bi_model r)) (gd_bindings db))"

definition mark_unavailable_bindings :: "string \<Rightarrow> string list \<Rightarrow> (gw_scope, string list) act" where
  "mark_unavailable_bindings eid keep_ids =
     act_bind (query (\<lambda>db. filter (\<lambda>r. bi_endpoint r = eid \<and> bi_availability r \<noteq> ''unavailable''
         \<and> bi_provider_model r \<notin> set keep_ids) (gd_bindings db))) (\<lambda>gone.
     act_bind (modify (\<lambda>db. put_bindings (sql_update (\<lambda>r. bi_id r \<in> set (map bi_id gone))
       (\<lambda>r. r\<lparr>bi_availability := ''unavailable'', bi_active := False\<rparr>) (gd_bindings db)) db)) (\<lambda>_.
     act_return (map bi_provider_model gone)))"

definition selectable_of :: "gw_db \<Rightarrow> binding_row \<Rightarrow> selectable_binding option" where
  "selectable_of db b =
     (case find (\<lambda>e. ep_id e = bi_endpoint b) (gd_endpoints db) of None \<Rightarrow> None
      | Some e \<Rightarrow> (case find (\<lambda>p. pv_id p = ep_provider e) (gd_providers db) of None \<Rightarrow> None
         | Some p \<Rightarrow>
             let c = find (\<lambda>r. cr_provider r = pv_id p \<and> cr_revoked r = None) (gd_credentials db)
             in Some \<lparr>sb_binding = bi_id b, sb_endpoint = ep_id e, sb_provider_name = pv_name p, sb_provider = pv_id p,
                  sb_model = bi_provider_model b, sb_base_url = ep_base_url e, sb_protocol = ep_protocol e,
                  sb_level = bi_level b, sb_endpoint_enabled = ep_enabled e, sb_binding_enabled = bi_active b,
                  sb_has_credential = (c \<noteq> None), sb_secret = map_option cr_secret c\<rparr>))"

definition selectable_bindings :: "gw_db \<Rightarrow> string \<Rightarrow> selectable_binding list" where
  "selectable_bindings db model =
     List.map_filter (selectable_of db) (filter (\<lambda>b. bi_model b = model \<and> bi_active b) (gd_bindings db))"

definition provider_models :: "gw_db \<Rightarrow> string \<Rightarrow> string list" where
  "provider_models db pid =
     (let eids = map ep_id (filter (\<lambda>e. ep_provider e = pid) (gd_endpoints db))
      in remdups (map bi_model (filter (\<lambda>b. bi_endpoint b \<in> set eids \<and> bi_active b) (gd_bindings db))))"

definition count_provider_models :: "string \<Rightarrow> (gw_scope, nat) act" where
  "count_provider_models pid = query (\<lambda>db. length (provider_models db pid))"

definition canonical_models_for_provider :: "string \<Rightarrow> (gw_scope, string list) act" where
  "canonical_models_for_provider pid = query (\<lambda>db. provider_models db pid)"

subsection \<open>Rules\<close>

definition upsert_rule_row :: "rule_row \<Rightarrow> (gw_scope, rule_row) act" where
  "upsert_rule_row row =
     act_bind (query (\<lambda>db. find (\<lambda>r. ru_id r = ru_id row) (gd_rules db))) (\<lambda>ex.
     act_bind (if ex = None then insert_into gd_rules put_rules (\<lambda>r x. ru_id x = ru_id r) ''rules'' row
        else modify (\<lambda>db. put_rules (sql_update (\<lambda>r. ru_id r = ru_id row) (\<lambda>_. row) (gd_rules db)) db)) (\<lambda>_. act_return row))"

definition get_rule :: "string \<Rightarrow> (gw_scope, rule_row option) act" where
  "get_rule i = query (\<lambda>db. find (\<lambda>r. ru_id r = i) (gd_rules db))"

definition list_rule_rows :: "gw_db \<Rightarrow> rule_row list" where
  "list_rule_rows db = sort_key ru_priority (gd_rules db)"

definition delete_rule_row :: "string \<Rightarrow> (gw_scope, bool) act" where
  "delete_rule_row i =
     act_bind (query (\<lambda>db. rowcount (\<lambda>r. ru_id r = i) (gd_rules db))) (\<lambda>n.
     act_bind (modify (\<lambda>db. put_rules (filter (\<lambda>r. ru_id r \<noteq> i) (gd_rules db)) db)) (\<lambda>_. act_return (n \<noteq> 0)))"

definition rule_ids_referencing_models :: "string list \<Rightarrow> (gw_scope, string list) act" where
  "rule_ids_referencing_models models = query (\<lambda>db. map ru_id (filter (\<lambda>r. ru_enabled r \<and> ru_model r \<in> set models) (gd_rules db)))"

definition disable_rules :: "string list \<Rightarrow> time \<Rightarrow> (gw_scope, nat) act" where
  "disable_rules ids at_time =
     act_bind (query (\<lambda>db. rowcount (\<lambda>r. ru_id r \<in> set ids) (gd_rules db))) (\<lambda>n.
     act_bind (modify (\<lambda>db. put_rules (sql_update (\<lambda>r. ru_id r \<in> set ids)
       (\<lambda>r. r\<lparr>ru_enabled := False, rr_updated := Some at_time\<rparr>) (gd_rules db)) db)) (\<lambda>_. act_return n))"

subsection \<open>Route locks\<close>

definition locks_scope :: "string \<Rightarrow> string \<Rightarrow> route_lock \<Rightarrow> bool" where
  "locks_scope ty sid l \<longleftrightarrow> lk_scope_type l = ty \<and> lk_scope l = sid \<and> lk_status l = LOCK_ACTIVE"

definition active_lock :: "gw_db \<Rightarrow> string \<Rightarrow> string \<Rightarrow> route_lock option" where
  "active_lock db ty sid = find (locks_scope ty sid) (gd_locks db)"

text \<open>
  The row keeps the instant of its insertion, not the one of the record. The savepoint turns a violation of the primary
  key or of the partial index on active scopes into False.
\<close>

definition record_route_lock :: "gw_env \<Rightarrow> route_lock \<Rightarrow> (gw_scope, bool) act" where
  "record_route_lock env l =
     act_bind (query (\<lambda>db. active_lock db (lk_scope_type l) (lk_scope l))) (\<lambda>ex.
       if ex \<noteq> None then act_return False
       else act_bind (scope_now env) (\<lambda>now s.
         case insert_into gd_locks put_locks
             (\<lambda>r x. lk_id x = lk_id r \<or> lk_status r = LOCK_ACTIVE \<and> locks_scope (lk_scope_type r) (lk_scope r) x)
             ''route_locks'' (l\<lparr>lk_created := timestamp now, lk_released := None\<rparr>) s of
           (Inl _, _) \<Rightarrow> (Inr False, s)
         | (Inr _, s') \<Rightarrow> (Inr True, s')))"

definition get_route_lock :: "string \<Rightarrow> (gw_scope, route_lock option) act" where
  "get_route_lock i = query (\<lambda>db. find (\<lambda>l. lk_id l = i) (gd_locks db))"

definition get_active_route_lock :: "string \<Rightarrow> string \<Rightarrow> (gw_scope, route_lock option) act" where
  "get_active_route_lock ty sid = query (\<lambda>db. active_lock db ty sid)"

definition release_route_lock :: "string \<Rightarrow> time \<Rightarrow> (gw_scope, bool) act" where
  "release_route_lock i at_time =
     act_bind (query (\<lambda>db. rowcount (\<lambda>l. lk_id l = i \<and> lk_status l = LOCK_ACTIVE) (gd_locks db))) (\<lambda>n.
     act_bind (modify (\<lambda>db. put_locks (sql_update (\<lambda>l. lk_id l = i \<and> lk_status l = LOCK_ACTIVE)
       (\<lambda>l. l\<lparr>lk_status := LOCK_RELEASED, lk_released := Some (timestamp at_time)\<rparr>) (gd_locks db)) db)) (\<lambda>_. act_return (n \<noteq> 0)))"

subsection \<open>Endpoint state, quota, attempts, receipts\<close>

definition endpoint_state_of :: "gw_db \<Rightarrow> string \<Rightarrow> endpoint_state" where
  "endpoint_state_of db eid = (case map_of (gd_states db) eid of None \<Rightarrow> fresh_state | Some s \<Rightarrow> s)"

definition get_endpoint_state :: "string \<Rightarrow> (gw_scope, endpoint_state) act" where
  "get_endpoint_state eid = query (\<lambda>db. endpoint_state_of db eid)"

definition save_endpoint_state :: "string \<Rightarrow> endpoint_state \<Rightarrow> (gw_scope, unit) act" where
  "save_endpoint_state eid st =
     act_bind (query (\<lambda>db. map_of (gd_states db) eid)) (\<lambda>ex.
       if ex = None then modify (\<lambda>db. db\<lparr>gd_states := gd_states db @ [(eid, st)]\<rparr>)
       else modify (\<lambda>db. db\<lparr>gd_states := sql_update (\<lambda>r. fst r = eid) (\<lambda>r. (fst r, st)) (gd_states db)\<rparr>))"

definition quota_of :: "gw_db \<Rightarrow> string \<Rightarrow> quota_row" where
  "quota_of db name = (case find (\<lambda>r. qu_provider r = name) (gd_quotas db) of Some r \<Rightarrow> r
     | None \<Rightarrow> \<lparr>qu_provider = name, qu_has = True, qu_requests = None, qu_tokens = None, qu_reset = None, qu_updated = None\<rparr>)"

definition save_quota_state :: "gw_env \<Rightarrow> quota_row \<Rightarrow> (gw_scope, unit) act" where
  "save_quota_state env row =
     act_bind (scope_now env) (\<lambda>now.
     act_bind (query (\<lambda>db. find (\<lambda>r. qu_provider r = qu_provider row) (gd_quotas db))) (\<lambda>ex.
       let new = row\<lparr>qu_updated := Some now\<rparr>
       in if ex = None then insert_into gd_quotas put_quotas (\<lambda>r x. qu_provider x = qu_provider r) ''quota_state'' new
          else modify (\<lambda>db. put_quotas (sql_update (\<lambda>r. qu_provider r = qu_provider row) (\<lambda>_. new) (gd_quotas db)) db)))"

definition insert_attempt :: "gw_attempt_row \<Rightarrow> (gw_scope, unit) act" where
  "insert_attempt row = insert_into gd_attempts put_attempts (\<lambda>r x. ga_id x = ga_id r) ''attempts'' row"

definition insert_receipt :: "receipt_row \<Rightarrow> (gw_scope, unit) act" where
  "insert_receipt row = insert_into gd_receipts put_receipts (\<lambda>r x. rc_id x = rc_id r) ''receipts'' row"

text \<open>Descending order of \<^verbatim>\<open>created_at\<close>; rows of the same instant in the order of the table.\<close>

definition list_receipts :: "string option \<Rightarrow> nat \<Rightarrow> (gw_scope, receipt_row list) act" where
  "list_receipts task n = query (\<lambda>db. take n (sort_key (\<lambda>r. - rc_created r)
     (filter (\<lambda>r. task = None \<or> task = Some (rc_task r)) (gd_receipts db))))"

subsection \<open>Secrets and events\<close>

definition write_secret :: "string \<Rightarrow> string \<Rightarrow> (gw_scope, unit) act" where
  "write_secret name v s = (Inr (), s\<lparr>gs_secrets := (gs_secrets s)(name := Some v)\<rparr>)"

definition world_write_secret :: "string \<Rightarrow> string \<Rightarrow> (gw_world, unit) act" where
  "world_write_secret name v w = (Inr (), w\<lparr>gw_secrets := (gw_secrets w)(name := Some v)\<rparr>)"

definition world_delete_secret :: "string \<Rightarrow> (gw_world, unit) act" where
  "world_delete_secret name w = (Inr (), w\<lparr>gw_secrets := (gw_secrets w)(name := None)\<rparr>)"

definition world_read_secret :: "string \<Rightarrow> (gw_world, string option) act" where
  "world_read_secret name w = (Inr (gw_secrets w name), w)"

definition gw_record_event :: "gw_env \<Rightarrow> event_envelope \<Rightarrow> (gw_scope, unit) act" where
  "gw_record_event env e =
     act_bind (scope_uuid env) (\<lambda>eid. act_bind (scope_now env) (\<lambda>occurred.
       case make_envelope (e\<lparr>ev_id := eid, ev_occurred_at := occurred\<rparr>) of Inl x \<Rightarrow> act_raise x
       | Inr e' \<Rightarrow> act_bind (scope_now env) (\<lambda>now. act_bind (scope_uuid env) (\<lambda>rid s.
           case record_next no_hook now rid e' None (gd_outbox (gs_db s)) of Inl x \<Rightarrow> (Inl x, s)
           | Inr (b, ob) \<Rightarrow> (Inr (), s\<lparr>gs_db := (gs_db s)\<lparr>gd_outbox := ob\<rparr>\<rparr>)))))"

end
