(* ===== verification/Gateway_Registry.thy ===== *)
theory Gateway_Registry
  imports Gateway_Store
begin

text \<open>
  The provider registry of the model gateway (\<^verbatim>\<open>application/registry.py\<close>): vendors, endpoints, credentials,
  routing rules, the model catalog. Every operation opens its own scope; secrets are written and deleted
  outside of the transaction.
\<close>

abbreviation GW_VALIDATION :: exn where "GW_VALIDATION \<equiv> DomainErr ''ModelGatewayValidationError''"
abbreviation DUPLICATE_PROVIDER :: exn where "DUPLICATE_PROVIDER \<equiv> DomainErr ''DuplicateProviderError''"
abbreviation PROVIDER_NOT_FOUND :: exn where "PROVIDER_NOT_FOUND \<equiv> DomainErr ''ProviderNotFoundError''"
abbreviation PROVIDER_IN_USE :: exn where "PROVIDER_IN_USE \<equiv> DomainErr ''ProviderInUseError''"
abbreviation RULE_NOT_FOUND :: exn where "RULE_NOT_FOUND \<equiv> DomainErr ''RuleNotFoundError''"
abbreviation RULE_CONFLICT :: exn where "RULE_CONFLICT \<equiv> DomainErr ''RuleVersionConflictError''"

definition gw_text :: "string \<Rightarrow> ('s, string) act" where
  "gw_text v = (if py_strip v = [] then act_raise GW_VALIDATION else act_return (py_strip v))"

definition slug_char :: "char \<Rightarrow> bool" where
  "slug_char c \<longleftrightarrow> is_digit c \<or> 97 \<le> (of_char c :: nat) \<and> (of_char c :: nat) \<le> 122"

fun squeeze_slug :: "bool \<Rightarrow> string \<Rightarrow> string" where
  "squeeze_slug inside [] = []"
| "squeeze_slug inside (c # cs) =
     (if slug_char c then c # squeeze_slug False cs else if inside then squeeze_slug True cs else CHR ''-'' # squeeze_slug True cs)"

definition slug :: "string \<Rightarrow> string" where
  "slug v = (let s = strip_dashes (squeeze_slug False (py_lower v)) in if s = [] then ''provider'' else s)"

definition nonempty_or :: "string option \<Rightarrow> string \<Rightarrow> string" where
  "nonempty_or v d = (case v of None \<Rightarrow> d | Some t \<Rightarrow> if t = [] then d else t)"

definition credential_secret_name :: "string \<Rightarrow> string" where
  "credential_secret_name cid = ''model_gateway/credentials/'' @ cid"

section \<open>Views\<close>

record provider_view =
  vw_row :: provider_row
  vw_endpoints :: nat
  vw_credential :: bool
  vw_models :: nat

definition view_provider :: "gw_db \<Rightarrow> provider_row \<Rightarrow> provider_view" where
  "view_provider db r = \<lparr>vw_row = r, vw_endpoints = length (filter (\<lambda>e. ep_provider e = pv_id r) (gd_endpoints db)),
     vw_credential = (newest_credential (active_credentials (pv_id r) (gd_credentials db)) \<noteq> None),
     vw_models = length (provider_models db (pv_id r))\<rparr>"

definition get_provider :: "string \<Rightarrow> (gw_world, provider_view) act" where
  "get_provider pid = gw_in_scope (
     act_bind (query (\<lambda>db. map_option (view_provider db) (find (\<lambda>r. pv_id r = pid) (gd_providers db)))) (\<lambda>v.
     act_some v PROVIDER_NOT_FOUND))"

definition list_providers :: "(gw_world, provider_view list) act" where
  "list_providers = gw_in_scope (act_bind list_provider_rows (\<lambda>rows. query (\<lambda>db. map (view_provider db) rows)))"

definition list_endpoints :: "string \<Rightarrow> (gw_world, endpoint_row list) act" where
  "list_endpoints pid = gw_in_scope (list_endpoints_for_provider pid)"

definition list_models :: "(gw_world, (model_row \<times> binding_row list) list) act" where
  "list_models = gw_in_scope (act_bind list_model_rows (\<lambda>ms.
     query (\<lambda>db. map (\<lambda>m. (m, filter (\<lambda>b. bi_model b = mo_name m) (gd_bindings db))) ms)))"

definition list_rules :: "(gw_world, rule_row list) act" where
  "list_rules = gw_in_scope (query list_rule_rows)"

section \<open>Providers\<close>

text \<open>The scope of the registration.\<close>

definition register_rows ::
  "gw_env \<Rightarrow> provider_row \<Rightarrow> endpoint_row \<Rightarrow> string option \<Rightarrow> string \<Rightarrow> (gw_scope, unit) act" where
  "register_rows env provider endpoint credential label =
     act_bind (get_provider_by_name (pv_name provider)) (\<lambda>ex.
     act_bind (act_check_that (ex = None) DUPLICATE_PROVIDER) (\<lambda>_.
     act_bind (insert_provider env provider (Some endpoint)) (\<lambda>created.
     act_bind (act_check_that created DUPLICATE_PROVIDER) (\<lambda>_.
     act_bind (case credential of None \<Rightarrow> act_return True
       | Some cid \<Rightarrow> act_bind (scope_now env) (\<lambda>now. insert_credential
           \<lparr>cr_id = cid, cr_provider = pv_id provider, cr_secret = credential_secret_name cid, cr_version = 1,
            cr_label = label, cr_created = Some now, cr_revoked = None\<rparr>)) (\<lambda>_.
     gw_commit)))))"

definition register_provider ::
  "gw_env \<Rightarrow> string \<Rightarrow> string option \<Rightarrow> string \<Rightarrow> string \<Rightarrow> string \<Rightarrow> string option \<Rightarrow> string \<Rightarrow> bool \<Rightarrow> string option
     \<Rightarrow> (gw_world, provider_view) act" where
  "register_provider env name display vendor url protocol secret label discovery endpoint_id =
     act_bind (gw_text name) (\<lambda>clean_name.
     act_bind (gw_text url) (\<lambda>clean_url.
     act_bind (gw_text protocol) (\<lambda>clean_protocol.
     act_bind (case endpoint_id of Some e \<Rightarrow> if e \<noteq> [] then act_return e
           else act_bind (world_hex env 6) (\<lambda>h. act_return (''ep-'' @ slug clean_name @ ''-'' @ h))
         | None \<Rightarrow> act_bind (world_hex env 6) (\<lambda>h. act_return (''ep-'' @ slug clean_name @ ''-'' @ h))) (\<lambda>eid.
     let pid = ''pv-'' @ slug clean_name;
         endpoint = \<lparr>ep_id = eid, ep_provider = pid, ep_base_url = clean_url, ep_protocol = clean_protocol, ep_priority = 50,
           ep_weight = 100, ep_enabled = True, ep_test = ''untested'', ep_created = None, ep_updated = None\<rparr>;
         provider = \<lparr>pv_id = pid, pv_name = clean_name, pv_display = nonempty_or display clean_name,
           pv_vendor = nonempty_or (Some vendor) ''cloud'', pv_base_url = clean_url, pv_protocol = clean_protocol,
           pv_discovery = discovery, pv_enabled = True, pv_created = None, pv_updated = None\<rparr>
     in act_bind (case truthy secret of None \<Rightarrow> act_return None
         | Some v \<Rightarrow> act_bind (world_hex env 12) (\<lambda>h. let cid = ''cred-'' @ h
             in act_bind (world_write_secret (credential_secret_name cid) v) (\<lambda>_. act_return (Some cid)))) (\<lambda>credential.
     act_bind (gw_in_scope (register_rows env provider endpoint credential label)) (\<lambda>_.
     get_provider pid))))))"

definition update_provider ::
  "gw_env \<Rightarrow> string \<Rightarrow> string option \<Rightarrow> string option \<Rightarrow> string option \<Rightarrow> bool option \<Rightarrow> (gw_world, provider_view) act" where
  "update_provider env pid display url protocol enabled =
     act_bind (gw_in_scope (
       act_bind (update_provider_row env pid display url protocol enabled) (\<lambda>r.
       act_bind (act_check_that (r \<noteq> None) PROVIDER_NOT_FOUND) (\<lambda>_. gw_commit)))) (\<lambda>_. get_provider pid)"

definition delete_provider :: "gw_env \<Rightarrow> string \<Rightarrow> bool \<Rightarrow> (gw_world, string list) act" where
  "delete_provider env pid allow_disabling = gw_in_scope (
     act_bind (get_provider_row pid) (\<lambda>p.
     act_bind (act_check_that (p \<noteq> None) PROVIDER_NOT_FOUND) (\<lambda>_.
     act_bind (canonical_models_for_provider pid) (\<lambda>models.
     act_bind (rule_ids_referencing_models models) (\<lambda>blocking.
     act_bind (if blocking \<noteq> [] \<and> allow_disabling
         then act_bind (scope_now env) (\<lambda>now. act_bind (disable_rules blocking now) (\<lambda>_. act_return (blocking, [])))
         else act_return ([], blocking)) (\<lambda>(disabled, remaining).
     act_bind (act_check_that (remaining = []) PROVIDER_IN_USE) (\<lambda>_.
     act_bind (delete_provider_rows pid) (\<lambda>_.
     act_bind gw_commit (\<lambda>_. act_return disabled)))))))))"

section \<open>Credentials and endpoints\<close>

definition rotate_rows ::
  "string \<Rightarrow> string \<Rightarrow> string \<Rightarrow> string \<Rightarrow> time \<Rightarrow> (gw_scope, credential_row \<times> credential_row option) act" where
  "rotate_rows pid cid secret label now =
     act_bind (get_provider_row pid) (\<lambda>p.
     act_bind (act_check_that (p \<noteq> None) PROVIDER_NOT_FOUND) (\<lambda>_.
     act_bind (active_credential_for_provider pid) (\<lambda>previous.
     let row = \<lparr>cr_id = cid, cr_provider = pid, cr_secret = credential_secret_name cid,
           cr_version = (case previous of None \<Rightarrow> 1 | Some c \<Rightarrow> cr_version c + 1), cr_label = label,
           cr_created = Some now, cr_revoked = None\<rparr>
     in act_bind (write_secret (cr_secret row) secret) (\<lambda>_.
     act_bind (revoke_active_credentials pid now) (\<lambda>_.
     act_bind (insert_credential row) (\<lambda>_.
     act_bind gw_commit (\<lambda>_. act_return (row, previous))))))))"

definition rotate_credential :: "gw_env \<Rightarrow> string \<Rightarrow> string \<Rightarrow> string \<Rightarrow> (gw_world, credential_row) act" where
  "rotate_credential env pid secret label =
     act_bind (act_check_that (py_strip secret \<noteq> []) GW_VALIDATION) (\<lambda>_.
     act_bind (world_hex env 12) (\<lambda>h.
     act_bind (world_now env) (\<lambda>now.
     act_bind (gw_in_scope (rotate_rows pid (''cred-'' @ h) secret label now)) (\<lambda>(row, previous).
     act_bind (case previous of None \<Rightarrow> act_return () | Some c \<Rightarrow> world_delete_secret (cr_secret c)) (\<lambda>_.
     act_return row)))))"

definition remove_credential :: "gw_env \<Rightarrow> string \<Rightarrow> (gw_world, bool) act" where
  "remove_credential env pid =
     act_bind (world_now env) (\<lambda>now.
     act_bind (gw_in_scope (
       act_bind (active_credential_for_provider pid) (\<lambda>active.
       case active of None \<Rightarrow> act_return None
       | Some c \<Rightarrow> act_bind (revoke_active_credentials pid now) (\<lambda>_. act_bind gw_commit (\<lambda>_. act_return (Some c)))))) (\<lambda>active.
     case active of None \<Rightarrow> act_return False
     | Some c \<Rightarrow> act_bind (world_delete_secret (cr_secret c)) (\<lambda>_. act_return True)))"

definition add_endpoint ::
  "gw_env \<Rightarrow> string \<Rightarrow> string \<Rightarrow> string option \<Rightarrow> int \<Rightarrow> int \<Rightarrow> (gw_world, endpoint_row) act" where
  "add_endpoint env pid url protocol priority weight =
     act_bind (gw_text url) (\<lambda>clean_url. gw_in_scope (
     act_bind (get_provider_row pid) (\<lambda>p.
     act_bind (act_some p PROVIDER_NOT_FOUND) (\<lambda>provider.
     act_bind (scope_hex env 6) (\<lambda>h.
     let row = \<lparr>ep_id = ''ep-'' @ slug (pv_name provider) @ ''-'' @ h, ep_provider = pid, ep_base_url = clean_url,
           ep_protocol = nonempty_or protocol (pv_protocol provider), ep_priority = priority, ep_weight = weight,
           ep_enabled = True, ep_test = ''untested'', ep_created = None, ep_updated = None\<rparr>
     in act_bind (insert_endpoint env row) (\<lambda>ok.
     act_bind (act_check_that ok PROVIDER_NOT_FOUND) (\<lambda>_.
     act_bind gw_commit (\<lambda>_. act_return row))))))))"

section \<open>Rules\<close>

text \<open>The arguments of \<^verbatim>\<open>upsert_rule\<close> other than the optional priority are the fields of a rule.\<close>

definition upsert_rule :: "gw_env \<Rightarrow> routing_rule \<Rightarrow> int option \<Rightarrow> int option \<Rightarrow> (gw_world, rule_row) act" where
  "upsert_rule env spec priority expected =
     act_bind (gw_text (ru_id spec)) (\<lambda>rid.
     act_bind (gw_text (ru_model spec)) (\<lambda>model. gw_in_scope (
     act_bind (get_rule rid) (\<lambda>ex.
     act_bind (act_check_that (case ex of None \<Rightarrow> True | Some r \<Rightarrow> expected = None \<or> expected = Some (ru_version r)) RULE_CONFLICT) (\<lambda>_.
     act_bind (scope_now env) (\<lambda>now.
     let row = routing_rule.extend
           (spec\<lparr>ru_id := rid, ru_model := model, ru_version := (case ex of None \<Rightarrow> 1 | Some r \<Rightarrow> ru_version r + 1),
              ru_priority := (case priority of Some p \<Rightarrow> p | None \<Rightarrow> (case ex of None \<Rightarrow> 50 | Some r \<Rightarrow> ru_priority r))\<rparr>)
           (rule_row.fields None (Some now))
     in act_bind (upsert_rule_row row) (\<lambda>saved.
     act_bind gw_commit (\<lambda>_. act_return saved))))))))"

definition delete_rule :: "string \<Rightarrow> (gw_world, bool) act" where
  "delete_rule rid =
     act_bind (gw_in_scope (act_bind (delete_rule_row rid) (\<lambda>d. act_bind gw_commit (\<lambda>_. act_return d)))) (\<lambda>deleted.
     act_bind (act_check_that deleted RULE_NOT_FOUND) (\<lambda>_. act_return True))"

section \<open>Discovery and quota\<close>

record discovered_model =
  dm_id :: string
  dm_window :: "int option"

record reconciliation =
  re_added :: "string list"
  re_updated :: "string list"
  re_unchanged :: "string list"
  re_unavailable :: "string list"

definition discovered_row :: "time \<Rightarrow> normalized_model \<Rightarrow> int option \<Rightarrow> model_row" where
  "discovered_row now n window = \<lparr>mo_name = nm_canonical n, mo_vendor = nm_vendor n, mo_family = nm_family n,
     mo_revision = nm_revision n, mo_quantization = nm_quantization n, mo_size = nm_size n, mo_fingerprint = nm_fingerprint n,
     mo_window = window, mo_capabilities = [], mo_enabled = True, mo_created = Some now, mo_updated = Some now\<rparr>"

definition discovered_binding :: "string \<Rightarrow> string \<Rightarrow> time \<Rightarrow> normalized_model \<Rightarrow> string \<Rightarrow> binding_row" where
  "discovered_binding bid eid now n model_id = \<lparr>bi_id = bid, bi_endpoint = eid, bi_model = nm_canonical n,
     bi_provider_model = model_id, bi_level = ''exact_revision'', bi_fingerprint = nm_fingerprint n, bi_pricing = ''UNKNOWN'',
     bi_priority = 50, bi_availability = ''active'', bi_active = True, bi_discovered = Some now\<rparr>"

fun sort_outcome :: "upsert_outcome \<Rightarrow> string \<Rightarrow> reconciliation \<Rightarrow> reconciliation" where
  "sort_outcome Added i r = r\<lparr>re_added := re_added r @ [i]\<rparr>"
| "sort_outcome Updated i r = r\<lparr>re_updated := re_updated r @ [i]\<rparr>"
| "sort_outcome Unchanged i r = r\<lparr>re_unchanged := re_unchanged r @ [i]\<rparr>"

fun reconcile ::
  "gw_env \<Rightarrow> string \<Rightarrow> string \<Rightarrow> time \<Rightarrow> discovered_model list \<Rightarrow> reconciliation \<Rightarrow> (gw_scope, reconciliation) act" where
  "reconcile env eid vendor now [] acc = act_return acc"
| "reconcile env eid vendor now (d # ds) acc =
     (let n = normalize_model_id (dm_id d) vendor
      in act_bind (upsert_model (discovered_row now n (dm_window d))) (\<lambda>_.
         act_bind (scope_hex env 12) (\<lambda>h.
         act_bind (upsert_binding (discovered_binding (''bnd-'' @ h) eid now n (dm_id d))) (\<lambda>outcome.
         reconcile env eid vendor now ds (sort_outcome outcome (dm_id d) acc)))))"

definition record_discovery :: "gw_env \<Rightarrow> string \<Rightarrow> discovered_model list \<Rightarrow> (gw_world, reconciliation) act" where
  "record_discovery env eid models =
     act_bind (world_now env) (\<lambda>now. gw_in_scope (
     act_bind (get_endpoint eid) (\<lambda>e.
     act_bind (act_some e PROVIDER_NOT_FOUND) (\<lambda>endpoint.
     act_bind (get_provider_row (ep_provider endpoint)) (\<lambda>p.
     act_bind (act_some p PROVIDER_NOT_FOUND) (\<lambda>provider.
     act_bind (reconcile env eid (pv_name provider) now models
       \<lparr>re_added = [], re_updated = [], re_unchanged = [], re_unavailable = []\<rparr>) (\<lambda>acc.
     act_bind (mark_unavailable_bindings eid (map dm_id models)) (\<lambda>gone.
     act_bind gw_commit (\<lambda>_. act_return (acc\<lparr>re_unavailable := gone\<rparr>))))))))))"

definition record_quota ::
  "gw_env \<Rightarrow> string \<Rightarrow> bool \<Rightarrow> int option \<Rightarrow> int option \<Rightarrow> time option \<Rightarrow> (gw_world, unit) act" where
  "record_quota env name has requests tokens reset = gw_in_scope (
     act_bind (scope_now env) (\<lambda>now.
     act_bind (save_quota_state env \<lparr>qu_provider = name, qu_has = has, qu_requests = requests, qu_tokens = tokens,
       qu_reset = reset, qu_updated = Some now\<rparr>) (\<lambda>_. gw_commit)))"

end
