(* ===== verification/Gateway_Locks.thy ===== *)
theory Gateway_Locks
  imports Gateway_Registry
begin

text \<open>
  The route lock service (\<^verbatim>\<open>application/route_locks.py\<close>) with its events (\<^verbatim>\<open>application/events.py\<close>): which canonical
  model serves a scope, and until when.
\<close>

abbreviation NO_MATCHING_RULE :: exn where "NO_MATCHING_RULE \<equiv> DomainErr ''NoMatchingRuleError''"
abbreviation MODEL_DISABLED :: exn where "MODEL_DISABLED \<equiv> DomainErr ''CanonicalModelDisabledError''"
abbreviation LOCK_NOT_FOUND :: exn where "LOCK_NOT_FOUND \<equiv> DomainErr ''RouteLockNotFoundError''"

section \<open>Events\<close>

definition route_event :: "string \<Rightarrow> route_lock \<Rightarrow> (string \<times> string) list \<Rightarrow> event_envelope" where
  "route_event ty l extra =
     \<lparr>ev_type = ty, ev_aggregate_type = ''route_lock'', ev_aggregate_id = lk_id l, ev_sequence = 0,
      ev_payload = PMap False ([(PStr ''lock_id'', PStr (lk_id l)), (PStr ''scope_type'', PStr (lk_scope_type l)),
        (PStr ''scope_id'', PStr (lk_scope l)), (PStr ''canonical_model_id'', PStr (lk_model l)),
        (PStr ''rule_id'', PStr (sn_rule (lk_snapshot l))), (PStr ''rule_version'', PInt (sn_version (lk_snapshot l))),
        (PStr ''is_fallback'', PBool (lk_fallback l))] @ map (\<lambda>(k, v). (PStr k, PStr v)) extra),
      ev_id = [], ev_version = 1, ev_occurred_at = 0, ev_actor_id = None, ev_correlation_id = None, ev_causation_id = None\<rparr>"

definition route_locked :: "route_lock \<Rightarrow> event_envelope" where
  "route_locked l = route_event ''model_gateway.route.locked'' l [(''reason'', sn_reason (lk_snapshot l))]"

definition route_reused :: "route_lock \<Rightarrow> event_envelope" where
  "route_reused l = route_event ''model_gateway.route.reused'' l []"

definition route_released :: "route_lock \<Rightarrow> event_envelope" where
  "route_released l = route_event ''model_gateway.route.released'' l []"

definition model_reselected :: "route_lock \<Rightarrow> string \<Rightarrow> event_envelope" where
  "model_reselected l reason = route_event ''model_gateway.model.reselected'' l [(''reason'', reason)]"

definition route_fallback_created :: "route_lock \<Rightarrow> string \<Rightarrow> event_envelope" where
  "route_fallback_created l source = route_event ''model_gateway.route.fallback'' l
     [(''source_lock_id'', source), (''reason'', sn_reason (lk_snapshot l))]"

section \<open>Operations\<close>

definition valid_scope_types :: "string list" where
  "valid_scope_types = [''session'', ''task'', ''workflow'']"

definition validated_scope :: "string \<Rightarrow> string \<Rightarrow> ('s, string \<times> string) act" where
  "validated_scope ty sid =
     (let t = py_strip (if ty = [] then ''session'' else ty); i = py_strip sid
      in if i = [] then act_raise GW_VALIDATION
         else if t \<notin> set valid_scope_types then act_raise GW_VALIDATION else act_return (t, i))"

definition ruleset_of :: "gw_db \<Rightarrow> routing_rule list" where
  "ruleset_of db = map to_domain_rule (list_rule_rows db)"

definition current_ruleset :: "(gw_world, routing_rule list) act" where
  "current_ruleset = gw_in_scope (query ruleset_of)"

text \<open>Inside an open scope the rules come from a scope of their own: they are the committed ones.\<close>

definition committed_ruleset :: "(gw_scope, routing_rule list) act" where
  "committed_ruleset s = (Inr (ruleset_of (gs_stored s)), s)"

definition rule_reason :: "routing_rule \<Rightarrow> string" where
  "rule_reason r = (if ru_description r \<noteq> [] then ru_description r else ''matched rule '' @ ru_id r)"

definition lock_for_rule :: "string \<Rightarrow> string \<Rightarrow> string \<Rightarrow> routing_rule \<Rightarrow> rat \<Rightarrow> route_lock" where
  "lock_for_rule i ty sid r now = \<lparr>lk_id = i, lk_scope_type = ty, lk_scope = sid, lk_model = ru_model r,
     lk_snapshot = \<lparr>sn_rule = ru_id r, sn_version = ru_version r, sn_model = ru_model r, sn_selected = now, sn_reason = rule_reason r\<rparr>,
     lk_status = LOCK_ACTIVE, lk_created = now, lk_released = None, lk_reselections = 0, lk_fallback = False, lk_source = None\<rparr>"

text \<open>The scope of \<^verbatim>\<open>resolve_or_create_lock\<close>.\<close>

definition resolve_rows :: "gw_env \<Rightarrow> match_context \<Rightarrow> string \<Rightarrow> string \<Rightarrow> (gw_scope, route_lock) act" where
  "resolve_rows env ctx ty sid =
     act_bind (get_active_route_lock ty sid) (\<lambda>existing. case existing of
       Some l \<Rightarrow> act_bind (gw_record_event env (route_reused l)) (\<lambda>_. act_bind gw_commit (\<lambda>_. act_return l))
     | None \<Rightarrow>
         act_bind committed_ruleset (\<lambda>rules.
         act_bind (act_some (find_first_match rules ctx) NO_MATCHING_RULE) (\<lambda>rule.
         act_bind (get_model (ru_model rule)) (\<lambda>model.
         act_bind (act_check_that (case model of None \<Rightarrow> True | Some m \<Rightarrow> mo_enabled m) MODEL_DISABLED) (\<lambda>_.
         act_bind (scope_now env) (\<lambda>now.
         act_bind (scope_uuid env) (\<lambda>i.
         let l = lock_for_rule i ty sid rule (timestamp now)
         in act_bind (record_route_lock env l) (\<lambda>created.
           if created then act_bind (gw_record_event env (route_locked l)) (\<lambda>_. act_bind gw_commit (\<lambda>_. act_return l))
           else act_bind (get_active_route_lock ty sid) (\<lambda>winner.
             act_bind (act_some winner NO_MATCHING_RULE) (\<lambda>x. act_bind gw_commit (\<lambda>_. act_return x)))))))))))"

definition resolve_or_create_lock :: "gw_env \<Rightarrow> match_context \<Rightarrow> (gw_world, route_lock) act" where
  "resolve_or_create_lock env ctx =
     act_bind (validated_scope (mc_scope_type ctx) (mc_scope_id ctx)) (\<lambda>(ty, sid). gw_in_scope (resolve_rows env ctx ty sid))"

definition fallback_lock :: "string \<Rightarrow> string \<Rightarrow> string \<Rightarrow> string \<Rightarrow> string \<Rightarrow> string \<Rightarrow> rat \<Rightarrow> route_lock" where
  "fallback_lock i ty sid model reason source now = \<lparr>lk_id = i, lk_scope_type = ty, lk_scope = sid, lk_model = model,
     lk_snapshot = \<lparr>sn_rule = ''fallback'', sn_version = 0, sn_model = model, sn_selected = now, sn_reason = reason\<rparr>,
     lk_status = LOCK_ACTIVE, lk_created = now, lk_released = None, lk_reselections = 0, lk_fallback = True, lk_source = Some source\<rparr>"

definition create_fallback_lock ::
  "gw_env \<Rightarrow> string \<Rightarrow> string \<Rightarrow> string \<Rightarrow> string \<Rightarrow> string \<Rightarrow> (gw_world, route_lock) act" where
  "create_fallback_lock env ty sid model reason source =
     act_bind (act_check_that (ty \<in> set valid_scope_types) GW_VALIDATION) (\<lambda>_.
     act_bind (world_now env) (\<lambda>now.
     act_bind (world_uuid env) (\<lambda>i.
     let l = fallback_lock i ty sid model reason source (timestamp now)
     in gw_in_scope (
       act_bind (record_route_lock env l) (\<lambda>_.
       act_bind (gw_record_event env (route_fallback_created l source)) (\<lambda>_.
       act_bind gw_commit (\<lambda>_. act_return l)))))))"

definition release_lock :: "gw_env \<Rightarrow> string \<Rightarrow> (gw_world, route_lock) act" where
  "release_lock env i = gw_in_scope (
     act_bind (get_route_lock i) (\<lambda>found.
     act_bind (act_some found LOCK_NOT_FOUND) (\<lambda>l.
     act_bind (act_check_that (lk_status l = LOCK_ACTIVE) LOCK_NOT_FOUND) (\<lambda>_.
     act_bind (scope_now env) (\<lambda>at_time.
     act_bind (release_route_lock i at_time) (\<lambda>ok.
     act_bind (act_check_that ok LOCK_NOT_FOUND) (\<lambda>_.
     act_bind (scope_now env) (\<lambda>now.
     let r = l\<lparr>lk_status := LOCK_RELEASED, lk_released := Some (timestamp now)\<rparr>
     in act_bind (gw_record_event env (route_released r)) (\<lambda>_.
        act_bind gw_commit (\<lambda>_. act_return r))))))))))"

definition get_active_lock :: "string \<Rightarrow> string \<Rightarrow> (gw_world, route_lock option) act" where
  "get_active_lock ty sid = act_bind (validated_scope ty sid) (\<lambda>(t, i). gw_in_scope (get_active_route_lock t i))"

definition get_lock :: "string \<Rightarrow> (gw_world, route_lock option) act" where
  "get_lock i = gw_in_scope (get_route_lock i)"

definition reselect_model :: "gw_env \<Rightarrow> string \<Rightarrow> string \<Rightarrow> match_context \<Rightarrow> string \<Rightarrow> (gw_world, route_lock) act" where
  "reselect_model env ty sid ctx reason =
     act_bind (get_active_lock ty sid) (\<lambda>active.
     act_bind (act_some active LOCK_NOT_FOUND) (\<lambda>l.
     act_bind (release_lock env (lk_id l)) (\<lambda>_.
     act_bind (resolve_or_create_lock env ctx) (\<lambda>replacement.
     act_bind (gw_in_scope (act_bind (gw_record_event env (model_reselected replacement reason)) (\<lambda>_. gw_commit))) (\<lambda>_.
     act_return replacement)))))"

end
