(* ===== verification/Gateway_Invocation.thy ===== *)
theory Gateway_Invocation
  imports Gateway_Locks
begin

text \<open>
  The execution side of the model gateway: the selector (\<^verbatim>\<open>application/selector.py\<close>), the failover loop of the
  coordinator (\<^verbatim>\<open>application/coordinator.py\<close>) and the facade with its fallback and its receipts
  (\<^verbatim>\<open>application/gateway.py\<close>). The adapters talk to external services: what a call of one returns is a parameter, a
  function of the call and of how much was drawn before. A raised \<^verbatim>\<open>ProviderFailure\<close> is the left value of the result.
\<close>

section \<open>Requests, responses, adapters\<close>

record provider_request =
  rq_model :: string
  rq_messages :: pyobj
  rq_prompt :: string
  rq_system :: "string option"
  rq_temperature :: "rat option"
  rq_top_p :: "rat option"
  rq_seed :: "int option"
  rq_max_output :: "int option"
  rq_stop :: "string list"
  rq_tools :: pyobj
  rq_tool_choice :: pyobj
  rq_schema :: pyobj
  rq_images :: pyobj
  rq_timeout :: rat

record provider_usage =
  us_prompt :: int
  us_completion :: int
  us_cached :: int
  us_reasoning :: int

definition no_tokens :: provider_usage where
  "no_tokens = \<lparr>us_prompt = 0, us_completion = 0, us_cached = 0, us_reasoning = 0\<rparr>"

record provider_response =
  rs_model :: string
  rs_text :: "string option"
  rs_tool_calls :: pyobj
  rs_finish :: string
  rs_usage :: provider_usage
  rs_latency :: rat

datatype stream_event_type = TOKEN | THINKING_DELTA | TOOL_CALL_DELTA | METADATA | STREAM_ERROR | DONE

record stream_event =
  se_type :: stream_event_type
  se_delta :: "string option"
  se_usage :: "provider_usage option"
  se_error :: "string option"

definition error_event :: "string \<Rightarrow> stream_event" where
  "error_event msg = \<lparr>se_type = STREAM_ERROR, se_delta = None, se_usage = None, se_error = Some msg\<rparr>"

text \<open>An adapter: the normalized protocol, the address and the revealed key it was built with.\<close>

record adapter =
  ad_protocol :: string
  ad_base_url :: string
  ad_key :: "string option"

definition supported_protocols :: "string list" where
  "supported_protocols = [''openai'', ''openai_compatible'', ''openrouter'', ''mistral'', ''nvidia'', ''ollama'', ''anthropic'',
     ''google'', ''gemini'']"

text \<open>The factory; the local adapter takes no key, an unknown protocol is an invalid request.\<close>

definition resolve_adapter :: "string \<Rightarrow> string \<Rightarrow> string option \<Rightarrow> provider_failure + adapter" where
  "resolve_adapter protocol url key =
     (let mode = py_lower (py_strip (if protocol = [] then ''openai'' else protocol))
      in if mode \<in> set supported_protocols
         then Inr \<lparr>ad_protocol = mode, ad_base_url = url, ad_key = (if mode = ''ollama'' then None else key)\<rparr>
         else Inl (make_failure InvalidRequestFailure (''unsupported provider protocol mode: '' @ py_repr protocol) None None))"

record providers_env =
  pe_generate :: "nat \<Rightarrow> adapter \<Rightarrow> provider_request \<Rightarrow> string \<Rightarrow> provider_failure + provider_response"
  pe_stream :: "nat \<Rightarrow> adapter \<Rightarrow> provider_request \<Rightarrow> string \<Rightarrow> stream_event list \<times> provider_failure option"

definition adapter_generate ::
  "providers_env \<Rightarrow> adapter \<Rightarrow> provider_request \<Rightarrow> string \<Rightarrow> (gw_world, provider_failure + provider_response) act" where
  "adapter_generate pe a req model w = (Inr (pe_generate pe (gw_tick w) a req model), w\<lparr>gw_tick := Suc (gw_tick w)\<rparr>)"

definition adapter_stream ::
  "providers_env \<Rightarrow> adapter \<Rightarrow> provider_request \<Rightarrow> string \<Rightarrow> (gw_world, stream_event list \<times> provider_failure option) act" where
  "adapter_stream pe a req model w = (Inr (pe_stream pe (gw_tick w) a req model), w\<lparr>gw_tick := Suc (gw_tick w)\<rparr>)"

section \<open>Selection\<close>

definition candidate_of :: "gw_db \<Rightarrow> selectable_binding \<Rightarrow> endpoint_candidate" where
  "candidate_of db b =
     (let (score, components) = score_candidate (Some (qu_has (quota_of db (sb_provider_name b))))
      in \<lparr>ec_endpoint = sb_endpoint b, ec_binding = sb_binding b, ec_provider = sb_provider_name b, ec_model = sb_model b,
          ec_base_url = sb_base_url b, ec_protocol = sb_protocol b, ec_credential = sb_secret b, ec_score = score,
          ec_components = components\<rparr>)"

definition survives :: "gw_db \<Rightarrow> time \<Rightarrow> selectable_binding \<Rightarrow> bool" where
  "survives db now b \<longleftrightarrow> binding_is_selectable (sb_endpoint_enabled b \<and> sb_binding_enabled b) (sb_level b) (sb_has_credential b)
     (sb_protocol b) (is_available (endpoint_state_of db (sb_endpoint b)) now)"

definition select_candidates :: "gw_db \<Rightarrow> string \<Rightarrow> time \<Rightarrow> endpoint_candidate list" where
  "select_candidates db model now =
     sort_key (\<lambda>c. - ec_score c) (map (candidate_of db) (filter (survives db now) (selectable_bindings db model)))"

definition exhausted :: provider_failure where
  "exhausted = make_failure SameModelEndpointExhausted
     ''All exact-equivalent endpoints for the locked canonical model are exhausted'' None None"

definition top_candidate :: "gw_env \<Rightarrow> string \<Rightarrow> (gw_world, provider_failure + endpoint_candidate) act" where
  "top_candidate env model = gw_in_scope (
     act_bind (scope_now env) (\<lambda>now.
     query (\<lambda>db. case select_candidates db model now of [] \<Rightarrow> Inl exhausted | c # _ \<Rightarrow> Inr c)))"

section \<open>The failover loop\<close>

record completion =
  cm_response :: provider_response
  cm_model :: string
  cm_lock :: string
  cm_rule :: string
  cm_version :: int
  cm_provider :: string
  cm_provider_model :: string
  cm_endpoint :: string
  cm_binding :: string
  cm_attempts :: nat
  cm_fallback :: bool
  cm_reason :: "string option"

definition adapter_for :: "endpoint_candidate \<Rightarrow> (gw_world, provider_failure + adapter) act" where
  "adapter_for c =
     act_bind (case truthy (ec_credential c) of None \<Rightarrow> act_return None | Some n \<Rightarrow> world_read_secret n) (\<lambda>key.
     act_return (resolve_adapter (ec_protocol c) (ec_base_url c) key))"

definition attempt_id :: "time \<Rightarrow> string \<Rightarrow> nat \<Rightarrow> string" where
  "attempt_id now eid i = ''att-'' @ show_int (round_half_even (timestamp now)) @ ''-'' @ eid @ ''-'' @ show_nat i"

definition latency_ms :: "time \<Rightarrow> time \<Rightarrow> rat" where
  "latency_ms now started = of_int (now - started) / 1000"

definition record_success ::
  "gw_env \<Rightarrow> route_lock \<Rightarrow> endpoint_candidate \<Rightarrow> provider_usage \<Rightarrow> nat \<Rightarrow> time \<Rightarrow> (gw_world, unit) act" where
  "record_success env l c usage i started =
     act_bind (world_now env) (\<lambda>now. gw_in_scope (
     act_bind (get_endpoint_state (ec_endpoint c)) (\<lambda>st.
     act_bind (save_endpoint_state (ec_endpoint c) (after_success st now (latency_ms now started))) (\<lambda>_.
     act_bind (insert_attempt \<lparr>ga_id = attempt_id now (ec_endpoint c) i, ga_lock = lk_id l, ga_endpoint = ec_endpoint c,
       ga_binding = ec_binding c, ga_index = int i, ga_status = ''success'', ga_error = None, ga_http = None, ga_started = started,
       ga_finished = now, ga_prompt_tokens = us_prompt usage, ga_completion_tokens = us_completion usage,
       ga_latency = latency_ms now started\<rparr>) (\<lambda>_.
     gw_commit)))))"

definition transient :: "failure_class \<Rightarrow> bool" where
  "transient c \<longleftrightarrow> failure_kind c \<in> {failure_kind ProviderUnavailableFailure, failure_kind NetworkFailure, failure_kind TimeoutFailure}"

text \<open>
  The instant until which a failure cools its endpoint down. \<^verbatim>\<open>float(str(x))\<close> of a number is that number, so the
  header of the rate limit is its value; \<^verbatim>\<open>timedelta\<close> rejects what is not finite.
\<close>

definition cooldown_deadline :: "time \<Rightarrow> nat \<Rightarrow> provider_failure \<Rightarrow> exn + time option" where
  "cooldown_deadline now i f =
     (if pf_class f = RateLimitFailure
      then (case ceiling_min (case pf_retry_after f of None \<Rightarrow> retry_after_seconds_from_headers None | Some x \<Rightarrow> x) of
              Finite q \<Rightarrow> Inr (Some (now + timedelta_us q))
            | NaN \<Rightarrow> Inl (ValueError ''cannot convert float NaN to integer'')
            | _ \<Rightarrow> Inl OverflowError)
      else if transient (pf_class f)
      then (case calculate_backoff_cooldown_seconds i 1 of Inl e \<Rightarrow> Inl e | Inr q \<Rightarrow> Inr (Some (now + timedelta_us q)))
      else Inr None)"

definition record_failure ::
  "gw_env \<Rightarrow> circuit_policy \<Rightarrow> route_lock \<Rightarrow> endpoint_candidate \<Rightarrow> nat \<Rightarrow> provider_failure \<Rightarrow> time \<Rightarrow> (gw_world, unit) act" where
  "record_failure env p l c i f started =
     act_bind (world_now env) (\<lambda>now.
     act_bind (act_lift (cooldown_deadline now i f)) (\<lambda>cooldown. gw_in_scope (
     act_bind (get_endpoint_state (ec_endpoint c)) (\<lambda>st.
     act_bind (save_endpoint_state (ec_endpoint c) (after_failure p st now (failure_kind (pf_class f)) cooldown)) (\<lambda>_.
     act_bind (scope_now env) (\<lambda>finished.
     act_bind (insert_attempt \<lparr>ga_id = attempt_id now (ec_endpoint c) i, ga_lock = lk_id l, ga_endpoint = ec_endpoint c,
       ga_binding = ec_binding c, ga_index = int i, ga_status = ''failed'', ga_error = Some (failure_kind (pf_class f)),
       ga_http = pf_status f, ga_started = started, ga_finished = finished, ga_prompt_tokens = 0, ga_completion_tokens = 0,
       ga_latency = latency_ms now started\<rparr>) (\<lambda>_.
     gw_commit)))))))"

definition completed_by :: "route_lock \<Rightarrow> endpoint_candidate \<Rightarrow> provider_response \<Rightarrow> nat \<Rightarrow> completion" where
  "completed_by l c r i = \<lparr>cm_response = r, cm_model = lk_model l, cm_lock = lk_id l, cm_rule = sn_rule (lk_snapshot l),
     cm_version = sn_version (lk_snapshot l), cm_provider = ec_provider c, cm_provider_model = ec_model c,
     cm_endpoint = ec_endpoint c, cm_binding = ec_binding c, cm_attempts = i + 1, cm_fallback = False, cm_reason = None\<rparr>"

text \<open>The loop with the attempts that are left; \<^verbatim>\<open>attempt_index\<close> is \<open>i\<close>.\<close>

fun execute_loop ::
  "gw_env \<Rightarrow> providers_env \<Rightarrow> circuit_policy \<Rightarrow> provider_request \<Rightarrow> route_lock \<Rightarrow> nat \<Rightarrow> nat
     \<Rightarrow> (gw_world, provider_failure + completion) act" where
  "execute_loop env pe p req l 0 i = act_return (Inl exhausted)"
| "execute_loop env pe p req l (Suc n) i =
     act_bind (top_candidate env (lk_model l)) (\<lambda>top. case top of Inl f \<Rightarrow> act_return (Inl f)
     | Inr c \<Rightarrow>
         act_bind (adapter_for c) (\<lambda>built. case built of Inl f \<Rightarrow> act_return (Inl f) | Inr a \<Rightarrow>
         act_bind (world_now env) (\<lambda>started.
         act_bind (adapter_generate pe a req (ec_model c)) (\<lambda>answer. case answer of
           Inl f \<Rightarrow> act_bind (record_failure env p l c i f started) (\<lambda>_.
             if at_decision (classify_failure (pf_class f) i 1) = STOP then act_return (Inl f)
             else execute_loop env pe p req l n (Suc i))
         | Inr r \<Rightarrow> act_bind (record_success env l c (rs_usage r) i started) (\<lambda>_.
             act_return (Inr (completed_by l c r i)))))))"

definition execute_request ::
  "gw_env \<Rightarrow> providers_env \<Rightarrow> circuit_policy \<Rightarrow> provider_request \<Rightarrow> route_lock \<Rightarrow> nat
     \<Rightarrow> (gw_world, provider_failure + completion) act" where
  "execute_request env pe p req l max_attempts = execute_loop env pe p req l max_attempts 0"

definition final_usage :: "stream_event list \<Rightarrow> provider_usage" where
  "final_usage es = (case rev (filter (\<lambda>e. se_type e = DONE) es) of [] \<Rightarrow> no_tokens
     | e # _ \<Rightarrow> (case se_usage e of None \<Rightarrow> no_tokens | Some u \<Rightarrow> u))"

text \<open>The stream that the consumer sees when it reads to the end: the events yielded, or the failure raised.\<close>

fun stream_loop ::
  "gw_env \<Rightarrow> providers_env \<Rightarrow> circuit_policy \<Rightarrow> provider_request \<Rightarrow> route_lock \<Rightarrow> nat \<Rightarrow> nat
     \<Rightarrow> (gw_world, provider_failure + stream_event list) act" where
  "stream_loop env pe p req l 0 i = act_return (Inl exhausted)"
| "stream_loop env pe p req l (Suc n) i =
     act_bind (top_candidate env (lk_model l)) (\<lambda>top. case top of Inl f \<Rightarrow> act_return (Inl f)
     | Inr c \<Rightarrow>
         act_bind (adapter_for c) (\<lambda>built. case built of Inl f \<Rightarrow> act_return (Inl f) | Inr a \<Rightarrow>
         act_bind (world_now env) (\<lambda>started.
         act_bind (adapter_stream pe a req (ec_model c)) (\<lambda>(events, failure). case failure of
           Some f \<Rightarrow> act_bind (record_failure env p l c i f started) (\<lambda>_.
             if events \<noteq> [] \<or> at_decision (classify_failure (pf_class f) i 1) = STOP
             then act_return (Inr (events @ [error_event (pf_message f)]))
             else stream_loop env pe p req l n (Suc i))
         | None \<Rightarrow> act_bind (record_success env l c (final_usage events) i started) (\<lambda>_. act_return (Inr events))))))"

definition execute_stream ::
  "gw_env \<Rightarrow> providers_env \<Rightarrow> circuit_policy \<Rightarrow> provider_request \<Rightarrow> route_lock \<Rightarrow> nat
     \<Rightarrow> (gw_world, provider_failure + stream_event list) act" where
  "execute_stream env pe p req l max_attempts = stream_loop env pe p req l max_attempts 0"

section \<open>The facade\<close>

definition DEFAULT_MAX_ATTEMPTS :: nat where
  "DEFAULT_MAX_ATTEMPTS = 5"

record invocation =
  iv_task :: string
  iv_role :: "string option"
  iv_context :: match_context
  iv_request :: provider_request

definition fallback_eligible :: "string \<Rightarrow> bool" where
  "fallback_eligible k \<longleftrightarrow> k \<in> {failure_kind NetworkFailure, failure_kind TimeoutFailure, failure_kind ProviderUnavailableFailure,
     failure_kind RateLimitFailure, failure_kind SameModelEndpointExhausted}"

definition provider_request_of :: "invocation \<Rightarrow> provider_request" where
  "provider_request_of iv = (iv_request iv)\<lparr>rq_model := []\<rparr>"

definition rule_for :: "route_lock \<Rightarrow> (gw_world, routing_rule option) act" where
  "rule_for l =
     (if sn_rule (lk_snapshot l) = ''fallback'' then act_return None
      else act_bind (gw_in_scope (get_rule (sn_rule (lk_snapshot l)))) (\<lambda>r. act_return (map_option to_domain_rule r)))"

definition receipt_of :: "string \<Rightarrow> time \<Rightarrow> invocation \<Rightarrow> route_lock \<Rightarrow> completion option \<Rightarrow> string option \<Rightarrow> receipt_row" where
  "receipt_of rid now iv l res reason =
     \<lparr>rc_id = rid, rc_task = iv_task iv, rc_role = iv_role iv, rc_lock = lk_id l, rc_rule = sn_rule (lk_snapshot l),
      rc_version = sn_version (lk_snapshot l), rc_provider = (case res of None \<Rightarrow> [] | Some c \<Rightarrow> cm_provider c),
      rc_model = (case res of None \<Rightarrow> lk_model l | Some c \<Rightarrow> cm_model c),
      rc_provider_model = (case res of None \<Rightarrow> [] | Some c \<Rightarrow> cm_provider_model c),
      rc_endpoint = (case res of None \<Rightarrow> [] | Some c \<Rightarrow> cm_endpoint c),
      rc_fallback = (case res of None \<Rightarrow> lk_fallback l | Some c \<Rightarrow> cm_fallback c),
      rc_reason = (case reason of Some t \<Rightarrow> Some t | None \<Rightarrow> if lk_fallback l then Some (sn_reason (lk_snapshot l)) else None),
      rc_status = (if res = None then ''failed'' else ''success''),
      rc_error = (if res \<noteq> None then None else Some (nonempty_or reason ''unknown'')),
      rc_started = now, rc_completed = now, rc_created = now\<rparr>"

definition record_receipt ::
  "gw_env \<Rightarrow> invocation \<Rightarrow> route_lock \<Rightarrow> completion option \<Rightarrow> string option \<Rightarrow> (gw_world, unit) act" where
  "record_receipt env iv l res reason = act_swallow (
     act_bind (world_now env) (\<lambda>now.
     act_bind (world_hex env 12) (\<lambda>h. gw_in_scope (
     act_bind (insert_receipt (receipt_of (''rcpt-'' @ h) now iv l res reason)) (\<lambda>_. gw_commit)))))"

definition invoke_fallback ::
  "gw_env \<Rightarrow> providers_env \<Rightarrow> circuit_policy \<Rightarrow> invocation \<Rightarrow> route_lock \<Rightarrow> string \<Rightarrow> provider_failure
     \<Rightarrow> (gw_world, provider_failure + completion) act" where
  "invoke_fallback env pe p iv l model f =
     act_bind (create_fallback_lock env (lk_scope_type l) (lk_scope l) model
       (''fallback after '' @ failure_kind (pf_class f) @ '': '' @ pf_message f) (lk_id l)) (\<lambda>fl.
     act_bind (execute_request env pe p (provider_request_of iv) fl DEFAULT_MAX_ATTEMPTS) (\<lambda>second. case second of
       Inl f2 \<Rightarrow> act_bind (record_receipt env iv l None (Some (failure_kind (pf_class f2)))) (\<lambda>_.
         act_raise (DomainErr ''ModelInvocationFailed''))
     | Inr c \<Rightarrow>
         let res = c\<lparr>cm_fallback := True, cm_reason := Some (failure_kind (pf_class f)), cm_model := lk_model fl,
               cm_lock := lk_id fl, cm_rule := sn_rule (lk_snapshot fl), cm_version := sn_version (lk_snapshot fl)\<rparr>
         in act_bind (record_receipt env iv fl (Some res) (Some (failure_kind (pf_class f)))) (\<lambda>_. act_return (Inr res))))"

definition invoke ::
  "gw_env \<Rightarrow> providers_env \<Rightarrow> circuit_policy \<Rightarrow> invocation \<Rightarrow> (gw_world, provider_failure + completion) act" where
  "invoke env pe p iv =
     act_bind (act_check_that (py_strip (iv_task iv) \<noteq> []) GW_VALIDATION) (\<lambda>_.
     act_bind (resolve_or_create_lock env (iv_context iv)) (\<lambda>l.
     act_bind (rule_for l) (\<lambda>rule.
     act_bind (execute_request env pe p (provider_request_of iv) l DEFAULT_MAX_ATTEMPTS) (\<lambda>first. case first of
       Inr res \<Rightarrow> act_bind (record_receipt env iv l (Some res) None) (\<lambda>_. act_return (Inr res))
     | Inl f \<Rightarrow>
         (case (if fallback_eligible (failure_kind (pf_class f)) then truthy (Option.bind rule ru_fallback) else None) of
            None \<Rightarrow> act_bind (record_receipt env iv l None (Some (failure_kind (pf_class f)))) (\<lambda>_. act_return (Inl f))
          | Some model \<Rightarrow> invoke_fallback env pe p iv l model f)))))"

record route_decision =
  rd_rule :: string
  rd_version :: int
  rd_model :: string
  rd_fallback :: "string option"
  rd_reason :: string
  rd_candidates :: "endpoint_candidate list"

definition simulate :: "gw_env \<Rightarrow> match_context \<Rightarrow> (gw_world, route_decision) act" where
  "simulate env ctx =
     act_bind current_ruleset (\<lambda>rules.
     act_bind (act_some (find_first_match rules ctx) NO_MATCHING_RULE) (\<lambda>rule.
     act_bind (gw_in_scope (get_model (ru_model rule))) (\<lambda>model.
     act_bind (act_check_that (case model of None \<Rightarrow> True | Some m \<Rightarrow> mo_enabled m) MODEL_DISABLED) (\<lambda>_.
     act_bind (gw_in_scope (act_bind (scope_now env) (\<lambda>now. query (\<lambda>db. select_candidates db (ru_model rule) now)))) (\<lambda>cs.
     act_return \<lparr>rd_rule = ru_id rule, rd_version = ru_version rule, rd_model = ru_model rule, rd_fallback = ru_fallback rule,
       rd_reason = rule_reason rule, rd_candidates = cs\<rparr>)))))"

end
