(* ===== verification/Gateway_Invariant.thy ===== *)
theory Gateway_Invariant
  imports Gateway_Invocation
begin

text \<open>
  The consistency of the gateway's tables, and that every statement keeps it: keys are unique, rows refer to rows that
  exist, a provider has at most one active credential and the secret of an active credential is stored, a scope has at most
  one active lock. \<open>K\<close> is a further condition on the lock table, which the lemmas carry along; the properties
  instantiate it with what must not change while a lock is held. \<open>keeps\<close> composes statements that keep the invariant by
  themselves, \<open>tri\<close> those that do because of what was read before.
\<close>

section \<open>The invariant\<close>

definition unique :: "('r \<Rightarrow> 'k) \<Rightarrow> 'r list \<Rightarrow> bool" where
  "unique key rows \<longleftrightarrow> distinct (map key rows)"

definition refers :: "('r \<Rightarrow> 'k) \<Rightarrow> 'r list \<Rightarrow> ('s \<Rightarrow> 'k) \<Rightarrow> 's list \<Rightarrow> bool" where
  "refers ref rows key targets \<longleftrightarrow> ref ` set rows \<subseteq> key ` set targets"

definition is_active :: "credential_row \<Rightarrow> bool" where
  "is_active c \<longleftrightarrow> cr_revoked c = None"

definition secrets_kept :: "secrets \<Rightarrow> credential_row list \<Rightarrow> bool" where
  "secrets_kept sec rows \<longleftrightarrow> (\<forall>c \<in> set rows. is_active c \<longrightarrow> sec (cr_secret c) \<noteq> None)"

definition credentials_ok :: "secrets \<Rightarrow> credential_row list \<Rightarrow> bool" where
  "credentials_ok sec rows \<longleftrightarrow> unique cr_id rows \<and> unique cr_secret rows \<and> unique cr_provider (filter is_active rows) \<and> secrets_kept sec rows"

definition lock_scope :: "route_lock \<Rightarrow> string \<times> string" where
  "lock_scope l = (lk_scope_type l, lk_scope l)"

definition lock_active :: "route_lock \<Rightarrow> bool" where
  "lock_active l \<longleftrightarrow> lk_status l = LOCK_ACTIVE"

definition lock_ok :: "route_lock \<Rightarrow> bool" where
  "lock_ok l \<longleftrightarrow> lk_scope_type l \<in> set valid_scope_types \<and> sn_model (lk_snapshot l) = lk_model l \<and> (lock_active l \<longleftrightarrow> lk_released l = None)"

definition locks_ok :: "route_lock list \<Rightarrow> bool" where
  "locks_ok ls \<longleftrightarrow> unique lk_id ls \<and> unique lock_scope (filter lock_active ls) \<and> list_all lock_ok ls"

definition gw_sound :: "(route_lock list \<Rightarrow> bool) \<Rightarrow> secrets \<Rightarrow> gw_db \<Rightarrow> bool" where
  "gw_sound K sec db \<longleftrightarrow>
     unique pv_id (gd_providers db) \<and> unique pv_name (gd_providers db)
   \<and> unique ep_id (gd_endpoints db) \<and> refers ep_provider (gd_endpoints db) pv_id (gd_providers db)
   \<and> credentials_ok sec (gd_credentials db) \<and> refers cr_provider (gd_credentials db) pv_id (gd_providers db)
   \<and> unique mo_name (gd_models db)
   \<and> unique bi_id (gd_bindings db) \<and> unique (\<lambda>b. (bi_endpoint b, bi_model b)) (gd_bindings db)
   \<and> unique ru_id (gd_rules db)
   \<and> locks_ok (gd_locks db) \<and> K (gd_locks db)
   \<and> unique fst (gd_states db) \<and> unique qu_provider (gd_quotas db)
   \<and> unique ga_id (gd_attempts db) \<and> unique rc_id (gd_receipts db)
   \<and> outbox_inv (gd_outbox db)"

definition gs_ok :: "(route_lock list \<Rightarrow> bool) \<Rightarrow> gw_scope \<Rightarrow> bool" where
  "gs_ok K s \<longleftrightarrow> gw_sound K (gs_secrets s) (gs_db s) \<and> gw_sound K (gs_secrets s) (gs_stored s)"

definition gw_ok :: "(route_lock list \<Rightarrow> bool) \<Rightarrow> gw_world \<Rightarrow> bool" where
  "gw_ok K w \<longleftrightarrow> gw_sound K (gw_secrets w) (gw_db w)"

lemma gw_sound_empty: "K [] \<Longrightarrow> gw_sound K sec empty_gw_db"
  by (simp add: gw_sound_def empty_gw_db_def unique_def refers_def credentials_ok_def secrets_kept_def locks_ok_def
      empty_outbox_def outbox_inv_def dedup_keys_def)

section \<open>Keeping the invariant\<close>

lemma keeps_text [kp]: "keeps I (gw_text v)"
  by (simp add: gw_text_def keeps_return keeps_raise)

lemma gs_ok_tick [simp]: "gs_ok K (s\<lparr>gs_tick := n\<rparr>) = gs_ok K s"
  by (simp add: gs_ok_def)

lemma keeps_draws [kp]:
  "keeps (gs_ok K) (scope_now env)" "keeps (gs_ok K) (scope_uuid env)" "keeps (gs_ok K) (scope_hex env n)"
  by (simp_all add: keeps_pure scope_now_def scope_uuid_def scope_hex_def)

lemma gw_ok_tick [simp]: "gw_ok K (w\<lparr>gw_tick := n\<rparr>) = gw_ok K w"
  by (simp add: gw_ok_def)

lemma keeps_world_draws [kp]:
  "keeps (gw_ok K) (world_now env)" "keeps (gw_ok K) (world_uuid env)" "keeps (gw_ok K) (world_hex env n)"
  "keeps (gw_ok K) (adapter_generate pe a req m)" "keeps (gw_ok K) (adapter_stream pe a req m)"
  "keeps (gw_ok K) (world_read_secret x)"
  by (simp_all add: keeps_pure world_now_def world_uuid_def world_hex_def adapter_generate_def adapter_stream_def world_read_secret_def)

lemma keeps_query [kp]: "keeps (gs_ok K) (query f)"
  by (simp add: keeps_pure query_def)

lemma keeps_committed_ruleset [kp]: "keeps (gs_ok K) committed_ruleset"
  by (simp add: keeps_pure committed_ruleset_def)

lemma keeps_commit [kp]: "keeps (gs_ok K) gw_commit"
  by (rule keeps_pure) (simp add: gw_commit_def gs_ok_def)

lemma keeps_modify:
  assumes "\<And>sec db. gw_sound K sec db \<Longrightarrow> gw_sound K sec (f db)"
  shows "keeps (gs_ok K) (modify f)"
  by (rule keeps_pure) (simp add: modify_def gs_ok_def assms)

lemma keeps_insert:
  assumes "\<And>sec db. gw_sound K sec db \<Longrightarrow> \<not> list_ex (clash r) (rows db) \<Longrightarrow> gw_sound K sec (put (rows db @ [r]) db)"
  shows "keeps (gs_ok K) (insert_into rows put clash table r)"
  by (rule keeps_pure) (simp add: insert_into_def gs_ok_def assms)

lemma secrets_kept_more: "secrets_kept sec rows \<Longrightarrow> secrets_kept (sec(n := Some v)) rows"
  by (auto simp: secrets_kept_def)

lemma gw_sound_more: "gw_sound K sec db \<Longrightarrow> gw_sound K (sec(n := Some v)) db"
  by (simp add: gw_sound_def credentials_ok_def secrets_kept_more del: fun_upd_apply)

lemma keeps_write_secret [kp]: "keeps (gs_ok K) (write_secret n v)" "keeps (gw_ok K) (world_write_secret n v)"
  by (rule keeps_pure, simp add: write_secret_def world_write_secret_def gs_ok_def gw_ok_def gw_sound_more del: fun_upd_apply)+

lemma keeps_in_scope [kp]: "keeps (gs_ok K) body \<Longrightarrow> keeps (gw_ok K) (gw_in_scope body)"
proof (rule keeps_pure)
  fix w assume k: "keeps (gs_ok K) body" and w: "gw_ok K w"
  let ?s = "\<lparr>gs_db = gw_db w, gs_stored = gw_db w, gs_secrets = gw_secrets w, gs_tick = gw_tick w\<rparr>"
  have "gs_ok K ?s" using w by (simp add: gs_ok_def gw_ok_def)
  from keeps_state [OF k this] show "gw_ok K (snd (gw_in_scope body w))"
    by (auto simp: gw_in_scope_def gs_ok_def gw_ok_def split: prod.splits)
qed

section \<open>Tables\<close>

lemma unique_snoc [simp]: "unique key (rs @ [r]) \<longleftrightarrow> unique key rs \<and> key r \<notin> key ` set rs"
  by (auto simp: unique_def)

lemma unique_update: "(\<And>r. p r \<Longrightarrow> key (f r) = key r) \<Longrightarrow> unique key (sql_update p f rs) = unique key rs"
  by (simp add: unique_def map_sql_update)

lemma unique_filter: "unique key rs \<Longrightarrow> unique key (filter p rs)"
  by (simp add: unique_def distinct_map_filter)

lemma refers_snoc [simp]: "refers ref (rs @ [r]) key ts \<longleftrightarrow> refers ref rs key ts \<and> ref r \<in> key ` set ts"
  by (auto simp: refers_def)

lemma refers_more: "refers ref rs key ts \<Longrightarrow> refers ref rs key (ts @ [t])"
  by (auto simp: refers_def)

lemma refers_update: "(\<And>r. p r \<Longrightarrow> ref (f r) = ref r) \<Longrightarrow> refers ref (sql_update p f rs) key ts = refers ref rs key ts"
  unfolding refers_def by (metis (no_types, lifting) image_set map_sql_update)

lemma refers_target_update: "(\<And>r. p r \<Longrightarrow> key (f r) = key r) \<Longrightarrow> refers ref rs key (sql_update p f ts) = refers ref rs key ts"
  unfolding refers_def by (metis (no_types, lifting) image_set map_sql_update)

lemma refers_drop:
  "refers ref rs key ts \<Longrightarrow> refers ref (filter (\<lambda>r. ref r \<noteq> k) rs) key (filter (\<lambda>t. key t \<noteq> k) ts)"
  by (auto simp: refers_def)

lemma refers_filter: "refers ref rs key ts \<Longrightarrow> refers ref (filter p rs) key ts"
  by (auto simp: refers_def)

lemma no_clash: "\<not> list_ex (\<lambda>x. key x = k) rs \<longleftrightarrow> k \<notin> key ` set rs"
  by (auto simp: list_ex_iff)

lemma filter_update_other:
  "(\<And>r. p r \<Longrightarrow> \<not> q (f r)) \<Longrightarrow> filter q (sql_update p f rs) = filter q (filter (\<lambda>r. \<not> p r) rs)"
  by (induction rs) auto

lemmas table_facts = unique_update unique_filter refers_update refers_more refers_target_update refers_filter

subsection \<open>Providers and endpoints\<close>

lemma keeps_stamp [kp]: "keeps (gs_ok K) (stamp env t)"
  unfolding stamp_def by (intro kp)

lemma keeps_write_provider [kp]: "keeps (gs_ok K) (write_provider env row)"
  unfolding write_provider_def
  by (intro kp keeps_insert) (auto simp: gw_sound_def put_providers_def list_ex_iff refers_more)

lemma keeps_update_provider [kp]: "keeps (gs_ok K) (update_provider_row env pid d u p e)"
  unfolding update_provider_row_def get_provider_row_def
  by (intro kp keeps_modify) (simp add: gw_sound_def put_providers_def table_facts)

lemma keeps_update_endpoint_status [kp]: "keeps (gs_ok K) (update_endpoint_status env eid st)"
  unfolding update_endpoint_status_def
  by (intro kp keeps_modify) (simp add: gw_sound_def put_endpoints_def table_facts)

lemma filter_swap: "filter p (filter q xs) = filter q (filter p xs)"
  by (simp add: filter_filter conj_commute)

lemma credentials_ok_filter: "credentials_ok sec rows \<Longrightarrow> credentials_ok sec (filter p rows)"
  unfolding credentials_ok_def by (subst filter_swap) (simp add: unique_filter secrets_kept_def del: filter_filter)

section \<open>Keeping the invariant with what was read before\<close>

text \<open>
  Some statements keep the invariant only because of what earlier statements of the same scope saw. The assertions
  speak of the secrets, the working copy and the committed tables.
\<close>

type_synonym scope_assertion = "secrets \<Rightarrow> gw_db \<Rightarrow> gw_db \<Rightarrow> bool"

definition holds :: "(route_lock list \<Rightarrow> bool) \<Rightarrow> scope_assertion \<Rightarrow> gw_scope \<Rightarrow> bool" where
  "holds K P s \<longleftrightarrow> gs_ok K s \<and> P (gs_secrets s) (gs_db s) (gs_stored s)"

definition tri :: "(route_lock list \<Rightarrow> bool) \<Rightarrow> scope_assertion \<Rightarrow> (gw_scope, 'a) act \<Rightarrow> ('a \<Rightarrow> scope_assertion) \<Rightarrow> bool" where
  "tri K P m Q \<longleftrightarrow> act_triple (holds K P) m (\<lambda>x. holds K (Q x)) (gs_ok K)"

named_theorems tr \<open>rules for assertions inside a scope\<close>

lemma tri_return [tr]: "(\<And>sec db st. P sec db st \<Longrightarrow> Q x sec db st) \<Longrightarrow> tri K P (act_return x) Q"
  unfolding tri_def by (rule act_triple_return) (auto simp: holds_def)

lemma tri_raise [tr]: "tri K P (act_raise e) Q"
  unfolding tri_def by (rule act_triple_raise) (simp add: holds_def)

lemma tri_bind: "tri K P m R \<Longrightarrow> (\<And>x. tri K (R x) (f x) Q) \<Longrightarrow> tri K P (act_bind m f) Q"
  unfolding tri_def by (rule act_triple_bind)

lemma tri_query [tr]: "(\<And>x. tri K (\<lambda>sec db st. P sec db st \<and> f db = x) (g x) Q) \<Longrightarrow> tri K P (act_bind (query f) g) Q"
  unfolding tri_def act_triple_def act_bind_def query_def holds_def by auto

lemma tri_ticks:
  assumes "\<And>s. m s = (Inr (h (gs_tick s)), s\<lparr>gs_tick := Suc (gs_tick s)\<rparr>)" and "\<And>x. tri K P (g x) Q"
  shows "tri K P (act_bind m g) Q"
  using assms(2) unfolding tri_def act_triple_def act_bind_def assms(1) holds_def by auto

lemma tri_draws [tr]:
  "(\<And>x. tri K P (g x) Q) \<Longrightarrow> tri K P (act_bind (scope_now env) g) Q"
  "(\<And>y. tri K P (g2 y) Q2) \<Longrightarrow> tri K P (act_bind (scope_uuid env) g2) Q2"
  "(\<And>z. tri K P (g3 z) Q3) \<Longrightarrow> tri K P (act_bind (scope_hex env n) g3) Q3"
  by (rule tri_ticks, simp add: scope_now_def scope_uuid_def scope_hex_def, assumption)+

lemma tri_if [tr]: "(b \<Longrightarrow> tri K P m Q) \<Longrightarrow> (\<not> b \<Longrightarrow> tri K P n Q) \<Longrightarrow> tri K P (if b then m else n) Q"
  by simp

lemma tri_option [tr]:
  "(v = None \<Longrightarrow> tri K P m Q) \<Longrightarrow> (\<And>x. v = Some x \<Longrightarrow> tri K P (f x) Q) \<Longrightarrow> tri K P (case v of None \<Rightarrow> m | Some x \<Rightarrow> f x) Q"
  by (cases v) simp_all

lemma tri_let [tr]: "tri K P (f v) Q \<Longrightarrow> tri K P (Let v f) Q"
  by simp

lemma tri_check [tr]:
  "(b \<Longrightarrow> tri K P (g ()) Q) \<Longrightarrow> tri K P (act_bind (act_check_that b e) g) Q"
  by (cases b) (simp_all add: act_check_that_def tri_def act_triple_def act_bind_def act_return_def act_raise_def holds_def)

lemma tri_some [tr]:
  "(\<And>x. v = Some x \<Longrightarrow> tri K P (g x) Q) \<Longrightarrow> tri K P (act_bind (act_some v e) g) Q"
  by (cases v) (simp_all add: act_some_def tri_def act_triple_def act_bind_def act_return_def act_raise_def holds_def)

lemma tri_modify:
  assumes "\<And>sec db st. gw_sound K sec db \<Longrightarrow> P sec db st \<Longrightarrow> gw_sound K sec (f db) \<and> Q () sec (f db) st"
  shows "tri K P (modify f) Q"
  unfolding tri_def act_triple_def modify_def holds_def gs_ok_def using assms by auto

lemma tri_insert:
  assumes "\<And>sec db st. gw_sound K sec db \<Longrightarrow> P sec db st \<Longrightarrow> \<not> list_ex (clash r) (rows db)
     \<Longrightarrow> gw_sound K sec (put (rows db @ [r]) db) \<and> Q () sec (put (rows db @ [r]) db) st"
  shows "tri K P (insert_into rows put clash table r) Q"
  unfolding tri_def act_triple_def insert_into_def holds_def gs_ok_def using assms by auto

lemma tri_commit: "(\<And>sec db. P sec db db \<Longrightarrow> Q () sec db db) \<Longrightarrow> (\<And>sec db st. P sec db st \<Longrightarrow> P sec db db) \<Longrightarrow> tri K P gw_commit Q"
  unfolding tri_def act_triple_def gw_commit_def holds_def gs_ok_def by auto

lemma tri_weaken:
  "tri K P m Q \<Longrightarrow> (\<And>sec db st. P' sec db st \<Longrightarrow> P sec db st) \<Longrightarrow> (\<And>x sec db st. Q x sec db st \<Longrightarrow> Q' x sec db st) \<Longrightarrow> tri K P' m Q'"
  unfolding tri_def by (erule act_triple_weaken) (auto simp: holds_def)

lemma keeps_tri: "keeps (gs_ok K) m = tri K (\<lambda>_ _ _. True) m (\<lambda>_ _ _ _. True)"
  by (simp add: keeps_def tri_def holds_def [abs_def])

lemma tri_keeps: "keeps (gs_ok K) m \<Longrightarrow> tri K P m (\<lambda>_ _ _ _. True)"
  unfolding keeps_tri by (erule tri_weaken) simp_all

lemma tri_stamp [tr]: "(\<And>x. tri K P (g x) Q) \<Longrightarrow> tri K P (act_bind (stamp env t) g) Q"
  by (simp add: stamp_def bind_laws tr)

lemma find_key_mem: "find (\<lambda>r. key r = k) rows = Some r \<Longrightarrow> k \<in> key ` set rows"
  by (auto dest: find_SomeD)

lemma refers_avoid:
  "refers ref rs key ts \<Longrightarrow> \<forall>r \<in> set rs. ref r \<noteq> k \<Longrightarrow> refers ref rs key (filter (\<lambda>t. key t \<noteq> k) ts)"
  by (auto simp: refers_def)

lemma modify_modify: "act_bind (modify f) (\<lambda>_. act_bind (modify g) h) = act_bind (modify (\<lambda>db. g (f db))) h"
  by (rule ext) (simp add: act_bind_def modify_def)

lemma keeps_insert_endpoint [kp]: "keeps (gs_ok K) (insert_endpoint env row)"
  unfolding insert_endpoint_def get_provider_row_def write_endpoint_def bind_laws keeps_tri
  by (intro tr tri_bind [OF tri_insert [where Q = "\<lambda>_ _ _ _. True"]])
    (auto simp: gw_sound_def put_endpoints_def list_ex_iff intro: find_key_mem)

lemma keeps_delete_provider_rows [kp]: "keeps (gs_ok K) (delete_provider_rows pid)"
  unfolding delete_provider_rows_def get_provider_row_def modify_modify
  by (intro kp keeps_modify) (simp add: gw_sound_def gw_put_defs table_facts credentials_ok_filter refers_avoid)

lemma keeps_upsert_model [kp]: "keeps (gs_ok K) (upsert_model row)"
  unfolding upsert_model_def
  by (intro kp keeps_modify keeps_insert) (auto simp: gw_sound_def put_models_def table_facts model_values_def list_ex_iff)

lemma keeps_upsert_binding [kp]: "keeps (gs_ok K) (upsert_binding row)"
  unfolding upsert_binding_def
  by (intro kp keeps_modify keeps_insert) (auto simp: gw_sound_def put_bindings_def table_facts binding_values_def list_ex_iff)

lemma keeps_mark_unavailable [kp]: "keeps (gs_ok K) (mark_unavailable_bindings eid ids)"
  unfolding mark_unavailable_bindings_def
  by (intro kp keeps_modify) (simp add: gw_sound_def put_bindings_def table_facts)

lemma keeps_rules [kp]:
  "keeps (gs_ok K) (upsert_rule_row row)" "keeps (gs_ok K) (delete_rule_row i)" "keeps (gs_ok K) (disable_rules ids t)"
  unfolding upsert_rule_row_def delete_rule_row_def disable_rules_def
  by (intro kp keeps_modify keeps_insert, auto simp: gw_sound_def put_rules_def table_facts list_ex_iff)+

lemma keeps_save_endpoint_state [kp]: "keeps (gs_ok K) (save_endpoint_state eid st)"
  unfolding save_endpoint_state_def keeps_tri
  by (intro tr tri_modify) (auto simp: gw_sound_def table_facts map_of_eq_None_iff)

lemma keeps_save_quota [kp]: "keeps (gs_ok K) (save_quota_state env row)"
  unfolding save_quota_state_def Let_def
  by (intro kp keeps_modify keeps_insert) (auto simp: gw_sound_def put_quotas_def table_facts list_ex_iff)

lemma keeps_insert_attempt [kp]: "keeps (gs_ok K) (insert_attempt row)"
  unfolding insert_attempt_def by (intro keeps_insert) (auto simp: gw_sound_def put_attempts_def list_ex_iff)

lemma keeps_insert_receipt [kp]: "keeps (gs_ok K) (insert_receipt row)"
  unfolding insert_receipt_def by (intro keeps_insert) (auto simp: gw_sound_def put_receipts_def list_ex_iff)

lemma keeps_gw_record_event [kp]: "keeps (gs_ok K) (gw_record_event env e)"
  unfolding gw_record_event_def
proof (intro kp)
  fix eid occurred e' now rid
  show "keeps (gs_ok K) (\<lambda>s. case record_next no_hook now rid e' None (gd_outbox (gs_db s)) of Inl x \<Rightarrow> (Inl x, s)
      | Inr (b, ob) \<Rightarrow> (Inr (), s\<lparr>gs_db := (gs_db s)\<lparr>gd_outbox := ob\<rparr>\<rparr>))"
    by (rule keeps_pure) (auto simp: gs_ok_def gw_sound_def dest: outbox_inv_record_next split: sum.splits prod.splits)
qed

lemma keeps_reads [kp]:
  "keeps (gs_ok K) (get_provider_row pid)" "keeps (gs_ok K) (get_provider_by_name n)" "keeps (gs_ok K) list_provider_rows"
  "keeps (gs_ok K) (get_endpoint eid)" "keeps (gs_ok K) (list_endpoints_for_provider pid)"
  "keeps (gs_ok K) (active_credential_for_provider pid)" "keeps (gs_ok K) (get_model n)" "keeps (gs_ok K) list_model_rows"
  "keeps (gs_ok K) (list_bindings m)" "keeps (gs_ok K) (count_provider_models pid)"
  "keeps (gs_ok K) (canonical_models_for_provider pid)" "keeps (gs_ok K) (get_rule i)"
  "keeps (gs_ok K) (rule_ids_referencing_models ms)" "keeps (gs_ok K) (get_route_lock i)"
  "keeps (gs_ok K) (get_active_route_lock ty sid)" "keeps (gs_ok K) (get_endpoint_state eid)"
  "keeps (gs_ok K) (list_receipts t k)"
  by (simp_all add: keeps_query get_provider_row_def get_provider_by_name_def list_provider_rows_def get_endpoint_def
      list_endpoints_for_provider_def active_credential_for_provider_def get_model_def list_model_rows_def list_bindings_def
      count_provider_models_def canonical_models_for_provider_def get_rule_def rule_ids_referencing_models_def
      get_route_lock_def get_active_route_lock_def get_endpoint_state_def list_receipts_def)

subsection \<open>Credentials\<close>

definition revoke_in :: "string \<Rightarrow> time \<Rightarrow> credential_row list \<Rightarrow> credential_row list" where
  "revoke_in pid t rows = sql_update (\<lambda>r. cr_provider r = pid \<and> cr_revoked r = None) (\<lambda>r. r\<lparr>cr_revoked := Some t\<rparr>) rows"

lemma active_revoke_in: "filter is_active (revoke_in pid t rows) = filter (\<lambda>r. cr_provider r \<noteq> pid) (filter is_active rows)"
  by (induction rows) (simp_all add: revoke_in_def is_active_def)

lemma revoked_unique:
  "unique cr_id (revoke_in pid t rows) = unique cr_id rows" "unique cr_secret (revoke_in pid t rows) = unique cr_secret rows"
  "refers cr_provider (revoke_in pid t rows) key ts = refers cr_provider rows key ts"
  by (simp_all add: revoke_in_def unique_update refers_update)

lemma secrets_kept_revoke: "secrets_kept sec rows \<Longrightarrow> secrets_kept sec (revoke_in pid t rows)"
  by (induction rows) (auto simp: secrets_kept_def revoke_in_def is_active_def)

lemma revoked_credentials_ok: "credentials_ok sec rows \<Longrightarrow> credentials_ok sec (revoke_in pid t rows)"
  unfolding credentials_ok_def active_revoke_in by (simp add: revoked_unique secrets_kept_revoke unique_filter del: filter_filter)

lemma none_revoked: "active_credentials pid (revoke_in pid t rows) = []"
  by (induction rows) (simp_all add: revoke_in_def active_credentials_def)

lemma keeps_revoke [kp]: "keeps (gs_ok K) (revoke_active_credentials pid t)"
  unfolding revoke_active_credentials_def revoke_in_def [symmetric]
  by (intro kp keeps_modify) (simp add: gw_sound_def put_credentials_def revoked_unique revoked_credentials_ok)

definition none_active :: "string \<Rightarrow> gw_db \<Rightarrow> bool" where
  "none_active pid db \<longleftrightarrow> active_credentials pid (gd_credentials db) = []"

lemma credentials_ok_add:
  assumes "credentials_ok sec rows" and "active_credentials (cr_provider r) rows = []" and "sec (cr_secret r) \<noteq> None"
    and "\<not> list_ex (\<lambda>x. cr_id x = cr_id r \<or> cr_secret x = cr_secret r) rows"
  shows "credentials_ok sec (rows @ [r])"
  using assms by (auto simp: credentials_ok_def list_ex_iff secrets_kept_def active_credentials_def filter_empty_conv is_active_def)

end
