(* ===== verification/Gateway_Commands.thy ===== *)
theory Gateway_Commands
  imports Gateway_Invariant
begin

text \<open>
  The operations of the gateway keep its tables consistent: the route locks, the registry's operations other than those on
  credentials (which follow in their own theory), the execution of a request. The lock operations say what they need of
  the further condition \<open>K\<close>: storing a lock needs it \<open>growing\<close>, releasing one needs it \<open>releasable\<close>.
\<close>

section \<open>Route locks\<close>

definition growing :: "(route_lock list \<Rightarrow> bool) \<Rightarrow> bool" where
  "growing K \<longleftrightarrow> (\<forall>ls l. K ls \<longrightarrow> K (ls @ [l]))"

definition release_in :: "string \<Rightarrow> time \<Rightarrow> route_lock list \<Rightarrow> route_lock list" where
  "release_in i t ls = sql_update (\<lambda>l. lk_id l = i \<and> lk_status l = LOCK_ACTIVE)
     (\<lambda>l. l\<lparr>lk_status := LOCK_RELEASED, lk_released := Some (timestamp t)\<rparr>) ls"

definition releasable :: "(route_lock list \<Rightarrow> bool) \<Rightarrow> string \<Rightarrow> bool" where
  "releasable K i \<longleftrightarrow> (\<forall>t ls. locks_ok ls \<longrightarrow> K ls \<longrightarrow> K (release_in i t ls))"

lemma locks_ok_add:
  assumes "locks_ok ls" and "lock_ok r" and "lock_active r"
    and "\<not> list_ex (\<lambda>x. lk_id x = lk_id r \<or> lk_status r = LOCK_ACTIVE \<and> locks_scope (lk_scope_type r) (lk_scope r) x) ls"
  shows "locks_ok (ls @ [r])"
  using assms by (auto simp: locks_ok_def list_ex_iff lock_scope_def locks_scope_def lock_active_def)

lemma active_release_in: "filter lock_active (release_in i t ls) = filter (\<lambda>l. lk_id l \<noteq> i) (filter lock_active ls)"
  by (induction ls) (simp_all add: release_in_def lock_active_def)

lemma locks_ok_release: "locks_ok ls \<Longrightarrow> locks_ok (release_in i t ls)"
  unfolding locks_ok_def active_release_in
  by (auto simp: release_in_def unique_update unique_filter list_all_iff set_sql_update lock_ok_def lock_active_def simp del: filter_filter)

lemma keeps_try: "keeps I m \<Longrightarrow> keeps I (\<lambda>s. case m s of (Inl e, s') \<Rightarrow> (Inr a, s) | (Inr x, s') \<Rightarrow> (Inr b, s'))"
  unfolding keeps_def act_triple_def by (auto split: prod.splits sum.splits)

lemma keeps_record_route_lock:
  assumes "growing K" and "lock_ok l" and "lock_active l"
  shows "keeps (gs_ok K) (record_route_lock env l)"
  unfolding record_route_lock_def
proof (intro kp)
  fix now
  let ?r = "l\<lparr>lk_created := timestamp now, lk_released := None\<rparr>"
  have r: "lock_ok ?r" "lock_active ?r" using assms by (simp_all add: lock_ok_def lock_active_def)
  show "keeps (gs_ok K) (\<lambda>s. case insert_into gd_locks put_locks (\<lambda>r x. lk_id x = lk_id r \<or> lk_status r = LOCK_ACTIVE \<and>
      locks_scope (lk_scope_type r) (lk_scope r) x) ''route_locks'' ?r s of (Inl _, _) \<Rightarrow> (Inr False, s) | (Inr _, s') \<Rightarrow> (Inr True, s'))"
    using assms(1) r by (intro keeps_try keeps_insert) (simp add: gw_sound_def put_locks_def locks_ok_add growing_def)
qed

lemma keeps_release_route_lock: "releasable K i \<Longrightarrow> keeps (gs_ok K) (release_route_lock i t)"
  unfolding release_route_lock_def release_in_def [symmetric]
  by (intro kp keeps_modify) (simp add: gw_sound_def put_locks_def locks_ok_release releasable_def)

lemma keeps_validated_scope [kp]: "keeps I (validated_scope ty sid)"
  by (simp add: validated_scope_def Let_def keeps_return keeps_raise)

lemma validated_scope_cases:
  "fst (validated_scope ty sid s) = Inr (t, i) \<Longrightarrow> t \<in> set valid_scope_types"
  by (auto simp: validated_scope_def Let_def act_raise_def act_return_def split: if_splits)

lemma lock_for_rule_ok: "ty \<in> set valid_scope_types \<Longrightarrow> lock_ok (lock_for_rule i ty sid r now)" "lock_active (lock_for_rule i ty sid r now)"
  by (simp_all add: lock_ok_def lock_for_rule_def lock_active_def)

lemma keeps_resolve_rows:
  "growing K \<Longrightarrow> ty \<in> set valid_scope_types \<Longrightarrow> keeps (gs_ok K) (resolve_rows env ctx ty sid)"
  unfolding resolve_rows_def Let_def by (intro kp keeps_record_route_lock lock_for_rule_ok)

lemma keeps_resolve: "growing K \<Longrightarrow> keeps (gw_ok K) (resolve_or_create_lock env ctx)"
  unfolding resolve_or_create_lock_def
  by (rule keeps_result) (auto intro!: kp keeps_resolve_rows dest: validated_scope_cases)

lemma keeps_create_fallback_lock:
  assumes "growing K" shows "keeps (gw_ok K) (create_fallback_lock env ty sid model reason source)"
proof (cases "ty \<in> set valid_scope_types")
  case True
  then have ok: "lock_ok (fallback_lock i ty sid model reason source t)" "lock_active (fallback_lock i ty sid model reason source t)" for i t
    by (simp_all add: lock_ok_def fallback_lock_def lock_active_def)
  show ?thesis unfolding create_fallback_lock_def Let_def by (intro kp keeps_record_route_lock assms ok)
next
  case False
  then show ?thesis by (simp add: create_fallback_lock_def act_check_that_def bind_raise keeps_raise)
qed

lemma keeps_release_lock: "releasable K i \<Longrightarrow> keeps (gw_ok K) (release_lock env i)"
  unfolding release_lock_def Let_def by (intro kp keeps_release_route_lock)

lemma keeps_lock_reads [kp]: "keeps (gw_ok K) (get_active_lock ty sid)" "keeps (gw_ok K) (get_lock i)" "keeps (gw_ok K) current_ruleset"
  unfolding get_active_lock_def get_lock_def current_ruleset_def by (intro kp)+

text \<open>A scope may be reselected when giving up its lock leaves \<open>K\<close> alone.\<close>

definition reselectable :: "(route_lock list \<Rightarrow> bool) \<Rightarrow> string \<Rightarrow> string \<Rightarrow> bool" where
  "reselectable K ty sid \<longleftrightarrow> (\<forall>ls l. locks_ok ls \<longrightarrow> K ls \<longrightarrow>
     find (locks_scope (py_strip (if ty = [] then ''session'' else ty)) (py_strip sid)) ls = Some l \<longrightarrow> releasable K (lk_id l))"

lemma get_active_lock_result:
  assumes "fst (get_active_lock ty sid w) = Inr (Some l)"
  shows "find (locks_scope (py_strip (if ty = [] then ''session'' else ty)) (py_strip sid)) (gd_locks (gw_db w)) = Some l"
  using assms by (auto simp: get_active_lock_def validated_scope_def Let_def act_bind_def act_raise_def act_return_def gw_in_scope_def
      get_active_route_lock_def query_def active_lock_def split: if_splits)

lemma keeps_reselect:
  assumes "growing K" and "reselectable K ty sid"
  shows "keeps (gw_ok K) (reselect_model env ty sid ctx reason)"
proof (rule keeps_pure)
  fix w assume w: "gw_ok K w"
  obtain out w1 where g: "get_active_lock ty sid w = (out, w1)" by fastforce
  have w1: "gw_ok K w1" using keeps_state [OF keeps_lock_reads(1) w, of ty sid] g by simp
  show "gw_ok K (snd (reselect_model env ty sid ctx reason w))"
  proof (cases "\<exists>l. out = Inr (Some l)")
    case True
    then obtain l where l: "out = Inr (Some l)" ..
    have "releasable K (lk_id l)"
      using assms(2) get_active_lock_result [of ty sid w l] g l w by (auto simp: reselectable_def gw_ok_def gw_sound_def)
    then have "keeps (gw_ok K) (act_bind (release_lock env (lk_id l)) (\<lambda>_. act_bind (resolve_or_create_lock env ctx) (\<lambda>replacement.
        act_bind (gw_in_scope (act_bind (gw_record_event env (model_reselected replacement reason)) (\<lambda>_. gw_commit))) (\<lambda>_.
        act_return replacement))))"
      by (intro kp keeps_release_lock keeps_resolve assms(1))
    from keeps_state [OF this w1] show ?thesis
      by (simp add: reselect_model_def act_bind_def [of "get_active_lock ty sid"] g l act_some_def bind_return)
  next
    case False
    with w1 show ?thesis
      by (cases out) (auto simp: reselect_model_def act_bind_def [of "get_active_lock ty sid"] g act_some_def bind_raise act_raise_def
          split: option.splits)
  qed
qed

section \<open>Registry\<close>

lemma keeps_views [kp]:
  "keeps (gw_ok K) (get_provider pid)" "keeps (gw_ok K) list_providers" "keeps (gw_ok K) (list_endpoints p)"
  "keeps (gw_ok K) list_models" "keeps (gw_ok K) list_rules"
  unfolding get_provider_def list_providers_def list_endpoints_def list_models_def list_rules_def by (intro kp)+

lemma keeps_update_provider_cmd [kp]: "keeps (gw_ok K) (update_provider env pid d u p e)"
  unfolding update_provider_def by (intro kp)

lemma keeps_delete_provider [kp]: "keeps (gw_ok K) (delete_provider env pid b)"
  unfolding delete_provider_def by (intro kp)

lemma keeps_add_endpoint [kp]: "keeps (gw_ok K) (add_endpoint env pid url pr a b)"
  unfolding add_endpoint_def by (intro kp)

lemma keeps_rule_commands [kp]: "keeps (gw_ok K) (upsert_rule env spec pr ex)" "keeps (gw_ok K) (delete_rule i)"
  unfolding upsert_rule_def delete_rule_def by (intro kp)+

lemma keeps_reconcile [kp]: "keeps (gs_ok K) (reconcile env eid v now ds acc)"
proof (induction ds arbitrary: acc)
  case (Cons d ds)
  show ?case by (simp only: reconcile.simps Let_def) (intro kp Cons)
qed (simp add: kp)

lemma keeps_discovery [kp]: "keeps (gw_ok K) (record_discovery env eid ms)" "keeps (gw_ok K) (record_quota env n h r t re)"
  unfolding record_discovery_def record_quota_def by (intro kp)+

section \<open>Execution\<close>

lemma keeps_top_candidate [kp]: "keeps (gw_ok K) (top_candidate env model)"
  unfolding top_candidate_def by (intro kp)

lemma keeps_adapter_for [kp]: "keeps (gw_ok K) (adapter_for c)"
  unfolding adapter_for_def by (intro kp)

lemma keeps_records [kp]:
  "keeps (gw_ok K) (record_success env l c us i t)" "keeps (gw_ok K) (record_failure env p l c i f t)"
  "keeps (gw_ok K) (record_receipt env iv l res reason)"
  unfolding record_success_def record_failure_def record_receipt_def by (intro kp)+

lemma keeps_execute_loop [kp]: "keeps (gw_ok K) (execute_loop env pe p req l n i)"
proof (induction n arbitrary: i)
  case (Suc n)
  show ?case by (simp only: execute_loop.simps) (intro kp Suc)
qed (simp add: kp)

lemma keeps_stream_loop [kp]: "keeps (gw_ok K) (stream_loop env pe p req l n i)"
proof (induction n arbitrary: i)
  case (Suc n)
  show ?case by (simp only: stream_loop.simps) (intro kp Suc)
qed (simp add: kp)

lemma keeps_execute [kp]: "keeps (gw_ok K) (execute_request env pe p req l n)" "keeps (gw_ok K) (execute_stream env pe p req l n)"
  by (simp_all add: execute_request_def execute_stream_def kp)

lemma keeps_rule_for [kp]: "keeps (gw_ok K) (rule_for l)"
  unfolding rule_for_def by (intro kp)

lemma keeps_invoke: "growing K \<Longrightarrow> keeps (gw_ok K) (invoke env pe p iv)"
  unfolding invoke_def invoke_fallback_def Let_def by (intro kp keeps_resolve keeps_create_fallback_lock)

lemma keeps_simulate [kp]: "keeps (gw_ok K) (simulate env ctx)"
  unfolding simulate_def by (intro kp)

end
