(* ===== verification/Gateway_Credentials.thy ===== *)
theory Gateway_Credentials
  imports Gateway_Commands
begin

text \<open>
  The operations on credentials keep the tables consistent although secrets live outside of the transaction: a secret is
  written before the row that names it, and deleted only after the row that named it is revoked. The assertions follow what
  a scope has read: \<open>seen\<close> an active credential, \<open>gone\<close> it.
\<close>

section \<open>Replacing a credential\<close>

text \<open>
  A credential that was read as active is retired by the revocation; its secret may go, because no other row uses it.
\<close>

definition retired :: "string \<Rightarrow> gw_db \<Rightarrow> bool" where
  "retired n db \<longleftrightarrow> n \<in> cr_secret ` set (filter (\<lambda>c. \<not> is_active c) (gd_credentials db))"

definition seen :: "credential_row option \<Rightarrow> string \<Rightarrow> gw_db \<Rightarrow> bool" where
  "seen prev pid db \<longleftrightarrow> (\<forall>c \<in> set_option prev. c \<in> set (active_credentials pid (gd_credentials db)))"

definition gone :: "credential_row option \<Rightarrow> gw_db \<Rightarrow> bool" where
  "gone prev db \<longleftrightarrow> (\<forall>c \<in> set_option prev. retired (cr_secret c) db)"

lemma seen_none [simp]: "seen None pid db" and gone_none [simp]: "gone None db"
  by (simp_all add: seen_def gone_def)

lemma newest_mem: "newest_credential rows = Some c \<Longrightarrow> c \<in> set rows"
  using set_sort [of credential_age rows]
  by (auto simp: newest_credential_def rev_eq_Cons_iff simp del: set_sort split: list.splits)

lemma newest_seen: "newest_credential (active_credentials pid (gd_credentials db)) = prev \<Longrightarrow> seen prev pid db"
  by (cases prev) (auto simp: seen_def intro: newest_mem)

lemma retired_revoked: "c \<in> set rows \<Longrightarrow> cr_provider c = pid \<Longrightarrow> cr_revoked c = None \<Longrightarrow> retired (cr_secret c) (put_credentials (revoke_in pid t rows) db)"
  by (auto simp: retired_def put_credentials_def revoke_in_def set_sql_update is_active_def image_iff intro!: bexI [of _ c])

lemma gone_revoked: "seen prev pid db \<Longrightarrow> gone prev (put_credentials (revoke_in pid t (gd_credentials db)) db')"
  by (auto simp: seen_def gone_def active_credentials_def intro: retired_revoked)

lemma gone_more: "gone prev db \<Longrightarrow> gone prev (put_credentials (gd_credentials db @ [r]) db)"
  by (auto simp: gone_def retired_def put_credentials_def)

lemma sound_delete_secret:
  assumes "gw_sound K sec db" and "retired n db"
  shows "gw_sound K (sec(n := None)) db"
proof -
  have ok: "credentials_ok sec (gd_credentials db)" using assms(1) by (simp add: gw_sound_def)
  have "inj_on cr_secret (set (gd_credentials db))" using ok by (simp add: credentials_ok_def unique_def distinct_map)
  then have "\<forall>c \<in> set (gd_credentials db). is_active c \<longrightarrow> cr_secret c \<noteq> n"
    using assms(2) by (auto simp: retired_def dest: inj_onD)
  then have "credentials_ok (sec(n := None)) (gd_credentials db)" using ok by (auto simp: credentials_ok_def secrets_kept_def)
  then show ?thesis using assms(1) by (simp add: gw_sound_def del: fun_upd_apply)
qed

lemma tri_revoke:
  "tri K (\<lambda>sec db _. A sec \<and> seen prev pid db) (revoke_active_credentials pid t)
     (\<lambda>_ sec db _. A sec \<and> none_active pid db \<and> gone prev db)"
  unfolding revoke_active_credentials_def revoke_in_def [symmetric]
  by (intro tr tri_bind [OF tri_modify [where Q = "\<lambda>_ sec db _. A sec \<and> none_active pid db \<and> gone prev db"]])
    (auto simp: gw_sound_def put_credentials_def revoked_unique revoked_credentials_ok none_active_def none_revoked
      intro: gone_revoked [unfolded put_credentials_def])

lemma tri_insert_credential:
  "tri K (\<lambda>sec db _. sec (cr_secret row) \<noteq> None \<and> none_active (cr_provider row) db \<and> gone prev db) (insert_credential row)
     (\<lambda>_ _ db _. gone prev db)"
  unfolding insert_credential_def get_provider_row_def
  by (intro tr tri_bind [OF tri_insert [where Q = "\<lambda>_ _ db _. gone prev db"]])
    (auto simp: gw_sound_def put_credentials_def none_active_def intro: credentials_ok_add find_key_mem
      gone_more [unfolded put_credentials_def])

section \<open>Scopes\<close>

lemma tri_commit_with: "tri K (\<lambda>_ db _. Q db) gw_commit (\<lambda>_ _ _ st. Q st)"
  unfolding tri_def act_triple_def gw_commit_def holds_def gs_ok_def by auto

lemma tri_write_secret:
  assumes "\<And>sec db st. P sec db st \<Longrightarrow> Q () (sec(n := Some v)) db st"
  shows "tri K P (write_secret n v) Q"
  unfolding tri_def act_triple_def
proof (intro allI impI)
  fix s assume s: "holds K P s"
  then have "gs_ok K (s\<lparr>gs_secrets := (gs_secrets s)(n := Some v)\<rparr>)"
    by (simp add: holds_def gs_ok_def gw_sound_more del: fun_upd_apply)
  with s show "case write_secret n v s of (Inr x, s') \<Rightarrow> holds K (Q x) s' | (Inl e, s') \<Rightarrow> gs_ok K s'"
    by (simp add: write_secret_def holds_def assms del: fun_upd_apply)
qed

lemma tri_world:
  assumes "tri K (\<lambda>sec _ _. R sec) body (\<lambda>x _ _ st. Q x st)"
  shows "act_triple (\<lambda>w. gw_ok K w \<and> R (gw_secrets w)) (gw_in_scope body) (\<lambda>x w. gw_ok K w \<and> Q x (gw_db w)) (gw_ok K)"
  unfolding act_triple_def
proof (intro allI impI)
  fix w assume w: "gw_ok K w \<and> R (gw_secrets w)"
  let ?s = "\<lparr>gs_db = gw_db w, gs_stored = gw_db w, gs_secrets = gw_secrets w, gs_tick = gw_tick w\<rparr>"
  have "holds K (\<lambda>sec _ _. R sec) ?s" using w by (simp add: holds_def gs_ok_def gw_ok_def)
  moreover obtain out s where run: "body ?s = (out, s)" by fastforce
  ultimately have "case out of Inl e \<Rightarrow> gs_ok K s | Inr x \<Rightarrow> holds K (\<lambda>_ _ st. Q x st) s"
    by (rule act_tripleD [OF assms [unfolded tri_def]])
  moreover have "gw_in_scope body w = (out, \<lparr>gw_db = gs_stored s, gw_secrets = gs_secrets s, gw_tick = gs_tick s\<rparr>)"
    by (simp add: gw_in_scope_def run)
  ultimately show "case gw_in_scope body w of (Inr x, w') \<Rightarrow> gw_ok K w' \<and> Q x (gw_db w') | (Inl e, w') \<Rightarrow> gw_ok K w'"
    by (cases out) (simp_all add: holds_def gs_ok_def gw_ok_def)
qed

section \<open>The operations\<close>

lemma tri_rotate_rows:
  "tri K (\<lambda>_ _ _. True) (rotate_rows pid cid secret label now) (\<lambda>x _ _ st. gone (snd x) st)"
proof -
  have body: "tri K (\<lambda>sec db _. sec (cr_secret row) \<noteq> None \<and> seen prev (cr_provider row) db)
      (act_bind (revoke_active_credentials (cr_provider row) now) (\<lambda>_. act_bind (insert_credential row) (\<lambda>_.
       act_bind gw_commit (\<lambda>_. act_return (row, prev))))) (\<lambda>x _ _ st. gone (snd x) st)" for row prev
    by (intro tri_bind [OF tri_revoke [where A = "\<lambda>sec. sec (cr_secret row) \<noteq> None"]] tri_bind [OF tri_insert_credential] tri_bind [OF tri_commit_with] tr) simp
  have written: "tri K (\<lambda>_ db _. newest_credential (active_credentials pid (gd_credentials db)) = prev)
      (act_bind (write_secret (cr_secret row) secret) (\<lambda>_. act_bind (revoke_active_credentials pid now) (\<lambda>_.
       act_bind (insert_credential row) (\<lambda>_. act_bind gw_commit (\<lambda>_. act_return (row, prev))))))
      (\<lambda>x _ _ st. gone (snd x) st)" if "cr_provider row = pid" for row prev
    using that by (intro tri_bind [OF tri_write_secret body [of row prev, unfolded that]]) (simp add: newest_seen)
  show ?thesis
    unfolding rotate_rows_def get_provider_row_def active_credential_for_provider_def Let_def
    by (intro tr) (rule tri_weaken, rule written, simp_all)
qed

lemma keeps_triple: "keeps I m \<longleftrightarrow> act_triple I m (\<lambda>_. I) I"
  by (simp add: keeps_def)

lemma keeps_after: "act_triple I m R I \<Longrightarrow> (\<And>x. act_triple (R x) (f x) (\<lambda>_. I) I) \<Longrightarrow> keeps I (act_bind m f)"
  unfolding keeps_def by (rule act_triple_bind)

lemma delete_secret_triple:
  "act_triple (\<lambda>w. gw_ok K w \<and> retired n (gw_db w)) (world_delete_secret n) (\<lambda>_. gw_ok K) (gw_ok K)"
  by (simp add: act_triple_def world_delete_secret_def gw_ok_def sound_delete_secret del: fun_upd_apply)

lemma return_triple: "(\<And>s. P s \<Longrightarrow> I s) \<Longrightarrow> act_triple P (act_return x) (\<lambda>_. I) I"
  by (rule act_triple_return)

lemma keeps_rotate [kp]: "keeps (gw_ok K) (rotate_credential env pid secret label)"
proof -
  have rows: "act_triple (gw_ok K) (gw_in_scope (rotate_rows pid (''cred-'' @ h) secret label now))
      (\<lambda>x w. gw_ok K w \<and> gone (snd x) (gw_db w)) (gw_ok K)" for h now
    by (rule act_triple_weaken [OF tri_world [where R = "\<lambda>_. True", OF tri_rotate_rows]]) simp_all
  have drop: "act_triple (\<lambda>w. gw_ok K w \<and> gone prev (gw_db w))
      (case prev of None \<Rightarrow> act_return () | Some c \<Rightarrow> world_delete_secret (cr_secret c)) (\<lambda>_. gw_ok K) (gw_ok K)" for prev
    by (cases prev) (simp_all add: return_triple gone_def delete_secret_triple)
  have "keeps (gw_ok K) (act_bind (gw_in_scope (rotate_rows pid (''cred-'' @ h) secret label now)) (\<lambda>(row, previous).
      act_bind (case previous of None \<Rightarrow> act_return () | Some c \<Rightarrow> world_delete_secret (cr_secret c)) (\<lambda>_. act_return row)))" for h now
    by (rule keeps_after [OF rows]) (auto simp: split_beta intro: act_triple_bind [OF drop] return_triple)
  then show ?thesis unfolding rotate_credential_def
    by (rule keeps_bind [OF keeps_check keeps_bind [OF keeps_world_draws(3) keeps_bind [OF keeps_world_draws(1)]]])
qed

lemma tri_remove_rows:
  "tri K (\<lambda>_ _ _. True) (act_bind (active_credential_for_provider pid) (\<lambda>active.
      case active of None \<Rightarrow> act_return None
      | Some c \<Rightarrow> act_bind (revoke_active_credentials pid now) (\<lambda>_. act_bind gw_commit (\<lambda>_. act_return (Some c)))))
     (\<lambda>x _ _ st. gone x st)"
proof -
  have body: "tri K (\<lambda>sec db _. seen (Some c) pid db)
      (act_bind (revoke_active_credentials pid now) (\<lambda>_. act_bind gw_commit (\<lambda>_. act_return (Some c)))) (\<lambda>x _ _ st. gone x st)" for c
    by (intro tri_weaken [OF tri_bind [OF tri_revoke [where A = "\<lambda>_. True"] tri_bind [OF tri_commit_with tri_return]]]) auto
  show ?thesis
    unfolding active_credential_for_provider_def
    by (intro tr tri_weaken [OF body]) (auto intro: newest_seen)
qed

lemma keeps_remove [kp]: "keeps (gw_ok K) (remove_credential env pid)"
proof -
  let ?body = "\<lambda>now. act_bind (active_credential_for_provider pid) (\<lambda>active. case active of None \<Rightarrow> act_return None
      | Some c \<Rightarrow> act_bind (revoke_active_credentials pid now) (\<lambda>_. act_bind gw_commit (\<lambda>_. act_return (Some c))))"
  have rows: "act_triple (gw_ok K) (gw_in_scope (?body now)) (\<lambda>x w. gw_ok K w \<and> gone x (gw_db w)) (gw_ok K)" for now
    by (rule act_triple_weaken [OF tri_world [where R = "\<lambda>_. True", OF tri_remove_rows]]) simp_all
  have drop: "act_triple (\<lambda>w. gw_ok K w \<and> gone prev (gw_db w)) (case prev of None \<Rightarrow> act_return False
      | Some c \<Rightarrow> act_bind (world_delete_secret (cr_secret c)) (\<lambda>_. act_return True)) (\<lambda>_. gw_ok K) (gw_ok K)" for prev
    by (cases prev) (simp_all add: return_triple gone_def act_triple_bind [OF delete_secret_triple])
  have "keeps (gw_ok K) (act_bind (gw_in_scope (?body now)) (\<lambda>active. case active of None \<Rightarrow> act_return False
      | Some c \<Rightarrow> act_bind (world_delete_secret (cr_secret c)) (\<lambda>_. act_return True)))" for now
    by (rule keeps_after [OF rows drop])
  then show ?thesis unfolding remove_credential_def by (rule keeps_bind [OF keeps_world_draws(1)])
qed

section \<open>Registration\<close>

text \<open>A provider that was not there has no credential: rows refer to rows that exist.\<close>

lemma new_provider_none_active:
  assumes "gw_sound K sec db" and "pid \<notin> pv_id ` set (gd_providers db)"
  shows "none_active pid (put_providers ps db)"
proof -
  have "refers cr_provider (gd_credentials db) pv_id (gd_providers db)" using assms(1) by (simp add: gw_sound_def)
  then have "\<forall>c \<in> set (gd_credentials db). cr_provider c \<noteq> pid" using assms(2) by (auto simp: refers_def)
  then show ?thesis by (simp add: none_active_def put_providers_def active_credentials_def filter_empty_conv)
qed

lemma sound_new_provider:
  assumes "gw_sound K sec db" and "\<not> list_ex (\<lambda>x. pv_id x = pv_id r \<or> pv_name x = pv_name r) (gd_providers db)"
  shows "gw_sound K sec (put_providers (gd_providers db @ [r]) db)"
  using assms by (auto simp: gw_sound_def put_providers_def list_ex_iff refers_more)

definition has_provider :: "string \<Rightarrow> gw_db \<Rightarrow> bool" where
  "has_provider pid db \<longleftrightarrow> pid \<in> pv_id ` set (gd_providers db)"

lemma tri_write_provider:
  "tri K (\<lambda>sec _ _. R sec) (write_provider env row) (\<lambda>_ sec db _. R sec \<and> none_active (pv_id row) db \<and> has_provider (pv_id row) db)"
  unfolding write_provider_def
  by (intro tr tri_insert conjI sound_new_provider new_provider_none_active)
    (auto simp: has_provider_def put_providers_def list_ex_iff)

lemma tri_write_endpoint:
  assumes "ep_provider e = pid"
  shows "tri K (\<lambda>sec db _. R sec \<and> none_active pid db \<and> has_provider pid db) (write_endpoint env e)
     (\<lambda>_ sec db _. R sec \<and> none_active pid db)"
  unfolding write_endpoint_def
  by (intro tr tri_insert)
    (auto simp: gw_sound_def none_active_def has_provider_def put_endpoints_def list_ex_iff assms)

lemma tri_insert_provider:
  assumes "ep_provider e = pv_id row"
  shows "tri K (\<lambda>sec _ _. R sec) (insert_provider env row (Some e)) (\<lambda>created sec db _. R sec \<and> (created \<longrightarrow> none_active (pv_id row) db))"
proof -
  have core: "tri K (\<lambda>sec _ _. R sec) (act_bind (write_provider env row) (\<lambda>_. act_bind (write_endpoint env e) (\<lambda>_. act_return True)))
      (\<lambda>created sec db _. R sec \<and> (created \<longrightarrow> none_active (pv_id row) db))"
    by (intro tri_bind [OF tri_write_provider] tri_bind [OF tri_write_endpoint [OF assms]] tr) simp
  show ?thesis
    unfolding insert_provider_def get_provider_by_name_def option.case
    by (intro tr) (simp, rule tri_weaken [OF core], simp_all)
qed

definition registered :: "string option \<Rightarrow> secrets \<Rightarrow> bool" where
  "registered cid sec \<longleftrightarrow> (\<forall>c \<in> set_option cid. sec (credential_secret_name c) \<noteq> None)"

lemma tri_register_rows:
  assumes "ep_provider e = pv_id row"
  shows "tri K (\<lambda>sec _ _. registered cid sec) (register_rows env row e cid label) (\<lambda>_ _ _ _. True)"
proof -
  have credential: "tri K (\<lambda>sec db _. registered (Some c) sec \<and> none_active (pv_id row) db) (insert_credential
      \<lparr>cr_id = c, cr_provider = pv_id row, cr_secret = credential_secret_name c, cr_version = 1,
       cr_label = label, cr_created = Some now, cr_revoked = None\<rparr>) (\<lambda>_ _ _ _. True)" for c now
    by (rule tri_weaken [OF tri_insert_credential [where prev = None]]) (simp_all add: registered_def)
  have credentials: "tri K (\<lambda>sec db _. registered cid sec \<and> none_active (pv_id row) db)
      (case cid of None \<Rightarrow> act_return True | Some c \<Rightarrow> act_bind (scope_now env) (\<lambda>now. insert_credential
         \<lparr>cr_id = c, cr_provider = pv_id row, cr_secret = credential_secret_name c, cr_version = 1,
          cr_label = label, cr_created = Some now, cr_revoked = None\<rparr>)) (\<lambda>_ _ _ _. True)"
    by (cases cid) (auto intro!: tr credential)
  have checked: "tri K (\<lambda>sec db _. registered cid sec \<and> (created \<longrightarrow> none_active (pv_id row) db))
      (act_bind (act_check_that created DUPLICATE_PROVIDER) (\<lambda>_. act_bind (case cid of None \<Rightarrow> act_return True
       | Some c \<Rightarrow> act_bind (scope_now env) (\<lambda>now. insert_credential
         \<lparr>cr_id = c, cr_provider = pv_id row, cr_secret = credential_secret_name c, cr_version = 1,
          cr_label = label, cr_created = Some now, cr_revoked = None\<rparr>)) (\<lambda>_. gw_commit))) (\<lambda>_ _ _ _. True)" for created
    by (intro tri_check, rule tri_weaken [OF tri_bind [OF credentials tri_keeps [OF keeps_commit]]]) simp_all
  show ?thesis
    unfolding register_rows_def get_provider_by_name_def
    by (intro tr, rule tri_weaken [OF tri_bind [OF tri_insert_provider [where R = "registered cid", OF assms] checked]]) simp_all
qed

lemma rows_triple:
  assumes "ep_provider e = pv_id row"
  shows "act_triple (\<lambda>w. gw_ok K w \<and> registered cid (gw_secrets w)) (gw_in_scope (register_rows env row e cid label)) (\<lambda>_. gw_ok K) (gw_ok K)"
  by (rule act_triple_weaken [OF tri_world [OF tri_register_rows [OF assms]]]) simp_all

lemma secret_triple:
  "act_triple (gw_ok K) (case truthy secret of None \<Rightarrow> act_return None
     | Some v \<Rightarrow> act_bind (world_hex env 12) (\<lambda>h. let cid = ''cred-'' @ h
         in act_bind (world_write_secret (credential_secret_name cid) v) (\<lambda>_. act_return (Some cid))))
     (\<lambda>cid w. gw_ok K w \<and> registered cid (gw_secrets w)) (gw_ok K)"
  by (simp add: act_triple_def act_bind_def act_return_def world_hex_def world_write_secret_def Let_def registered_def
      gw_ok_def gw_sound_more del: fun_upd_apply split: option.split)
    (simp add: fun_upd_same)

lemma keeps_register [kp]: "keeps (gw_ok K) (register_provider env name display vendor url protocol secret label discovery endpoint)"
proof -
  have tail: "keeps (gw_ok K) (act_bind (case truthy secret of None \<Rightarrow> act_return None
      | Some v \<Rightarrow> act_bind (world_hex env 12) (\<lambda>h. let cid = ''cred-'' @ h
         in act_bind (world_write_secret (credential_secret_name cid) v) (\<lambda>_. act_return (Some cid)))) (\<lambda>cid.
      act_bind (gw_in_scope (register_rows env row e cid label)) (\<lambda>_. get_provider pid)))"
    if "ep_provider e = pv_id row" for row e pid
    by (intro keeps_after [OF secret_triple] act_triple_bind [OF rows_triple [OF that]] keeps_views [unfolded keeps_triple])
  show ?thesis
    unfolding register_provider_def Let_def
    by (rule tail [unfolded Let_def] keeps_option keeps_if keeps_return keeps_text keeps_world_draws keeps_bind | simp)+
qed

end
