(* ===== verification/Gateway_System.thy ===== *)
theory Gateway_System
  imports Gateway_Credentials
begin

text \<open>
  The gateway as a system: its commands in any order, for any clock, any random source and any answers of the providers.
  What a client of the route locks may rely on is an interface of its own.
\<close>

section \<open>What stays while others go on\<close>

text \<open>
  An entry that was looked up stays what it is under every command that \<open>spares\<close> it.
\<close>

locale sticky_entries =
  fixes step :: "'c \<Rightarrow> 'w \<Rightarrow> 'w" and ok :: "'w \<Rightarrow> bool" and entry :: "'k \<Rightarrow> 'w \<Rightarrow> 'v option"
    and spares :: "'k \<Rightarrow> 'v \<Rightarrow> 'c \<Rightarrow> bool"
  assumes step_ok: "ok w \<Longrightarrow> ok (step c w)"
    and step_entry: "ok w \<Longrightarrow> entry k w = Some v \<Longrightarrow> spares k v c \<Longrightarrow> entry k (step c w) = Some v"
begin

lemma run_ok: "ok w \<Longrightarrow> ok (fold step cs w)"
  by (induction cs arbitrary: w) (simp_all add: step_ok)

lemma run_entry: "ok w \<Longrightarrow> entry k w = Some v \<Longrightarrow> list_all (spares k v) cs \<Longrightarrow> entry k (fold step cs w) = Some v"
  by (induction cs arbitrary: w) (simp_all add: step_ok step_entry)

end

section \<open>Commands\<close>

datatype gw_command =
    Register_Provider string "string option" string string string "string option" string bool "string option"
  | Update_Provider string "string option" "string option" "string option" "bool option"
  | Delete_Provider string bool
  | Rotate_Credential string string string
  | Remove_Credential string
  | Add_Endpoint string string "string option" int int
  | Upsert_Rule routing_rule "int option" "int option"
  | Delete_Rule string
  | Record_Discovery string "discovered_model list"
  | Record_Quota string bool "int option" "int option" "time option"
  | Resolve_Lock match_context
  | Fallback_Lock string string string string string
  | Release_Lock string
  | Reselect_Model string string match_context string
  | Invoke invocation
  | Execute_Request provider_request route_lock nat
  | Execute_Stream provider_request route_lock nat
  | Simulate match_context

definition after_act :: "('s, 'a) act \<Rightarrow> 's \<Rightarrow> 's" where
  "after_act m s = snd (m s)"

fun gw_step :: "gw_env \<Rightarrow> providers_env \<Rightarrow> circuit_policy \<Rightarrow> gw_command \<Rightarrow> gw_world \<Rightarrow> gw_world" where
  "gw_step env pe p (Register_Provider n d v u pr sec lb di e) = after_act (register_provider env n d v u pr sec lb di e)"
| "gw_step env pe p (Update_Provider pid d u pr e) = after_act (update_provider env pid d u pr e)"
| "gw_step env pe p (Delete_Provider pid b) = after_act (delete_provider env pid b)"
| "gw_step env pe p (Rotate_Credential pid sec lb) = after_act (rotate_credential env pid sec lb)"
| "gw_step env pe p (Remove_Credential pid) = after_act (remove_credential env pid)"
| "gw_step env pe p (Add_Endpoint pid u pr prio weight) = after_act (add_endpoint env pid u pr prio weight)"
| "gw_step env pe p (Upsert_Rule spec prio expected) = after_act (upsert_rule env spec prio expected)"
| "gw_step env pe p (Delete_Rule i) = after_act (delete_rule i)"
| "gw_step env pe p (Record_Discovery eid ms) = after_act (record_discovery env eid ms)"
| "gw_step env pe p (Record_Quota n h r t re) = after_act (record_quota env n h r t re)"
| "gw_step env pe p (Resolve_Lock ctx) = after_act (resolve_or_create_lock env ctx)"
| "gw_step env pe p (Fallback_Lock ty sid m r src) = after_act (create_fallback_lock env ty sid m r src)"
| "gw_step env pe p (Release_Lock i) = after_act (release_lock env i)"
| "gw_step env pe p (Reselect_Model ty sid ctx r) = after_act (reselect_model env ty sid ctx r)"
| "gw_step env pe p (Invoke iv) = after_act (invoke env pe p iv)"
| "gw_step env pe p (Execute_Request req l n) = after_act (execute_request env pe p req l n)"
| "gw_step env pe p (Execute_Stream req l n) = after_act (execute_stream env pe p req l n)"
| "gw_step env pe p (Simulate ctx) = after_act (simulate env ctx)"

definition gw_run :: "gw_env \<Rightarrow> providers_env \<Rightarrow> circuit_policy \<Rightarrow> gw_command list \<Rightarrow> gw_world \<Rightarrow> gw_world" where
  "gw_run env pe p = fold (gw_step env pe p)"

definition empty_gateway :: gw_world where
  "empty_gateway = \<lparr>gw_db = empty_gw_db, gw_secrets = (\<lambda>_. None), gw_tick = 0\<rparr>"

text \<open>What a command does to the lock table has the leave of \<open>K\<close>.\<close>

fun allowed :: "(route_lock list \<Rightarrow> bool) \<Rightarrow> gw_command \<Rightarrow> bool" where
  "allowed K (Release_Lock i) \<longleftrightarrow> releasable K i"
| "allowed K (Reselect_Model ty sid ctx r) \<longleftrightarrow> reselectable K ty sid"
| "allowed K c \<longleftrightarrow> True"

lemma keeps_after_act: "keeps I m \<Longrightarrow> I s \<Longrightarrow> I (after_act m s)"
  by (simp add: after_act_def keeps_state)

lemma gw_step_ok: "growing K \<Longrightarrow> allowed K c \<Longrightarrow> gw_ok K w \<Longrightarrow> gw_ok K (gw_step env pe p c w)"
  by (cases c) (auto intro!: keeps_after_act kp keeps_resolve keeps_create_fallback_lock keeps_release_lock keeps_reselect keeps_invoke)

section \<open>Held scopes\<close>

definition held :: "string \<times> string \<Rightarrow> route_lock \<Rightarrow> route_lock list \<Rightarrow> bool" where
  "held k l ls \<longleftrightarrow> find (locks_scope (fst k) (snd k)) ls = Some l"

fun spares_lock :: "string \<times> string \<Rightarrow> route_lock \<Rightarrow> gw_command \<Rightarrow> bool" where
  "spares_lock k l (Release_Lock i) \<longleftrightarrow> i \<noteq> lk_id l"
| "spares_lock k l (Reselect_Model ty sid ctx r) \<longleftrightarrow> (py_strip (if ty = [] then ''session'' else ty), py_strip sid) \<noteq> k"
| "spares_lock k l c \<longleftrightarrow> True"

lemma find_append_some: "find P xs = Some y \<Longrightarrow> find P (xs @ ys) = Some y"
  by (induction xs) auto

lemma held_growing: "growing (held k l)"
  by (simp add: growing_def held_def find_append_some)

lemma held_release: "held k l ls \<Longrightarrow> i \<noteq> lk_id l \<Longrightarrow> held k l (release_in i t ls)"
  unfolding held_def release_in_def by (induction ls) (auto simp: locks_scope_def split: if_splits)

lemma held_mem: "held k l ls \<Longrightarrow> l \<in> set ls \<and> locks_scope (fst k) (snd k) l"
  unfolding held_def by (auto dest: find_SomeD)

lemma held_apart:
  assumes "locks_ok ls" and "held k l ls" and "held k' l' ls" and "k \<noteq> k'"
  shows "lk_id l \<noteq> lk_id l'"
proof
  assume "lk_id l = lk_id l'"
  with assms(1) held_mem [OF assms(2)] held_mem [OF assms(3)] have "l = l'"
    by (auto simp: locks_ok_def unique_def distinct_map dest: inj_onD)
  with held_mem [OF assms(2)] held_mem [OF assms(3)] assms(4) show False
    by (auto simp: locks_scope_def prod_eq_iff)
qed

lemma reselect_apart:
  assumes "(py_strip (if ty = [] then ''session'' else ty), py_strip sid) \<noteq> k"
  shows "reselectable (held k l) ty sid"
  unfolding reselectable_def releasable_def
proof (intro allI impI)
  fix ls l' t rs
  assume "locks_ok ls" and "held k l ls" and "find (locks_scope (py_strip (if ty = [] then ''session'' else ty)) (py_strip sid)) ls = Some l'"
    and rs: "held k l rs"
  then have "lk_id l \<noteq> lk_id l'" using assms
    by (intro held_apart [of ls k l "(py_strip (if ty = [] then ''session'' else ty), py_strip sid)"]) (auto simp: held_def)
  then show "held k l (release_in (lk_id l') t rs)" using rs by (simp add: held_release)
qed

lemma spares_allowed: "spares_lock k l c \<Longrightarrow> allowed (held k l) c"
  by (cases c) (simp_all add: releasable_def held_release reselect_apart)

lemma gw_ok_held: "gw_ok (held k l) w \<longleftrightarrow> gw_ok (\<lambda>_. True) w \<and> active_lock (gw_db w) (fst k) (snd k) = Some l"
  by (auto simp: gw_ok_def gw_sound_def held_def active_lock_def)

lemma allowed_any: "allowed (\<lambda>_. True) c"
  by (cases c) (simp_all add: releasable_def reselectable_def)

interpretation route_locks: sticky_entries "gw_step env pe p" "gw_ok (\<lambda>_. True)"
  "\<lambda>k w. active_lock (gw_db w) (fst k) (snd k)" spares_lock for env pe p
proof
  fix w c assume "gw_ok (\<lambda>_. True) w"
  then show "gw_ok (\<lambda>_. True) (gw_step env pe p c w)" by (simp add: gw_step_ok allowed_any growing_def)
next
  fix w c k l assume "gw_ok (\<lambda>_. True) w" and "active_lock (gw_db w) (fst k) (snd k) = Some l" and "spares_lock k l c"
  then have "gw_ok (held k l) w" and "spares_lock k l c" by (simp_all add: gw_ok_held)
  then have "gw_ok (held k l) (gw_step env pe p c w)" by (intro gw_step_ok held_growing spares_allowed)
  then show "active_lock (gw_db (gw_step env pe p c w)) (fst k) (snd k) = Some l" by (simp add: gw_ok_held)
qed

end
