(* ===== verification/Gateway_Execution.thy ===== *)
theory Gateway_Execution
  imports Gateway_System
begin

text \<open>
  What an execution does: every call of a provider is recorded or ends the execution, a completion comes from an active
  binding of the locked model, a failure puts its endpoint to rest. And what a resolution of a lock returns.
\<close>

section \<open>Execution\<close>

lemmas act_defs = act_bind_def act_return_def act_raise_def act_lift_def gw_in_scope_def gw_commit_def scope_now_def scope_uuid_def
  scope_hex_def world_now_def world_uuid_def world_hex_def query_def modify_def insert_into_def

text \<open>What the record of an attempt changes: nothing, or the state of the endpoint and one more attempt row.\<close>

definition attempt_recorded :: "gw_db \<Rightarrow> gw_db \<Rightarrow> bool" where
  "attempt_recorded db db' \<longleftrightarrow> db' = db \<or> (\<exists>ss a. db' = db\<lparr>gd_states := ss, gd_attempts := gd_attempts db @ [a]\<rparr>)"

lemma record_success_db: "attempt_recorded (gw_db w) (gw_db (snd (record_success env l c us i t w)))"
  by (auto simp: record_success_def act_defs save_endpoint_state_def insert_attempt_def get_endpoint_state_def put_attempts_def
      attempt_recorded_def)

lemma record_failure_db: "attempt_recorded (gw_db w) (gw_db (snd (record_failure env p l c i f t w)))"
  by (auto simp: record_failure_def act_defs save_endpoint_state_def insert_attempt_def get_endpoint_state_def put_attempts_def
      attempt_recorded_def split: sum.splits)

text \<open>The bindings and the locks stay, the attempts grow by one.\<close>

definition spent :: "binding_row list \<Rightarrow> route_lock list \<Rightarrow> nat \<Rightarrow> gw_world \<Rightarrow> bool" where
  "spent B L n w \<longleftrightarrow> gd_bindings (gw_db w) = B \<and> gd_locks (gw_db w) = L \<and> length (gd_attempts (gw_db w)) \<le> n"

lemma spent_recorded: "attempt_recorded (gw_db w) (gw_db w') \<Longrightarrow> spent B L n w \<Longrightarrow> spent B L (Suc n) w'"
  by (auto simp: attempt_recorded_def spent_def)

lemma spent_more: "spent B L n w \<Longrightarrow> n \<le> m \<Longrightarrow> spent B L m w"
  by (simp add: spent_def)

lemma records_spent:
  "act_triple (spent B L n) (record_success env l c us i t) (\<lambda>_. spent B L (Suc n)) (spent B L (Suc n))"
  "act_triple (spent B L n) (record_failure env p l c i f t) (\<lambda>_. spent B L (Suc n)) (spent B L (Suc n))"
  by (rule triple_pure, rule spent_recorded [OF record_success_db], assumption)
    (rule triple_pure, rule spent_recorded [OF record_failure_db], assumption)

text \<open>A candidate is an active binding of the model, exactly that revision, of an endpoint that may be called.\<close>

definition serves :: "binding_row list \<Rightarrow> string \<Rightarrow> endpoint_candidate \<Rightarrow> bool" where
  "serves B model c \<longleftrightarrow> (\<exists>b \<in> set B. bi_model b = model \<and> bi_active b \<and> bi_level b = ''exact_revision'' \<and> bi_id b = ec_binding c
     \<and> bi_provider_model b = ec_model c)"

lemma map_filter_mem: "x \<in> set (List.map_filter f xs) \<longleftrightarrow> (\<exists>y \<in> set xs. f y = Some x)"
  by (auto simp: List.map_filter_def image_iff)

lemma selectable_ofD: "selectable_of db b = Some s \<Longrightarrow> sb_binding s = bi_id b \<and> sb_model s = bi_provider_model b \<and> sb_level s = bi_level b"
  by (auto simp: selectable_of_def Let_def split: option.splits)

lemma selected_serves: "c \<in> set (select_candidates db model now) \<Longrightarrow> serves (gd_bindings db) model c"
  by (auto simp: select_candidates_def selectable_bindings_def map_filter_mem survives_def binding_is_selectable_def serves_def
      candidate_of_def Let_def dest!: selectable_ofD split: if_splits prod.splits) 

lemma top_candidate_spent:
  "act_triple (spent B L n) (top_candidate env model) (\<lambda>top w. spent B L n w \<and> (\<forall>c. top = Inr c \<longrightarrow> serves B model c)) (spent B L n)"
  unfolding act_triple_def
  by (auto simp: top_candidate_def act_defs spent_def split: list.split)
    (metis list.set_intros(1) selected_serves)

lemma quiet_spent:
  "act_triple (spent B L n) (adapter_for c) (\<lambda>_. spent B L n) (spent B L n)"
  "act_triple (spent B L n) (world_now env) (\<lambda>_. spent B L n) (spent B L n)"
  "act_triple (spent B L n) (adapter_generate pe a req m) (\<lambda>_. spent B L n) (spent B L n)"
  by (simp_all add: act_triple_def adapter_for_def world_read_secret_def act_defs adapter_generate_def spent_def split: option.split)

definition completed_spent :: "binding_row list \<Rightarrow> route_lock \<Rightarrow> nat \<Rightarrow> nat \<Rightarrow> provider_failure + completion \<Rightarrow> bool" where
  "completed_spent B l i m out \<longleftrightarrow> (\<forall>r. out = Inr r \<longrightarrow> cm_model r = lk_model l \<and> cm_lock r = lk_id l \<and> \<not> cm_fallback r
     \<and> i < cm_attempts r \<and> cm_attempts r \<le> m
     \<and> (\<exists>c. serves B (lk_model l) c \<and> ec_binding c = cm_binding r \<and> ec_model c = cm_provider_model r \<and> ec_endpoint c = cm_endpoint r))"

lemma triple_spent:
  assumes "act_triple P m Q (spent B L j)" and "j \<le> k"
  shows "act_triple P m Q (spent B L k)"
  by (rule act_triple_weaken [OF assms(1)]) (auto intro: spent_more assms(2))

lemma execute_loop_spent:
  "act_triple (spent B L a) (execute_loop env pe p req l n i)
     (\<lambda>out w. spent B L (a + n) w \<and> completed_spent B l i (i + n) out) (spent B L (a + n))"
proof (induction n arbitrary: a i)
  case 0
  then show ?case by (simp add: act_triple_return completed_spent_def)
next
  case (Suc n)
  let ?Q = "\<lambda>out w. spent B L (a + Suc n) w \<and> completed_spent B l i (i + Suc n) out"
  let ?E = "spent B L (a + Suc n)"
  have stop: "act_triple (spent B L j) (act_return (Inl f)) ?Q ?E" if "j \<le> a + Suc n" for j f
    using that by (intro act_triple_return) (auto simp: completed_spent_def intro: spent_more)
  have again: "act_triple (spent B L (Suc a)) (execute_loop env pe p req l n (Suc i)) ?Q ?E"
    by (rule act_triple_weaken [OF Suc.IH]) (auto simp: completed_spent_def)
  have failed: "act_triple (spent B L a) (act_bind (record_failure env p l c i f started) (\<lambda>_.
      if at_decision (classify_failure (pf_class f) i 1) = STOP then act_return (Inl f) else execute_loop env pe p req l n (Suc i))) ?Q ?E" for c f started
    by (rule act_triple_bind [OF triple_spent [OF records_spent(2)]]) (simp, intro triple_if stop again, simp)
  have answered: "act_triple (spent B L a) (act_bind (record_success env l c (rs_usage r) i started) (\<lambda>_.
      act_return (Inr (completed_by l c r i)))) ?Q ?E" if "serves B (lk_model l) c" for c r started
    using that by (intro act_triple_bind [OF triple_spent [OF records_spent(1)]] act_triple_return)
      (auto simp: completed_spent_def completed_by_def intro: spent_more)
  have called: "act_triple (spent B L a) (act_bind (adapter_for c) (\<lambda>built. case built of Inl f \<Rightarrow> act_return (Inl f) | Inr ad \<Rightarrow>
      act_bind (world_now env) (\<lambda>started. act_bind (adapter_generate pe ad req (ec_model c)) (\<lambda>answer. case answer of
        Inl f \<Rightarrow> act_bind (record_failure env p l c i f started) (\<lambda>_.
          if at_decision (classify_failure (pf_class f) i 1) = STOP then act_return (Inl f) else execute_loop env pe p req l n (Suc i))
      | Inr r \<Rightarrow> act_bind (record_success env l c (rs_usage r) i started) (\<lambda>_. act_return (Inr (completed_by l c r i))))))) ?Q ?E"
    if "serves B (lk_model l) c" for c
    by (intro act_triple_bind [OF triple_spent [OF quiet_spent(1)]] triple_sum stop
        act_triple_bind [OF triple_spent [OF quiet_spent(2)]] act_triple_bind [OF triple_spent [OF quiet_spent(3)]]
        failed answered that) simp_all
  show ?case
    unfolding execute_loop.simps
    by (rule act_triple_bind [OF triple_spent [OF top_candidate_spent]])
      (simp, rule triple_known, intro triple_sum stop called, simp_all)
qed

lemma executed:
  assumes "execute_request env pe p req l n w = (out, w')"
  shows "spent (gd_bindings (gw_db w)) (gd_locks (gw_db w)) (length (gd_attempts (gw_db w)) + n) w' \<and>
    (\<forall>res. out = Inr res \<longrightarrow> completed_spent (gd_bindings (gw_db w)) l 0 n res)"
  using act_tripleD [OF execute_loop_spent [of "gd_bindings (gw_db w)" "gd_locks (gw_db w)" "length (gd_attempts (gw_db w))" env pe p req l n 0],
    of w out w'] assms
  by (auto simp: execute_request_def spent_def split: sum.splits)

section \<open>Cooldowns and circuits\<close>

lemma map_of_saved: "map_of ss e = Some x \<Longrightarrow> map_of (sql_update (\<lambda>r. fst r = e) (\<lambda>r. (fst r, st)) ss) e = Some st"
  by (induction ss) (auto split: if_splits)

lemma state_saved:
  "\<exists>db. save_endpoint_state e st s = (Inr (), s\<lparr>gs_db := db\<rparr>) \<and> endpoint_state_of db e = st"
proof (cases "map_of (gd_states (gs_db s)) e")
  case None
  then show ?thesis
    by (intro exI [of _ "(gs_db s)\<lparr>gd_states := gd_states (gs_db s) @ [(e, st)]\<rparr>"])
      (simp add: save_endpoint_state_def act_defs endpoint_state_of_def map_add_def)
next
  case (Some x)
  then show ?thesis
    by (intro exI [of _ "(gs_db s)\<lparr>gd_states := sql_update (\<lambda>r. fst r = e) (\<lambda>r. (fst r, st)) (gd_states (gs_db s))\<rparr>"])
      (simp add: save_endpoint_state_def act_defs endpoint_state_of_def map_of_saved)
qed

lemma endpoint_state_attempts [simp]: "endpoint_state_of (put_attempts as db) e = endpoint_state_of db e"
  by (simp add: endpoint_state_of_def put_attempts_def)

lemma failure_state:
  assumes "record_failure env p l c i f started w = (Inr (), w')" and "cooldown_deadline (ge_now env (gw_tick w)) i f = Inr cd"
  shows "endpoint_state_of (gw_db w') (ec_endpoint c) = after_failure p (endpoint_state_of (gw_db w) (ec_endpoint c))
     (ge_now env (gw_tick w)) (failure_kind (pf_class f)) cd"
proof -
  let ?s = "\<lparr>gs_db = gw_db w, gs_stored = gw_db w, gs_secrets = gw_secrets w, gs_tick = Suc (gw_tick w)\<rparr>"
  let ?st = "after_failure p (endpoint_state_of (gw_db w) (ec_endpoint c)) (ge_now env (gw_tick w)) (failure_kind (pf_class f)) cd"
  obtain db where saved: "save_endpoint_state (ec_endpoint c) ?st ?s = (Inr (), ?s\<lparr>gs_db := db\<rparr>)" "endpoint_state_of db (ec_endpoint c) = ?st"
    using state_saved by blast
  show ?thesis
    using assms saved by (auto simp: record_failure_def act_defs get_endpoint_state_def insert_attempt_def split: if_splits)
qed

lemma selected_available: "c \<in> set (select_candidates db model t) \<Longrightarrow> is_available (endpoint_state_of db (ec_endpoint c)) t"
  by (auto simp: select_candidates_def survives_def binding_is_selectable_def candidate_of_def Let_def split: if_splits prod.splits)

fun outcome_time :: "endpoint_outcome \<Rightarrow> time" where
  "outcome_time (Succeeded t _) = t"
| "outcome_time (Failed_At t _ _) = t"

text \<open>A selection depends on these rows and on which endpoints may be called.\<close>

lemma selected_by_state:
  assumes "gd_bindings db' = gd_bindings db" "gd_endpoints db' = gd_endpoints db" "gd_credentials db' = gd_credentials db"
    "gd_quotas db' = gd_quotas db"
    and "\<And>b. map_option (\<lambda>p. (pv_id p, pv_name p)) (find (\<lambda>p. pv_id p = b) (gd_providers db')) = map_option (\<lambda>p. (pv_id p, pv_name p)) (find (\<lambda>p. pv_id p = b) (gd_providers db))"
    and "\<And>e. is_available (endpoint_state_of db' e) t = is_available (endpoint_state_of db e) t"
  shows "select_candidates db' model t = select_candidates db model t"
proof -
  have "selectable_of db' b = selectable_of db b" for b
  proof (cases "find (\<lambda>e. ep_id e = bi_endpoint b) (gd_endpoints db)")
    case (Some e)
    with assms(5) [of "ep_provider e"] show ?thesis
      by (cases "find (\<lambda>p. pv_id p = ep_provider e) (gd_providers db)"; cases "find (\<lambda>p. pv_id p = ep_provider e) (gd_providers db')")
        (auto simp: selectable_of_def assms(1-3) Let_def)
  qed (simp add: selectable_of_def assms(1-3))
  then have "selectable_of db' = selectable_of db" by (rule ext)
  then have "selectable_bindings db' model = selectable_bindings db model" by (simp add: selectable_bindings_def assms(1))
  moreover have "survives db' t = survives db t" by (rule ext) (simp add: survives_def assms(6))
  moreover have "candidate_of db' = candidate_of db" by (rule ext) (simp add: candidate_of_def quota_of_def assms(4))
  ultimately show ?thesis by (simp add: select_candidates_def)
qed

lemma record_failure_frame:
  assumes "record_failure env p l c i f started w = (Inr (), w')"
  shows "gd_bindings (gw_db w') = gd_bindings (gw_db w)" "gd_endpoints (gw_db w') = gd_endpoints (gw_db w)"
    "gd_credentials (gw_db w') = gd_credentials (gw_db w)" "gd_quotas (gw_db w') = gd_quotas (gw_db w)" "gd_providers (gw_db w') = gd_providers (gw_db w)"
  using record_failure_db [of w env p l c i f started] assms by (auto simp: attempt_recorded_def)

lemma map_of_other: "e \<noteq> k \<Longrightarrow> map_of (sql_update (\<lambda>r. fst r = k) (\<lambda>r. (fst r, st)) ss) e = map_of ss e"
  by (induction ss) auto

lemma record_failure_others:
  assumes "record_failure env p l c i f started w = (Inr (), w')" and "e \<noteq> ec_endpoint c"
  shows "endpoint_state_of (gw_db w') e = endpoint_state_of (gw_db w) e"
  using assms by (auto simp: record_failure_def act_defs get_endpoint_state_def save_endpoint_state_def insert_attempt_def endpoint_state_of_def
      put_attempts_def map_of_other map_add_def split: if_splits sum.splits option.splits)

section \<open>Locks\<close>

lemma route_event_locks:
  "gw_record_event env e s = (out, s') \<Longrightarrow> gd_locks (gs_db s') = gd_locks (gs_db s)"
  "gw_record_event env e s = (out, s') \<Longrightarrow> gd_locks (gs_stored s') = gd_locks (gs_stored s)"
  by (auto simp: gw_record_event_def act_defs split: sum.splits prod.splits)

text \<open>At most one lock is added, and none of a fallback.\<close>

definition plain_lock_added :: "route_lock list \<Rightarrow> route_lock list \<Rightarrow> bool" where
  "plain_lock_added ls ls' \<longleftrightarrow> ls' = ls \<or> (\<exists>l. ls' = ls @ [l] \<and> \<not> lk_fallback l)"

lemma plain_lock_added_refl [simp]: "plain_lock_added ls ls"
  by (simp add: plain_lock_added_def)

lemma record_route_lock_taken:
  "active_lock (gs_db s) (lk_scope_type l) (lk_scope l) \<noteq> None \<Longrightarrow> record_route_lock env l s = (Inr False, s)"
  by (auto simp: record_route_lock_def act_bind_def query_def act_return_def)

lemma record_route_lock_result:
  assumes "record_route_lock env l s = (Inr True, s')"
  shows "\<exists>t. gd_locks (gs_db s') = gd_locks (gs_db s) @ [l\<lparr>lk_created := t, lk_released := None\<rparr>]"
    and "active_lock (gs_db s) (lk_scope_type l) (lk_scope l) = None"
  using assms by (auto simp: record_route_lock_def act_defs put_locks_def split: if_splits)

lemma find_append: "find P (xs @ ys) = (case find P xs of None \<Rightarrow> find P ys | Some x \<Rightarrow> Some x)"
  by (induction xs) auto

lemma leaf_Inr:
  "act_return x s = (Inr y, s') \<longleftrightarrow> y = x \<and> s' = s" "\<not> act_raise e s = (Inr y, s')"
  "query g c = (Inr r, c') \<longleftrightarrow> r = g (gs_db c) \<and> c' = c" "committed_ruleset c = (Inr q, c') \<longleftrightarrow> q = ruleset_of (gs_stored c) \<and> c' = c"
  "gw_commit c = (Inr u, c') \<longleftrightarrow> c' = c\<lparr>gs_stored := gs_db c\<rparr>"
  "scope_now env c = (Inr t, c') \<longleftrightarrow> t = ge_now env (gs_tick c) \<and> c' = c\<lparr>gs_tick := Suc (gs_tick c)\<rparr>"
  "scope_uuid env c = (Inr z, c') \<longleftrightarrow> z = ge_uuid env (gs_tick c) \<and> c' = c\<lparr>gs_tick := Suc (gs_tick c)\<rparr>"
  "act_check_that b e s = (Inr v, s') \<longleftrightarrow> b \<and> s' = s" "act_some m e s = (Inr y, s') \<longleftrightarrow> m = Some y \<and> s' = s"
  by (auto simp: act_defs committed_ruleset_def act_check_that_def act_some_def split: option.splits)

lemma resolve_rows_result:
  assumes "resolve_rows env ctx ty sid s = (Inr l, s')" and "ty \<in> set valid_scope_types" and "list_all lock_ok (gd_locks (gs_db s))"
  shows "lock_ok l \<and> lock_active l \<and> lock_scope l = (ty, sid) \<and> (\<exists>t. active_lock (gs_stored s') ty sid = Some (l\<lparr>lk_created := t\<rparr>))
    \<and> plain_lock_added (gd_locks (gs_db s)) (gd_locks (gs_stored s'))"
proof (cases "active_lock (gs_db s) ty sid")
  case (Some x)
  then have mem: "x \<in> set (gd_locks (gs_db s))" "locks_scope ty sid x" by (auto simp: active_lock_def dest: find_SomeD)
  obtain out s1 where event: "gw_record_event env (route_reused x) s = (out, s1)" by fastforce
  have "l = x" "active_lock (gs_stored s') ty sid = Some x" "gd_locks (gs_stored s') = gd_locks (gs_db s)"
    using assms(1) Some event route_event_locks(1) [OF event]
    by (auto simp: resolve_rows_def get_active_route_lock_def act_defs active_lock_def split: sum.splits)
  then show ?thesis using mem assms(3)
    by (auto simp: list_all_iff locks_scope_def lock_active_def lock_scope_def intro!: exI [of _ "lk_created x"])
next
  case None
  obtain rule i t s1 s2 b where recorded: "record_route_lock env (lock_for_rule i ty sid rule (timestamp t)) s1 = (Inr b, s2)" "gs_db s1 = gs_db s"
    and rest: "(if b then act_bind (gw_record_event env (route_locked (lock_for_rule i ty sid rule (timestamp t)))) (\<lambda>_. act_bind gw_commit (\<lambda>_.
          act_return (lock_for_rule i ty sid rule (timestamp t))))
        else act_bind (get_active_route_lock ty sid) (\<lambda>winner.
          act_bind (act_some winner NO_MATCHING_RULE) (\<lambda>x. act_bind gw_commit (\<lambda>_. act_return x)))) s2 = (Inr l, s')"
    using assms(1) None
    by (auto simp: resolve_rows_def get_active_route_lock_def get_model_def Let_def bind_Inr leaf_Inr cong: if_cong)
  show ?thesis
  proof (cases b)
    case True
    with rest obtain s3 where event: "gw_record_event env (route_locked (lock_for_rule i ty sid rule (timestamp t))) s2 = (Inr (), s3)"
      and l: "l = lock_for_rule i ty sid rule (timestamp t)" and s': "gs_stored s' = gs_db s3" by (auto simp: bind_Inr leaf_Inr)
    from recorded True obtain u where added: "gd_locks (gs_db s2) = gd_locks (gs_db s) @ [l\<lparr>lk_created := u, lk_released := None\<rparr>]"
      using record_route_lock_result(1) l by metis
    then have "plain_lock_added (gd_locks (gs_db s)) (gd_locks (gs_stored s'))"
      using route_event_locks(1) [OF event] by (simp add: plain_lock_added_def s' l lock_for_rule_def)
    moreover from added have "active_lock (gs_stored s') ty sid = Some (l\<lparr>lk_created := u\<rparr>)"
      using None route_event_locks(1) [OF event] s'
      by (simp add: active_lock_def find_append locks_scope_def l lock_for_rule_def)
    ultimately show ?thesis using lock_for_rule_ok(1) [OF assms(2)] lock_for_rule_ok(2)
      by (auto simp: l lock_scope_def lock_for_rule_def)
  next
    case False
    with recorded have "gs_db s2 = gs_db s" by (auto simp: record_route_lock_def act_defs split: if_splits)
    with rest False None show ?thesis by (auto simp: bind_Inr leaf_Inr get_active_route_lock_def)
  qed
qed

text \<open>A scope that was resolved has an active lock.\<close>

lemma validated_scope_pure:
  "validated_scope ty sid w = (Inr k, w') \<Longrightarrow> w' = w \<and> fst k \<in> set valid_scope_types"
  by (auto simp: validated_scope_def Let_def act_raise_def act_return_def split: if_splits)

lemma resolved_scope:
  assumes "gw_ok (\<lambda>_. True) w" and "resolve_or_create_lock env ctx w = (Inr l, w')"
  shows "active_lock (gw_db w') (lk_scope_type l) (lk_scope l) \<noteq> None \<and> plain_lock_added (gd_locks (gw_db w)) (gd_locks (gw_db w'))"
proof -
  let ?s = "\<lparr>gs_db = gw_db w, gs_stored = gw_db w, gs_secrets = gw_secrets w, gs_tick = gw_tick w\<rparr>"
  from assms(2) obtain ty sid v where scope: "validated_scope (mc_scope_type ctx) (mc_scope_id ctx) w = (Inr (ty, sid), v)"
    and rows: "gw_in_scope (resolve_rows env ctx ty sid) v = (Inr l, w')"
    unfolding resolve_or_create_lock_def bind_Inr by fastforce
  with validated_scope_pure [OF scope] have ty: "ty \<in> set valid_scope_types" and v: "v = w" by simp_all
  obtain s where run: "resolve_rows env ctx ty sid ?s = (Inr l, s)" and w': "gw_db w' = gs_stored s"
    using rows by (auto simp: gw_in_scope_def v split: prod.splits)
  have "list_all lock_ok (gd_locks (gs_db ?s))" using assms(1) by (simp add: gw_ok_def gw_sound_def locks_ok_def)
  with resolve_rows_result [OF run ty] w' show ?thesis by (auto simp: lock_scope_def)
qed

section \<open>The locks of an invocation\<close>

lemma fallback_locks:
  assumes "create_fallback_lock env ty sid model reason source w = (out, w')" and "active_lock (gw_db w) ty sid \<noteq> None"
  shows "gd_locks (gw_db w') = gd_locks (gw_db w)
    \<and> (\<forall>fl. out = Inr fl \<longrightarrow> (\<exists>i. lk_id fl = ge_uuid env i) \<and> lk_model fl = model \<and> sn_rule (lk_snapshot fl) = ''fallback'')"
proof -
  let ?fl = "fallback_lock (ge_uuid env (Suc (gw_tick w))) ty sid model reason source (timestamp (ge_now env (gw_tick w)))"
  let ?s = "\<lparr>gs_db = gw_db w, gs_stored = gw_db w, gs_secrets = gw_secrets w, gs_tick = Suc (Suc (gw_tick w))\<rparr>"
  have taken: "record_route_lock env ?fl ?s = (Inr False, ?s)"
    using assms(2) by (intro record_route_lock_taken) (simp add: fallback_lock_def)
  obtain res s1 where event: "gw_record_event env (route_fallback_created ?fl source) ?s = (res, s1)" by fastforce
  have scoped: "(out, w') = (if ty \<in> set valid_scope_types
      then (case res of Inl e \<Rightarrow> (Inl e, \<lparr>gw_db = gs_stored s1, gw_secrets = gs_secrets s1, gw_tick = gs_tick s1\<rparr>)
            | Inr _ \<Rightarrow> (Inr ?fl, \<lparr>gw_db = gs_db s1, gw_secrets = gs_secrets s1, gw_tick = gs_tick s1\<rparr>))
      else (Inl GW_VALIDATION, w))"
    using assms(1) taken event
    by (simp add: create_fallback_lock_def act_check_that_def act_bind_def act_return_def act_raise_def world_now_def
        world_uuid_def gw_in_scope_def gw_commit_def Let_def split: sum.splits if_splits)
  with route_event_locks [OF event] show ?thesis by (auto simp: fallback_lock_def split: if_splits sum.splits)
qed

lemma receipt_locks: "gd_locks (gw_db (snd (record_receipt env iv l res reason w))) = gd_locks (gw_db w)"
  by (auto simp: record_receipt_def act_swallow_def act_defs insert_receipt_def put_receipts_def split: prod.splits sum.splits)

lemma rule_for_pure: "snd (rule_for l w) = w"
  by (auto simp: rule_for_def act_defs get_rule_def)

lemma fallback_answer:
  assumes "invoke_fallback env pe p iv l model f w = (Inr (Inr c), w')"
    and "active_lock (gw_db w) (lk_scope_type l) (lk_scope l) \<noteq> None"
  shows "gd_locks (gw_db w') = gd_locks (gw_db w) \<and> cm_rule c = ''fallback'' \<and> cm_model c = model \<and> (\<exists>i. cm_lock c = ge_uuid env i)"
proof -
  obtain fl w1 second w2 where made: "create_fallback_lock env (lk_scope_type l) (lk_scope l) model
      (''fallback after '' @ failure_kind (pf_class f) @ '': '' @ pf_message f) (lk_id l) w = (Inr fl, w1)"
    and tried: "execute_request env pe p (provider_request_of iv) fl DEFAULT_MAX_ATTEMPTS w1 = (Inr second, w2)"
    and rest: "(case second of Inl f2 \<Rightarrow> act_bind (record_receipt env iv l None (Some (failure_kind (pf_class f2)))) (\<lambda>_.
         act_raise (DomainErr ''ModelInvocationFailed''))
     | Inr c \<Rightarrow>
         let res = c\<lparr>cm_fallback := True, cm_reason := Some (failure_kind (pf_class f)), cm_model := lk_model fl,
               cm_lock := lk_id fl, cm_rule := sn_rule (lk_snapshot fl), cm_version := sn_version (lk_snapshot fl)\<rparr>
         in act_bind (record_receipt env iv fl (Some res) (Some (failure_kind (pf_class f)))) (\<lambda>_. act_return (Inr res))) w2
      = (Inr (Inr c :: provider_failure + completion), w')"
    using assms(1) unfolding invoke_fallback_def bind_Inr by (elim exE conjE) (rule that)
  from fallback_locks [OF made assms(2)] executed [OF tried] have "gd_locks (gw_db w2) = gd_locks (gw_db w)"
    by (simp add: spent_def)
  with rest fallback_locks [OF made assms(2)] show ?thesis
    by (cases second) (auto simp: Let_def bind_Inr leaf_Inr, metis receipt_locks snd_conv)
qed

lemma answered_locks:
  assumes "gw_ok (\<lambda>_. True) w" and "invoke env pe p iv w = (Inr (Inr c), w')" and "cm_fallback c"
  shows "plain_lock_added (gd_locks (gw_db w)) (gd_locks (gw_db w')) \<and> cm_rule c = ''fallback'' \<and> (\<exists>i. cm_lock c = ge_uuid env i)"
proof -
  obtain u w0 l w1 rule v first w2 where checked: "act_check_that (py_strip (iv_task iv) \<noteq> []) GW_VALIDATION w = (Inr u, w0)"
    and found: "resolve_or_create_lock env (iv_context iv) w0 = (Inr l, w1)" and looked: "rule_for l w1 = (Inr rule, v)"
    and tried: "execute_request env pe p (provider_request_of iv) l DEFAULT_MAX_ATTEMPTS v = (Inr first, w2)"
    and rest: "(case first of
       Inr res \<Rightarrow> act_bind (record_receipt env iv l (Some res) None) (\<lambda>_. act_return (Inr res))
     | Inl f \<Rightarrow>
         (case (if fallback_eligible (failure_kind (pf_class f)) then truthy (Option.bind rule ru_fallback) else None) of
            None \<Rightarrow> act_bind (record_receipt env iv l None (Some (failure_kind (pf_class f)))) (\<lambda>_. act_return (Inl f))
          | Some model \<Rightarrow> invoke_fallback env pe p iv l model f)) w2 = (Inr (Inr c :: provider_failure + completion), w')"
    using assms(2) unfolding invoke_def bind_Inr by (elim exE conjE) (rule that)
  have same: "w0 = w" "v = w1" using checked looked rule_for_pure [of l w1] by (simp_all add: leaf_Inr)
  note found = found [unfolded same] and tried = tried [unfolded same]
  note scope = resolved_scope [OF assms(1) found]
  have kept: "gd_locks (gw_db w2) = gd_locks (gw_db w1)" using executed [OF tried] by (simp add: spent_def)
  show ?thesis
  proof (cases first)
    case (Inr res)
    with rest have "c = res" by (auto simp: bind_Inr leaf_Inr)
    with executed [OF tried] Inr assms(3) show ?thesis by (simp add: completed_spent_def)
  next
    case (Inl f)
    with rest obtain model where "invoke_fallback env pe p iv l model f w2 = (Inr (Inr c), w')"
      by (auto simp: bind_Inr leaf_Inr split: option.splits)
    moreover have "active_lock (gw_db w2) (lk_scope_type l) (lk_scope l) \<noteq> None"
      using scope kept by (simp add: active_lock_def)
    ultimately show ?thesis using fallback_answer kept scope by metis
  qed
qed

end
