(* ===== verification/Gateway_Properties.thy ===== *)
theory Gateway_Properties
  imports Gateway_Execution
begin

text \<open>
  The properties of the model gateway, with a small populated gateway on which each is tried.
\<close>

text \<open>The scope that a routing context names.\<close>

definition names_scope :: "match_context \<Rightarrow> string \<times> string \<Rightarrow> bool" where
  "names_scope ctx k \<longleftrightarrow> fst (validated_scope (mc_scope_type ctx) (mc_scope_id ctx) ()) = Inr k"

lemma IntegrityErrors [simp]: "list_ex (\<lambda>x. ga_id x = k) (as @ [a]) = (list_ex (\<lambda>x. ga_id x = k) as \<or> ga_id a = k)"
  by auto

lemma resolve_held:
  assumes "validated_scope (mc_scope_type ctx) (mc_scope_id ctx) w = (Inr k, w)"
    and "active_lock (gw_db w) (fst k) (snd k) = Some l"
    and "resolve_or_create_lock env ctx w = (Inr l', w')"
  shows "l' = l"
  using assms
  by (cases k) (auto simp: resolve_or_create_lock_def act_bind_def gw_in_scope_def resolve_rows_def get_active_route_lock_def
      query_def act_return_def gw_commit_def split: prod.splits sum.splits)

lemma names_scope_at: "names_scope ctx k \<Longrightarrow> validated_scope (mc_scope_type ctx) (mc_scope_id ctx) w = (Inr k, w)"
  by (auto simp: names_scope_def validated_scope_def Let_def act_raise_def act_return_def split: if_splits)

lemma find_filter: "find P (filter Q xs) = find (\<lambda>x. Q x \<and> P x) xs"
  by (induction xs) auto

section \<open>An example\<close>

definition gwx_env :: gw_env where
  "gwx_env = \<lparr>ge_now = (\<lambda>n. 1000000 * int n), ge_uuid = (\<lambda>n. ''u'' @ show_nat n), ge_hex = (\<lambda>n. ''00ab'' @ show_nat n)\<rparr>"

definition gwx_lock :: route_lock where
  "gwx_lock = \<lparr>lk_id = ''L1'', lk_scope_type = ''session'', lk_scope = ''s1'', lk_model = ''qwen-1'',
     lk_snapshot = \<lparr>sn_rule = ''r1'', sn_version = 1, sn_model = ''qwen-1'', sn_selected = 0, sn_reason = ''matched''\<rparr>,
     lk_status = LOCK_ACTIVE, lk_created = 0, lk_released = None, lk_reselections = 0, lk_fallback = False, lk_source = None\<rparr>"

definition gwx_rule :: routing_rule where
  "gwx_rule = \<lparr>ru_id = ''r1'', ru_version = 1, ru_model = ''qwen-1'', ru_description = [], ru_enabled = True, ru_priority = 5,
     ru_fallback = Some ''llama-1'', ru_task_labels = [], ru_agent_types = [], ru_workflow_types = [], ru_capabilities = [],
     ru_min_tokens = 0, ru_tools = False, ru_vision = False, ru_cost_classes = [], ru_local = False, ru_private = False,
     ru_preference = None\<rparr>"

definition gwx_db :: gw_db where
  "gwx_db = empty_gw_db\<lparr>
     gd_providers := [\<lparr>pv_id = ''pv-lab'', pv_name = ''lab'', pv_display = ''Lab'', pv_vendor = ''local'', pv_base_url = ''http://lab'',
       pv_protocol = ''ollama'', pv_discovery = True, pv_enabled = True, pv_created = None, pv_updated = None\<rparr>],
     gd_endpoints := [\<lparr>ep_id = ''ep-1'', ep_provider = ''pv-lab'', ep_base_url = ''http://lab'', ep_protocol = ''ollama'', ep_priority = 50,
       ep_weight = 100, ep_enabled = True, ep_test = ''untested'', ep_created = None, ep_updated = None\<rparr>],
     gd_bindings := [\<lparr>bi_id = ''b1'', bi_endpoint = ''ep-1'', bi_model = ''qwen-1'', bi_provider_model = ''qwen:1'',
       bi_level = ''exact_revision'', bi_fingerprint = [], bi_pricing = ''UNKNOWN'', bi_priority = 50, bi_availability = ''active'',
       bi_active = True, bi_discovered = None\<rparr>],
     gd_rules := [routing_rule.extend gwx_rule (rule_row.fields None None)],
     gd_locks := [gwx_lock]\<rparr>"

definition gwx_world :: gw_world where
  "gwx_world = \<lparr>gw_db = gwx_db, gw_secrets = (\<lambda>_. None), gw_tick = 0\<rparr>"

definition gwx_context :: match_context where
  "gwx_context = \<lparr>mc_scope_id = ''s1'', mc_scope_type = ''session'', mc_task_labels = [], mc_agent_type = [], mc_workflow_type = [],
     mc_capabilities = [], mc_tokens = 0, mc_tools = False, mc_vision = False, mc_cost_class = [], mc_local = False,
     mc_private = False, mc_preference = None\<rparr>"

definition gwx_request :: provider_request where
  "gwx_request = \<lparr>rq_model = [], rq_messages = PNone, rq_prompt = ''hi'', rq_system = None, rq_temperature = None, rq_top_p = None,
     rq_seed = None, rq_max_output = None, rq_stop = [], rq_tools = PNone, rq_tool_choice = PNone, rq_schema = PNone,
     rq_images = PNone, rq_timeout = 60\<rparr>"

text \<open>Every call answers.\<close>

definition gwx_providers :: providers_env where
  "gwx_providers = \<lparr>pe_generate = (\<lambda>n a req m. Inr \<lparr>rs_model = m, rs_text = Some ''hello'', rs_tool_calls = PNone, rs_finish = ''stop'',
       rs_usage = no_tokens, rs_latency = 1\<rparr>),
     pe_stream = (\<lambda>n a req m. ([], Some (make_failure TimeoutFailure ''late'' None None)))\<rparr>"

lemmas gwx_defs = gwx_env_def gwx_lock_def gwx_db_def gwx_world_def gwx_rule_def empty_gw_db_def

lemma gwx_ok: "gw_ok (\<lambda>_. True) gwx_world"
  by (simp add: gw_ok_def gw_sound_def gwx_defs unique_def refers_def credentials_ok_def secrets_kept_def locks_ok_def lock_ok_def
      lock_active_def lock_scope_def valid_scope_types_def empty_outbox_def outbox_inv_def dedup_keys_def)

lemma gwx_facts:
  "gw_db gwx_world = gwx_db" "gw_tick gwx_world = 0" "lk_model gwx_lock = ''qwen-1''" "ge_now gwx_env n = 1000000 * int n"
  "gd_states gwx_db = []" "gd_attempts gwx_db = []"
  by (simp_all add: gwx_defs)

lemma gwx_adapter: "resolve_adapter ''ollama'' url key = Inr \<lparr>ad_protocol = ''ollama'', ad_base_url = url, ad_key = None\<rparr>"
proof -
  have "py_lower (py_strip ''ollama'') = ''ollama''" by code_simp
  then show ?thesis by (simp add: resolve_adapter_def supported_protocols_def)
qed

lemma gwx_candidate: "\<exists>c. select_candidates gwx_db ''qwen-1'' t = [c] \<and> ec_endpoint c = ''ep-1'' \<and> ec_credential c = None \<and> ec_protocol c = ''ollama''"
  by (simp add: select_candidates_def selectable_bindings_def map_filter_def gwx_defs selectable_of_def survives_def binding_is_selectable_def
      is_available_def blocks_def endpoint_state_of_def fresh_state_def candidate_of_def quota_of_def score_candidate_def)

lemma gwx_answer: "\<exists>r w'. execute_request gwx_env gwx_providers default_circuit gwx_request gwx_lock 5 gwx_world = (Inr (Inr r), w')"
  using gwx_candidate [of 0]
  by (auto simp: execute_request_def numeral_eq_Suc act_defs top_candidate_def adapter_for_def truthy_def gwx_adapter
      adapter_generate_def gwx_providers_def record_success_def get_endpoint_state_def save_endpoint_state_def insert_attempt_def
      gwx_facts put_attempts_def)

lemma gwx_failure: "\<exists>w'. record_failure gwx_env default_circuit gwx_lock c 0 (make_failure TimeoutFailure ''late'' None None) 0 gwx_world = (Inr (), w')"
  by (auto simp: act_defs record_failure_def get_endpoint_state_def save_endpoint_state_def insert_attempt_def
      gwx_facts put_attempts_def cooldown_deadline_def transient_def make_failure_def calculate_backoff_cooldown_seconds_def)

definition gwx_quick :: gw_env where
  "gwx_quick = gwx_env\<lparr>ge_now := (\<lambda>n. 1000 * int n)\<rparr>"

definition gwx_endpoint :: endpoint_candidate where
  "gwx_endpoint = \<lparr>ec_endpoint = ''ep-1'', ec_binding = ''b1'', ec_provider = ''lab'', ec_model = ''qwen:1'',
     ec_base_url = ''http://lab'', ec_protocol = ''ollama'', ec_credential = None, ec_score = 5, ec_components = []\<rparr>"

lemma gwx_scope: "names_scope gwx_context (''session'', ''s1'')"
  by code_simp

lemma gwx_active: "active_lock gwx_db ''session'' ''s1'' = Some gwx_lock" "gd_locks gwx_db = [gwx_lock]" "lk_id gwx_lock = ''L1''"
  by (simp_all add: gwx_defs active_lock_def locks_scope_def)

section \<open>Properties\<close>


text \<open>C27: A route lock is sticky: while nobody releases it or reselects its scope, whatever other commands run (rules changed
  or deleted, providers removed, failures recorded, fallbacks), resolving the scope again returns that same lock.\<close>

theorem route_lock_sticky:
  assumes "gw_ok (\<lambda>_. True) w" and "active_lock (gw_db w) ty sid = Some l"
    and "list_all (spares_lock (ty, sid) l) cmds" and "names_scope ctx (ty, sid)"
    and "resolve_or_create_lock env ctx (gw_run env pe p cmds w) = (Inr l', w')"
  shows "l' = l"
proof -
  have "active_lock (gw_db (gw_run env pe p cmds w)) (fst (ty, sid)) (snd (ty, sid)) = Some l"
    using assms(1-3) unfolding gw_run_def by (intro route_locks.run_entry) simp_all
  then show ?thesis using resolve_held [OF names_scope_at [OF assms(4)] _ assms(5)] by simp
qed

theorem route_lock_sticky_witness:
  "\<exists>w'. resolve_or_create_lock gwx_env gwx_context
     (gw_run gwx_env gwx_providers default_circuit [Release_Lock ''L2'', Delete_Rule ''r1''] gwx_world) = (Inr gwx_lock, w')"
proof -
  let ?run = "resolve_or_create_lock gwx_env gwx_context
     (gw_run gwx_env gwx_providers default_circuit [Release_Lock ''L2'', Delete_Rule ''r1''] gwx_world)"
  have "\<not> isl (fst ?run)" by code_simp
  then obtain l' w' where run: "?run = (Inr l', w')" by (cases ?run; cases "fst ?run") auto
  have "l' = gwx_lock"
    by (rule route_lock_sticky [OF gwx_ok _ _ gwx_scope run]) (simp_all add: gwx_facts gwx_active gwx_lock_def)
  with run show ?thesis by blast
qed

text \<open>C28: A resolved lock is well-formed: its scope is the requested one and of a valid type, its snapshot names its model, it is
  active and not released, and it is the one active lock that is stored for the scope (up to the instant of insertion, for
  which the store reads the clock again).\<close>

theorem resolved_lock_well_formed:
  assumes "gw_ok (\<lambda>_. True) w" and "resolve_or_create_lock env ctx w = (Inr l, w')" and "names_scope ctx k"
  shows "lock_ok l \<and> lock_active l \<and> lock_scope l = k \<and> (\<exists>t. active_lock (gw_db w') (fst k) (snd k) = Some (l\<lparr>lk_created := t\<rparr>))"
proof -
  obtain s where run: "resolve_rows env ctx (fst k) (snd k) \<lparr>gs_db = gw_db w, gs_stored = gw_db w, gs_secrets = gw_secrets w, gs_tick = gw_tick w\<rparr> = (Inr l, s)"
    and w': "gw_db w' = gs_stored s"
    using assms(2) by (cases k) (auto simp: resolve_or_create_lock_def bind_Inr names_scope_at [OF assms(3)] gw_in_scope_def split: prod.splits)
  have "fst k \<in> set valid_scope_types" using assms(3) by (cases k) (auto simp: names_scope_def intro: validated_scope_cases)
  moreover have "list_all lock_ok (gd_locks (gw_db w))" using assms(1) by (simp add: gw_ok_def gw_sound_def locks_ok_def)
  ultimately show ?thesis using resolve_rows_result [OF run] by (simp add: w')
qed

theorem resolved_lock_well_formed_witness:
  "\<exists>l w'. resolve_or_create_lock gwx_env gwx_context gwx_world = (Inr l, w') \<and> lock_ok l \<and> lock_scope l = (''session'', ''s1'')"
proof -
  let ?run = "resolve_or_create_lock gwx_env gwx_context gwx_world"
  have "\<not> isl (fst ?run)" by code_simp
  then obtain l w' where run: "?run = (Inr l, w')" by (cases ?run; cases "fst ?run") auto
  with resolved_lock_well_formed [OF gwx_ok run gwx_scope] show ?thesis by blast
qed


text \<open>The one endpoint serves the fallback model only.\<close>

definition gwx_second :: gw_world where
  "gwx_second = gwx_world\<lparr>gw_db := gwx_db\<lparr>gd_bindings := map (\<lambda>b. b\<lparr>bi_model := ''llama-1'', bi_provider_model := ''llama:1''\<rparr>) (gd_bindings gwx_db)\<rparr>\<rparr>"

definition gwx_invocation :: invocation where
  "gwx_invocation = \<lparr>iv_task = ''t1'', iv_role = None, iv_context = gwx_context, iv_request = gwx_request\<rparr>"

lemma gwx_second_ok: "gw_ok (\<lambda>_. True) gwx_second"
  by (simp add: gwx_second_def gw_ok_def gw_sound_def gwx_defs unique_def refers_def credentials_ok_def secrets_kept_def locks_ok_def lock_ok_def
      lock_active_def lock_scope_def valid_scope_types_def empty_outbox_def outbox_inv_def dedup_keys_def)

text \<open>The steps of this invocation: nothing serves the model of the lock, the fallback model answers at once.\<close>

definition gwx_resolved :: gw_world where
  "gwx_resolved = snd (resolve_or_create_lock gwx_env gwx_context gwx_second)"

definition gwx_exhausted :: gw_world where
  "gwx_exhausted = snd (top_candidate gwx_env ''qwen-1'' gwx_resolved)"

definition gwx_fallback :: "(exn + route_lock) \<times> gw_world" where
  "gwx_fallback = create_fallback_lock gwx_env ''session'' ''s1'' ''llama-1''
     (''fallback after '' @ failure_kind (pf_class exhausted) @ '': '' @ pf_message exhausted) ''L1'' gwx_exhausted"

lemma gwx_steps:
  "fst (resolve_or_create_lock gwx_env gwx_context gwx_second) = Inr gwx_lock"
  "(case fst (rule_for gwx_lock gwx_resolved) of Inr (Some r) \<Rightarrow> ru_fallback r = Some ''llama-1'' | _ \<Rightarrow> False)"
  "(case fst (top_candidate gwx_env ''qwen-1'' gwx_resolved) of Inr (Inl f) \<Rightarrow> f = exhausted | _ \<Rightarrow> False)"
  "(case fst gwx_fallback of Inr l \<Rightarrow> lk_model l = ''llama-1'' | _ \<Rightarrow> False)"
  "(case fst (top_candidate gwx_env ''llama-1'' (snd gwx_fallback)) of
      Inr (Inr c) \<Rightarrow> ec_protocol c = ''ollama'' \<and> ec_credential c = None | _ \<Rightarrow> False)"
  "gd_attempts (gw_db (snd (top_candidate gwx_env ''llama-1'' (snd gwx_fallback)))) = []"
  "fallback_eligible (failure_kind (pf_class exhausted))"
  by code_simp+

lemma exhausted_at_once:
  "top_candidate env (lk_model l) w = (Inr (Inl f), w') \<Longrightarrow> execute_request env pe p req l DEFAULT_MAX_ATTEMPTS w = (Inr (Inl f), w')"
  by (simp add: execute_request_def DEFAULT_MAX_ATTEMPTS_def numeral_eq_Suc act_defs)

lemma gwx_answered:
  assumes "top_candidate gwx_env (lk_model l) w = (Inr (Inr c), w')" and "ec_protocol c = ''ollama''" "ec_credential c = None"
    and "gd_attempts (gw_db w') = []"
  shows "\<exists>r w''. execute_request gwx_env gwx_providers default_circuit req l DEFAULT_MAX_ATTEMPTS w = (Inr (Inr r), w'')"
  using assms
  by (simp add: execute_request_def DEFAULT_MAX_ATTEMPTS_def numeral_eq_Suc act_defs adapter_for_def truthy_def gwx_adapter
      adapter_generate_def gwx_providers_def record_success_def get_endpoint_state_def save_endpoint_state_def insert_attempt_def
      put_attempts_def split: option.split)

lemma swallowed: "\<exists>w'. record_receipt env iv l res reason w = (Inr (), w')"
  by (auto simp: record_receipt_def act_swallow_def split: prod.splits)

lemma gwx_falls_back:
  "\<exists>c w'. invoke gwx_env gwx_providers default_circuit gwx_invocation gwx_second = (Inr (Inr c), w') \<and> cm_fallback c \<and> cm_model c = ''llama-1''"
proof -
  have resolved: "resolve_or_create_lock gwx_env gwx_context gwx_second = (Inr gwx_lock, gwx_resolved)"
    using gwx_steps(1) by (simp add: gwx_resolved_def prod_eq_iff)
  obtain r where rule: "rule_for gwx_lock gwx_resolved = (Inr (Some r), gwx_resolved)" "ru_fallback r = Some ''llama-1''"
    using gwx_steps(2) rule_for_pure [of gwx_lock gwx_resolved]
    by (cases "rule_for gwx_lock gwx_resolved") (auto split: sum.splits option.splits)
  have tried: "execute_request gwx_env gwx_providers default_circuit (provider_request_of gwx_invocation) gwx_lock DEFAULT_MAX_ATTEMPTS gwx_resolved
      = (Inr (Inl exhausted), gwx_exhausted)"
    using gwx_steps(3) by (intro exhausted_at_once)
      (cases "top_candidate gwx_env ''qwen-1'' gwx_resolved", auto simp: gwx_facts gwx_exhausted_def split: sum.splits)
  obtain fl where "fst gwx_fallback = Inr fl" and fl: "lk_model fl = ''llama-1''"
    using gwx_steps(4) by (auto split: sum.splits)
  then obtain w3 where made: "gwx_fallback = (Inr fl, w3)" by (metis prod.collapse)
  then have w3: "snd gwx_fallback = w3" by (metis snd_conv)
  obtain c w4 where top: "top_candidate gwx_env ''llama-1'' w3 = (Inr (Inr c), w4)" "ec_protocol c = ''ollama''" "ec_credential c = None"
      "gd_attempts (gw_db w4) = []"
    using gwx_steps(5,6) [unfolded w3] by (cases "top_candidate gwx_env ''llama-1'' w3") (auto split: sum.splits)
  from gwx_answered [of fl w3, unfolded fl, OF top] obtain res w5
    where answered: "execute_request gwx_env gwx_providers default_circuit (provider_request_of gwx_invocation) fl DEFAULT_MAX_ATTEMPTS w3 = (Inr (Inr res), w5)"
    by blast
  have task: "py_strip (iv_task gwx_invocation) \<noteq> []" by code_simp
  have parts: "iv_context gwx_invocation = gwx_context" by (simp add: gwx_invocation_def)
  have scope: "lk_scope_type gwx_lock = ''session''" "lk_scope gwx_lock = ''s1''" by (simp_all add: gwx_lock_def)
  let ?f = "''fallback after '' @ failure_kind (pf_class exhausted) @ '': '' @ pf_message exhausted"
  let ?res = "res\<lparr>cm_fallback := True, cm_reason := Some (failure_kind (pf_class exhausted)), cm_model := lk_model fl,
               cm_lock := lk_id fl, cm_rule := sn_rule (lk_snapshot fl), cm_version := sn_version (lk_snapshot fl)\<rparr>"
  obtain w6 where noted: "record_receipt gwx_env gwx_invocation fl (Some ?res) (Some (failure_kind (pf_class exhausted))) w5 = (Inr (), w6)"
    using swallowed by blast
  have "invoke_fallback gwx_env gwx_providers default_circuit gwx_invocation gwx_lock ''llama-1'' exhausted gwx_exhausted = (Inr (Inr ?res), w6)"
    using made answered noted by (simp add: invoke_fallback_def act_bind_def act_return_def scope gwx_active gwx_fallback_def Let_def)
  then have "invoke gwx_env gwx_providers default_circuit gwx_invocation gwx_second = (Inr (Inr ?res), w6)"
    using task resolved rule tried gwx_steps(7)
    by (simp add: invoke_def act_bind_def act_return_def act_check_that_def parts truthy_def)
  then show ?thesis using fl by auto
qed


text \<open>C32: The first match is the earliest rule, in the order of the list, among the enabled matching rules of the least
  priority number; there is none exactly when no rule matches.\<close>

theorem first_match_decides:
  "find_first_match rules c =
     (if \<exists>r \<in> set rules. rule_matches r c
      then find (\<lambda>r. rule_matches r c \<and> (\<forall>x \<in> set rules. rule_matches x c \<longrightarrow> ru_priority r \<le> ru_priority x)) rules
      else None)"
proof (cases "find_all_matches rules c")
  case Nil
  then have "filter (\<lambda>r. rule_matches r c) rules = []" unfolding find_all_eq by (metis sort_key_simps(1) set_empty set_sort)
  with Nil show ?thesis by (auto simp: first_match_hd filter_empty_conv)
next
  case (Cons r rs)
  then have s: "sort_key ru_priority (filter (\<lambda>r. rule_matches r c) rules) = r # rs" by (simp add: find_all_eq)
  have set: "set (filter (\<lambda>r. rule_matches r c) rules) = set (r # rs)" using s by (metis set_sort)
  have least: "\<forall>x \<in> set rules. rule_matches x c \<longrightarrow> ru_priority r \<le> ru_priority x"
  proof -
    have "sorted (map ru_priority (r # rs))" using s by (metis sorted_sort_key)
    then have "\<forall>x \<in> set (r # rs). ru_priority r \<le> ru_priority x" by auto
    with set show ?thesis by auto
  qed
  have "find (\<lambda>x. ru_priority x = ru_priority r) (filter (\<lambda>r. rule_matches r c) rules) = Some r"
    by (rule sort_key_hd_first [OF s])
  moreover have "(\<lambda>x. rule_matches x c \<and> (\<forall>y \<in> set rules. rule_matches y c \<longrightarrow> ru_priority x \<le> ru_priority y)) x
      = (rule_matches x c \<and> ru_priority x = ru_priority r)" if "x \<in> set rules" for x
    using that least set by (auto intro: antisym)
  moreover have "\<exists>r \<in> set rules. rule_matches r c" using set by auto
  ultimately show ?thesis using Cons by (simp add: first_match_hd find_filter cong: find_cong)
qed

theorem first_match_decides_witness:
  "find_first_match [gwx_rule\<lparr>ru_priority := 7\<rparr>, gwx_rule, gwx_rule\<lparr>ru_id := ''r2''\<rparr>] gwx_context = Some gwx_rule"
  by (simp add: first_match_decides rule_matches_def gwx_rule_def)

text \<open>C30: Failover ends: an execution with \<open>n\<close> attempts records at most \<open>n\<close> attempts whatever the providers answer, and a
  completion counts between one and \<open>n\<close> of them.\<close>

theorem failover_terminates:
  assumes "execute_request env pe p req l n w = (out, w')"
  shows "length (gd_attempts (gw_db w')) \<le> length (gd_attempts (gw_db w)) + n
    \<and> (\<forall>r. out = Inr (Inr r) \<longrightarrow> 0 < cm_attempts r \<and> cm_attempts r \<le> n)"
  using executed [OF assms] by (auto simp: spent_def completed_spent_def)

theorem failover_terminates_witness:
  "\<exists>r w'. execute_request gwx_env gwx_providers default_circuit gwx_request gwx_lock 5 gwx_world = (Inr (Inr r), w')
     \<and> 0 < cm_attempts r \<and> length (gd_attempts (gw_db w')) \<le> 5"
proof -
  obtain r w' where run: "execute_request gwx_env gwx_providers default_circuit gwx_request gwx_lock 5 gwx_world = (Inr (Inr r), w')"
    using gwx_answer by blast
  with failover_terminates [OF run] show ?thesis by (auto simp: gwx_facts)
qed

text \<open>C29: The model of the lock answers, never another one: a completion comes from an active binding of the locked canonical
  model, of exactly that revision, and is booked on that lock.\<close>

theorem locked_model_answers:
  assumes "execute_request env pe p req l n w = (Inr (Inr r), w')"
  shows "cm_model r = lk_model l \<and> cm_lock r = lk_id l \<and> (\<exists>b \<in> set (gd_bindings (gw_db w)). bi_id b = cm_binding r
    \<and> bi_model b = lk_model l \<and> bi_provider_model b = cm_provider_model r \<and> bi_active b \<and> bi_level b = ''exact_revision'')"
  using executed [OF assms] by (auto simp: completed_spent_def serves_def)

theorem locked_model_answers_witness:
  "\<exists>r w'. execute_request gwx_env gwx_providers default_circuit gwx_request gwx_lock 5 gwx_world = (Inr (Inr r), w')
     \<and> cm_model r = ''qwen-1'' \<and> cm_lock r = ''L1''"
proof -
  obtain r w' where run: "execute_request gwx_env gwx_providers default_circuit gwx_request gwx_lock 5 gwx_world = (Inr (Inr r), w')"
    using gwx_answer by blast
  with locked_model_answers [OF run] show ?thesis by (auto simp: gwx_facts gwx_active)
qed

lemma transient_cooldown:
  assumes "cooldown_deadline now i f = Inr (Some d)" and "pf_class f \<in> {ProviderUnavailableFailure, NetworkFailure, TimeoutFailure}"
  shows "now + 1000000 \<le> d"
proof -
  have "(1::rat) \<le> min (2 ^ i) COOLDOWN_CEILING" by (simp add: COOLDOWN_CEILING_def)
  then have "1000000 \<le> timedelta_us (min (2 ^ i) COOLDOWN_CEILING)" by (intro timedelta_us_ge) simp
  with assms show ?thesis
    by (auto simp: cooldown_deadline_def transient_def calculate_backoff_cooldown_seconds_def split: if_splits)
qed



text \<open>The circuit of an endpoint opens exactly when the failures since the last success reach the threshold, and stays
  open for the timeout counted from the last failure.\<close>

theorem circuit_trips_at_threshold:
  assumes "1 \<le> cb_threshold p" and "list_all is_failure fs"
  shows "es_open (observed p fs (after_success s t0 latency)) =
     (if cb_threshold p \<le> int (length fs) then Some (outcome_time (last fs) + timedelta_us (cb_timeout p)) else None)"
  using assms(2)
proof (induction fs rule: rev_induct)
  case Nil
  then show ?case using assms(1) by (simp add: observed_def after_success_def)
next
  case (snoc f fs)
  then obtain t e cd where f: "f = Failed_At t e cd" by (cases f) auto
  have streak: "es_streak (observed p fs (after_success s t0 latency)) = int (length fs)"
    using snoc.prems by (subst observed_streak) (simp_all add: after_success_def)
  show ?case using snoc by (simp add: f observed_append observed_def [of p "[_]"] after_failure_def streak)
qed

theorem circuit_trips_at_threshold_witness:
  "es_open (observed default_circuit [Failed_At 1 ''timeout'' None, Failed_At 2 ''timeout'' None, Failed_At 5 ''network'' None]
     (after_success fresh_state 0 1)) = Some (5 + timedelta_us 30)"
  by (subst circuit_trips_at_threshold) (simp_all add: default_circuit_def)

text \<open>Attempts are numbered by the second, the endpoint and the index: when two executions succeed on the same endpoint
  with the same index and their clocks round to the same second, the second one raises \<^verbatim>\<open>IntegrityError\<close> after the
  provider has answered, and its success is not recorded.\<close>

theorem second_answer_in_a_second_lost:
  assumes "record_success env l c us i started w = (Inr (), w1)"
    and "round_half_even (timestamp (ge_now env (gw_tick w1))) = round_half_even (timestamp (ge_now env (gw_tick w)))"
    and "ec_endpoint c' = ec_endpoint c"
  shows "fst (record_success env l' c' us' i started' w1) = Inl (IntegrityError ''attempts'')
    \<and> gw_db (snd (record_success env l' c' us' i started' w1)) = gw_db w1"
proof -
  have "attempt_id (ge_now env (gw_tick w1)) (ec_endpoint c') i = attempt_id (ge_now env (gw_tick w)) (ec_endpoint c) i"
    using assms(2,3) by (simp add: attempt_id_def)
  moreover have "list_ex (\<lambda>x. ga_id x = attempt_id (ge_now env (gw_tick w)) (ec_endpoint c) i) (gd_attempts (gw_db w1))"
    using assms(1) by (auto simp: record_success_def act_defs get_endpoint_state_def save_endpoint_state_def insert_attempt_def
        put_attempts_def split: if_splits)
  ultimately show ?thesis
    by (simp add: record_success_def act_defs get_endpoint_state_def save_endpoint_state_def insert_attempt_def put_attempts_def)
qed

theorem second_answer_in_a_second_lost_witness:
  "\<exists>w1. record_success gwx_quick gwx_lock gwx_endpoint no_tokens 0 0 gwx_world = (Inr (), w1)
     \<and> fst (record_success gwx_quick gwx_lock gwx_endpoint no_tokens 0 0 w1) = Inl (IntegrityError ''attempts'')"
proof -
  obtain w1 where run: "record_success gwx_quick gwx_lock gwx_endpoint no_tokens 0 0 gwx_world = (Inr (), w1)" and tick: "gw_tick w1 = 1"
    by (auto simp: act_defs record_success_def get_endpoint_state_def save_endpoint_state_def insert_attempt_def gwx_facts)
  have "round_half_even (timestamp (ge_now gwx_quick (gw_tick w1))) = round_half_even (timestamp (ge_now gwx_quick (gw_tick gwx_world)))"
    unfolding tick gwx_facts by code_simp
  from second_answer_in_a_second_lost [OF run this] run show ?thesis by blast
qed

text \<open>A provider is deleted with its endpoints and credentials when no enabled rule locks a model that it serves, or when
  such rules may be disabled, which then happens; otherwise it is refused and nothing changes.\<close>

theorem delete_provider_decides:
  assumes "p \<in> set (gd_providers (gw_db w))" and "pv_id p = pid"
  defines "blocking \<equiv> map ru_id (filter (\<lambda>r. ru_enabled r \<and> ru_model r \<in> set (provider_models (gw_db w) pid)) (gd_rules (gw_db w)))"
  shows "if blocking = [] \<or> allow
    then \<exists>w'. delete_provider env pid allow w = (Inr blocking, w') \<and> pid \<notin> pv_id ` set (gd_providers (gw_db w'))
      \<and> pid \<notin> ep_provider ` set (gd_endpoints (gw_db w')) \<and> pid \<notin> cr_provider ` set (gd_credentials (gw_db w'))
      \<and> (\<forall>r \<in> set (gd_rules (gw_db w')). ru_id r \<in> set blocking \<longrightarrow> \<not> ru_enabled r)
    else delete_provider env pid allow w = (Inl PROVIDER_IN_USE, w)"
proof -
  have "find (\<lambda>r. pv_id r = pid) (gd_providers (gw_db w)) \<noteq> None" using assms(1,2) by (auto simp: find_None_iff)
  moreover have "filter (\<lambda>r. ru_enabled r \<and> ru_model r \<in> set (provider_models (gw_db w) pid)) (gd_rules (gw_db w)) = [] \<longleftrightarrow> blocking = []"
    by (simp add: blocking_def)
  ultimately show ?thesis
    by (auto simp: delete_provider_def act_defs get_provider_row_def act_check_that_def canonical_models_for_provider_def
      rule_ids_referencing_models_def disable_rules_def delete_provider_rows_def gw_put_defs blocking_def [symmetric] set_sql_update
      split: if_splits)
qed

theorem delete_provider_decides_witness:
  "delete_provider gwx_env ''pv-lab'' False gwx_world = (Inl PROVIDER_IN_USE, gwx_world)"
proof -
  have "hd (gd_providers (gw_db gwx_world)) \<in> set (gd_providers (gw_db gwx_world))" "pv_id (hd (gd_providers (gw_db gwx_world))) = ''pv-lab''"
    by (simp_all add: gwx_defs)
  from delete_provider_decides [OF this, of False gwx_env] show ?thesis
    by (simp add: gwx_defs provider_models_def routing_rule.defs rule_row.defs)
qed

text \<open>Disabling a provider stops nothing: the switch \<^verbatim>\<open>enabled\<close> of providers, which \<^verbatim>\<open>update_provider\<close> sets, has no
  influence on which endpoints are selected.\<close>

theorem disabled_provider_still_selected:
  "select_candidates (put_providers (map (\<lambda>r. r\<lparr>pv_enabled := e\<rparr>) (gd_providers db)) db) model t = select_candidates db model t"
proof (rule selected_by_state)
  fix b
  have "map_option (\<lambda>p. (pv_id p, pv_name p)) (find (\<lambda>p. pv_id p = b) (map (\<lambda>r. r\<lparr>pv_enabled := e\<rparr>) rs)) =
      map_option (\<lambda>p. (pv_id p, pv_name p)) (find (\<lambda>p. pv_id p = b) rs)" for rs
    by (induction rs) auto
  then show "map_option (\<lambda>p. (pv_id p, pv_name p)) (find (\<lambda>p. pv_id p = b) (gd_providers (put_providers (map (\<lambda>r. r\<lparr>pv_enabled := e\<rparr>) (gd_providers db)) db))) =
      map_option (\<lambda>p. (pv_id p, pv_name p)) (find (\<lambda>p. pv_id p = b) (gd_providers db))"
    by (simp add: put_providers_def)
qed (simp_all add: put_providers_def endpoint_state_of_def)

text \<open>A rejected credential, an exhausted quota and an unknown model are decided as failover, but below the threshold of the
  circuit they leave the selection as it was: the next attempt calls the same endpoint again.\<close>

theorem rejected_credential_tried_again:
  assumes "pf_class f \<in> {AuthenticationFailure, PermissionFailure, ModelNotFoundFailure, QuotaExhaustedFailure}"
    and "record_failure env p l c i f started w = (Inr (), w')"
    and "es_streak (endpoint_state_of (gw_db w) (ec_endpoint c)) + 1 < cb_threshold p"
  shows "at_decision (classify_failure (pf_class f) i 1) = FAILOVER \<and> select_candidates (gw_db w') model t = select_candidates (gw_db w) model t"
proof -
  have cd: "cooldown_deadline (ge_now env (gw_tick w)) i f = Inr None"
    using assms(1) by (auto simp: cooldown_deadline_def transient_def)
  have "is_available (endpoint_state_of (gw_db w') e) t = is_available (endpoint_state_of (gw_db w) e) t" for e
    using failure_state [OF assms(2) cd] record_failure_others [OF assms(2), of e] assms(3)
    by (cases "e = ec_endpoint c") (auto simp: is_available_def after_failure_def later_def)
  then show ?thesis using assms(1)
    by (auto simp: decide_def record_failure_frame [OF assms(2)] intro!: selected_by_state)
qed

theorem rejected_credential_tried_again_witness:
  "\<exists>c w'. select_candidates gwx_db ''qwen-1'' 0 = [c]
     \<and> record_failure gwx_env default_circuit gwx_lock c 0 (make_failure AuthenticationFailure ''no'' None None) 0 gwx_world = (Inr (), w')
     \<and> select_candidates (gw_db w') ''qwen-1'' 0 = [c]"
proof -
  obtain c where c: "select_candidates gwx_db ''qwen-1'' 0 = [c]" using gwx_candidate by blast
  obtain w' where run: "record_failure gwx_env default_circuit gwx_lock c 0 (make_failure AuthenticationFailure ''no'' None None) 0 gwx_world = (Inr (), w')"
    by (auto simp: act_defs record_failure_def get_endpoint_state_def save_endpoint_state_def insert_attempt_def
        gwx_facts put_attempts_def cooldown_deadline_def transient_def make_failure_def)
  from rejected_credential_tried_again [OF _ run, of "''qwen-1''" 0] c run show ?thesis
    by (auto simp: make_failure_def gwx_facts endpoint_state_of_def fresh_state_def default_circuit_def)
qed

section \<open>Further behaviour of errors\<close>

text \<open>A rate limit whose \<^verbatim>\<open>Retry-After\<close> is not a number: the failure is not recorded and another exception escapes.\<close>

theorem nan_retry_after_escapes:
  assumes "pf_class f = RateLimitFailure" and "pf_retry_after f = Some NaN"
  shows "fst (record_failure env p l c i f started w) = Inl (ValueError ''cannot convert float NaN to integer'')
    \<and> gw_db (snd (record_failure env p l c i f started w)) = gw_db w"
  using assms by (simp add: record_failure_def act_defs cooldown_deadline_def)

text \<open>Registering a name that is taken leaves the secret that was written first, which no row names.\<close>

theorem duplicate_registration_leaves_secret:
  assumes "py_strip name \<noteq> []" and "py_strip url \<noteq> []" and "py_strip protocol \<noteq> []" and "secret \<noteq> []" and "e \<noteq> []"
    and "find (\<lambda>r. pv_name r = py_strip name) (gd_providers (gw_db w)) \<noteq> None"
  shows "register_provider env name display vendor url protocol (Some secret) label discovery (Some e) w =
    (Inl DUPLICATE_PROVIDER, w\<lparr>gw_secrets := (gw_secrets w)(credential_secret_name (''cred-'' @ take 12 (ge_hex env (gw_tick w))) := Some secret),
       gw_tick := Suc (gw_tick w)\<rparr>)"
  using assms
  by (auto simp: register_provider_def gw_text_def act_defs Let_def truthy_def world_write_secret_def register_rows_def
      get_provider_by_name_def act_check_that_def)

text \<open>Two quantizations share one canonical model although they are not eligible to replace each other.\<close>

theorem quantizations_conflated:
  "nm_canonical (normalize_model_id ''llama3:8b-q4_0'' ''lab'') = nm_canonical (normalize_model_id ''llama3:8b-q8_0'' ''lab'')
   \<and> \<not> ea_eligible (classify_equivalence (normalize_model_id ''llama3:8b-q4_0'' ''lab'') (normalize_model_id ''llama3:8b-q8_0'' ''lab''))"
  by code_simp

end
