(* ===== verification/Automation_Sandbox.thy ===== *)
theory Automation_Sandbox
  imports Scopes "HOL-Library.Sublist"
begin

text \<open>
  The path sandbox of the automation module (\<^verbatim>\<open>domain/sandbox.py\<close>). \<^verbatim>\<open>Path.resolve\<close> is modelled as
  \<^verbatim>\<open>os.path.realpath\<close> works: component by component, replacing the symbolic links of the file system it
  meets; a link met again while it is being resolved is a loop. A resolved path is the list of its components.
\<close>

section \<open>Resolving paths\<close>

text \<open>The directory of the process (physical) and the symbolic links, each with the text it points to.\<close>

record path_env =
  pe_cwd :: "string list"
  pe_links :: "(string list \<times> string) list"

fun split_on :: "char \<Rightarrow> string \<Rightarrow> string list" where
  "split_on c [] = [[]]"
| "split_on c (x # xs) =
     (if x = c then [] # split_on c xs else (case split_on c xs of [] \<Rightarrow> [[x]] | p # ps \<Rightarrow> (x # p) # ps))"

definition path_parts :: "string \<Rightarrow> string list" where
  "path_parts p = filter (\<lambda>s. s \<noteq> [] \<and> s \<noteq> ''.'') (split_on (CHR ''/'') p)"

definition is_absolute :: "string \<Rightarrow> bool" where
  "is_absolute p \<longleftrightarrow> take 1 p = ''/''"

definition links_left :: "path_env \<Rightarrow> string list list \<Rightarrow> nat" where
  "links_left pe active = card (set (map fst (pe_links pe)) - set active)"

text \<open>\<open>cur\<close> is resolved already, \<open>active\<close> are the links under resolution; \<open>None\<close> is a loop.\<close>

function resolve_parts :: "path_env \<Rightarrow> string list list \<Rightarrow> string list \<Rightarrow> string list \<Rightarrow> string list option" where
  "resolve_parts pe active cur [] = Some cur"
| "resolve_parts pe active cur (c # rest) =
     (if c = ''..'' then resolve_parts pe active (butlast cur) rest
      else case map_of (pe_links pe) (cur @ [c]) of
        None \<Rightarrow> resolve_parts pe active (cur @ [c]) rest
      | Some t \<Rightarrow>
          if cur @ [c] \<in> set active then None
          else (case resolve_parts pe ((cur @ [c]) # active) (if is_absolute t then [] else cur) (path_parts t) of
            None \<Rightarrow> None
          | Some cur' \<Rightarrow> resolve_parts pe active cur' rest))"
  by pat_completeness auto
termination
proof (relation "measures [\<lambda>(pe, active, cur, rest). links_left pe active, \<lambda>(pe, active, cur, rest). length rest]", goal_cases)
  case (4 pe active cur c rest t)
  then have "cur @ [c] \<in> set (map fst (pe_links pe)) - set active"
    by (metis DiffI image_eqI list.set_map map_of_SomeD fst_conv)
  then have "card (set (map fst (pe_links pe)) - set active - {cur @ [c]}) < card (set (map fst (pe_links pe)) - set active)"
    by (intro psubset_card_mono) auto
  moreover have "set (map fst (pe_links pe)) - set ((cur @ [c]) # active) = set (map fst (pe_links pe)) - set active - {cur @ [c]}"
    by auto
  ultimately show ?case by (simp add: links_left_def)
qed auto

text \<open>\<^verbatim>\<open>Path(p).resolve()\<close>, and the same of \<^verbatim>\<open>root / p\<close> for a relative \<open>p\<close>.\<close>

definition resolve_from :: "path_env \<Rightarrow> string list \<Rightarrow> string \<Rightarrow> exn + string list" where
  "resolve_from pe start p =
     (if char_of (0::nat) \<in> set p then Inl (ValueError ''embedded null byte'')
      else case resolve_parts pe [] [] (start @ path_parts p) of
        None \<Rightarrow> Inl (RuntimeErr ''Symlink loop'')
      | Some r \<Rightarrow> Inr r)"

definition path_resolve :: "path_env \<Rightarrow> string \<Rightarrow> exn + string list" where
  "path_resolve pe p = resolve_from pe (if is_absolute p then [] else pe_cwd pe) p"

section \<open>Containment\<close>

text \<open>A relative target is resolved against the directory of the process first; that result only matters if it raises.\<close>

definition is_within_workspace :: "path_env \<Rightarrow> string \<Rightarrow> string \<Rightarrow> bool" where
  "is_within_workspace pe target ws =
     (if target = [] \<or> ws = [] then False
      else case path_resolve pe ws of Inl _ \<Rightarrow> False
      | Inr norm_root \<Rightarrow> (case path_resolve pe target of Inl _ \<Rightarrow> False
      | Inr norm_target \<Rightarrow>
          if is_absolute target then prefix norm_root norm_target
          else (case resolve_from pe norm_root target of Inl _ \<Rightarrow> False
            | Inr norm_target \<Rightarrow> prefix norm_root norm_target)))"

definition escapes :: "string \<Rightarrow> string \<Rightarrow> string" where
  "escapes target ws = ''path ['' @ target @ ''] escapes workspace root ['' @ ws @ '']''"

definition resolve_safe_path :: "path_env \<Rightarrow> string \<Rightarrow> string \<Rightarrow> exn + string list" where
  "resolve_safe_path pe target ws =
     (if py_strip target = [] then Inl (ValueError ''file_path cannot be empty'')
      else if py_strip ws = [] then Inl (ValueError ''workspace_root cannot be empty'')
      else case path_resolve pe ws of Inl e \<Rightarrow> Inl e
      | Inr norm_root \<Rightarrow>
          (case (if is_absolute target then path_resolve pe target else resolve_from pe norm_root target) of
             Inl e \<Rightarrow> Inl e
           | Inr resolved \<Rightarrow>
               if prefix norm_root resolved then Inr resolved else Inl (ValueError (escapes target ws))))"

section \<open>What a resolved path is\<close>

text \<open>No step up, no empty component, and no symbolic link on the way.\<close>

definition physical :: "path_env \<Rightarrow> string list \<Rightarrow> bool" where
  "physical pe p \<longleftrightarrow> (\<forall>c \<in> set p. c \<noteq> ''..'' \<and> c \<noteq> ''.'' \<and> c \<noteq> [])
     \<and> (\<forall>n \<in> {1..length p}. map_of (pe_links pe) (take n p) = None)"

lemma physical_Nil [simp]: "physical pe []"
  by (simp add: physical_def)

lemma physical_butlast: "physical pe p \<Longrightarrow> physical pe (butlast p)"
  by (auto simp: physical_def in_set_butlastD take_butlast)

lemma physical_snoc:
  assumes "physical pe p" and "c \<noteq> ''..''" "c \<noteq> ''.''" "c \<noteq> []" and "map_of (pe_links pe) (p @ [c]) = None"
  shows "physical pe (p @ [c])"
  using assms by (auto simp: physical_def le_Suc_eq)

lemma path_parts_proper: "c \<in> set (path_parts p) \<Longrightarrow> c \<noteq> [] \<and> c \<noteq> ''.''"
  by (simp add: path_parts_def)

lemma resolve_parts_physical:
  assumes "resolve_parts pe active cur rest = Some r" and "physical pe cur" and "\<forall>c \<in> set rest. c \<noteq> [] \<and> c \<noteq> ''.''"
  shows "physical pe r"
  using assms
proof (induction pe active cur rest arbitrary: r rule: resolve_parts.induct)
  case (1 pe active cur)
  then show ?case by simp
next
  case (2 pe active cur c rest)
  show ?case
  proof (cases "c = ''..''")
    case True
    with 2 show ?thesis by (simp add: physical_butlast)
  next
    case no: False
    show ?thesis
    proof (cases "map_of (pe_links pe) (cur @ [c])")
      case None
      then have "physical pe (cur @ [c])" using 2 no by (auto intro: physical_snoc)
      with 2 no None show ?thesis by simp
    next
      case (Some t)
      have "physical pe (if is_absolute t then [] else cur)" using 2 by simp
      moreover have "\<forall>c \<in> set (path_parts t). c \<noteq> [] \<and> c \<noteq> ''.''" by (simp add: path_parts_proper)
      ultimately show ?thesis using 2 no Some by (auto split: if_splits option.splits)
    qed
  qed
qed

text \<open>A physical path resolves to itself: nothing is left to follow.\<close>

lemma resolve_parts_id:
  "physical pe (cur @ p) \<Longrightarrow> resolve_parts pe active cur p = Some (cur @ p)"
proof (induction p arbitrary: cur)
  case Nil
  then show ?case by simp
next
  case (Cons c p)
  from Cons.prems have "map_of (pe_links pe) (take (Suc (length cur)) (cur @ c # p)) = None"
    unfolding physical_def by (elim conjE bspec) simp
  then have l: "map_of (pe_links pe) (cur @ [c]) = None" by simp
  have "c \<noteq> ''..''" using Cons.prems by (simp add: physical_def)
  with l have "resolve_parts pe active cur (c # p) = resolve_parts pe active (cur @ [c]) p" by simp
  also have "\<dots> = Some ((cur @ [c]) @ p)" using Cons.prems by (intro Cons.IH) simp
  finally show ?case by simp
qed

text \<open>Resolution goes on from where a prefix led.\<close>

lemma resolve_parts_append:
  "resolve_parts pe active cur (p @ q) =
     (case resolve_parts pe active cur p of None \<Rightarrow> None | Some r \<Rightarrow> resolve_parts pe active r q)"
  by (induction pe active cur p rule: resolve_parts.induct) (auto split: option.splits)

lemma resolve_from_physical:
  assumes "resolve_from pe start p = Inr r" and "\<forall>c \<in> set start. c \<noteq> [] \<and> c \<noteq> ''.''"
  shows "physical pe r"
proof -
  have proper: "\<forall>c \<in> set (start @ path_parts p). c \<noteq> [] \<and> c \<noteq> ''.''"
    using assms(2) path_parts_proper by auto
  have res: "resolve_parts pe [] [] (start @ path_parts p) = Some r"
    using assms(1) by (simp add: resolve_from_def split: if_splits option.splits)
  show ?thesis by (rule resolve_parts_physical [OF res physical_Nil proper])
qed

lemma resolve_from_base:
  "physical pe start \<Longrightarrow> char_of (0::nat) \<notin> set p \<Longrightarrow>
   resolve_from pe start p =
     (case resolve_parts pe [] start (path_parts p) of None \<Rightarrow> Inl (RuntimeErr ''Symlink loop'') | Some r \<Rightarrow> Inr r)"
  using resolve_parts_id [of pe "[]" start "[]"] by (simp add: resolve_from_def resolve_parts_append)

lemma path_resolve_physical:
  assumes "path_resolve pe p = Inr r" and "physical pe (pe_cwd pe)"
  shows "physical pe r"
  using assms unfolding path_resolve_def by (elim resolve_from_physical) (auto simp: physical_def)

text \<open>What \<open>is_within_workspace\<close> admits is what \<open>resolve_safe_path\<close> hands out, and the other way around.\<close>

lemma admitted_path:
  assumes "is_within_workspace pe target ws" and "py_strip target \<noteq> []" and "py_strip ws \<noteq> []"
  shows "\<exists>r p. path_resolve pe ws = Inr r \<and> resolve_safe_path pe target ws = Inr p \<and> prefix r p"
  using assms by (auto simp: is_within_workspace_def resolve_safe_path_def split: if_splits sum.splits)

lemma safe_path_cases:
  assumes "resolve_safe_path pe target ws = Inr p"
  obtains r where "path_resolve pe ws = Inr r" and "prefix r p"
    and "(if is_absolute target then path_resolve pe target else resolve_from pe r target) = Inr p"
  using assms by (auto simp: resolve_safe_path_def split: if_splits sum.splits)

lemma physical_proper: "physical pe r \<Longrightarrow> \<forall>c \<in> set r. c \<noteq> [] \<and> c \<noteq> ''.''"
  by (simp add: physical_def)

lemma safe_path_physical:
  assumes "resolve_safe_path pe target ws = Inr p" and "physical pe (pe_cwd pe)"
  shows "physical pe p"
proof -
  from assms(1) obtain r where r: "path_resolve pe ws = Inr r"
    and p: "(if is_absolute target then path_resolve pe target else resolve_from pe r target) = Inr p"
    by (rule safe_path_cases)
  from path_resolve_physical [OF r assms(2)] have "physical pe r" .
  with p assms(2) show ?thesis
    by (auto split: if_splits intro: path_resolve_physical resolve_from_physical [OF _ physical_proper])
qed

end
