(* ===== verification/Automation_Policy.thy ===== *)
theory Automation_Policy
  imports Automation_Sandbox
begin

text \<open>
  What tools are and when they may run: tool definitions (\<^verbatim>\<open>modules/automation/domain/definition.py\<close>), invocations
  and their context (\<^verbatim>\<open>domain/invocation.py\<close>), the classification of \<^verbatim>\<open>domain/policy_mapping.py\<close>, the gate
  in front of every execution (\<^verbatim>\<open>application/policy.py\<close>) and the rule engine of
  \<^verbatim>\<open>platform/security/policy.py\<close> behind it. The gate relies on an engine only through the locale \<open>policy_engine\<close>.
\<close>

section \<open>Tool definitions\<close>

datatype tool_risk = READ_ONLY | WORKSPACE_WRITE | EXTERNAL_NETWORK | SECRET_ACCESS | PROCESS_EXECUTION | DESTRUCTIVE | PRIVILEGED

datatype runtime_type = IN_PROCESS | SUBPROCESS | BROWSER | MCP | DESKTOP | CONTAINER | REMOTE

definition risk_value :: "tool_risk \<Rightarrow> string" where
  "risk_value r = (case r of READ_ONLY \<Rightarrow> ''read_only'' | WORKSPACE_WRITE \<Rightarrow> ''workspace_write''
     | EXTERNAL_NETWORK \<Rightarrow> ''external_network'' | SECRET_ACCESS \<Rightarrow> ''secret_access''
     | PROCESS_EXECUTION \<Rightarrow> ''process_execution'' | DESTRUCTIVE \<Rightarrow> ''destructive'' | PRIVILEGED \<Rightarrow> ''privileged'')"

definition runtime_value :: "runtime_type \<Rightarrow> string" where
  "runtime_value r = (case r of IN_PROCESS \<Rightarrow> ''in_process'' | SUBPROCESS \<Rightarrow> ''subprocess'' | BROWSER \<Rightarrow> ''browser''
     | MCP \<Rightarrow> ''mcp'' | DESKTOP \<Rightarrow> ''desktop'' | CONTAINER \<Rightarrow> ''container'' | REMOTE \<Rightarrow> ''remote'')"

text \<open>The constructors of the enumerations look a value up.\<close>

definition risk_of :: "string \<Rightarrow> exn + tool_risk" where
  "risk_of v = (case find (\<lambda>r. risk_value r = v)
       [READ_ONLY, WORKSPACE_WRITE, EXTERNAL_NETWORK, SECRET_ACCESS, PROCESS_EXECUTION, DESTRUCTIVE, PRIVILEGED] of
     None \<Rightarrow> Inl (ValueError v) | Some r \<Rightarrow> Inr r)"

definition runtime_of :: "string \<Rightarrow> exn + runtime_type" where
  "runtime_of v = (case find (\<lambda>r. runtime_value r = v) [IN_PROCESS, SUBPROCESS, BROWSER, MCP, DESKTOP, CONTAINER, REMOTE] of
     None \<Rightarrow> Inl (ValueError v) | Some r \<Rightarrow> Inr r)"

lemma risk_of_value [simp]: "risk_of (risk_value r) = Inr r"
  by (cases r) (simp_all add: risk_of_def risk_value_def)

lemma runtime_of_value [simp]: "runtime_of (runtime_value r) = Inr r"
  by (cases r) (simp_all add: runtime_of_def runtime_value_def)

definition high_risk :: "tool_risk \<Rightarrow> bool" where
  "high_risk r \<longleftrightarrow> r \<in> {EXTERNAL_NETWORK, SECRET_ACCESS, PROCESS_EXECUTION, DESTRUCTIVE, PRIVILEGED}"

definition side_effect_classes :: "string list" where
  "side_effect_classes = [''none'', ''filesystem'', ''process'', ''network'', ''database'', ''git'']"

definition sandbox_requirements :: "string list" where
  "sandbox_requirements = [''none'', ''path_sandbox'', ''subprocess_sandbox'', ''browser_sandbox'']"

record tool_definition =
  td_name :: string
  td_description :: string
  td_version :: string
  td_risk :: tool_risk
  td_capability :: string
  td_runtime :: runtime_type
  td_side_effect :: string
  td_idempotent :: bool
  td_destructive :: bool
  td_reversible :: bool
  td_timeout :: pyfloat
  td_permissions :: "string list"
  td_sandbox :: string
  td_artifacts :: "string list"
  td_retry :: bool
  td_redaction :: string
  td_parameters :: "(pyobj \<times> pyobj) list"
  td_outputs :: "(pyobj \<times> pyobj) list"
  td_enabled :: bool

text \<open>A comparison with NaN is false.\<close>

definition not_positive :: "pyfloat \<Rightarrow> bool" where
  "not_positive f = (case f of Finite x \<Rightarrow> x \<le> 0 | NegInf \<Rightarrow> True | PosInf \<Rightarrow> False | NaN \<Rightarrow> False)"

fun check_texts :: "string \<Rightarrow> string list \<Rightarrow> exn + unit" where
  "check_texts field [] = Inr ()"
| "check_texts field (s # ss) = (case required_text field s of Inl e \<Rightarrow> Inl e | Inr _ \<Rightarrow> check_texts field ss)"

text \<open>\<^verbatim>\<open>ToolDefinition.__post_init__\<close>\<close>

definition make_definition :: "tool_definition \<Rightarrow> exn + tool_definition" where
  "make_definition t =
     (case required_text ''name'' (td_name t) of Inl e \<Rightarrow> Inl e | Inr name \<Rightarrow>
     (case required_text ''description'' (td_description t) of Inl e \<Rightarrow> Inl e | Inr description \<Rightarrow>
     (case required_text ''version'' (td_version t) of Inl e \<Rightarrow> Inl e | Inr version \<Rightarrow>
     (case required_text ''capability'' (td_capability t) of Inl e \<Rightarrow> Inl e | Inr capability \<Rightarrow>
      if td_side_effect t \<notin> set side_effect_classes then Inl (ValueError ''side_effect_class'')
      else if td_sandbox t \<notin> set sandbox_requirements then Inl (ValueError ''sandbox_requirement'')
      else if not_positive (td_timeout t) then Inl (ValueError ''timeout_seconds must be positive'')
      else (case check_texts ''required_permissions entry'' (td_permissions t) of Inl e \<Rightarrow> Inl e | Inr _ \<Rightarrow>
     (case check_texts ''artifact_outputs entry'' (td_artifacts t) of Inl e \<Rightarrow> Inl e | Inr _ \<Rightarrow>
     (case required_text ''redaction_policy'' (td_redaction t) of Inl e \<Rightarrow> Inl e | Inr redaction \<Rightarrow>
      Inr (t\<lparr>td_name := name, td_description := description, td_version := version, td_capability := capability,
             td_redaction := redaction\<rparr>))))))))"

text \<open>The values a definition can have once it exists.\<close>

definition stripped :: "string \<Rightarrow> bool" where
  "stripped s \<longleftrightarrow> s \<noteq> [] \<and> py_strip s = s"

definition definition_ok :: "tool_definition \<Rightarrow> bool" where
  "definition_ok t \<longleftrightarrow> stripped (td_name t) \<and> stripped (td_description t) \<and> stripped (td_version t)
     \<and> stripped (td_capability t) \<and> stripped (td_redaction t)
     \<and> td_side_effect t \<in> set side_effect_classes \<and> td_sandbox t \<in> set sandbox_requirements
     \<and> \<not> not_positive (td_timeout t)
     \<and> (\<forall>p \<in> set (td_permissions t). py_strip p \<noteq> []) \<and> (\<forall>a \<in> set (td_artifacts t). py_strip a \<noteq> [])"

lemma required_text_stripped: "required_text f s = Inr t \<Longrightarrow> stripped t"
  by (auto simp: required_text_def stripped_def split: if_splits)

lemma required_text_id: "stripped s \<Longrightarrow> required_text f s = Inr s"
  by (simp add: required_text_def stripped_def)

lemma check_texts_Inr: "check_texts f ss = Inr u \<longleftrightarrow> (\<forall>s \<in> set ss. py_strip s \<noteq> [])"
  by (induction ss) (auto simp: required_text_def)

lemma make_definition_ok: "make_definition t = Inr d \<Longrightarrow> definition_ok d"
  by (auto simp: make_definition_def definition_ok_def check_texts_Inr dest: required_text_stripped
      split: sum.splits if_splits)

lemma make_definition_id: "definition_ok t \<Longrightarrow> make_definition t = Inr t"
  using check_texts_Inr [of _ "td_permissions t" "()"] check_texts_Inr [of _ "td_artifacts t" "()"]
  by (simp add: make_definition_def definition_ok_def required_text_id)

text \<open>The fields that are not texts are kept.\<close>

lemma make_definition_keeps:
  "make_definition t = Inr d \<Longrightarrow> td_name d = py_strip (td_name t) \<and> td_timeout d = td_timeout t \<and> td_runtime d = td_runtime t
     \<and> td_risk d = td_risk t \<and> td_enabled d = td_enabled t"
  by (auto simp: make_definition_def text_simps split: sum.splits if_splits)

section \<open>Invocations\<close>

text \<open>\<open>params.get(key)\<close>, the truth value of an object, \<^verbatim>\<open>a or b\<close>, and \<^verbatim>\<open>str\<close> (a parameter for floats, containers and other classes).\<close>

definition py_get :: "string \<Rightarrow> (pyobj \<times> pyobj) list \<Rightarrow> pyobj" where
  "py_get k fs = (case find (\<lambda>(k', v). k' = PStr k) fs of None \<Rightarrow> PNone | Some (_, v) \<Rightarrow> v)"

fun py_true :: "pyobj \<Rightarrow> bool" where
  "py_true PNone = False"
| "py_true (PBool b) = b"
| "py_true (PInt i) = (i \<noteq> 0)"
| "py_true (PFloat f) = (f \<noteq> Finite 0)"
| "py_true (PStr s) = (s \<noteq> [])"
| "py_true (PList xs) = (xs \<noteq> [])"
| "py_true (PTuple xs) = (xs \<noteq> [])"
| "py_true (PMap ro fs) = (fs \<noteq> [])"
| "py_true (POther c) = True"

definition py_or :: "pyobj \<Rightarrow> pyobj \<Rightarrow> pyobj" where
  "py_or a b = (if py_true a then a else b)"

fun py_str :: "(pyobj \<Rightarrow> string) \<Rightarrow> pyobj \<Rightarrow> string" where
  "py_str render PNone = ''None''"
| "py_str render (PBool b) = (if b then ''True'' else ''False'')"
| "py_str render (PInt i) = show_int i"
| "py_str render (PStr s) = s"
| "py_str render v = render v"

record tool_invocation =
  ti_tool :: string
  ti_call :: string
  ti_params :: "(pyobj \<times> pyobj) list"
  ti_requested :: time
  ti_timeout :: "pyfloat option"

definition make_invocation :: "tool_invocation \<Rightarrow> exn + tool_invocation" where
  "make_invocation i =
     (case required_text ''tool_name'' (ti_tool i) of Inl e \<Rightarrow> Inl e | Inr tool \<Rightarrow>
     (case required_text ''call_id'' (ti_call i) of Inl e \<Rightarrow> Inl e | Inr call \<Rightarrow>
      if (case ti_timeout i of None \<Rightarrow> False | Some f \<Rightarrow> not_positive f) then Inl (ValueError ''timeout_seconds must be positive'')
      else Inr (i\<lparr>ti_tool := tool, ti_call := call\<rparr>)))"

record tool_context =
  cx_workspace :: string
  cx_actor :: "string option"
  cx_correlation :: "string option"
  cx_causation :: "string option"
  cx_trace :: "string option"
  cx_session :: "string option"
  cx_env :: "(string \<times> string) list"
  cx_approved :: bool

definition make_context :: "tool_context \<Rightarrow> exn + tool_context" where
  "make_context c =
     (case required_text ''workspace_root'' (cx_workspace c) of Inl e \<Rightarrow> Inl e | Inr ws \<Rightarrow>
     (case optional_text ''actor_id'' (cx_actor c) of Inl e \<Rightarrow> Inl e | Inr actor \<Rightarrow>
      Inr (c\<lparr>cx_workspace := ws, cx_actor := actor\<rparr>)))"

section \<open>Classification\<close>

definition hard_deny_actions :: "string list" where
  "hard_deny_actions = [''format_c'', ''drop_production_db'', ''exfiltrate_keys'', ''bypass_auth'']"

definition gated_capabilities :: "string list" where
  "gated_capabilities = [''shell'', ''filesystem'', ''browser'']"

definition gated_tools :: "string list" where
  "gated_tools = [''exec_shell'', ''shell'', ''write_file'', ''filesystem_write'', ''browser_open'', ''browser_click'',
     ''browser_navigate'', ''open_url'', ''click_xy'']"

definition gated_side_effects :: "string list" where
  "gated_side_effects = [''process'', ''filesystem'']"

definition starts_with :: "string \<Rightarrow> string \<Rightarrow> bool" where
  "starts_with s p \<longleftrightarrow> take (length p) s = p"

definition is_policy_gated :: "string \<Rightarrow> string \<Rightarrow> string \<Rightarrow> bool" where
  "is_policy_gated tool capability side_effect =
     (let lower = py_lower tool
      in if lower \<in> set gated_tools then True
         else if capability \<noteq> [] \<and> py_lower capability \<in> set gated_capabilities then True
         else if side_effect \<in> set gated_side_effects then side_effect \<in> {''process'', ''filesystem''}
         else if list_ex (starts_with lower) [''exec_'', ''shell'', ''browser_'', ''open_url'', ''click_''] then True
         else False)"

definition gated :: "tool_definition \<Rightarrow> bool" where
  "gated d = is_policy_gated (td_name d) (td_capability d) (td_side_effect d)"

definition risk_to_policy_level :: "tool_risk \<Rightarrow> string" where
  "risk_to_policy_level r = (if high_risk r then ''HIGH'' else ''LOW'')"

section \<open>The rule engine\<close>

datatype policy_effect = ALLOW | DENY | REQUIRE_APPROVAL

record policy_request =
  pq_action :: string
  pq_resource :: string
  pq_actor :: "string option"
  pq_resource_id :: "string option"
  pq_context :: pyobj

definition make_request :: "policy_request \<Rightarrow> exn + policy_request" where
  "make_request q =
     (case required_text ''action'' (pq_action q) of Inl e \<Rightarrow> Inl e | Inr action \<Rightarrow>
     (case required_text ''resource_type'' (pq_resource q) of Inl e \<Rightarrow> Inl e | Inr resource \<Rightarrow>
     (case freeze_json (pq_context q) of Inl e \<Rightarrow> Inl e | Inr context \<Rightarrow>
      Inr (q\<lparr>pq_action := action, pq_resource := resource, pq_context := context\<rparr>))))"

record policy_decision =
  pd_effect :: policy_effect
  pd_reason :: "string option"
  pd_policy :: "string option"

definition decision :: "policy_effect \<Rightarrow> string \<Rightarrow> string \<Rightarrow> policy_decision" where
  "decision e reason policy = \<lparr>pd_effect = e, pd_reason = Some reason, pd_policy = Some policy\<rparr>"

record policy_rule =
  pr_id :: string
  pr_action :: string
  pr_resource :: string
  pr_effect :: policy_effect
  pr_priority :: int
  pr_reason :: "string option"

definition make_policy_rule :: "policy_rule \<Rightarrow> exn + policy_rule" where
  "make_policy_rule r =
     (case required_text ''policy_id'' (pr_id r) of Inl e \<Rightarrow> Inl e | Inr i \<Rightarrow>
     (case required_text ''action'' (pr_action r) of Inl e \<Rightarrow> Inl e | Inr action \<Rightarrow>
     (case required_text ''resource_type'' (pr_resource r) of Inl e \<Rightarrow> Inl e | Inr resource \<Rightarrow>
     (case optional_text ''reason'' (pr_reason r) of Inl e \<Rightarrow> Inl e | Inr reason \<Rightarrow>
      Inr (r\<lparr>pr_id := i, pr_action := action, pr_resource := resource, pr_reason := reason\<rparr>)))))"

definition policy_rule_matches :: "policy_rule \<Rightarrow> policy_request \<Rightarrow> bool" where
  "policy_rule_matches r q \<longleftrightarrow> (pr_action r = ''*'' \<or> pr_action r = pq_action q) \<and> (pr_resource r = ''*'' \<or> pr_resource r = pq_resource q)"

text \<open>The rules of an engine are sorted when it is made.\<close>

definition engine_rules :: "policy_rule list \<Rightarrow> policy_rule list" where
  "engine_rules rules = sort_key (\<lambda>r. (- pr_priority r, pr_id r)) rules"

definition rule_decision :: "policy_rule \<Rightarrow> policy_decision" where
  "rule_decision r = \<lparr>pd_effect = pr_effect r, pd_reason = pr_reason r, pd_policy = Some (pr_id r)\<rparr>"

definition default_deny :: policy_decision where
  "default_deny = decision DENY ''no policy rule matched this operation'' ''default-deny''"

fun first_decision :: "policy_rule list \<Rightarrow> policy_request \<Rightarrow> policy_decision" where
  "first_decision [] q = default_deny"
| "first_decision (r # rs) q = (if policy_rule_matches r q then rule_decision r else first_decision rs q)"

definition rules_decide :: "policy_rule list \<Rightarrow> policy_request \<Rightarrow> exn + policy_decision" where
  "rules_decide rules q = Inr (first_decision (engine_rules rules) q)"

text \<open>The rule that decides: of those that match, the first one of the least \<open>(-priority, policy_id)\<close>.\<close>

definition outranks :: "policy_rule \<Rightarrow> policy_rule \<Rightarrow> bool" where
  "outranks r r' \<longleftrightarrow> pr_priority r' < pr_priority r \<or> pr_priority r = pr_priority r' \<and> pr_id r \<le> pr_id r'"

lemma first_decision_find:
  "first_decision rs q = (case find (\<lambda>r. policy_rule_matches r q) rs of None \<Rightarrow> default_deny | Some r \<Rightarrow> rule_decision r)"
  by (induction rs) simp_all

lemma find_filter_hd: "find p xs = (case filter p xs of [] \<Rightarrow> None | x # _ \<Rightarrow> Some x)"
  by (induction xs) auto

lemma rule_decides:
  assumes "find (\<lambda>r. policy_rule_matches r q) (engine_rules rules) = Some r"
  shows "r \<in> set rules \<and> policy_rule_matches r q \<and> (\<forall>r' \<in> set rules. policy_rule_matches r' q \<longrightarrow> outranks r r')"
proof -
  let ?k = "\<lambda>r. (- pr_priority r, pr_id r)"
  let ?ms = "filter (\<lambda>r. policy_rule_matches r q) rules"
  have "find (\<lambda>r. policy_rule_matches r q) (engine_rules rules) = (case sort_key ?k ?ms of [] \<Rightarrow> None | x # _ \<Rightarrow> Some x)"
    by (simp add: engine_rules_def find_filter_hd filter_sort)
  with assms obtain ys where ys: "sort_key ?k ?ms = r # ys" by (auto split: list.splits)
  have "?k r \<le> ?k r'" if "r' \<in> set rules" "policy_rule_matches r' q" for r'
    using hd_sort_key_le [OF ys, of r'] that by simp
  moreover have "r \<in> set ?ms" using ys by (rule hd_sort_key_mem)
  ultimately show ?thesis by (fastforce simp: outranks_def less_eq_prod_def)
qed

section \<open>The gate\<close>

text \<open>What the gate asks of its surroundings: the paths, \<^verbatim>\<open>str\<close> of other objects, and the parser of identifiers.\<close>

record gate_env =
  gv_paths :: path_env
  gv_render :: "pyobj \<Rightarrow> string"
  gv_uuid :: "string \<Rightarrow> string option"

type_synonym engine = "policy_request \<Rightarrow> exn + policy_decision"

definition target_of :: "gate_env \<Rightarrow> tool_invocation \<Rightarrow> string" where
  "target_of ge iv =
     py_str (gv_render ge) (py_or (py_or (py_get ''file_path'' (ti_params iv)) (py_get ''path'' (ti_params iv))) (PStr []))"

definition text_field :: "string \<Rightarrow> string \<Rightarrow> pyobj \<times> pyobj" where
  "text_field k v = (PStr k, PStr v)"

definition extra_field :: "string \<Rightarrow> string option \<Rightarrow> (pyobj \<times> pyobj) list" where
  "extra_field k v = (case truthy v of None \<Rightarrow> [] | Some t \<Rightarrow> [text_field k t])"

definition request_context :: "gate_env \<Rightarrow> tool_definition \<Rightarrow> tool_invocation \<Rightarrow> tool_context \<Rightarrow> (pyobj \<times> pyobj) list" where
  "request_context ge d iv ctx =
     (let target = target_of ge iv; target_path = (if target = [] then td_name d else target)
      in [text_field ''tool_name'' (td_name d), text_field ''risk_level'' (risk_value (td_risk d)),
          text_field ''policy_risk'' (risk_to_policy_level (td_risk d)), text_field ''runtime_type'' (runtime_value (td_runtime d)),
          text_field ''capability'' (td_capability d), text_field ''side_effect_class'' (td_side_effect d),
          text_field ''target_path'' target_path, text_field ''workspace_root'' (cx_workspace ctx),
          (PStr ''user_approved'', PBool (cx_approved ctx)),
          (PStr ''required_permissions'', PList (map PStr (td_permissions d))),
          (PStr ''is_destructive'', PBool (td_destructive d)), (PStr ''is_policy_gated'', PBool (gated d))]
         @ extra_field ''correlation_id'' (cx_correlation ctx) @ extra_field ''trace_id'' (cx_trace ctx))"

definition build_policy_request :: "gate_env \<Rightarrow> tool_definition \<Rightarrow> tool_invocation \<Rightarrow> tool_context \<Rightarrow> exn + policy_request" where
  "build_policy_request ge d iv ctx =
     make_request \<lparr>pq_action = td_name d,
       pq_resource = (if td_capability d \<noteq> [] then td_capability d else if td_side_effect d \<noteq> [] then td_side_effect d
         else ''automation_tool''),
       pq_actor = Option.bind (cx_actor ctx) (gv_uuid ge), pq_resource_id = None,
       pq_context = PMap False (request_context ge d iv ctx)\<rparr>"

definition path_escape :: "string \<Rightarrow> string \<Rightarrow> string" where
  "path_escape target ws = ''path ['' @ target @ ''] escapes workspace ['' @ ws @ '']''"

text \<open>\<open>None\<close> for the engine is a service without one. The dash of two reasons lies outside the characters of the model.\<close>

definition evaluate_policy ::
  "gate_env \<Rightarrow> engine option \<Rightarrow> tool_definition \<Rightarrow> tool_invocation \<Rightarrow> tool_context \<Rightarrow> exn + policy_decision" where
  "evaluate_policy ge engine d iv ctx =
     (if py_lower (td_name d) \<in> set hard_deny_actions
      then Inr (decision DENY (''action ['' @ td_name d @ ''] matches hard-deny policy'') ''hard-deny'')
      else let target = target_of ge iv; scoped = (gated d \<and> td_sandbox d = ''path_sandbox'') in
      if scoped \<and> target \<noteq> [] \<and> \<not> is_within_workspace (gv_paths ge) target (cx_workspace ctx)
      then Inr (decision DENY (path_escape target (cx_workspace ctx)) ''path-scope'')
      else if scoped \<and> target = [] \<and> td_name d \<in> {''write_file'', ''read_file''}
      then Inr (decision DENY ''file_path is required for filesystem tools'' ''validation'')
      else if gated d \<and> td_destructive d \<and> \<not> cx_approved ctx
      then Inr (decision REQUIRE_APPROVAL (''destructive tool ['' @ td_name d @ ''] requires user approval'') ''destructive-guard'')
      else case build_policy_request ge d iv ctx of Inl e \<Rightarrow> Inl e
      | Inr q \<Rightarrow> (case engine of
          Some decide \<Rightarrow> decide q
        | None \<Rightarrow>
            if high_risk (td_risk d) \<and> gated d
            then (if cx_approved ctx
              then Inr (decision ALLOW ''no engine - high-risk approved pass-through'' ''allow-no-engine-approved'')
              else Inr (decision DENY ''policy engine is not configured and high-risk tool requires explicit rules'' ''policy-unconfigured''))
            else Inr (decision ALLOW ''no engine - low-risk pass-through'' ''allow-no-engine'')))"

subsection \<open>What the gate admits\<close>

text \<open>What every admitted call has passed, whatever the engine says.\<close>

definition gate_checks :: "gate_env \<Rightarrow> tool_definition \<Rightarrow> tool_invocation \<Rightarrow> tool_context \<Rightarrow> bool" where
  "gate_checks ge d iv ctx \<longleftrightarrow>
     py_lower (td_name d) \<notin> set hard_deny_actions
   \<and> (gated d \<and> td_sandbox d = ''path_sandbox'' \<longrightarrow>
        (if target_of ge iv = [] then td_name d \<notin> {''write_file'', ''read_file''}
         else is_within_workspace (gv_paths ge) (target_of ge iv) (cx_workspace ctx)))
   \<and> (gated d \<and> td_destructive d \<longrightarrow> cx_approved ctx)"

lemma extra_compatible: "list_all (\<lambda>(k, x). is_str k \<and> json_compatible x) (extra_field k v)"
  by (simp add: extra_field_def text_field_def split: option.splits)

lemma request_context_compatible: "json_compatible (PMap False (request_context ge d iv ctx))"
  using extra_compatible [of "''correlation_id''" "cx_correlation ctx"] extra_compatible [of "''trace_id''" "cx_trace ctx"]
  by (simp add: request_context_def text_field_def Let_def) (simp add: list_all_iff)

lemma request_built:
  assumes "definition_ok d"
  shows "\<exists>q. build_policy_request ge d iv ctx = Inr q \<and> pq_action q = td_name d \<and> pq_resource q = td_capability d"
proof -
  have n: "stripped (td_name d)" "stripped (td_capability d)" using assms by (simp_all add: definition_ok_def)
  have "\<not> isl (freeze_json (PMap False (request_context ge d iv ctx)))"
    using freeze_accepts(1) request_context_compatible by blast
  then obtain c where "freeze_json (PMap False (request_context ge d iv ctx)) = Inr c" by (metis sum.collapse(2))
  moreover have "td_capability d \<noteq> []" using n(2) by (simp add: stripped_def)
  ultimately show ?thesis using n
    by (simp add: build_policy_request_def make_request_def required_text_id del: freeze_json.simps)
qed

text \<open>Without an engine the gate decides by the definition and the approval alone.\<close>

lemma gate_without_engine:
  assumes "definition_ok d"
  shows "(\<exists>p. evaluate_policy ge None d iv ctx = Inr p \<and> pd_effect p = ALLOW)
     \<longleftrightarrow> gate_checks ge d iv ctx \<and> (gated d \<and> high_risk (td_risk d) \<longrightarrow> cx_approved ctx)"
  using request_built [OF assms, of ge iv ctx]
  by (auto simp: evaluate_policy_def gate_checks_def decision_def Let_def)

lemma gate_with_engine:
  assumes "definition_ok d" and "evaluate_policy ge (Some decide) d iv ctx = Inr p" and "pd_effect p = ALLOW"
  shows "gate_checks ge d iv ctx \<and> (\<exists>q. build_policy_request ge d iv ctx = Inr q \<and> decide q = Inr p)"
  using request_built [OF assms(1), of ge iv ctx] assms(2,3)
  by (auto simp: evaluate_policy_def gate_checks_def decision_def Let_def split: if_splits)

text \<open>
  The contract of an engine: it allows only what it \<open>permits\<close>. Then so does the gate in front of it.
\<close>

locale policy_engine =
  fixes decide :: engine and permits :: "policy_request \<Rightarrow> bool"
  assumes allows_permitted: "decide q = Inr p \<Longrightarrow> pd_effect p = ALLOW \<Longrightarrow> permits q"
begin

lemma gate_permits:
  assumes "definition_ok d" and "evaluate_policy ge (Some decide) d iv ctx = Inr p" and "pd_effect p = ALLOW"
  shows "gate_checks ge d iv ctx \<and> (\<exists>q. build_policy_request ge d iv ctx = Inr q \<and> permits q)"
  using gate_with_engine [OF assms] allows_permitted [OF _ assms(3)] by blast

end

text \<open>The rule engine permits what the highest ranked matching rule allows.\<close>

definition rules_permit :: "policy_rule list \<Rightarrow> policy_request \<Rightarrow> bool" where
  "rules_permit rules q \<longleftrightarrow>
     (\<exists>r \<in> set rules. policy_rule_matches r q \<and> pr_effect r = ALLOW
        \<and> (\<forall>r' \<in> set rules. policy_rule_matches r' q \<longrightarrow> outranks r r'))"

lemma rules_allow_permitted: "rules_decide rules q = Inr p \<Longrightarrow> pd_effect p = ALLOW \<Longrightarrow> rules_permit rules q"
  using rule_decides [of q rules]
  by (fastforce simp: rules_decide_def first_decision_find rule_decision_def default_deny_def decision_def rules_permit_def
      split: option.splits)

interpretation rule_engine: policy_engine "rules_decide rules" "rules_permit rules" for rules
  by unfold_locales (rule rules_allow_permitted)

end
