(* ===== verification/Automation_Runtime.thy ===== *)
theory Automation_Runtime
  imports Automation_Policy "HOL-Library.AList"
begin

text \<open>
  What runs a tool: results (\<^verbatim>\<open>domain/result.py\<close>), the seven runtime adapters
  (\<^verbatim>\<open>infrastructure/adapters/\<close>) and the registries of tools and runtimes (\<^verbatim>\<open>application/registry.py\<close>). Files
  are a map from resolved paths to directories and texts, and what a tool does to it is written out step by step, with
  what is left when a step fails; processes, clocks and the failures of the operating system are parameters.
\<close>

section \<open>Results\<close>

record tool_result =
  tr_call :: string
  tr_success :: bool
  tr_data :: pyobj
  tr_error :: "string option"
  tr_ms :: pyfloat
  tr_completed :: time

definition float_negative :: "pyfloat \<Rightarrow> bool" where
  "float_negative f = (case f of Finite x \<Rightarrow> x < 0 | NegInf \<Rightarrow> True | PosInf \<Rightarrow> False | NaN \<Rightarrow> False)"

definition make_result :: "tool_result \<Rightarrow> exn + tool_result" where
  "make_result r =
     (if py_strip (tr_call r) = [] then Inl (ValueError ''call_id cannot be empty'')
      else if float_negative (tr_ms r) then Inl (ValueError ''execution_time_ms cannot be negative'')
      else Inr r)"

section \<open>Adapters\<close>

datatype file_node = Directory | Regular string

type_synonym files = "string list \<Rightarrow> file_node option"

datatype shell_end = ShellExit int string string | ShellTimeout | ShellRaised string

text \<open>
  \<open>av_elapsed\<close> is the time a call took in milliseconds, \<open>av_fail\<close> the text of an error the operating system raises for
  an operation on a path although the files permit it (rights, space), \<open>av_os_error\<close> the text of an error that the files
  determine, \<open>av_temp\<close> the random part of the name of a temporary file, \<open>av_kept\<close> how much of a text gets onto the disk
  when writing it fails, \<open>av_shell\<close> runs a command in a directory for at most some seconds, \<open>av_text\<close> is \<^verbatim>\<open>str\<close> of an
  exception.
\<close>

record adapter_env =
  av_gate :: gate_env
  av_now :: time
  av_elapsed :: pyfloat
  av_fail :: "string \<Rightarrow> string list \<Rightarrow> string option"
  av_os_error :: "string \<Rightarrow> string list \<Rightarrow> string"
  av_temp :: string
  av_kept :: nat
  av_shell :: "string \<Rightarrow> string \<Rightarrow> pyfloat \<Rightarrow> files \<Rightarrow> shell_end \<times> files"
  av_text :: "exn \<Rightarrow> string"

text \<open>A tool that raises gives the text of what it raised.\<close>

type_synonym tool_adapter = "adapter_env \<Rightarrow> tool_invocation \<Rightarrow> tool_context \<Rightarrow> files \<Rightarrow> (string + tool_result) \<times> files"

definition result_in :: "adapter_env \<Rightarrow> tool_invocation \<Rightarrow> pyfloat \<Rightarrow> bool \<Rightarrow> pyobj \<Rightarrow> string option \<Rightarrow> string + tool_result" where
  "result_in av iv ms ok data err =
     (case make_result \<lparr>tr_call = ti_call iv, tr_success = ok, tr_data = data, tr_error = err, tr_ms = ms,
        tr_completed = av_now av\<rparr> of
       Inl e \<Rightarrow> Inl (av_text av e) | Inr r \<Rightarrow> Inr r)"

definition succeed :: "adapter_env \<Rightarrow> tool_invocation \<Rightarrow> (pyobj \<times> pyobj) list \<Rightarrow> string + tool_result" where
  "succeed av iv data = result_in av iv (av_elapsed av) True (PMap False data) None"

definition refuse :: "adapter_env \<Rightarrow> tool_invocation \<Rightarrow> string \<Rightarrow> string + tool_result" where
  "refuse av iv err = result_in av iv (av_elapsed av) False PNone (Some err)"

definition path_text :: "string list \<Rightarrow> string" where
  "path_text p = (if p = [] then ''/'' else concat (map (\<lambda>c. CHR ''/'' # c) p))"

definition utf8_length :: "string \<Rightarrow> nat" where
  "utf8_length s = sum_list (map (\<lambda>c. if (of_char c :: nat) < 128 then 1 else 2) s)"

definition file_param :: "tool_invocation \<Rightarrow> pyobj" where
  "file_param iv = py_or (py_get ''file_path'' (ti_params iv)) (py_get ''path'' (ti_params iv))"

abbreviation str_of :: "adapter_env \<Rightarrow> pyobj \<Rightarrow> string" where
  "str_of av \<equiv> py_str (gv_render (av_gate av))"

definition max_read :: nat where
  "max_read = 5 * 1024 * 1024"

definition handle_read_file :: tool_adapter where
  "handle_read_file av iv ctx fs =
     (if \<not> py_true (file_param iv) then (refuse av iv ''file_path is required.'', fs)
      else case resolve_safe_path (gv_paths (av_gate av)) (str_of av (file_param iv)) (cx_workspace ctx) of
        Inl e \<Rightarrow> (refuse av iv (av_text av e), fs)
      | Inr safe \<Rightarrow> (case fs safe of
          Some (Regular content) \<Rightarrow>
            if max_read < utf8_length content then (refuse av iv ''File too large (>5MB)'', fs)
            else (case av_fail av ''read'' safe of
              Some err \<Rightarrow> (refuse av iv err, fs)
            | None \<Rightarrow> (succeed av iv [text_field ''file_path'' (path_text safe), text_field ''content'' content,
                (PStr ''bytes'', PInt (int (utf8_length content)))], fs))
        | _ \<Rightarrow> (refuse av iv (''File not found: '' @ str_of av (file_param iv)), fs)))"

text \<open>
  The steps of writing a file. \<^verbatim>\<open>mkdir(parents=True, exist_ok=True)\<close> makes the directories that are missing on the way,
  from the top; the root is there. When it fails half way, what it made stays.
\<close>

fun make_dirs :: "adapter_env \<Rightarrow> string list \<Rightarrow> string list \<Rightarrow> files \<Rightarrow> string option \<times> files" where
  "make_dirs av cur [] fs = (None, fs)"
| "make_dirs av cur (c # rest) fs =
     (case fs (cur @ [c]) of
        Some Directory \<Rightarrow> make_dirs av (cur @ [c]) rest fs
      | Some (Regular _) \<Rightarrow> (Some (av_os_error av ''not a directory'' (cur @ [c])), fs)
      | None \<Rightarrow> (case av_fail av ''mkdir'' (cur @ [c]) of
          Some err \<Rightarrow> (Some err, fs)
        | None \<Rightarrow> make_dirs av (cur @ [c]) rest (fs(cur @ [c] \<mapsto> Directory))))"

text \<open>
  \<^verbatim>\<open>NamedTemporaryFile(dir=..., delete=False)\<close> makes a new file under a name that nothing has, and the text is written
  to it. When that fails, the file stays with the part of the text that was written.
\<close>

definition temp_path :: "adapter_env \<Rightarrow> string list \<Rightarrow> string list" where
  "temp_path av dir = dir @ [''tmp'' @ av_temp av]"

definition write_temp :: "adapter_env \<Rightarrow> string list \<Rightarrow> string \<Rightarrow> files \<Rightarrow> string option \<times> files" where
  "write_temp av tmp content fs =
     (if fs tmp \<noteq> None \<or> map_of (pe_links (gv_paths (av_gate av))) tmp \<noteq> None
      then (Some (av_os_error av ''no usable temporary file name'' tmp), fs)
      else case av_fail av ''open'' tmp of
        Some err \<Rightarrow> (Some err, fs)
      | None \<Rightarrow> (case av_fail av ''write'' tmp of
          Some err \<Rightarrow> (Some err, fs(tmp \<mapsto> Regular (take (av_kept av) content)))
        | None \<Rightarrow> (None, fs(tmp \<mapsto> Regular content))))"

text \<open>\<^verbatim>\<open>Path.replace\<close> moves a file over another one, but not over a directory.\<close>

definition replace_file :: "adapter_env \<Rightarrow> string list \<Rightarrow> string list \<Rightarrow> files \<Rightarrow> string option \<times> files" where
  "replace_file av tmp target fs =
     (if target = [] \<or> fs target = Some Directory then (Some (av_os_error av ''is a directory'' target), fs)
      else case av_fail av ''replace'' target of
        Some err \<Rightarrow> (Some err, fs)
      | None \<Rightarrow> (None, (fs(tmp := None))(target := fs tmp)))"

definition written_content :: "adapter_env \<Rightarrow> tool_invocation \<Rightarrow> string" where
  "written_content av iv =
     str_of av (case find (\<lambda>(k, v). k = PStr ''content'') (ti_params iv) of None \<Rightarrow> PStr [] | Some (_, v) \<Rightarrow> v)"

definition handle_write_file :: tool_adapter where
  "handle_write_file av iv ctx fs =
     (if \<not> py_true (file_param iv) then (refuse av iv ''file_path is required.'', fs)
      else case resolve_safe_path (gv_paths (av_gate av)) (str_of av (file_param iv)) (cx_workspace ctx) of
        Inl e \<Rightarrow> (refuse av iv (av_text av e), fs)
      | Inr safe \<Rightarrow> (case make_dirs av [] (butlast safe) fs of
          (Some err, fs1) \<Rightarrow> (refuse av iv err, fs1)
        | (None, fs1) \<Rightarrow> (case write_temp av (temp_path av (butlast safe)) (written_content av iv) fs1 of
            (Some err, fs2) \<Rightarrow> (refuse av iv err, fs2)
          | (None, fs2) \<Rightarrow> (case replace_file av (temp_path av (butlast safe)) safe fs2 of
              (Some err, fs3) \<Rightarrow> (refuse av iv err, fs3)
            | (None, fs3) \<Rightarrow> (succeed av iv [text_field ''file_path'' (path_text safe),
                (PStr ''bytes_written'', PInt (int (utf8_length (written_content av iv))))], fs3)))))"

definition handle_echo :: tool_adapter where
  "handle_echo av iv ctx fs = (succeed av iv [(PStr ''echo'', PMap False (ti_params iv))], fs)"

definition builtin_handlers :: "(string \<times> tool_adapter) list" where
  "builtin_handlers = [(''read_file'', handle_read_file), (''write_file'', handle_write_file), (''echo'', handle_echo)]"

text \<open>A tool without a handler is taken for a success; its time is the default of the result.\<close>

definition in_process_execute :: "(string \<times> tool_adapter) list \<Rightarrow> tool_adapter" where
  "in_process_execute handlers av iv ctx fs =
     (case map_of handlers (ti_tool iv) of
        Some h \<Rightarrow> h av iv ctx fs
      | None \<Rightarrow> (result_in av iv (Finite 0) True (PMap False [text_field ''tool'' (ti_tool iv),
          (PStr ''params'', PMap False (ti_params iv)), text_field ''runtime'' ''in_process'',
          text_field ''note'' ''no in-process handler; treated as no-op success for parity'']) None, fs))"

definition shell_result :: "adapter_env \<Rightarrow> tool_invocation \<Rightarrow> pyfloat \<Rightarrow> shell_end \<Rightarrow> string + tool_result" where
  "shell_result av iv timeout e =
     (case e of
        ShellTimeout \<Rightarrow> refuse av iv (''command timed out after '' @ gv_render (av_gate av) (PFloat timeout) @ ''s'')
      | ShellRaised err \<Rightarrow> refuse av iv err
      | ShellExit code out err \<Rightarrow> result_in av iv (av_elapsed av) (code = 0)
          (PMap False [(PStr ''exit_code'', PInt code), text_field ''stdout'' out, text_field ''stderr'' err])
          (if code = 0 then None else Some err))"

definition subprocess_execute :: tool_adapter where
  "subprocess_execute av iv ctx fs =
     (let get = (\<lambda>k. py_get k (ti_params iv));
          command = py_or (py_or (get ''command'') (get ''cmd'')) (get ''shell_command'');
          cwd = (if py_true (get ''cwd'')
            then map_sum id path_text (resolve_safe_path (gv_paths (av_gate av)) (str_of av (get ''cwd'')) (cx_workspace ctx))
            else Inr (cx_workspace ctx));
          timeout = (case ti_timeout iv of None \<Rightarrow> Finite 30 | Some f \<Rightarrow> if f = Finite 0 then Finite 30 else f) in
      if \<not> py_true command \<or> py_strip (str_of av command) = [] then (refuse av iv ''command is required.'', fs)
      else case cwd of Inl e \<Rightarrow> (refuse av iv (av_text av e), fs)
      | Inr dir \<Rightarrow> (case av_shell av (str_of av command) dir timeout fs of
          (e, fs') \<Rightarrow> (shell_result av iv timeout e, fs')))"

text \<open>The adapters that only simulate.\<close>

definition browser_execute :: tool_adapter where
  "browser_execute av iv ctx fs =
     (let get = (\<lambda>k. py_get k (ti_params iv));
          consent = (cx_approved ctx \<or> get ''browser_consent'' = PBool True)
      in (succeed av iv [text_field ''runtime'' ''browser'', (PStr ''action'', py_or (get ''action'') (PStr (ti_tool iv))),
           (PStr ''url'', py_or (py_or (get ''url'') (get ''target_url'')) (PStr [])), (PStr ''consent_verified'', PBool consent),
           (PStr ''session_id'', (case cx_session ctx of None \<Rightarrow> PNone | Some s \<Rightarrow> PStr s)),
           text_field ''note'' ''browser adapter simulation - real Playwright wiring deferred to browser hardening phase''], fs))"

definition mcp_execute :: tool_adapter where
  "mcp_execute av iv ctx fs =
     (let get = (\<lambda>k. py_get k (ti_params iv));
          server = py_or (py_or (get ''mcp_server'') (get ''server'')) (PStr ''default'');
          tool = py_or (get ''mcp_tool'') (PStr (ti_tool iv))
      in (if py_strip (str_of av tool) = [] then refuse av iv ''mcp_tool is required.''
          else succeed av iv [text_field ''runtime'' ''mcp'', (PStr ''server'', server), (PStr ''tool'', tool),
            (PStr ''params'', PMap False (ti_params iv)),
            text_field ''note'' ''MCP adapter simulation - real stdio/SSE transport deferred''], fs))"

definition desktop_execute :: tool_adapter where
  "desktop_execute av iv ctx fs =
     (succeed av iv [text_field ''runtime'' ''desktop'',
        (PStr ''capability'', py_or (py_get ''capability'' (ti_params iv)) (PStr (ti_tool iv))),
        (PStr ''params'', PMap False (ti_params iv)),
        text_field ''note'' ''desktop adapter simulation - IPC bridge wiring deferred to Desktop milestone''], fs)"

definition container_execute :: tool_adapter where
  "container_execute av iv ctx fs =
     (let get = (\<lambda>k. py_get k (ti_params iv))
      in (succeed av iv [text_field ''runtime'' ''container'',
           (PStr ''image'', py_or (get ''image'') (PStr ''windagent/sandbox:latest'')),
           (PStr ''command'', py_or (py_or (get ''command'') (get ''cmd'')) (PStr [])),
           (PStr ''params'', PMap False (ti_params iv)),
           text_field ''note'' ''container adapter simulation - Docker launch deferred''], fs))"

definition remote_execute :: tool_adapter where
  "remote_execute av iv ctx fs =
     (let get = (\<lambda>k. py_get k (ti_params iv));
          endpoint = py_or (py_or (get ''endpoint'') (get ''remote_url'')) (PStr [])
      in (if py_strip (str_of av endpoint) = [] then refuse av iv ''endpoint is required for remote runtime''
          else succeed av iv [text_field ''runtime'' ''remote'', (PStr ''endpoint'', endpoint),
            (PStr ''params'', PMap False (ti_params iv)),
            text_field ''note'' ''remote adapter simulation - HTTP forwarding deferred''], fs))"

section \<open>The registries\<close>

record audit_entry =
  au_tool :: string
  au_call :: string
  au_success :: bool
  au_ms :: pyfloat
  au_time :: time

text \<open>Dictionaries are association lists in insertion order.\<close>

record tool_registry =
  rg_tools :: "(string \<times> tool_definition) list"
  rg_index :: "(string \<times> string list) list"
  rg_audit :: "audit_entry list"

definition empty_registry :: tool_registry where
  "empty_registry = \<lparr>rg_tools = [], rg_index = [], rg_audit = []\<rparr>"

definition names_of :: "(string \<times> string list) list \<Rightarrow> string \<Rightarrow> string list" where
  "names_of idx cap = (case map_of idx cap of None \<Rightarrow> [] | Some ns \<Rightarrow> ns)"

text \<open>\<open>index[cap] = [n for n in index[cap] if n != name]\<close>, when the entry is there.\<close>

definition unindex :: "string \<Rightarrow> string \<Rightarrow> (string \<times> string list) list \<Rightarrow> (string \<times> string list) list" where
  "unindex cap name idx =
     (case map_of idx cap of None \<Rightarrow> idx | Some ns \<Rightarrow> AList.update cap (filter (\<lambda>n. n \<noteq> name) ns) idx)"

definition index_name :: "string \<Rightarrow> string \<Rightarrow> (string \<times> string list) list \<Rightarrow> (string \<times> string list) list" where
  "index_name cap name idx =
     AList.update cap (if name \<in> set (names_of idx cap) then names_of idx cap else names_of idx cap @ [name]) idx"

definition tool_collision :: exn where "tool_collision = DomainErr ''AutomationConflictError''"

definition registry_register :: "tool_definition \<Rightarrow> bool \<Rightarrow> tool_registry \<Rightarrow> exn + tool_registry" where
  "registry_register d override reg =
     (case map_of (rg_tools reg) (td_name d) of
        None \<Rightarrow> Inr (reg\<lparr>rg_tools := AList.update (td_name d) d (rg_tools reg),
                         rg_index := index_name (td_capability d) (td_name d) (rg_index reg)\<rparr>)
      | Some previous \<Rightarrow>
          if \<not> override then Inl tool_collision
          else Inr (reg\<lparr>rg_tools := AList.update (td_name d) d (rg_tools reg),
                        rg_index := index_name (td_capability d) (td_name d)
                          (if td_capability previous \<noteq> td_capability d
                           then unindex (td_capability previous) (td_name d) (rg_index reg) else rg_index reg)\<rparr>))"

definition registry_get :: "string \<Rightarrow> tool_registry \<Rightarrow> tool_definition option" where
  "registry_get name reg = map_of (rg_tools reg) name"

definition list_definitions :: "tool_registry \<Rightarrow> tool_definition list" where
  "list_definitions reg = map snd (rg_tools reg)"

definition list_by_capability :: "string \<Rightarrow> tool_registry \<Rightarrow> exn + tool_definition list" where
  "list_by_capability cap reg =
     (let ds = map (\<lambda>n. registry_get n reg) (names_of (rg_index reg) cap)
      in if None \<in> set ds then Inl (KeyError cap) else Inr (map the ds))"

definition registry_remove :: "string \<Rightarrow> tool_registry \<Rightarrow> bool \<times> tool_registry" where
  "registry_remove name reg =
     (case registry_get name reg of None \<Rightarrow> (False, reg)
      | Some d \<Rightarrow> (True, reg\<lparr>rg_tools := AList.delete name (rg_tools reg),
                              rg_index := unindex (td_capability d) name (rg_index reg)\<rparr>))"

definition record_audit :: "audit_entry \<Rightarrow> tool_registry \<Rightarrow> tool_registry" where
  "record_audit e reg = reg\<lparr>rg_audit := rg_audit reg @ [e]\<rparr>"

text \<open>The registry of runtimes: names in lower case.\<close>

type_synonym runtimes = "(string \<times> tool_adapter) list"

definition default_runtimes :: runtimes where
  "default_runtimes = [(''in_process'', in_process_execute builtin_handlers), (''subprocess'', subprocess_execute),
     (''browser'', browser_execute), (''mcp'', mcp_execute), (''desktop'', desktop_execute), (''container'', container_execute),
     (''remote'', remote_execute)]"

definition make_runtimes :: "runtimes \<Rightarrow> runtimes" where
  "make_runtimes adapters =
     (let given = foldl (\<lambda>rt (k, a). AList.update (py_lower k) a rt) [] adapters
      in if given = [] then default_runtimes else given)"

definition register_runtime :: "string \<Rightarrow> tool_adapter \<Rightarrow> runtimes \<Rightarrow> runtimes" where
  "register_runtime name a rt = AList.update (py_lower name) a rt"

definition runtime_get :: "string \<Rightarrow> runtimes \<Rightarrow> tool_adapter option" where
  "runtime_get name rt = map_of rt (py_lower name)"

definition list_runtime_types :: "runtimes \<Rightarrow> string list" where
  "list_runtime_types rt = sort (map fst rt)"

subsection \<open>The invariant of the tool registry\<close>

definition registry_ok :: "tool_registry \<Rightarrow> bool" where
  "registry_ok reg \<longleftrightarrow>
     distinct (map fst (rg_tools reg))
   \<and> (\<forall>n d. registry_get n reg = Some d \<longrightarrow> td_name d = n \<and> definition_ok d)
   \<and> (\<forall>cap. distinct (names_of (rg_index reg) cap))
   \<and> (\<forall>cap n. n \<in> set (names_of (rg_index reg) cap) \<longleftrightarrow> (\<exists>d. registry_get n reg = Some d \<and> td_capability d = cap))"

lemma names_of_update: "names_of (AList.update c ns idx) cap = (if cap = c then ns else names_of idx cap)"
  by (simp add: names_of_def update_conv')

lemma names_of_unindex: "names_of (unindex c name idx) cap = (if cap = c then filter (\<lambda>n. n \<noteq> name) (names_of idx c) else names_of idx cap)"
  by (auto simp: unindex_def names_of_update split: option.splits) (simp_all add: names_of_def)

lemma names_of_index:
  "names_of (index_name c name idx) cap =
     (if cap = c then if name \<in> set (names_of idx c) then names_of idx c else names_of idx c @ [name] else names_of idx cap)"
  by (simp add: index_name_def names_of_update)

lemmas names_simps = names_of_update names_of_unindex names_of_index

lemma registry_ok_empty: "registry_ok empty_registry"
  by (simp add: registry_ok_def empty_registry_def names_of_def registry_get_def)

lemma registry_get_ok: "registry_ok reg \<Longrightarrow> registry_get n reg = Some d \<Longrightarrow> td_name d = n \<and> definition_ok d"
  by (simp add: registry_ok_def)

lemma registry_index:
  "registry_ok reg \<Longrightarrow> n \<in> set (names_of (rg_index reg) cap) \<longleftrightarrow> (\<exists>d. registry_get n reg = Some d \<and> td_capability d = cap)"
  by (simp add: registry_ok_def)

lemma registry_get_register:
  "registry_register d override reg = Inr reg' \<Longrightarrow> registry_get n reg' = (if n = td_name d then Some d else registry_get n reg)"
  by (auto simp: registry_register_def registry_get_def update_conv' split: option.splits if_splits)

lemma registry_get_remove:
  "registry_get n (snd (registry_remove m reg)) = (if n = m then None else registry_get n reg)"
  by (auto simp: registry_remove_def registry_get_def delete_conv' split: option.splits)

lemma names_register:
  assumes "registry_register d override reg = Inr reg'" and "registry_ok reg"
  shows "distinct (names_of (rg_index reg') cap)"
    and "n \<in> set (names_of (rg_index reg') cap) \<longleftrightarrow>
      (if n = td_name d then cap = td_capability d else n \<in> set (names_of (rg_index reg) cap))"
proof -
  have d: "distinct (names_of (rg_index reg) c)" for c using assms(2) by (simp add: registry_ok_def)
  have m: "td_name d \<in> set (names_of (rg_index reg) c) \<longleftrightarrow> (\<exists>x. registry_get (td_name d) reg = Some x \<and> td_capability x = c)" for c
    using assms(2) by (simp add: registry_ok_def)
  show "distinct (names_of (rg_index reg') cap)"
    using assms(1) d by (auto simp: registry_register_def names_simps split: option.splits if_splits)
  show "n \<in> set (names_of (rg_index reg') cap) \<longleftrightarrow>
      (if n = td_name d then cap = td_capability d else n \<in> set (names_of (rg_index reg) cap))"
  proof (cases "registry_get (td_name d) reg")
    case None
    with assms(1) have "rg_index reg' = index_name (td_capability d) (td_name d) (rg_index reg)"
      by (auto simp: registry_register_def registry_get_def)
    then show ?thesis using m [of cap] None by (simp add: names_simps)
  next
    case (Some x)
    with assms(1) have "rg_index reg' = index_name (td_capability d) (td_name d)
        (if td_capability x \<noteq> td_capability d then unindex (td_capability x) (td_name d) (rg_index reg) else rg_index reg)"
      by (auto simp: registry_register_def registry_get_def split: if_splits)
    then show ?thesis using m [of cap] Some by (auto simp: names_simps)
  qed
qed

lemma registry_ok_register:
  assumes "registry_ok reg" and "definition_ok d" and "registry_register d override reg = Inr reg'"
  shows "registry_ok reg'"
  unfolding registry_ok_def registry_get_register [OF assms(3)] names_register(2) [OF assms(3,1)]
proof (intro conjI allI impI)
  show "distinct (map fst (rg_tools reg'))"
    using assms(1,3) by (auto simp: registry_register_def registry_ok_def distinct_update split: option.splits if_splits)
  show "distinct (names_of (rg_index reg') cap)" for cap by (rule names_register(1) [OF assms(3,1)])
  show "td_name x = n" "definition_ok x" if "(if n = td_name d then Some d else registry_get n reg) = Some x" for n x
    using that assms(2) registry_get_ok [OF assms(1), of n x] by (simp_all split: if_splits)
  show "(if n = td_name d then cap = td_capability d else n \<in> set (names_of (rg_index reg) cap)) \<longleftrightarrow>
      (\<exists>x. (if n = td_name d then Some d else registry_get n reg) = Some x \<and> td_capability x = cap)" for cap n
    by (cases "n = td_name d") (auto simp add: registry_index [OF assms(1)])
qed

lemma names_remove:
  assumes "registry_ok reg"
  shows "names_of (rg_index (snd (registry_remove m reg))) cap = filter (\<lambda>n. n \<noteq> m) (names_of (rg_index reg) cap)"
proof -
  have same: "filter (\<lambda>n. n \<noteq> m) (names_of (rg_index reg) c) = names_of (rg_index reg) c"
    if "\<nexists>d. registry_get m reg = Some d \<and> td_capability d = c" for c
    using that registry_index [OF assms, of m c] by (intro filter_True) blast
  show ?thesis
  proof (cases "registry_get m reg")
    case None
    then show ?thesis by (simp add: registry_remove_def same)
  next
    case (Some d)
    then show ?thesis by (cases "cap = td_capability d") (simp_all add: registry_remove_def names_simps same)
  qed
qed

lemma registry_ok_remove:
  assumes "registry_ok reg" shows "registry_ok (snd (registry_remove m reg))"
proof -
  have "distinct (map fst (rg_tools (snd (registry_remove m reg))))"
    using assms by (auto simp: registry_remove_def registry_ok_def distinct_delete split: option.splits)
  then show ?thesis
    using assms by (auto simp: registry_ok_def names_remove [OF assms] registry_get_remove)
qed

lemma registry_ok_audit: "registry_ok (record_audit e reg) = registry_ok reg"
  by (simp add: registry_ok_def record_audit_def registry_get_def)

text \<open>The index never names a tool that is gone.\<close>

lemma listing_by_capability:
  assumes "registry_ok reg"
  shows "\<exists>ds. list_by_capability cap reg = Inr ds \<and> distinct (map td_name ds)
     \<and> set ds = {d. \<exists>n. registry_get n reg = Some d \<and> td_capability d = cap}"
proof -
  let ?ns = "names_of (rg_index reg) cap"
  have g: "\<exists>d. registry_get n reg = Some d \<and> td_capability d = cap" if "n \<in> set ?ns" for n
    using assms that by (simp add: registry_ok_def)
  have "list_by_capability cap reg = Inr (map (\<lambda>n. the (registry_get n reg)) ?ns)"
    using g by (fastforce simp: list_by_capability_def Let_def)
  moreover have "map td_name (map (\<lambda>n. the (registry_get n reg)) ?ns) = ?ns"
    using g registry_get_ok [OF assms] by (fastforce intro: map_idI)
  moreover have "set (map (\<lambda>n. the (registry_get n reg)) ?ns) = {d. \<exists>n. registry_get n reg = Some d \<and> td_capability d = cap}"
    using g by (force simp: registry_index [OF assms] image_iff)
  moreover have "distinct ?ns" using assms by (simp add: registry_ok_def)
  ultimately show ?thesis by fastforce
qed

end
