(* ===== verification/Automation_Executor.thy ===== *)
theory Automation_Executor
  imports Automation_Runtime
begin

text \<open>
  The executor of tools (\<^verbatim>\<open>application/executor.py\<close>): look-up in the registry, the gate, the runtime adapter, the
  audit log. The state is what the process holds outside of the tables: the tool registry and the files. Then what the
  executor guarantees: nothing runs that the gate did not allow, and which files a tool can change.
\<close>

section \<open>Execution\<close>

record auto_side =
  as_registry :: tool_registry
  as_files :: files

text \<open>
  The errors that callers tell apart: the two refusals with their message and the identifier of the policy, and
  everything else with its class and text.
\<close>

datatype exec_failure = PolicyDenied string string | ApprovalRequired string string | ExecRaised exn string

definition error_message :: "string \<Rightarrow> string" where
  "error_message m = (if py_strip m = [] then ''automation failure'' else py_strip m)"

definition text_or :: "string option \<Rightarrow> string \<Rightarrow> string" where
  "text_or s t = (case truthy s of None \<Rightarrow> t | Some u \<Rightarrow> u)"

definition not_registered :: "string \<Rightarrow> exec_failure" where
  "not_registered name =
     ExecRaised (DomainErr ''AutomationNotFoundError'') (error_message (''tool ['' @ name @ ''] not registered''))"

definition runtime_error :: "string \<Rightarrow> exec_failure" where
  "runtime_error m = ExecRaised (DomainErr ''AutomationRuntimeError'') (error_message m)"

text \<open>A runtime that is missing is replaced by the one in the process.\<close>

definition adapter_for_tool :: "runtimes \<Rightarrow> tool_definition \<Rightarrow> tool_adapter option" where
  "adapter_for_tool rt d =
     (case runtime_get (runtime_value (td_runtime d)) rt of None \<Rightarrow> runtime_get ''in_process'' rt | Some a \<Rightarrow> Some a)"

definition dispatch ::
  "runtimes \<Rightarrow> adapter_env \<Rightarrow> tool_definition \<Rightarrow> tool_invocation \<Rightarrow> tool_context \<Rightarrow> policy_decision \<Rightarrow> auto_side
     \<Rightarrow> (exec_failure + tool_result \<times> policy_decision) \<times> auto_side" where
  "dispatch rt av d iv ctx p s =
     (case adapter_for_tool rt d of
        None \<Rightarrow> (Inl (runtime_error (''no runtime adapter for ['' @ runtime_value (td_runtime d) @ '']'')), s)
      | Some run \<Rightarrow> (case run av iv ctx (as_files s) of
          (Inl err, fs) \<Rightarrow> (Inl (runtime_error err), s\<lparr>as_files := fs\<rparr>)
        | (Inr r, fs) \<Rightarrow> (Inr (r, p), s\<lparr>as_files := fs, as_registry :=
            record_audit \<lparr>au_tool = td_name d, au_call = ti_call iv, au_success = tr_success r, au_ms = tr_ms r,
              au_time = av_now av\<rparr> (as_registry s)\<rparr>)))"

definition execute ::
  "engine option \<Rightarrow> runtimes \<Rightarrow> adapter_env \<Rightarrow> tool_invocation \<Rightarrow> tool_context \<Rightarrow> auto_side
     \<Rightarrow> (exec_failure + tool_result \<times> policy_decision) \<times> auto_side" where
  "execute engine rt av iv ctx s =
     (case registry_get (ti_tool iv) (as_registry s) of
        None \<Rightarrow> (Inl (not_registered (ti_tool iv)), s)
      | Some d \<Rightarrow>
          if \<not> td_enabled d
          then (Inl (PolicyDenied (error_message (''tool ['' @ td_name d @ ''] is disabled'')) ''tool-disabled''), s)
          else case evaluate_policy (av_gate av) engine d iv ctx of
            Inl e \<Rightarrow> (Inl (ExecRaised e (av_text av e)), s)
          | Inr p \<Rightarrow> (case pd_effect p of
              DENY \<Rightarrow> (Inl (PolicyDenied (error_message (text_or (pd_reason p) ''policy denied'')) (text_or (pd_policy p) [])), s)
            | REQUIRE_APPROVAL \<Rightarrow> (Inl (ApprovalRequired (error_message (text_or (pd_reason p) ''policy requires approval''))
                (text_or (pd_policy p) [])), s)
            | ALLOW \<Rightarrow> dispatch rt av d iv ctx p s))"

text \<open>
  The variant for callers that want a result in any case. It makes a new decision of the refusal; a decision whose
  policy has no identifier cannot be made again, and the constructor raises.
\<close>

definition refused_result ::
  "adapter_env \<Rightarrow> tool_invocation \<Rightarrow> policy_effect \<Rightarrow> string \<Rightarrow> string \<Rightarrow> exec_failure + tool_result \<times> policy_decision" where
  "refused_result av iv effect message policy =
     (case required_text ''policy_id'' policy of
        Inl e \<Rightarrow> Inl (ExecRaised e (av_text av e))
      | Inr pid \<Rightarrow> Inr (\<lparr>tr_call = ti_call iv, tr_success = False, tr_data = PNone, tr_error = Some message, tr_ms = Finite 0,
          tr_completed = av_now av\<rparr>, decision effect message pid))"

definition try_execute ::
  "engine option \<Rightarrow> runtimes \<Rightarrow> adapter_env \<Rightarrow> tool_invocation \<Rightarrow> tool_context \<Rightarrow> auto_side
     \<Rightarrow> (exec_failure + tool_result \<times> policy_decision) \<times> auto_side" where
  "try_execute engine rt av iv ctx s =
     (case execute engine rt av iv ctx s of
        (Inl (PolicyDenied m i), s') \<Rightarrow> (refused_result av iv DENY m i, s')
      | (Inl (ApprovalRequired m i), s') \<Rightarrow> (refused_result av iv REQUIRE_APPROVAL m i, s')
      | r \<Rightarrow> r)"

section \<open>Nothing runs that was not allowed\<close>

text \<open>The tool is registered and enabled, and the gate allowed this very call.\<close>

definition cleared :: "engine option \<Rightarrow> adapter_env \<Rightarrow> tool_invocation \<Rightarrow> tool_context \<Rightarrow> auto_side \<Rightarrow> tool_definition \<Rightarrow> bool" where
  "cleared engine av iv ctx s d \<longleftrightarrow>
     registry_get (ti_tool iv) (as_registry s) = Some d \<and> td_enabled d
   \<and> (\<exists>p. evaluate_policy (av_gate av) engine d iv ctx = Inr p \<and> pd_effect p = ALLOW)"

lemma execute_cleared:
  assumes "execute engine rt av iv ctx s = (out, s')" and "s' \<noteq> s \<or> (\<exists>r. out = Inr r)"
  shows "\<exists>d p. cleared engine av iv ctx s d \<and> dispatch rt av d iv ctx p s = (out, s')"
  using assms by (auto simp: execute_def cleared_def split: option.splits if_splits sum.splits policy_effect.splits)

lemma execute_registry_ok:
  assumes "registry_ok (as_registry s)" shows "registry_ok (as_registry (snd (execute engine rt av iv ctx s)))"
  using assms
  by (auto simp: execute_def dispatch_def registry_ok_audit split: option.splits sum.splits policy_effect.splits prod.splits)

lemma cleared_checks:
  assumes "cleared engine av iv ctx s d" and "registry_ok (as_registry s)"
  shows "gate_checks (av_gate av) d iv ctx"
proof -
  have d: "definition_ok d" using assms registry_get_ok by (auto simp: cleared_def)
  from assms(1) obtain p where p: "evaluate_policy (av_gate av) engine d iv ctx = Inr p" "pd_effect p = ALLOW"
    by (auto simp: cleared_def)
  show ?thesis
  proof (cases engine)
    case None
    with gate_without_engine [OF d] p show ?thesis by blast
  next
    case (Some decide)
    with gate_with_engine [OF d _ p(2)] p(1) show ?thesis by blast
  qed
qed

section \<open>Which files change\<close>

text \<open>
  A file changes inside the workspace. Outside of it nothing that was there changes; what can appear are the missing
  directories that lead to the workspace, and, next to a workspace that was itself the file to be written, the temporary
  file of a call that did not succeed.
\<close>

definition leftover :: "adapter_env \<Rightarrow> tool_invocation \<Rightarrow> tool_context \<Rightarrow> string list \<Rightarrow> string list \<Rightarrow> file_node option \<Rightarrow> bool" where
  "leftover av iv ctx r p node \<longleftrightarrow>
     resolve_safe_path (gv_paths (av_gate av)) (str_of av (file_param iv)) (cx_workspace ctx) = Inr r
   \<and> p = temp_path av (butlast r) \<and> (\<exists>text. node = Some (Regular text))"

definition confined ::
  "adapter_env \<Rightarrow> tool_invocation \<Rightarrow> tool_context \<Rightarrow> bool \<Rightarrow> files \<Rightarrow> files \<Rightarrow> bool" where
  "confined av iv ctx ok fs fs' \<longleftrightarrow>
     (\<forall>p. fs' p \<noteq> fs p \<longrightarrow> physical (gv_paths (av_gate av)) p
        \<and> (\<exists>r. path_resolve (gv_paths (av_gate av)) (cx_workspace ctx) = Inr r
             \<and> (prefix r p \<or> fs p = None \<and> (strict_prefix p r \<and> fs' p = Some Directory
                  \<or> \<not> ok \<and> leftover av iv ctx r p (fs' p)))))"

lemma confined_refl [simp]: "confined av iv ctx ok fs fs"
  by (simp add: confined_def)

text \<open>The contract of a tool that keeps to the workspace of its context.\<close>

definition succeeded :: "string + tool_result \<Rightarrow> bool" where
  "succeeded out \<longleftrightarrow> (case out of Inl _ \<Rightarrow> False | Inr r \<Rightarrow> tr_success r)"

definition keeps_inside :: "tool_adapter \<Rightarrow> bool" where
  "keeps_inside run \<longleftrightarrow>
     (\<forall>av iv ctx fs. physical (gv_paths (av_gate av)) (pe_cwd (gv_paths (av_gate av))) \<longrightarrow>
        (case run av iv ctx fs of (out, fs') \<Rightarrow> confined av iv ctx (succeeded out) fs fs'))"

lemma keeps_insideD:
  assumes "keeps_inside run" and "run av iv ctx fs = (out, fs')" and "physical (gv_paths (av_gate av)) (pe_cwd (gv_paths (av_gate av)))"
  shows "confined av iv ctx (succeeded out) fs fs'"
  using assms(1) [unfolded keeps_inside_def, rule_format, OF assms(3), of iv ctx fs] assms(2) by simp

lemma keeps_insideI:
  assumes "\<And>av iv ctx fs out fs'. run av iv ctx fs = (out, fs') \<Longrightarrow>
    physical (gv_paths (av_gate av)) (pe_cwd (gv_paths (av_gate av))) \<Longrightarrow> confined av iv ctx (succeeded out) fs fs'"
  shows "keeps_inside run"
  using assms by (simp add: keeps_inside_def split: prod.splits)

lemma inside_pure: "(\<And>av iv ctx fs. snd (run av iv ctx fs) = fs) \<Longrightarrow> keeps_inside run"
  by (rule keeps_insideI) (metis confined_refl snd_conv)

lemma inside_read: "keeps_inside handle_read_file"
  by (rule inside_pure) (auto simp: handle_read_file_def split: sum.splits option.splits file_node.splits)

lemma inside_echo: "keeps_inside handle_echo"
  by (rule inside_pure) (simp add: handle_echo_def)

text \<open>The steps of writing: only directories on the way appear, then a name is taken that nothing had.\<close>

lemma make_dirs_frame:
  "make_dirs av cur rest fs = (e, fs') \<Longrightarrow>
     fs' p = fs p \<or> fs p = None \<and> fs' p = Some Directory \<and> prefix p (cur @ rest)"
proof (induction av cur rest fs arbitrary: e fs' rule: make_dirs.induct)
  case (2 av cur c rest fs)
  show ?case
  proof (cases "fs (cur @ [c])")
    case (Some node)
    with 2 show ?thesis by (cases node) auto
  next
    case none: None
    show ?thesis
    proof (cases "av_fail av ''mkdir'' (cur @ [c])")
      case None
      with none "2.prems" have "make_dirs av (cur @ [c]) rest (fs(cur @ [c] \<mapsto> Directory)) = (e, fs')" by simp
      with "2.IH" none None have "fs' p = (fs(cur @ [c] \<mapsto> Directory)) p
          \<or> (fs(cur @ [c] \<mapsto> Directory)) p = None \<and> fs' p = Some Directory \<and> prefix p (cur @ c # rest)" by fastforce
      with none show ?thesis by (cases "p = cur @ [c]") simp_all
    next
      case (Some err)
      with none 2 show ?thesis by simp
    qed
  qed
qed simp

lemma write_temp_frame:
  assumes "write_temp av tmp content fs = (e, fs')"
  shows "fs' = fs \<and> e \<noteq> None
    \<or> fs tmp = None \<and> map_of (pe_links (gv_paths (av_gate av))) tmp = None \<and> (\<exists>text. fs' = fs(tmp \<mapsto> Regular text))"
  using assms by (auto simp: write_temp_def split: if_splits option.splits)

lemma replace_file_frame:
  assumes "replace_file av tmp target fs = (e, fs')"
  shows "fs' = fs \<and> e \<noteq> None \<or> e = None \<and> fs' = (fs(tmp := None))(target := fs tmp)"
  using assms by (auto simp: replace_file_def split: if_splits option.splits)

lemma refuse_fails [simp]: "\<not> succeeded (refuse av iv err)"
  by (auto simp: succeeded_def refuse_def result_in_def make_result_def split: sum.splits if_splits)

lemma prefix_or_above: "prefix p (butlast s) \<Longrightarrow> prefix r s \<Longrightarrow> prefix r p \<or> strict_prefix p r"
  by (metis prefix_order.le_less prefix_order.trans prefix_same_cases prefixeq_butlast)

text \<open>The temporary file is next to the target: inside of the workspace unless the target is the workspace.\<close>

lemma temp_path_inside: "prefix r safe \<Longrightarrow> r = safe \<or> prefix r (temp_path av (butlast safe))"
  by (cases safe rule: rev_cases) (auto simp: temp_path_def)

lemma physical_prefix:
  assumes "physical pe s" and "prefix p s" shows "physical pe p"
proof -
  obtain t where s: "s = p @ t" using assms(2) by (rule prefixE)
  have "map_of (pe_links pe) (take n p) = None" if "n \<in> {1..length p}" for n
  proof -
    have "n \<in> {1..length s}" using that by (simp add: s)
    with assms(1) have "map_of (pe_links pe) (take n s) = None" unfolding physical_def by blast
    with that show ?thesis by (simp add: s)
  qed
  with assms(1) show ?thesis by (simp add: physical_def s)
qed

lemma temp_path_physical:
  "physical pe safe \<Longrightarrow> map_of (pe_links pe) (temp_path av (butlast safe)) = None \<Longrightarrow>
   physical pe (temp_path av (butlast safe))"
  unfolding temp_path_def by (intro physical_snoc physical_butlast) simp_all

lemma write_changes:
  assumes "handle_write_file av iv ctx fs = (out, fs')" and "fs' p \<noteq> fs p"
  shows "\<exists>safe. resolve_safe_path (gv_paths (av_gate av)) (str_of av (file_param iv)) (cx_workspace ctx) = Inr safe
    \<and> (p = safe \<or> fs p = None \<and> (fs' p = Some Directory \<and> prefix p (butlast safe)
         \<or> p = temp_path av (butlast safe) \<and> map_of (pe_links (gv_paths (av_gate av))) p = None
             \<and> (\<exists>text. fs' p = Some (Regular text)) \<and> \<not> succeeded out))"
proof -
  obtain safe where safe: "resolve_safe_path (gv_paths (av_gate av)) (str_of av (file_param iv)) (cx_workspace ctx) = Inr safe"
    and param: "py_true (file_param iv)"
    using assms unfolding handle_write_file_def
    by (cases "py_true (file_param iv)";
      cases "resolve_safe_path (gv_paths (av_gate av)) (str_of av (file_param iv)) (cx_workspace ctx)") simp_all
  let ?tmp = "temp_path av (butlast safe)" and ?links = "pe_links (gv_paths (av_gate av))"
  obtain e1 fs1 where d: "make_dirs av [] (butlast safe) fs = (e1, fs1)" by fastforce
  note dirs = make_dirs_frame [OF d]
  obtain e2 fs2 where t: "write_temp av ?tmp (written_content av iv) fs1 = (e2, fs2)" by fastforce
  note temp = write_temp_frame [OF t]
  obtain e3 fs3 where r: "replace_file av ?tmp safe fs2 = (e3, fs3)" by fastforce
  note rep = replace_file_frame [OF r]
  note open_handler = assms(1) [unfolded handle_write_file_def safe sum.case d prod.case, simplified param not_True_eq_False if_False]
  have "fs' = fs1 \<or> fs1 ?tmp = None \<and> (map_of ?links ?tmp = None \<and> (\<exists>text. fs' = fs1(?tmp \<mapsto> Regular text)) \<and> \<not> succeeded out
      \<or> (\<exists>text. fs' = (fs1(?tmp := None))(safe \<mapsto> Regular text)))"
  proof (cases "e1 = None \<and> e2 = None")
    case False
    with open_handler t temp show ?thesis by (auto split: if_splits option.splits)
  next
    case True
    with temp obtain c where two: "fs1 ?tmp = None" "map_of ?links ?tmp = None" "fs2 = fs1(?tmp \<mapsto> Regular c)" by auto
    show ?thesis
    proof (cases e3)
      case None
      with rep two have "fs3 = (fs1(?tmp := None))(safe \<mapsto> Regular c)" by auto
      with True None open_handler t r two show ?thesis by (auto split: if_splits)
    next
      case (Some err)
      with rep have "fs3 = fs2" by auto
      with True Some open_handler t r two show ?thesis by (auto split: if_splits)
    qed
  qed
  with assms(2) dirs [of p] dirs [of ?tmp] safe show ?thesis by (auto split: if_splits)
qed

lemma inside_write: "keeps_inside handle_write_file"
proof (rule keeps_insideI, unfold confined_def, intro allI impI)
  fix av :: adapter_env and iv :: tool_invocation and ctx :: tool_context and fs fs' :: files and out p
  let ?pe = "gv_paths (av_gate av)"
  assume cwd: "physical ?pe (pe_cwd ?pe)" and run: "handle_write_file av iv ctx fs = (out, fs')" and change: "fs' p \<noteq> fs p"
  from write_changes [OF run change] obtain safe
    where safe: "resolve_safe_path ?pe (str_of av (file_param iv)) (cx_workspace ctx) = Inr safe"
      and how: "p = safe \<or> fs p = None \<and> (fs' p = Some Directory \<and> prefix p (butlast safe)
         \<or> p = temp_path av (butlast safe) \<and> map_of (pe_links ?pe) p = None
             \<and> (\<exists>text. fs' p = Some (Regular text)) \<and> \<not> succeeded out)" by blast
  from safe_path_cases [OF safe] obtain r where r: "path_resolve ?pe (cx_workspace ctx) = Inr r" and in_r: "prefix r safe"
    by blast
  have phys: "physical ?pe safe" by (rule safe_path_physical [OF safe cwd])
  have "prefix (butlast safe) safe" by (rule prefixeq_butlast)
  with how phys have "physical ?pe p" by (auto intro: physical_prefix temp_path_physical)
  moreover have "prefix r p \<or> fs p = None \<and> (strict_prefix p r \<and> fs' p = Some Directory
      \<or> \<not> succeeded out \<and> leftover av iv ctx r p (fs' p))"
    using how in_r \<open>prefix (butlast safe) safe\<close> safe temp_path_inside [OF in_r, of av]
    using prefix_or_above [OF _ in_r, of p] by (auto simp: leftover_def)
  ultimately show "physical ?pe p \<and> (\<exists>r. path_resolve ?pe (cx_workspace ctx) = Inr r
      \<and> (prefix r p \<or> fs p = None \<and> (strict_prefix p r \<and> fs' p = Some Directory
           \<or> \<not> succeeded out \<and> leftover av iv ctx r p (fs' p))))"
    using r by blast
qed

lemma inside_in_process: "(\<And>n h. (n, h) \<in> set handlers \<Longrightarrow> keeps_inside h) \<Longrightarrow> keeps_inside (in_process_execute handlers)"
  by (rule keeps_insideI) (auto simp: in_process_execute_def split: option.splits dest!: map_of_SomeD intro: keeps_insideD)

lemma inside_builtin: "keeps_inside (in_process_execute builtin_handlers)"
  by (rule inside_in_process) (auto simp: builtin_handlers_def inside_read inside_write inside_echo)

lemma inside_simulations:
  "keeps_inside browser_execute" "keeps_inside mcp_execute" "keeps_inside desktop_execute" "keeps_inside container_execute"
  "keeps_inside remote_execute"
  by (rule inside_pure, simp add: browser_execute_def mcp_execute_def desktop_execute_def container_execute_def
    remote_execute_def Let_def)+

lemma py_lower_runtime [simp]: "py_lower (runtime_value r) = runtime_value r"
  by (cases r) (simp_all add: runtime_value_def py_lower_def py_lower_char_def)

lemma default_adapter:
  "adapter_for_tool default_runtimes d = Some (case td_runtime d of IN_PROCESS \<Rightarrow> in_process_execute builtin_handlers
     | SUBPROCESS \<Rightarrow> subprocess_execute | BROWSER \<Rightarrow> browser_execute | MCP \<Rightarrow> mcp_execute | DESKTOP \<Rightarrow> desktop_execute
     | CONTAINER \<Rightarrow> container_execute | REMOTE \<Rightarrow> remote_execute)"
  by (cases "td_runtime d")
    (simp_all add: adapter_for_tool_def runtime_get_def default_runtimes_def runtime_value_def py_lower_def py_lower_char_def)

lemma dispatch_confined:
  assumes "dispatch default_runtimes av d iv ctx p s = (out, s')" and "td_runtime d \<noteq> SUBPROCESS"
    and "physical (gv_paths (av_gate av)) (pe_cwd (gv_paths (av_gate av)))"
  shows "confined av iv ctx (\<exists>r q. out = Inr (r, q) \<and> tr_success r) (as_files s) (as_files s')"
proof -
  obtain run where run: "adapter_for_tool default_runtimes d = Some run" and i: "keeps_inside run"
    using assms(2) by (cases "td_runtime d") (simp_all add: default_adapter inside_builtin inside_simulations)
  obtain res fs where r: "run av iv ctx (as_files s) = (res, fs)" by fastforce
  then have "as_files s' = fs" "(\<exists>r q. out = Inr (r, q) \<and> tr_success r) \<longleftrightarrow> succeeded res"
    using assms(1) run by (auto simp: dispatch_def succeeded_def split: sum.splits)
  with keeps_insideD [OF i r assms(3)] show ?thesis by simp
qed

end
