(* ===== verification/Automation_Store.thy ===== *)
theory Automation_Store
  imports Automation_Executor
begin

text \<open>
  The durable side of the automation module: rows (\<^verbatim>\<open>application/models.py\<close>), their conversion from and to
  definitions (\<^verbatim>\<open>application/services.py\<close>), the statements of \<^verbatim>\<open>SqlAutomationStore\<close>
  (\<^verbatim>\<open>infrastructure/repository.py\<close>) and the events (\<^verbatim>\<open>application/events.py\<close>). JSON columns hold the parsed values, so a
  view is a row.
\<close>

section \<open>Rows\<close>

record tool_row =
  tl_id :: string
  tl_name :: string
  tl_description :: string
  tl_version :: string
  tl_risk :: string
  tl_capability :: string
  tl_runtime :: string
  tl_side_effect :: string
  tl_idempotent :: bool
  tl_destructive :: bool
  tl_reversible :: bool
  tl_timeout :: int
  tl_permissions :: "string list"
  tl_sandbox :: string
  tl_artifacts :: "string list"
  tl_retry :: bool
  tl_redaction :: string
  tl_parameters :: "(pyobj \<times> pyobj) list"
  tl_outputs :: "(pyobj \<times> pyobj) list"
  tl_enabled :: bool
  tl_created :: "time option"
  tl_updated :: "time option"
  tl_optimistic :: int

record tool_run_row =
  tn_id :: string
  tn_tool :: string
  tn_version :: string
  tn_invocation :: string
  tn_params :: pyobj
  tn_workspace :: string
  tn_actor :: "string option"
  tn_correlation :: "string option"
  tn_causation :: "string option"
  tn_trace :: "string option"
  tn_runtime :: string
  tn_status :: string
  tn_result :: "pyobj option"
  tn_error :: "string option"
  tn_ms :: int
  tn_decision :: "pyobj option"
  tn_created :: "time option"
  tn_completed :: "time option"

section \<open>Definitions and rows\<close>

text \<open>\<^verbatim>\<open>int(x)\<close> of a float: towards zero, and no integer for the special values.\<close>

definition truncate_float :: "pyfloat \<Rightarrow> exn + int" where
  "truncate_float f =
     (case f of Finite x \<Rightarrow> Inr (if x < 0 then - \<lfloor>- x\<rfloor> else \<lfloor>x\<rfloor>)
      | NaN \<Rightarrow> Inl (ValueError ''cannot convert float NaN to integer'')
      | _ \<Rightarrow> Inl OverflowError)"

text \<open>
  What a JSON column gives back of an object with texts as keys: tuples become lists, and what JSON does not know, a
  read-only mapping included, becomes the text \<^verbatim>\<open>str\<close> makes of it (\<^verbatim>\<open>default=str\<close>).
\<close>

fun json_column :: "(pyobj \<Rightarrow> string) \<Rightarrow> pyobj \<Rightarrow> pyobj" where
  "json_column render (PMap ro fs) =
     (if ro then PStr (render (PMap ro fs)) else PMap False (map (\<lambda>(k, x). (k, json_column render x)) fs))"
| "json_column render (PList xs) = PList (map (json_column render) xs)"
| "json_column render (PTuple xs) = PList (map (json_column render) xs)"
| "json_column render (POther c) = PStr (render (POther c))"
| "json_column render v = v"

lemma json_column_twice: "json_column r (json_column r v) = json_column r v"
  by (induction r v rule: json_column.induct) auto

definition stored_fields :: "(pyobj \<Rightarrow> string) \<Rightarrow> (pyobj \<times> pyobj) list \<Rightarrow> (pyobj \<times> pyobj) list" where
  "stored_fields render fs = map (\<lambda>(k, x). (k, json_column render x)) fs"

lemma stored_twice: "stored_fields r (stored_fields r fs) = stored_fields r fs"
  by (simp add: stored_fields_def json_column_twice case_prod_beta comp_def)

definition definition_to_row :: "(pyobj \<Rightarrow> string) \<Rightarrow> time \<Rightarrow> string \<Rightarrow> tool_definition \<Rightarrow> exn + tool_row" where
  "definition_to_row render now i d =
     (case truncate_float (td_timeout d) of Inl e \<Rightarrow> Inl e
      | Inr timeout \<Rightarrow> Inr \<lparr>tl_id = i, tl_name = td_name d, tl_description = td_description d, tl_version = td_version d,
          tl_risk = risk_value (td_risk d), tl_capability = td_capability d, tl_runtime = runtime_value (td_runtime d),
          tl_side_effect = td_side_effect d, tl_idempotent = td_idempotent d, tl_destructive = td_destructive d,
          tl_reversible = td_reversible d, tl_timeout = timeout, tl_permissions = td_permissions d, tl_sandbox = td_sandbox d,
          tl_artifacts = td_artifacts d, tl_retry = td_retry d, tl_redaction = td_redaction d,
          tl_parameters = stored_fields render (td_parameters d), tl_outputs = stored_fields render (td_outputs d),
          tl_enabled = td_enabled d, tl_created = Some now, tl_updated = Some now, tl_optimistic = 0\<rparr>)"

definition row_to_definition :: "tool_row \<Rightarrow> exn + tool_definition" where
  "row_to_definition r =
     (case risk_of (tl_risk r) of Inl e \<Rightarrow> Inl e | Inr risk \<Rightarrow>
     (case runtime_of (tl_runtime r) of Inl e \<Rightarrow> Inl e | Inr runtime \<Rightarrow>
      make_definition \<lparr>td_name = tl_name r, td_description = tl_description r, td_version = tl_version r, td_risk = risk,
        td_capability = tl_capability r, td_runtime = runtime, td_side_effect = tl_side_effect r,
        td_idempotent = tl_idempotent r, td_destructive = tl_destructive r, td_reversible = tl_reversible r,
        td_timeout = Finite (of_int (tl_timeout r)), td_permissions = tl_permissions r, td_sandbox = tl_sandbox r,
        td_artifacts = tl_artifacts r, td_retry = tl_retry r, td_redaction = tl_redaction r,
        td_parameters = tl_parameters r, td_outputs = tl_outputs r, td_enabled = tl_enabled r\<rparr>))"

text \<open>What a definition read back from its row looks like: the timeout lost its fraction.\<close>

definition stored_definition :: "(pyobj \<Rightarrow> string) \<Rightarrow> tool_definition \<Rightarrow> int \<Rightarrow> tool_definition" where
  "stored_definition render d n = d\<lparr>td_timeout := Finite (of_int n), td_parameters := stored_fields render (td_parameters d),
     td_outputs := stored_fields render (td_outputs d)\<rparr>"

lemma stored_definition_made:
  assumes "definition_ok d"
  shows "make_definition (stored_definition render d n) =
    (if n < 1 then Inl (ValueError ''timeout_seconds must be positive'') else Inr (stored_definition render d n))"
proof (cases "n < 1")
  case True
  with assms show ?thesis
    by (simp add: make_definition_def definition_ok_def stored_definition_def required_text_id not_positive_def)
next
  case False
  with assms have "definition_ok (stored_definition render d n)"
    by (simp add: definition_ok_def stored_definition_def not_positive_def)
  with False show ?thesis by (simp add: make_definition_id)
qed

lemma definition_row_back:
  assumes "definition_ok d" and "definition_to_row render now i d = Inr r"
  shows "row_to_definition r =
    (if tl_timeout r < 1 then Inl (ValueError ''timeout_seconds must be positive'') else Inr (stored_definition render d (tl_timeout r)))"
proof -
  obtain n where r: "definition_to_row render now i d = Inr r" and n: "tl_timeout r = n" "truncate_float (td_timeout d) = Inr n"
    using assms(2) by (auto simp: definition_to_row_def split: sum.splits)
  have "row_to_definition r = make_definition (stored_definition render d n)"
    using assms(2) n by (auto simp: row_to_definition_def definition_to_row_def stored_definition_def
      intro!: arg_cong [where f = make_definition])
  with stored_definition_made [OF assms(1)] n show ?thesis by simp
qed

section \<open>Tables and statements\<close>

record auto_db =
  tb_tools :: "tool_row list"
  tb_runs :: "tool_run_row list"
  tb_outbox :: outbox_db

type_synonym auto_tx = "(auto_db, auto_side) tx"
type_synonym auto_world = "(auto_db, auto_side) world"

definition put_tools :: "tool_row list \<Rightarrow> auto_db \<Rightarrow> auto_db" where "put_tools rs db = db\<lparr>tb_tools := rs\<rparr>"
definition put_runs :: "tool_run_row list \<Rightarrow> auto_db \<Rightarrow> auto_db" where "put_runs rs db = db\<lparr>tb_runs := rs\<rparr>"
definition put_events :: "outbox_db \<Rightarrow> auto_db \<Rightarrow> auto_db" where "put_events ob db = db\<lparr>tb_outbox := ob\<rparr>"

lemmas auto_puts = put_tools_def put_runs_def put_events_def

definition get_tool_row :: "string \<Rightarrow> (auto_tx, tool_row option) act" where
  "get_tool_row i = tx_query (\<lambda>db. find (\<lambda>r. tl_id r = i) (tb_tools db))"

definition get_tool_row_by_name :: "string \<Rightarrow> (auto_tx, tool_row option) act" where
  "get_tool_row_by_name n = tx_query (\<lambda>db. find (\<lambda>r. tl_name r = n) (tb_tools db))"

definition insert_tool :: "tool_row \<Rightarrow> (auto_tx, bool) act" where
  "insert_tool row =
     act_bind (get_tool_row (tl_id row)) (\<lambda>same. if same \<noteq> None then act_return False
     else act_bind (get_tool_row_by_name (tl_name row)) (\<lambda>named. if named \<noteq> None then act_return False
     else act_bind (tx_modify (\<lambda>db. put_tools (tb_tools db @ [row]) db)) (\<lambda>_. act_return True)))"

definition list_tool_rows :: "string option \<Rightarrow> string option \<Rightarrow> bool \<Rightarrow> (auto_tx, tool_row list) act" where
  "list_tool_rows cap runtime enabled_only =
     tx_query (\<lambda>db. sort_key tl_name (filter (\<lambda>r. (cap = None \<or> cap = Some (tl_capability r))
       \<and> (runtime = None \<or> runtime = Some (tl_runtime r)) \<and> (enabled_only \<longrightarrow> tl_enabled r)) (tb_tools db)))"

text \<open>The columns an update names; a column whose argument is \<open>None\<close> stays.\<close>

record tool_patch =
  pt_description :: "string option"
  pt_version :: "string option"
  pt_risk :: "string option"
  pt_capability :: "string option"
  pt_runtime :: "string option"
  pt_enabled :: "bool option"

definition given :: "'a option \<Rightarrow> 'a \<Rightarrow> 'a" where
  "given p old = (case p of None \<Rightarrow> old | Some x \<Rightarrow> x)"

definition patched :: "tool_patch \<Rightarrow> time \<Rightarrow> int option \<Rightarrow> tool_row \<Rightarrow> tool_row" where
  "patched p now opt r = r\<lparr>tl_updated := Some now, tl_description := given (pt_description p) (tl_description r),
     tl_version := given (pt_version p) (tl_version r), tl_risk := given (pt_risk p) (tl_risk r),
     tl_capability := given (pt_capability p) (tl_capability r), tl_runtime := given (pt_runtime p) (tl_runtime r),
     tl_enabled := given (pt_enabled p) (tl_enabled r), tl_optimistic := given opt (tl_optimistic r)\<rparr>"

definition update_tool_row ::
  "sys_env \<Rightarrow> string \<Rightarrow> tool_patch \<Rightarrow> int option \<Rightarrow> int option \<Rightarrow> (auto_tx, tool_row option) act" where
  "update_tool_row env i p opt expected =
     act_bind (get_tool_row i) (\<lambda>ex. case ex of None \<Rightarrow> act_return None | Some old \<Rightarrow>
       if (case expected of None \<Rightarrow> False | Some v \<Rightarrow> tl_optimistic old \<noteq> v) then act_return None
       else act_bind (tx_now env) (\<lambda>now.
         let guard = (\<lambda>r. tl_id r = i \<and> (case expected of None \<Rightarrow> True | Some v \<Rightarrow> tl_optimistic r = v)) in
         act_bind (tx_query (\<lambda>db. rowcount guard (tb_tools db))) (\<lambda>n.
         act_bind (tx_modify (\<lambda>db. put_tools (sql_update guard (patched p now opt) (tb_tools db)) db)) (\<lambda>_.
         if expected \<noteq> None \<and> n = 0 then act_return None else get_tool_row i))))"

definition delete_tool_row :: "string \<Rightarrow> (auto_tx, bool) act" where
  "delete_tool_row i =
     act_bind (get_tool_row i) (\<lambda>ex. if ex = None then act_return False
     else act_bind (tx_modify (\<lambda>db. put_tools (filter (\<lambda>r. tl_id r \<noteq> i) (tb_tools db)) db)) (\<lambda>_. act_return True))"

definition get_run_row :: "string \<Rightarrow> (auto_tx, tool_run_row option) act" where
  "get_run_row i = tx_query (\<lambda>db. find (\<lambda>r. tn_id r = i) (tb_runs db))"

definition get_run_row_by_invocation :: "string \<Rightarrow> (auto_tx, tool_run_row option) act" where
  "get_run_row_by_invocation c = tx_query (\<lambda>db. find (\<lambda>r. tn_invocation r = c) (tb_runs db))"

definition insert_run :: "tool_run_row \<Rightarrow> (auto_tx, bool) act" where
  "insert_run row =
     act_bind (get_run_row (tn_id row)) (\<lambda>same. if same \<noteq> None then act_return False
     else act_bind (tx_modify (\<lambda>db. put_runs (tb_runs db @ [row]) db)) (\<lambda>_. act_return True))"

text \<open>Newest first; the order of rows without an instant and of equal instants is the order of insertion.\<close>

definition list_run_rows :: "string option \<Rightarrow> string option \<Rightarrow> nat \<Rightarrow> (auto_tx, tool_run_row list) act" where
  "list_run_rows tool status n =
     tx_query (\<lambda>db. take n (sort_key (\<lambda>r. case tn_created r of None \<Rightarrow> (1 :: int, 0) | Some t \<Rightarrow> (0, - t))
       (filter (\<lambda>r. (tool = None \<or> tool = Some (tn_tool r)) \<and> (status = None \<or> status = Some (tn_status r))) (tb_runs db))))"

definition run_patched ::
  "string \<Rightarrow> pyobj option \<Rightarrow> string option \<Rightarrow> int \<Rightarrow> time \<Rightarrow> tool_run_row \<Rightarrow> tool_run_row" where
  "run_patched status result err ms at_time r =
     r\<lparr>tn_status := status, tn_result := (case result of None \<Rightarrow> tn_result r | Some x \<Rightarrow> Some x),
       tn_error := (case err of None \<Rightarrow> tn_error r | Some x \<Rightarrow> Some x), tn_ms := ms, tn_completed := Some at_time\<rparr>"

text \<open>\<^verbatim>\<open>update_run\<close> as the service calls it: always with a status, a time and an instant.\<close>

definition update_run_row ::
  "string \<Rightarrow> string \<Rightarrow> pyobj option \<Rightarrow> string option \<Rightarrow> int \<Rightarrow> time \<Rightarrow> (auto_tx, tool_run_row option) act" where
  "update_run_row i status result err ms at_time =
     act_bind (get_run_row i) (\<lambda>ex. case ex of None \<Rightarrow> act_return None | Some _ \<Rightarrow>
     act_bind (tx_modify (\<lambda>db. put_runs (sql_update (\<lambda>r. tn_id r = i) (run_patched status result err ms at_time) (tb_runs db)) db)) (\<lambda>_.
     get_run_row i))"

definition set_run_decision :: "string \<Rightarrow> pyobj \<Rightarrow> (auto_tx, unit) act" where
  "set_run_decision i dec =
     tx_modify (\<lambda>db. put_runs (sql_update (\<lambda>r. tn_id r = i) (\<lambda>r. r\<lparr>tn_decision := Some dec\<rparr>) (tb_runs db)) db)"

section \<open>Events\<close>

definition auto_event :: "string \<Rightarrow> string \<Rightarrow> string \<Rightarrow> int \<Rightarrow> (pyobj \<times> pyobj) list \<Rightarrow> event_envelope" where
  "auto_event ty aggregate aid n payload =
     \<lparr>ev_type = ty, ev_aggregate_type = aggregate, ev_aggregate_id = aid, ev_sequence = n, ev_payload = PMap False payload,
      ev_id = [], ev_version = 1, ev_occurred_at = 0, ev_actor_id = None, ev_correlation_id = None, ev_causation_id = None\<rparr>"

definition tool_event :: "string \<Rightarrow> int \<Rightarrow> string \<Rightarrow> string \<Rightarrow> event_envelope" where
  "tool_event ty n i name = auto_event ty ''automation_tool'' i n [text_field ''tool_id'' i, text_field ''name'' name]"

definition tool_registered :: "string \<Rightarrow> string \<Rightarrow> event_envelope" where "tool_registered = tool_event ''automation.tool.registered'' 0"
definition tool_updated :: "string \<Rightarrow> string \<Rightarrow> event_envelope" where "tool_updated = tool_event ''automation.tool.updated'' 1"
definition tool_deregistered :: "string \<Rightarrow> string \<Rightarrow> event_envelope" where "tool_deregistered = tool_event ''automation.tool.deregistered'' 2"

definition run_event :: "string \<Rightarrow> int \<Rightarrow> string \<Rightarrow> string \<Rightarrow> pyobj \<times> pyobj \<Rightarrow> event_envelope" where
  "run_event ty n i tool field =
     auto_event ty ''automation_tool_run'' i n [text_field ''run_id'' i, text_field ''tool_name'' tool, field]"

definition tool_invoked :: "string \<Rightarrow> string \<Rightarrow> string \<Rightarrow> event_envelope" where
  "tool_invoked i tool call = run_event ''automation.tool.invoked'' 0 i tool (text_field ''invocation_id'' call)"

definition tool_succeeded :: "string \<Rightarrow> string \<Rightarrow> int \<Rightarrow> event_envelope" where
  "tool_succeeded i tool ms = run_event ''automation.tool.succeeded'' 1 i tool (PStr ''execution_time_ms'', PInt ms)"

definition tool_failed :: "string \<Rightarrow> string \<Rightarrow> string option \<Rightarrow> event_envelope" where
  "tool_failed i tool err = run_event ''automation.tool.failed'' 2 i tool (text_field ''error'' (text_or err []))"

definition tool_denied :: "string \<Rightarrow> string \<Rightarrow> string \<Rightarrow> event_envelope" where
  "tool_denied i tool reason = run_event ''automation.tool.denied'' 3 i tool (text_field ''reason'' reason)"

definition auto_record_event :: "sys_env \<Rightarrow> event_envelope \<Rightarrow> (auto_tx, unit) act" where
  "auto_record_event = tx_record_event tb_outbox put_events"

end
