(* ===== verification/Automation_Service.thy ===== *)
theory Automation_Service
  imports Automation_Store
begin

text \<open>
  The commands and queries of \<^verbatim>\<open>AutomationService\<close> (\<^verbatim>\<open>application/services.py\<close>) and the registration handlers with
  the built-in tools (\<^verbatim>\<open>application/handlers.py\<close>). A command is a sequence of transaction scopes; the tool registry
  and the files are outside of them, so what a scope did there stays when the scope is rolled back.
\<close>

section \<open>Surroundings\<close>

text \<open>What the adapters observe in a call depends on how much was drawn before.\<close>

record auto_env =
  ae_sys :: sys_env
  ae_engine :: "engine option"
  ae_runtimes :: runtimes
  ae_adapters :: "nat \<Rightarrow> adapter_env"
  ae_text :: "exn \<Rightarrow> string"
  ae_render :: "pyobj \<Rightarrow> string"

definition AUTO_VALIDATION :: exn where "AUTO_VALIDATION = DomainErr ''AutomationValidationError''"
definition AUTO_NOT_FOUND :: exn where "AUTO_NOT_FOUND = DomainErr ''AutomationNotFoundError''"
definition AUTO_CONFLICT :: exn where "AUTO_CONFLICT = DomainErr ''AutomationConflictError''"
definition AUTO_DENIED :: exn where "AUTO_DENIED = DomainErr ''AutomationPolicyDeniedError''"
definition AUTO_APPROVAL :: exn where "AUTO_APPROVAL = DomainErr ''AutomationPolicyApprovalRequiredError''"
definition assertion_failed :: exn where "assertion_failed = RuntimeErr ''AssertionError''"

definition swallow_register :: "tool_definition \<Rightarrow> bool \<Rightarrow> auto_side \<Rightarrow> (exn + unit) \<times> auto_side" where
  "swallow_register d override s =
     (case registry_register d override (as_registry s) of Inl _ \<Rightarrow> (Inr (), s) | Inr reg \<Rightarrow> (Inr (), s\<lparr>as_registry := reg\<rparr>))"

definition forget_tool :: "string \<Rightarrow> auto_side \<Rightarrow> (exn + unit) \<times> auto_side" where
  "forget_tool name s = (Inr (), s\<lparr>as_registry := snd (registry_remove name (as_registry s))\<rparr>)"

section \<open>The durable registry\<close>

definition register_rows :: "auto_env \<Rightarrow> tool_definition \<Rightarrow> (auto_tx, tool_row) act" where
  "register_rows env d =
     act_bind (get_tool_row_by_name (td_name d)) (\<lambda>ex.
     act_bind (act_check_that (ex = None) AUTO_CONFLICT) (\<lambda>_.
     act_bind (tx_uuid (ae_sys env)) (\<lambda>i.
     act_bind (tx_now (ae_sys env)) (\<lambda>now.
     act_bind (act_lift (definition_to_row (ae_render env) now i d)) (\<lambda>row.
     act_bind (insert_tool row) (\<lambda>ok.
     act_bind (act_check_that ok AUTO_CONFLICT) (\<lambda>_.
     act_bind (tx_outside (swallow_register d False)) (\<lambda>_.
     act_bind (auto_record_event (ae_sys env) (tool_registered i (td_name d))) (\<lambda>_.
     act_bind tx_commit (\<lambda>_.
     act_bind (get_tool_row i) (\<lambda>inserted. act_some inserted assertion_failed)))))))))))"

definition register_tool :: "auto_env \<Rightarrow> tool_definition \<Rightarrow> (auto_world, tool_row) act" where
  "register_tool env d =
     act_bind (act_check_that (py_strip (td_name d) \<noteq> []) AUTO_VALIDATION) (\<lambda>_. in_tx (register_rows env d))"

text \<open>\<^verbatim>\<open>_row_to_definition\<close> of the updated row and the override in the registry, with every exception swallowed.\<close>

definition reflect_row :: "tool_row \<Rightarrow> auto_side \<Rightarrow> (exn + unit) \<times> auto_side" where
  "reflect_row r s = (case row_to_definition r of Inl _ \<Rightarrow> (Inr (), s) | Inr d \<Rightarrow> swallow_register d True s)"

definition update_rows :: "auto_env \<Rightarrow> string \<Rightarrow> tool_patch \<Rightarrow> int option \<Rightarrow> (auto_tx, tool_row) act" where
  "update_rows env i p expected =
     act_bind (get_tool_row i) (\<lambda>ex.
     act_bind (act_some ex AUTO_NOT_FOUND) (\<lambda>old.
     act_bind (act_check_that (case pt_runtime p of None \<Rightarrow> True | Some v \<Rightarrow> \<not> isl (runtime_of v)) AUTO_VALIDATION) (\<lambda>_.
     act_bind (act_check_that (case pt_risk p of None \<Rightarrow> True | Some v \<Rightarrow> \<not> isl (risk_of v)) AUTO_VALIDATION) (\<lambda>_.
     act_bind (update_tool_row (ae_sys env) i p (map_option (\<lambda>_. tl_optimistic old + 1) expected) expected) (\<lambda>upd.
     act_bind (act_some upd AUTO_CONFLICT) (\<lambda>row.
     act_bind (tx_outside (reflect_row row)) (\<lambda>_.
     act_bind (auto_record_event (ae_sys env) (tool_updated i (tl_name row))) (\<lambda>_.
     act_bind tx_commit (\<lambda>_. act_return row)))))))))"

definition update_tool :: "auto_env \<Rightarrow> string \<Rightarrow> tool_patch \<Rightarrow> int option \<Rightarrow> (auto_world, tool_row) act" where
  "update_tool env i p expected = in_tx (update_rows env i p expected)"

definition deregister_rows :: "auto_env \<Rightarrow> string \<Rightarrow> (auto_tx, unit) act" where
  "deregister_rows env i =
     act_bind (get_tool_row i) (\<lambda>ex.
     act_bind (act_some ex AUTO_NOT_FOUND) (\<lambda>old.
     act_bind (delete_tool_row i) (\<lambda>ok.
     act_bind (act_check_that ok AUTO_NOT_FOUND) (\<lambda>_.
     act_bind (tx_outside (forget_tool (tl_name old))) (\<lambda>_.
     act_bind (auto_record_event (ae_sys env) (tool_deregistered i (tl_name old))) (\<lambda>_. tx_commit))))))"

definition deregister_tool :: "auto_env \<Rightarrow> string \<Rightarrow> (auto_world, unit) act" where
  "deregister_tool env i = in_tx (deregister_rows env i)"

definition get_tool :: "string \<Rightarrow> (auto_world, tool_row) act" where
  "get_tool i = in_tx (act_bind (get_tool_row i) (\<lambda>r. act_some r AUTO_NOT_FOUND))"

definition get_tool_by_name :: "string \<Rightarrow> (auto_world, tool_row) act" where
  "get_tool_by_name n = in_tx (act_bind (get_tool_row_by_name n) (\<lambda>r. act_some r AUTO_NOT_FOUND))"

definition list_tools :: "string option \<Rightarrow> string option \<Rightarrow> bool \<Rightarrow> (auto_world, tool_row list) act" where
  "list_tools cap runtime enabled_only = in_tx (list_tool_rows cap runtime enabled_only)"

section \<open>Execution\<close>

record tool_call =
  tc_tool :: string
  tc_params :: "(pyobj \<times> pyobj) list"
  tc_workspace :: string
  tc_actor :: "string option"
  tc_correlation :: "string option"
  tc_causation :: "string option"
  tc_trace :: "string option"
  tc_approved :: bool
  tc_invocation :: "string option"

text \<open>\<^verbatim>\<open>if row.name not in registry: registry.register(...)\<close>, exceptions swallowed.\<close>

definition hydrate :: "tool_row \<Rightarrow> auto_side \<Rightarrow> (exn + unit) \<times> auto_side" where
  "hydrate r s =
     (if registry_get (tl_name r) (as_registry s) \<noteq> None then (Inr (), s)
      else case row_to_definition r of Inl _ \<Rightarrow> (Inr (), s) | Inr d \<Rightarrow> swallow_register d False s)"

definition find_tool :: "string \<Rightarrow> (auto_world, tool_row) act" where
  "find_tool name =
     in_tx (act_bind (get_tool_row_by_name name) (\<lambda>r.
       act_bind (act_some r AUTO_NOT_FOUND) (\<lambda>row. act_bind (tx_outside (hydrate row)) (\<lambda>_. act_return row))))"

definition call_identifier :: "auto_env \<Rightarrow> string option \<Rightarrow> (auto_world, string) act" where
  "call_identifier env inv_id =
     (case truthy inv_id of Some i \<Rightarrow> act_return i
      | None \<Rightarrow> act_bind (wd_uuid (ae_sys env)) (\<lambda>u. act_return (''call_'' @ take 12 u)))"

definition pending_run :: "(pyobj \<Rightarrow> string) \<Rightarrow> tool_call \<Rightarrow> tool_row \<Rightarrow> string \<Rightarrow> string \<Rightarrow> time \<Rightarrow> tool_run_row" where
  "pending_run render c row run_id call now =
     \<lparr>tn_id = run_id, tn_tool = tc_tool c, tn_version = tl_version row, tn_invocation = call,
      tn_params = json_column render (PMap False (tc_params c)), tn_workspace = tc_workspace c, tn_actor = tc_actor c,
      tn_correlation = tc_correlation c, tn_causation = tc_causation c, tn_trace = tc_trace c, tn_runtime = tl_runtime row,
      tn_status = ''pending'', tn_result = None, tn_error = None, tn_ms = 0, tn_decision = None, tn_created = Some now,
      tn_completed = None\<rparr>"

definition start_run :: "auto_env \<Rightarrow> tool_run_row \<Rightarrow> (auto_world, unit) act" where
  "start_run env row =
     in_tx (act_bind (insert_run row) (\<lambda>_.
       act_bind (auto_record_event (ae_sys env) (tool_invoked (tn_id row) (tn_tool row) (tn_invocation row))) (\<lambda>_. tx_commit)))"

definition run_executor ::
  "auto_env \<Rightarrow> tool_invocation \<Rightarrow> tool_context \<Rightarrow> (auto_world, exec_failure + tool_result \<times> policy_decision) act" where
  "run_executor env iv ctx w =
     (case execute (ae_engine env) (ae_runtimes env) (ae_adapters env (wd_tick w)) iv ctx (wd_side w) of
       (out, s) \<Rightarrow> (Inr out, w\<lparr>wd_side := s, wd_tick := Suc (wd_tick w)\<rparr>))"

text \<open>\<^verbatim>\<open>int(result.execution_time_ms or elapsed * 1000)\<close>\<close>

definition run_ms :: "pyfloat \<Rightarrow> time \<Rightarrow> time \<Rightarrow> exn + int" where
  "run_ms f started completed =
     (if f = Finite 0 then truncate_float (Finite (of_int (completed - started) / 1000)) else truncate_float f)"

definition effect_value :: "policy_effect \<Rightarrow> string" where
  "effect_value e = (case e of ALLOW \<Rightarrow> ''allow'' | DENY \<Rightarrow> ''deny'' | REQUIRE_APPROVAL \<Rightarrow> ''require_approval'')"

definition opt_text :: "string option \<Rightarrow> pyobj" where
  "opt_text s = (case s of None \<Rightarrow> PNone | Some t \<Rightarrow> PStr t)"

definition decision_payload :: "string \<Rightarrow> string option \<Rightarrow> string option \<Rightarrow> pyobj" where
  "decision_payload effect reason policy =
     PMap False [text_field ''effect'' effect, (PStr ''reason'', opt_text reason), (PStr ''policy_id'', opt_text policy)]"

definition fetch_run :: "string \<Rightarrow> (auto_world, tool_run_row) act" where
  "fetch_run i = in_tx (act_bind (get_run_row i) (\<lambda>r. act_some r assertion_failed))"

definition store_outcome ::
  "auto_env \<Rightarrow> string \<Rightarrow> string \<Rightarrow> tool_result \<Rightarrow> policy_decision \<Rightarrow> int \<Rightarrow> time \<Rightarrow> (auto_world, unit) act" where
  "store_outcome env run_id tool res p ms completed =
     in_tx (act_bind (update_run_row run_id (if tr_success res then ''succeeded'' else ''failed'')
         (if tr_data res = PNone then None else Some (json_column (ae_render env) (tr_data res))) (tr_error res) ms completed) (\<lambda>_.
       act_bind (get_run_row run_id) (\<lambda>after.
       act_bind (if after = None then act_return ()
         else set_run_decision run_id (decision_payload (effect_value (pd_effect p)) (pd_reason p) (pd_policy p))) (\<lambda>_.
       act_bind (auto_record_event (ae_sys env) (if tr_success res then tool_succeeded run_id tool ms
         else tool_failed run_id tool (tr_error res))) (\<lambda>_. tx_commit)))))"

text \<open>The body of the \<^verbatim>\<open>try\<close> after the tool has run.\<close>

definition conclude_run ::
  "auto_env \<Rightarrow> string \<Rightarrow> string \<Rightarrow> time \<Rightarrow> tool_result \<Rightarrow> policy_decision \<Rightarrow> (auto_world, tool_run_row) act" where
  "conclude_run env run_id tool started res p =
     act_bind (wd_now (ae_sys env)) (\<lambda>completed.
     act_bind (act_lift (run_ms (tr_ms res) started completed)) (\<lambda>ms.
     act_bind (store_outcome env run_id tool res p ms completed) (\<lambda>_. fetch_run run_id)))"

definition record_denial ::
  "auto_env \<Rightarrow> string \<Rightarrow> string \<Rightarrow> string \<Rightarrow> string \<Rightarrow> string \<Rightarrow> string \<Rightarrow> exn \<Rightarrow> (auto_world, tool_run_row) act" where
  "record_denial env run_id tool status effect message policy e =
     act_bind (wd_now (ae_sys env)) (\<lambda>completed.
     act_bind (in_tx (act_bind (update_run_row run_id status None (Some message) 0 completed) (\<lambda>_.
       act_bind (set_run_decision run_id (decision_payload effect (Some message) (Some policy))) (\<lambda>_.
       act_bind (auto_record_event (ae_sys env) (tool_denied run_id tool message)) (\<lambda>_. tx_commit))))) (\<lambda>_.
     act_bind (fetch_run run_id) (\<lambda>_. act_raise e)))"

definition record_crash :: "auto_env \<Rightarrow> string \<Rightarrow> string \<Rightarrow> string \<Rightarrow> exn \<Rightarrow> (auto_world, tool_run_row) act" where
  "record_crash env run_id tool message e =
     act_bind (wd_now (ae_sys env)) (\<lambda>completed.
     act_bind (in_tx (act_bind (update_run_row run_id ''failed'' None (Some message) 0 completed) (\<lambda>_.
       act_bind (auto_record_event (ae_sys env) (tool_failed run_id tool (Some message))) (\<lambda>_. tx_commit)))) (\<lambda>_.
     act_raise e))"

definition settle_run ::
  "auto_env \<Rightarrow> string \<Rightarrow> string \<Rightarrow> time \<Rightarrow> exec_failure + tool_result \<times> policy_decision \<Rightarrow> (auto_world, tool_run_row) act" where
  "settle_run env run_id tool started out =
     (case out of
        Inr (res, p) \<Rightarrow> act_catch (conclude_run env run_id tool started res p)
          (\<lambda>e. record_crash env run_id tool (ae_text env e) e)
      | Inl (PolicyDenied m i) \<Rightarrow> record_denial env run_id tool ''denied'' ''deny'' m i AUTO_DENIED
      | Inl (ApprovalRequired m i) \<Rightarrow> record_denial env run_id tool ''approval_required'' ''require_approval'' m i AUTO_APPROVAL
      | Inl (ExecRaised e m) \<Rightarrow> record_crash env run_id tool m e)"

definition execute_tool :: "auto_env \<Rightarrow> tool_call \<Rightarrow> (auto_world, tool_run_row) act" where
  "execute_tool env c =
     act_bind (find_tool (tc_tool c)) (\<lambda>row.
     act_bind (call_identifier env (tc_invocation c)) (\<lambda>call.
     act_bind (wd_now (ae_sys env)) (\<lambda>requested.
     act_bind (act_lift (make_invocation \<lparr>ti_tool = tc_tool c, ti_call = call, ti_params = tc_params c,
       ti_requested = requested, ti_timeout = Some (Finite 30)\<rparr>)) (\<lambda>iv.
     act_bind (act_lift (make_context \<lparr>cx_workspace = tc_workspace c, cx_actor = tc_actor c, cx_correlation = tc_correlation c,
       cx_causation = tc_causation c, cx_trace = tc_trace c, cx_session = None, cx_env = [], cx_approved = tc_approved c\<rparr>)) (\<lambda>ctx.
     act_bind (wd_uuid (ae_sys env)) (\<lambda>run_id.
     act_bind (wd_now (ae_sys env)) (\<lambda>now.
     act_bind (start_run env (pending_run (ae_render env) c row run_id (ti_call iv) now)) (\<lambda>_.
     act_bind (wd_now (ae_sys env)) (\<lambda>started.
     act_bind (run_executor env iv ctx) (\<lambda>out. settle_run env run_id (tc_tool c) started out))))))))))"

definition get_run :: "string \<Rightarrow> (auto_world, tool_run_row) act" where
  "get_run i = in_tx (act_bind (get_run_row i) (\<lambda>r. act_some r AUTO_NOT_FOUND))"

definition get_run_by_invocation :: "string \<Rightarrow> (auto_world, tool_run_row) act" where
  "get_run_by_invocation c = in_tx (act_bind (get_run_row_by_invocation c) (\<lambda>r. act_some r AUTO_NOT_FOUND))"

definition list_runs :: "string option \<Rightarrow> string option \<Rightarrow> nat \<Rightarrow> (auto_world, tool_run_row list) act" where
  "list_runs tool status n = in_tx (list_run_rows tool status n)"

section \<open>Built-in tools\<close>

text \<open>A definition with the defaults of the class.\<close>

definition simple_tool ::
  "string \<Rightarrow> string \<Rightarrow> tool_risk \<Rightarrow> string \<Rightarrow> runtime_type \<Rightarrow> string \<Rightarrow> string \<Rightarrow> tool_definition" where
  "simple_tool name description risk capability runtime side_effect sandbox =
     \<lparr>td_name = name, td_description = description, td_version = ''1.0.0'', td_risk = risk, td_capability = capability,
      td_runtime = runtime, td_side_effect = side_effect, td_idempotent = True, td_destructive = False, td_reversible = True,
      td_timeout = Finite 30, td_permissions = [], td_sandbox = sandbox, td_artifacts = [], td_retry = True,
      td_redaction = ''secrets_only'', td_parameters = [], td_outputs = [], td_enabled = True\<rparr>"

definition object_schema :: "string list \<Rightarrow> (pyobj \<times> pyobj) list" where
  "object_schema ns =
     [text_field ''type'' ''object'',
      (PStr ''properties'', PMap False (map (\<lambda>n. (PStr n, PMap False [text_field ''type'' ''string''])) ns)),
      (PStr ''required'', PList (map PStr ns))]"

definition builtin_catalog :: "tool_definition list" where
  "builtin_catalog =
     [(simple_tool ''read_file'' ''Reads text content from a file safely within workspace sandbox.'' READ_ONLY ''filesystem''
         IN_PROCESS ''none'' ''path_sandbox'')\<lparr>td_parameters := object_schema [''file_path'']\<rparr>,
      (simple_tool ''write_file'' ''Writes text content atomically to a file within workspace sandbox.'' WORKSPACE_WRITE ''filesystem''
         IN_PROCESS ''filesystem'' ''path_sandbox'')\<lparr>td_permissions := [''workspace_write''],
           td_parameters := object_schema [''file_path'', ''content'']\<rparr>,
      (simple_tool ''exec_shell'' ''Executes a shell command safely within workspace root with policy enforcement.'' PROCESS_EXECUTION
         ''shell'' SUBPROCESS ''process'' ''subprocess_sandbox'')\<lparr>td_idempotent := False, td_destructive := True,
           td_reversible := False, td_permissions := [''process_execution'']\<rparr>,
      simple_tool ''code_search'' ''Search code via grep over workspace.'' READ_ONLY ''code'' IN_PROCESS ''none'' ''none'',
      simple_tool ''git'' ''Git operations scoped to workspace.'' WORKSPACE_WRITE ''vcs'' SUBPROCESS ''process'' ''subprocess_sandbox'',
      simple_tool ''ast_symbol'' ''AST symbol extraction.'' READ_ONLY ''code'' IN_PROCESS ''none'' ''none'',
      simple_tool ''lsp'' ''Language server diagnostics.'' READ_ONLY ''code'' IN_PROCESS ''none'' ''none'',
      simple_tool ''test_runner'' ''Run test suites.'' PROCESS_EXECUTION ''testing'' SUBPROCESS ''process'' ''subprocess_sandbox'',
      simple_tool ''open_url'' ''Open URL in browser.'' EXTERNAL_NETWORK ''browser'' BROWSER ''network'' ''browser_sandbox'',
      simple_tool ''click_xy'' ''Click at x,y in browser.'' EXTERNAL_NETWORK ''browser'' BROWSER ''network'' ''browser_sandbox'',
      simple_tool ''database_query'' ''Read-only database query.'' SECRET_ACCESS ''database'' IN_PROCESS ''database'' ''none'',
      simple_tool ''github'' ''GitHub API interaction.'' EXTERNAL_NETWORK ''external'' REMOTE ''network'' ''none'',
      simple_tool ''mcp_call'' ''Model Context Protocol tool invocation.'' EXTERNAL_NETWORK ''mcp'' MCP ''network'' ''none'',
      simple_tool ''desktop_capture'' ''Desktop native capture (IPC).'' PRIVILEGED ''desktop'' DESKTOP ''process'' ''none'',
      simple_tool ''container_exec'' ''Execute in isolated container.'' PROCESS_EXECUTION ''container'' CONTAINER ''process'' ''none'',
      simple_tool ''remote_invoke'' ''Invoke remote tool endpoint.'' EXTERNAL_NETWORK ''remote'' REMOTE ''network'' ''none'']"

text \<open>One tool of the catalogue: register it, or fetch what is registered under its name; or nothing.\<close>

definition register_builtin :: "auto_env \<Rightarrow> tool_definition \<Rightarrow> (auto_world, tool_row list) act" where
  "register_builtin env d =
     act_catch (act_bind (register_tool env d) (\<lambda>v. act_return [v]))
       (\<lambda>_. act_catch (act_bind (get_tool_by_name (td_name d)) (\<lambda>v. act_return [v])) (\<lambda>_. act_return []))"

fun register_each :: "auto_env \<Rightarrow> tool_definition list \<Rightarrow> (auto_world, tool_row list) act" where
  "register_each env [] = act_return []"
| "register_each env (d # ds) =
     act_bind (register_builtin env d) (\<lambda>v. act_bind (register_each env ds) (\<lambda>vs. act_return (v @ vs)))"

definition register_builtin_tools :: "auto_env \<Rightarrow> (auto_world, tool_row list) act" where
  "register_builtin_tools env = register_each env builtin_catalog"

text \<open>\<^verbatim>\<open>RegisterToolHandler\<close>: the request's texts are required, then the definition is made and registered.\<close>

record register_request =
  rg_definition :: tool_definition
  rg_risk :: string
  rg_runtime :: string

definition require_request_text :: "string \<Rightarrow> exn + string" where
  "require_request_text v = (if py_strip v = [] then Inl AUTO_VALIDATION else Inr (py_strip v))"

definition handle_register_tool :: "auto_env \<Rightarrow> register_request \<Rightarrow> (auto_world, tool_row) act" where
  "handle_register_tool env q =
     (let d = rg_definition q in
      case risk_of (rg_risk q) of Inl _ \<Rightarrow> act_raise AUTO_VALIDATION
      | Inr risk \<Rightarrow> (case runtime_of (rg_runtime q) of Inl _ \<Rightarrow> act_raise AUTO_VALIDATION
      | Inr runtime \<Rightarrow>
          act_bind (act_lift (require_request_text (td_name d))) (\<lambda>name.
          act_bind (act_lift (require_request_text (td_description d))) (\<lambda>description.
          act_bind (act_lift (require_request_text (td_version d))) (\<lambda>version.
          act_bind (act_lift (require_request_text (td_capability d))) (\<lambda>capability.
          act_bind (act_lift (make_definition (d\<lparr>td_name := name, td_description := description, td_version := version,
            td_capability := capability, td_risk := risk, td_runtime := runtime\<rparr>))) (\<lambda>made. register_tool env made)))))))"

definition handle_update_tool :: "auto_env \<Rightarrow> string \<Rightarrow> tool_patch \<Rightarrow> int option \<Rightarrow> (auto_world, tool_row) act" where
  "handle_update_tool env i p expected =
     act_bind (act_lift (require_request_text i)) (\<lambda>i. update_tool env i p expected)"

definition handle_deregister_tool :: "auto_env \<Rightarrow> string \<Rightarrow> (auto_world, unit) act" where
  "handle_deregister_tool env i = act_bind (act_lift (require_request_text i)) (\<lambda>i. deregister_tool env i)"

definition handle_execute_tool :: "auto_env \<Rightarrow> tool_call \<Rightarrow> (auto_world, tool_run_row) act" where
  "handle_execute_tool env c =
     act_bind (act_lift (require_request_text (tc_tool c))) (\<lambda>tool. execute_tool env (c\<lparr>tc_tool := tool\<rparr>))"

text \<open>\<^verbatim>\<open>GetCapabilitiesHandler\<close>: the names of the tools in the table by capability, both sorted.\<close>

definition capabilities_of :: "tool_row list \<Rightarrow> (string \<times> string list) list" where
  "capabilities_of rows =
     map (\<lambda>cap. (cap, sort (map tl_name (filter (\<lambda>r. tl_capability r = cap) rows)))) (sort (remdups (map tl_capability rows)))"

definition get_capabilities :: "(auto_world, (string \<times> string list) list) act" where
  "get_capabilities = act_bind (list_tools None None False) (\<lambda>rows. act_return (capabilities_of rows))"

end
