(* ===== verification/Automation_Invariant.thy ===== *)
theory Automation_Invariant
  imports Automation_Service
begin

text \<open>
  The consistency of the automation module: keys are unique, stored enumerations are readable, a run is completed
  exactly when its status is final, the in-memory registry and its index agree, and the outbox is in order. Every
  statement, scope and command keeps it.
\<close>

section \<open>The invariant\<close>

definition tool_row_ok :: "tool_row \<Rightarrow> bool" where
  "tool_row_ok r \<longleftrightarrow> \<not> isl (risk_of (tl_risk r)) \<and> \<not> isl (runtime_of (tl_runtime r))"

definition final_statuses :: "string list" where
  "final_statuses = [''succeeded'', ''failed'', ''denied'', ''approval_required'']"

definition run_ok :: "tool_run_row \<Rightarrow> bool" where
  "run_ok r \<longleftrightarrow> tn_status r = ''pending'' \<and> tn_completed r = None \<or> tn_status r \<in> set final_statuses \<and> tn_completed r \<noteq> None"

definition auto_sound :: "auto_side \<Rightarrow> auto_db \<Rightarrow> bool" where
  "auto_sound x db \<longleftrightarrow> registry_ok (as_registry x)
     \<and> distinct (map tl_id (tb_tools db)) \<and> distinct (map tl_name (tb_tools db)) \<and> list_all tool_row_ok (tb_tools db)
     \<and> distinct (map tn_id (tb_runs db)) \<and> list_all run_ok (tb_runs db) \<and> outbox_inv (tb_outbox db)"

abbreviation tx_sound :: "auto_tx \<Rightarrow> bool" where "tx_sound \<equiv> tx_ok auto_sound"
abbreviation auto_ok :: "auto_world \<Rightarrow> bool" where "auto_ok \<equiv> wd_ok auto_sound"

definition empty_auto_db :: auto_db where
  "empty_auto_db = \<lparr>tb_tools = [], tb_runs = [], tb_outbox = empty_outbox\<rparr>"

definition fresh_world :: "auto_db \<Rightarrow> files \<Rightarrow> auto_world" where
  "fresh_world db fs = \<lparr>wd_db = db, wd_side = \<lparr>as_registry = empty_registry, as_files = fs\<rparr>, wd_tick = 0\<rparr>"

lemma fresh_world_ok: "auto_ok (fresh_world empty_auto_db fs)"
  by (simp add: fresh_world_def wd_ok_def auto_sound_def empty_auto_db_def registry_ok_empty outbox_inv_empty)

section \<open>Statements\<close>

lemma keeps_checked: "(b \<Longrightarrow> keeps I (f ())) \<Longrightarrow> keeps I (act_bind (act_check_that b e) f)"
  by (cases b) (simp_all add: act_check_that_def bind_return bind_raise keeps_raise)

lemma keeps_lifted: "(\<And>x. r = Inr x \<Longrightarrow> keeps I (f x)) \<Longrightarrow> keeps I (act_bind (act_lift r) f)"
  by (cases r) (simp_all add: act_lift_def bind_return bind_raise keeps_raise)

lemma keeps_auto_event [kp]: "keeps tx_sound (auto_record_event env e)"
  unfolding auto_record_event_def
  by (rule keeps_tx_event) (simp_all add: auto_sound_def put_events_def)

lemma keeps_auto_reads [kp]:
  "keeps tx_sound (get_tool_row i)" "keeps tx_sound (get_tool_row_by_name n)" "keeps tx_sound (list_tool_rows c r b)"
  "keeps tx_sound (get_run_row i)" "keeps tx_sound (get_run_row_by_invocation v)" "keeps tx_sound (list_run_rows t st k)"
  unfolding get_tool_row_def get_tool_row_by_name_def list_tool_rows_def get_run_row_def get_run_row_by_invocation_def
    list_run_rows_def
  by (rule keeps_tx_query)+

lemma absent_key: "find (\<lambda>r. key r = k) rows = None \<Longrightarrow> k \<notin> key ` set rows"
  by (auto dest: find_NoneD)

lemma keeps_insert_tool:
  assumes "tool_row_ok row" shows "keeps tx_sound (insert_tool row)"
proof (rule keeps_pure)
  fix s assume s: "tx_sound s"
  let ?i = "find (\<lambda>r. tl_id r = tl_id row) (tb_tools (tx_db s))" and ?n = "find (\<lambda>r. tl_name r = tl_name row) (tb_tools (tx_db s))"
  show "tx_sound (snd (insert_tool row s))"
  proof (cases "?i = None \<and> ?n = None")
    case True
    then have "tl_id row \<notin> tl_id ` set (tb_tools (tx_db s))" "tl_name row \<notin> tl_name ` set (tb_tools (tx_db s))"
      using absent_key by fast+
    with s assms True show ?thesis
      by (simp add: insert_tool_def get_tool_row_def get_tool_row_by_name_def tx_query_def act_bind_def tx_modify_def
        act_return_def tx_ok_def auto_sound_def put_tools_def)
  next
    case False
    with s show ?thesis
      by (auto simp: insert_tool_def get_tool_row_def get_tool_row_by_name_def tx_query_def act_bind_def act_return_def)
  qed
qed

lemma keeps_insert_run:
  assumes "run_ok row" shows "keeps tx_sound (insert_run row)"
proof (rule keeps_pure)
  fix s assume s: "tx_sound s"
  show "tx_sound (snd (insert_run row s))"
  proof (cases "find (\<lambda>r. tn_id r = tn_id row) (tb_runs (tx_db s))")
    case None
    with s assms absent_key [OF None] show ?thesis
      by (simp add: insert_run_def get_run_row_def tx_query_def act_bind_def tx_modify_def act_return_def tx_ok_def
        auto_sound_def put_runs_def)
  next
    case (Some r)
    with s show ?thesis by (simp add: insert_run_def get_run_row_def tx_query_def act_bind_def act_return_def)
  qed
qed

lemma list_all_update: "list_all P rs \<Longrightarrow> (\<And>r. P r \<Longrightarrow> p r \<Longrightarrow> P (f r)) \<Longrightarrow> list_all P (sql_update p f rs)"
  by (induction rs) auto

definition patch_ok :: "tool_patch \<Rightarrow> bool" where
  "patch_ok p \<longleftrightarrow> (case pt_runtime p of None \<Rightarrow> True | Some v \<Rightarrow> \<not> isl (runtime_of v))
     \<and> (case pt_risk p of None \<Rightarrow> True | Some v \<Rightarrow> \<not> isl (risk_of v))"

lemma patched_ok: "patch_ok p \<Longrightarrow> tool_row_ok r \<Longrightarrow> tool_row_ok (patched p now opt r)"
  by (auto simp: patch_ok_def tool_row_ok_def patched_def given_def split: option.splits)

lemma patched_keys [simp]: "tl_id (patched p now opt r) = tl_id r" "tl_name (patched p now opt r) = tl_name r"
  by (simp_all add: patched_def)

lemma keeps_update_tool_row:
  assumes "patch_ok p" shows "keeps tx_sound (update_tool_row env i p opt expected)"
  unfolding update_tool_row_def Let_def
  by (intro kp keeps_tx_modify)
    (auto simp: auto_sound_def put_tools_def map_sql_update intro!: list_all_update patched_ok assms)

lemma keeps_delete_tool_row [kp]: "keeps tx_sound (delete_tool_row i)"
  unfolding delete_tool_row_def
  by (intro kp keeps_tx_modify) (auto simp: auto_sound_def put_tools_def distinct_map_filter list_all_iff)

lemma run_patched_ok: "status \<in> set final_statuses \<Longrightarrow> run_ok (run_patched status res err ms t r)"
  by (simp add: run_ok_def run_patched_def)

lemma run_patched_id [simp]: "tn_id (run_patched status res err ms t r) = tn_id r"
  by (simp add: run_patched_def)

lemma keeps_update_run_row:
  assumes "status \<in> set final_statuses" shows "keeps tx_sound (update_run_row i status res err ms t)"
  unfolding update_run_row_def
  by (intro kp keeps_tx_modify)
    (auto simp: auto_sound_def put_runs_def map_sql_update intro!: list_all_update run_patched_ok assms)

lemma keeps_set_run_decision [kp]: "keeps tx_sound (set_run_decision i dec)"
  unfolding set_run_decision_def
  by (intro keeps_tx_modify) (auto simp: auto_sound_def put_runs_def map_sql_update run_ok_def intro!: list_all_update)

section \<open>The registry in memory\<close>

lemma sound_swallow: "definition_ok d \<Longrightarrow> auto_sound x db \<Longrightarrow> auto_sound (snd (swallow_register d b x)) db"
  by (auto simp: swallow_register_def auto_sound_def intro: registry_ok_register split: sum.splits)

lemma row_definition_ok: "row_to_definition r = Inr d \<Longrightarrow> definition_ok d"
  by (auto simp: row_to_definition_def intro: make_definition_ok split: sum.splits)

lemma sound_reflect: "auto_sound x db \<Longrightarrow> auto_sound (snd (reflect_row r x)) db"
  by (auto simp: reflect_row_def intro: sound_swallow row_definition_ok split: sum.splits)

lemma sound_hydrate: "auto_sound x db \<Longrightarrow> auto_sound (snd (hydrate r x)) db"
  by (auto simp: hydrate_def intro: sound_swallow row_definition_ok split: sum.splits)

lemma sound_forget: "auto_sound x db \<Longrightarrow> auto_sound (snd (forget_tool n x)) db"
  by (simp add: forget_tool_def auto_sound_def registry_ok_remove)

lemma definition_row_ok: "definition_to_row render now i d = Inr r \<Longrightarrow> tool_row_ok r"
  by (auto simp: definition_to_row_def tool_row_ok_def split: sum.splits)

section \<open>Commands\<close>

lemma keeps_register_tool:
  assumes "definition_ok d" shows "keeps auto_ok (register_tool env d)"
proof -
  have "keeps tx_sound (register_rows env d)"
    unfolding register_rows_def
    by (intro keeps_bind [of _ "get_tool_row_by_name _"] keeps_bind [of _ "act_check_that _ _"] keeps_bind [of _ "tx_uuid _"]
        keeps_bind [of _ "tx_now _"] keeps_lifted keeps_bind [of _ "insert_tool _"] kp keeps_insert_tool keeps_outside(1)
        definition_row_ok sound_swallow assms) (assumption | rule definition_row_ok)+
  then show ?thesis unfolding register_tool_def by (intro kp)
qed

lemma keeps_update_tool: "keeps auto_ok (update_tool env i p expected)"
proof -
  have "keeps tx_sound (update_rows env i p expected)"
    unfolding update_rows_def
    by (intro keeps_bind [of _ "get_tool_row _"] keeps_bind [of _ "act_some _ _"] keeps_checked
        keeps_bind [of _ "update_tool_row _ _ _ _ _"] keeps_bind [of _ "tx_outside _"] keeps_update_tool_row keeps_outside(1)
        sound_reflect kp) (simp add: patch_ok_def)
  then show ?thesis unfolding update_tool_def by (rule keeps_in_tx)
qed

lemma keeps_deregister_tool: "keeps auto_ok (deregister_tool env i)"
  unfolding deregister_tool_def deregister_rows_def by (intro kp keeps_outside(1) sound_forget)

lemma keeps_auto_queries [kp]:
  "keeps auto_ok (get_tool i)" "keeps auto_ok (get_tool_by_name n)" "keeps auto_ok (list_tools c r b)"
  "keeps auto_ok (get_run i)" "keeps auto_ok (get_run_by_invocation v)" "keeps auto_ok (list_runs t st k)"
  "keeps auto_ok (fetch_run i)"
  unfolding get_tool_def get_tool_by_name_def list_tools_def get_run_def get_run_by_invocation_def list_runs_def fetch_run_def
  by (intro kp)+

lemma keeps_find_tool [kp]: "keeps auto_ok (find_tool n)"
  unfolding find_tool_def by (intro kp keeps_outside(1) sound_hydrate)

lemma keeps_start_run: "run_ok row \<Longrightarrow> keeps auto_ok (start_run env row)"
  unfolding start_run_def by (intro kp keeps_insert_run)

lemma keeps_run_executor [kp]: "keeps auto_ok (run_executor env iv ctx)"
proof (rule keeps_pure)
  fix w assume "auto_ok w"
  then show "auto_ok (snd (run_executor env iv ctx w))"
    using execute_registry_ok [of "wd_side w"] by (auto simp: run_executor_def wd_ok_def auto_sound_def split: prod.splits)
      (metis snd_conv)
qed

lemma keeps_store_outcome [kp]: "keeps auto_ok (store_outcome env i tool res p ms t)"
  unfolding store_outcome_def by (intro kp keeps_update_run_row) (simp add: final_statuses_def)

lemma keeps_conclude [kp]: "keeps auto_ok (conclude_run env i tool started res p)"
  unfolding conclude_run_def by (intro kp)

lemma keeps_record_denial [kp]:
  "status \<in> set final_statuses \<Longrightarrow> keeps auto_ok (record_denial env i tool status eff m pol e)"
  unfolding record_denial_def by (intro kp keeps_update_run_row)

lemma keeps_record_crash [kp]: "keeps auto_ok (record_crash env i tool m e)"
  unfolding record_crash_def by (intro kp keeps_update_run_row) (simp add: final_statuses_def)

lemma keeps_settle [kp]: "keeps auto_ok (settle_run env i tool started out)"
proof (cases out)
  case (Inl f)
  then show ?thesis
    by (cases f) (auto simp: settle_run_def final_statuses_def intro!: keeps_record_denial keeps_record_crash)
next
  case (Inr r)
  then show ?thesis by (cases r) (auto simp: settle_run_def intro!: keeps_catch keeps_conclude keeps_record_crash)
qed

lemma keeps_call_identifier [kp]: "keeps auto_ok (call_identifier env v)"
  unfolding call_identifier_def by (intro kp)

lemma pending_ok: "run_ok (pending_run render c row i call now)"
  by (simp add: run_ok_def pending_run_def)

lemma keeps_execute_tool [kp]: "keeps auto_ok (execute_tool env c)"
  unfolding execute_tool_def by (intro kp keeps_start_run pending_ok)

lemma keeps_register_builtin: "definition_ok d \<Longrightarrow> keeps auto_ok (register_builtin env d)"
  unfolding register_builtin_def by (intro kp keeps_register_tool)

lemma keeps_register_each: "\<forall>d \<in> set ds. definition_ok d \<Longrightarrow> keeps auto_ok (register_each env ds)"
  by (induction ds) (auto intro!: kp keeps_register_builtin)

lemma stripped_plain: "s \<noteq> [] \<Longrightarrow> \<not> py_space (hd s) \<Longrightarrow> \<not> py_space (last s) \<Longrightarrow> stripped s"
  by (simp add: stripped_def py_strip_id)

lemma simple_tool_ok:
  "definition_ok (simple_tool n t r c rt se sb) \<longleftrightarrow>
     stripped n \<and> stripped t \<and> stripped c \<and> se \<in> set side_effect_classes \<and> sb \<in> set sandbox_requirements"
  by (auto simp: definition_ok_def simple_tool_def not_positive_def stripped_plain py_space_def)

lemma more_definition_ok:
  "definition_ok (d\<lparr>td_parameters := fs\<rparr>) = definition_ok d"
  "definition_ok (d\<lparr>td_idempotent := b1\<rparr>) = definition_ok d" "definition_ok (d\<lparr>td_destructive := b1\<rparr>) = definition_ok d"
  "definition_ok (d\<lparr>td_reversible := b1\<rparr>) = definition_ok d"
  "td_permissions d = [] \<Longrightarrow> definition_ok (d\<lparr>td_permissions := [p]\<rparr>) \<longleftrightarrow> definition_ok d \<and> py_strip p \<noteq> []"
  by (auto simp: definition_ok_def)

lemma builtin_catalog_ok: "\<forall>d \<in> set builtin_catalog. definition_ok d"
  unfolding builtin_catalog_def
  by (simp add: simple_tool_ok more_definition_ok stripped_plain py_strip_id py_space_def side_effect_classes_def
    sandbox_requirements_def)
    (simp add: simple_tool_def definition_ok_def stripped_plain py_strip_id py_space_def side_effect_classes_def
      sandbox_requirements_def not_positive_def)

lemma keeps_register_builtin_tools: "keeps auto_ok (register_builtin_tools env)"
  unfolding register_builtin_tools_def by (rule keeps_register_each [OF builtin_catalog_ok])

lemma keeps_handle_register: "keeps auto_ok (handle_register_tool env q)"
  unfolding handle_register_tool_def Let_def
  by (intro keeps_sum keeps_raise keeps_lifted keeps_register_tool) (rule make_definition_ok)

lemma keeps_handlers:
  "keeps auto_ok (handle_update_tool env i p expected)" "keeps auto_ok (handle_deregister_tool env i)"
  "keeps auto_ok (handle_execute_tool env c)" "keeps auto_ok get_capabilities"
  unfolding handle_update_tool_def handle_deregister_tool_def handle_execute_tool_def get_capabilities_def
  by (intro kp keeps_update_tool keeps_deregister_tool)+

end
