(* ===== verification/Automation_Outcomes.thy ===== *)
theory Automation_Outcomes
  imports Automation_Invariant
begin

text \<open>
  What an execution leaves behind. The events of the module can always be made, so recording one fails only on a key
  of the outbox; each scope of \<open>execute_tool\<close> either leaves the runs alone or changes them in one known way.
\<close>

section \<open>Events\<close>

lemma fold_max_ge: "x \<le> fold max ys (x :: int)"
proof (induction ys arbitrary: x)
  case (Cons y ys)
  have "x \<le> max y x" by simp
  also have "\<dots> \<le> fold max ys (max y x)" by (rule Cons.IH)
  finally show ?case by simp
qed simp

lemma event_sequences:
  assumes "outbox_inv db" and "e \<in> set (db_events db)" shows "0 \<le> ev_sequence e"
proof -
  from assms have "e \<in> set (map row_event (db_outbox db))" by (simp add: outbox_inv_def)
  then obtain r where r: "r \<in> set (db_outbox db)" "row_event r = e" by auto
  with assms(1) have "row_ok r" by (simp add: outbox_inv_def list_all_iff)
  then obtain w where "to_envelope r = Inr w" by (auto simp: row_ok_def split: sum.splits)
  then have "0 \<le> ev_sequence (row_event r)" by (simp add: to_envelope_def make_envelope_Inr)
  with r show ?thesis by simp
qed

lemma next_sequence_nonneg:
  assumes "outbox_inv db" shows "0 \<le> next_sequence agg i db"
proof (cases "stream agg i (db_events db)")
  case Nil
  then show ?thesis by (simp add: next_sequence_def)
next
  case (Cons s ss)
  then have "s \<in> set (stream agg i (db_events db))" by simp
  then have "0 \<le> s" using event_sequences [OF assms] by (auto simp: stream_def)
  with fold_max_ge [of s ss] Cons show ?thesis by (simp add: next_sequence_def)
qed

definition plain_event :: "event_envelope \<Rightarrow> bool" where
  "plain_event e \<longleftrightarrow> py_strip (ev_type e) \<noteq> [] \<and> py_strip (ev_aggregate_type e) \<noteq> [] \<and> 0 \<le> ev_sequence e \<and> 1 \<le> ev_version e
     \<and> (\<exists>ro fs. ev_payload e = PMap ro fs) \<and> json_compatible (ev_payload e)"

lemma plain_event_made:
  assumes "plain_event e" shows "\<exists>w. make_envelope e = Inr w \<and> plain_event w"
proof -
  from assms obtain ro fs where p: "ev_payload e = PMap ro fs" by (auto simp: plain_event_def)
  with assms have "json_compatible (PMap ro fs)" by (simp add: plain_event_def)
  then have "\<not> isl (freeze_json (PMap ro fs))" using freeze_accepts(1) by blast
  then obtain c where c: "freeze_json (PMap ro fs) = Inr c" by (metis sum.collapse(2))
  let ?w = "e\<lparr>ev_type := py_strip (ev_type e), ev_aggregate_type := py_strip (ev_aggregate_type e), ev_payload := c\<rparr>"
  have "make_envelope e = Inr ?w" using assms p c by (auto simp: make_envelope_Inr plain_event_def)
  moreover have "\<not> isl (freeze_json c)" using freeze_of_frozen(1) [OF freeze_frozen(1) [OF c]] by simp
  then have "json_compatible c" using freeze_accepts(1) by blast
  with assms freeze_PMap_shape [OF c] have "plain_event ?w" by (auto simp: plain_event_def)
  ultimately show ?thesis by blast
qed

lemma plain_event_renumber: "plain_event e \<Longrightarrow> 0 \<le> n \<Longrightarrow> plain_event (e\<lparr>ev_sequence := n\<rparr>)"
  by (simp add: plain_event_def)

lemma record_next_plain:
  assumes "plain_event e" and "outbox_inv db" and "record_next no_hook now rid e None db = Inl x"
  shows "\<exists>t. x = IntegrityError t"
proof -
  have "plain_event (e\<lparr>ev_sequence := next_sequence (ev_aggregate_type e) (ev_aggregate_id e) db\<rparr>)"
    using assms(1,2) by (intro plain_event_renumber next_sequence_nonneg)
  then obtain w where "make_envelope (e\<lparr>ev_sequence := next_sequence (ev_aggregate_type e) (ev_aggregate_id e) db\<rparr>) = Inr w"
    using plain_event_made by blast
  with assms(3) show ?thesis
    by (auto simp: record_next_def outbox_record_def checkpoint_def no_hook_def Let_def split: if_splits)
qed

lemma auto_event_plain:
  "py_strip ty \<noteq> [] \<Longrightarrow> py_strip agg \<noteq> [] \<Longrightarrow> 0 \<le> n \<Longrightarrow> json_compatible (PMap False fs) \<Longrightarrow> plain_event (auto_event ty agg i n fs)"
  by (auto simp: plain_event_def auto_event_def)

lemma run_events_plain:
  "plain_event (tool_invoked i tool call)" "plain_event (tool_succeeded i tool ms)" "plain_event (tool_failed i tool err)"
  "plain_event (tool_denied i tool reason)"
  unfolding tool_invoked_def tool_succeeded_def tool_failed_def tool_denied_def run_event_def
  by (rule auto_event_plain; simp add: py_strip_id py_space_def text_field_def)+

section \<open>What a scope does to the runs\<close>

text \<open>The assertion inside: the runs of the working copy, with the committed tables and the outside as they were.\<close>

definition runs_at :: "auto_world \<Rightarrow> tool_run_row list \<Rightarrow> auto_tx \<Rightarrow> bool" where
  "runs_at w rs s \<longleftrightarrow> tx_sound s \<and> tb_runs (tx_db s) = rs \<and> tx_stored s = wd_db w \<and> tx_side s = wd_side w"

lemma runs_query: "act_bind (tx_query f) g s = g (f (tx_db s)) s"
  by (simp add: act_bind_def tx_query_def)

lemma event_then_commit:
  assumes "runs_at w rs s" and "plain_event e"
  shows "\<exists>out s'. act_bind (auto_record_event env e) (\<lambda>_. tx_commit) s = (out, s') \<and> tx_side s' = wd_side w
    \<and> (case out of Inl x \<Rightarrow> (\<exists>t. x = IntegrityError t) \<and> tx_stored s' = wd_db w | Inr _ \<Rightarrow> tb_runs (tx_stored s') = rs)"
proof -
  have inv: "outbox_inv (tb_outbox (tx_db s))" using assms(1) by (simp add: runs_at_def tx_ok_def auto_sound_def)
  let ?e1 = "e\<lparr>ev_id := en_uuid env (tx_tick s), ev_occurred_at := en_now env (Suc (tx_tick s))\<rparr>"
  have "plain_event ?e1" using assms(2) by (simp add: plain_event_def)
  then obtain e2 where e2: "make_envelope ?e1 = Inr e2" "plain_event e2" using plain_event_made by blast
  let ?r = "record_next no_hook (en_now env (Suc (Suc (tx_tick s)))) (en_uuid env (Suc (Suc (Suc (tx_tick s))))) e2 None
     (tb_outbox (tx_db s))"
  show ?thesis
  proof (cases ?r)
    case (Inl x)
    with record_next_plain [OF e2(2) inv] assms(1) e2(1) show ?thesis
      by (auto simp: auto_record_event_def tx_record_event_def act_bind_def tx_uuid_def tx_now_def tx_query_def act_lift_def
        act_return_def act_raise_def runs_at_def)
  next
    case (Inr p)
    with assms(1) e2(1) show ?thesis
      by (cases p) (auto simp: auto_record_event_def tx_record_event_def act_bind_def tx_uuid_def tx_now_def tx_query_def
        act_lift_def act_return_def tx_modify_def tx_commit_def put_events_def runs_at_def)
  qed
qed

text \<open>A scope that ends like this leaves its runs behind, or everything as it was.\<close>

definition scope_left :: "auto_world \<Rightarrow> tool_run_row list \<Rightarrow> exn + 'a \<Rightarrow> auto_world \<Rightarrow> bool" where
  "scope_left w rs out w' \<longleftrightarrow> wd_side w' = wd_side w
     \<and> (case out of Inl x \<Rightarrow> (\<exists>t. x = IntegrityError t) \<and> wd_db w' = wd_db w | Inr _ \<Rightarrow> tb_runs (wd_db w') = rs)"

lemma scope_committed:
  assumes "runs_at w rs s" and "plain_event e" and "in_tx body w = (out, w')"
    and "body (tx_start w) = act_bind (auto_record_event env e) (\<lambda>_. tx_commit) s"
  shows "scope_left w rs out w'"
proof -
  from event_then_commit [OF assms(1,2), of env] obtain o1 s' where
    b: "act_bind (auto_record_event env e) (\<lambda>_. tx_commit) s = (o1, s')" and side: "tx_side s' = wd_side w"
    and c: "case o1 of Inl x \<Rightarrow> (\<exists>t. x = IntegrityError t) \<and> tx_stored s' = wd_db w | Inr _ \<Rightarrow> tb_runs (tx_stored s') = rs"
    by blast
  from assms(3,4) b have "out = o1" "w' = tx_end s'" by (simp_all add: in_tx_def)
  with side c show ?thesis by (cases o1) (auto simp: scope_left_def tx_end_def)
qed

lemma runs_at_start: "auto_ok w \<Longrightarrow> runs_at w (tb_runs (wd_db w)) (tx_start w)"
  by (simp add: runs_at_def tx_start_def tx_ok_def wd_ok_def)

lemma start_run_outcome:
  assumes "auto_ok w" and "run_ok row" and "tn_id row \<notin> tn_id ` set (tb_runs (wd_db w))" and "start_run env row w = (out, w')"
  shows "scope_left w (tb_runs (wd_db w) @ [row]) out w'"
proof -
  let ?s = "tx_start w" and ?s1 = "(tx_start w)\<lparr>tx_db := put_runs (tb_runs (wd_db w) @ [row]) (wd_db w)\<rparr>"
  have "find (\<lambda>r. tn_id r = tn_id row) (tb_runs (wd_db w)) = None"
    unfolding find_None_iff using assms(3) by (metis image_eqI)
  then have none: "find (\<lambda>r. tn_id r = tn_id row) (tb_runs (tx_db ?s)) = None" by (simp add: tx_start_def)
  then have i: "insert_run row ?s = (Inr True, ?s1)"
    by (simp add: insert_run_def get_run_row_def act_bind_def tx_query_def tx_modify_def act_return_def tx_start_def)
  have "tx_sound ?s" using runs_at_start [OF assms(1)] by (simp add: runs_at_def)
  from keeps_state [OF keeps_insert_run [OF assms(2)] this] i have "tx_sound ?s1" by simp
  then have "runs_at w (tb_runs (wd_db w) @ [row]) ?s1" by (simp add: runs_at_def put_runs_def tx_start_def)
  from scope_committed [OF this run_events_plain(1) assms(4) [unfolded start_run_def]] i show ?thesis
    by (simp add: act_bind_def)
qed

lemma update_run_at:
  assumes "runs_at w rs s" and "st \<in> set final_statuses" and "find (\<lambda>r. tn_id r = i) rs = Some r"
  shows "\<exists>s'. update_run_row i st res err ms t s = (Inr (Some (run_patched st res err ms t r)), s')
    \<and> runs_at w (sql_update (\<lambda>r. tn_id r = i) (run_patched st res err ms t) rs) s'"
proof -
  let ?f = "run_patched st res err ms t"
  let ?s' = "s\<lparr>tx_db := put_runs (sql_update (\<lambda>r. tn_id r = i) ?f rs) (tx_db s)\<rparr>"
  have rs: "tb_runs (tx_db s) = rs" and sound: "tx_sound s" using assms(1) by (simp_all add: runs_at_def)
  then have d: "distinct (map tn_id rs)" by (auto simp: tx_ok_def auto_sound_def)
  have ri: "tn_id r = i" using find_SomeD [OF assms(3)] by simp
  have "find (\<lambda>r. tn_id r = i) (sql_update (\<lambda>r. tn_id r = i) ?f rs) = Some (?f r)"
    using find_sql_update [OF d, of "\<lambda>r. tn_id r = i" ?f, OF run_patched_id assms(3)] ri by simp
  then have u: "update_run_row i st res err ms t s = (Inr (Some (?f r)), ?s')"
    using rs assms(3) by (simp add: update_run_row_def get_run_row_def act_bind_def tx_query_def tx_modify_def put_runs_def)
  from keeps_state [OF keeps_update_run_row [OF assms(2)] sound] u have "tx_sound ?s'" by (metis snd_conv)
  with assms(1) u show ?thesis by (simp add: runs_at_def put_runs_def)
qed

lemma set_decision_at:
  assumes "runs_at w rs s"
  shows "\<exists>s'. set_run_decision i dec s = (Inr (), s')
    \<and> runs_at w (sql_update (\<lambda>r. tn_id r = i) (\<lambda>r. r\<lparr>tn_decision := Some dec\<rparr>) rs) s'"
proof -
  let ?s' = "s\<lparr>tx_db := put_runs (sql_update (\<lambda>r. tn_id r = i) (\<lambda>r. r\<lparr>tn_decision := Some dec\<rparr>) rs) (tx_db s)\<rparr>"
  have u: "set_run_decision i dec s = (Inr (), ?s')" using assms by (simp add: set_run_decision_def tx_modify_def runs_at_def)
  have "tx_sound s" using assms by (simp add: runs_at_def)
  from keeps_state [OF keeps_set_run_decision this] u have "tx_sound ?s'" by (metis snd_conv)
  with assms u show ?thesis by (simp add: runs_at_def put_runs_def)
qed

lemma sql_update_twice:
  "(\<And>r. p r \<Longrightarrow> p (g r)) \<Longrightarrow> sql_update p f (sql_update p g rs) = sql_update p (\<lambda>r. f (g r)) rs"
  by (induction rs) auto

section \<open>The scopes that finish a run\<close>

definition finishes :: "string \<Rightarrow> (tool_run_row \<Rightarrow> tool_run_row) \<Rightarrow> bool" where
  "finishes st g \<longleftrightarrow> (\<forall>r. tn_id (g r) = tn_id r \<and> tn_tool (g r) = tn_tool r \<and> tn_status (g r) = st \<and> tn_completed (g r) \<noteq> None)"

lemma finishes_patch:
  "finishes st (run_patched st res err ms t)" "finishes st (\<lambda>r. (run_patched st res err ms t r)\<lparr>tn_decision := dec\<rparr>)"
  by (simp_all add: finishes_def run_patched_def)

definition finished :: "auto_world \<Rightarrow> string \<Rightarrow> string \<Rightarrow> exn + 'a \<Rightarrow> auto_world \<Rightarrow> bool" where
  "finished w i st out w' \<longleftrightarrow> (\<exists>g. finishes st g \<and> scope_left w (sql_update (\<lambda>r. tn_id r = i) g (tb_runs (wd_db w))) out w')"

lemma store_outcome_finished:
  assumes "auto_ok w" and "find (\<lambda>r. tn_id r = i) (tb_runs (wd_db w)) = Some r"
    and "store_outcome env i tool res p ms t w = (out, w')"
  shows "finished w i (if tr_success res then ''succeeded'' else ''failed'') out w'"
proof -
  let ?st = "if tr_success res then ''succeeded'' else ''failed''"
  let ?data = "if tr_data res = PNone then None else Some (json_column (ae_render env) (tr_data res))"
  let ?dec = "decision_payload (effect_value (pd_effect p)) (pd_reason p) (pd_policy p)"
  let ?f = "run_patched ?st ?data (tr_error res) ms t"
  have st: "?st \<in> set final_statuses" by (simp add: final_statuses_def)
  from update_run_at [OF runs_at_start [OF assms(1)] st assms(2)] obtain s1 where
    u: "update_run_row i ?st ?data (tr_error res) ms t (tx_start w) = (Inr (Some (?f r)), s1)"
    and s1: "runs_at w (sql_update (\<lambda>r. tn_id r = i) ?f (tb_runs (wd_db w))) s1" by blast
  have "distinct (map tn_id (tb_runs (wd_db w)))" using assms(1) by (simp add: wd_ok_def auto_sound_def)
  from find_sql_update [OF this, of "\<lambda>r. tn_id r = i" ?f, OF run_patched_id assms(2)] s1
  have f: "find (\<lambda>r. tn_id r = i) (tb_runs (tx_db s1)) \<noteq> None" by (simp add: runs_at_def split: if_splits)
  from set_decision_at [OF s1] obtain s2 where d: "set_run_decision i ?dec s1 = (Inr (), s2)"
    and s2: "runs_at w (sql_update (\<lambda>r. tn_id r = i) (\<lambda>r. r\<lparr>tn_decision := Some ?dec\<rparr>)
      (sql_update (\<lambda>r. tn_id r = i) ?f (tb_runs (wd_db w)))) s2" by blast
  have e: "plain_event (if tr_success res then tool_succeeded i tool ms else tool_failed i tool (tr_error res))"
    by (simp add: run_events_plain)
  from scope_committed [OF s2 e assms(3) [unfolded store_outcome_def]] u f d
  have "scope_left w (sql_update (\<lambda>r. tn_id r = i) (\<lambda>r. r\<lparr>tn_decision := Some ?dec\<rparr>)
      (sql_update (\<lambda>r. tn_id r = i) ?f (tb_runs (wd_db w)))) out w'"
    by (simp add: act_bind_def get_run_row_def tx_query_def)
  then show ?thesis unfolding finished_def by (subst (asm) sql_update_twice) (auto intro: finishes_patch)
qed

lemma fetch_run_found:
  "find (\<lambda>r. tn_id r = i) (tb_runs (wd_db w)) = Some r \<Longrightarrow> fetch_run i w = (Inr r, w)"
  by (simp add: fetch_run_def in_tx_def act_bind_def get_run_row_def tx_query_def act_some_def act_return_def tx_start_def tx_end_def)

text \<open>
  How the run ends: nothing is known of the run only when the outbox refused the event; otherwise the row has its final
  status and the call ended with \<open>res\<close> of it.
\<close>

definition run_ended ::
  "auto_world \<Rightarrow> string \<Rightarrow> string \<Rightarrow> (tool_run_row \<Rightarrow> exn + tool_run_row) \<Rightarrow> exn + tool_run_row \<Rightarrow> auto_world \<Rightarrow> bool" where
  "run_ended w i st res out w' \<longleftrightarrow> wd_side w' = wd_side w
     \<and> ((\<exists>t. out = Inl (IntegrityError t)) \<and> tb_runs (wd_db w') = tb_runs (wd_db w)
       \<or> (\<exists>g r. finishes st g \<and> find (\<lambda>r. tn_id r = i) (tb_runs (wd_db w)) = Some r
            \<and> tb_runs (wd_db w') = sql_update (\<lambda>r. tn_id r = i) g (tb_runs (wd_db w)) \<and> out = res (g r)))"

lemma auto_ok_tick: "auto_ok (w\<lparr>wd_tick := n\<rparr>) = auto_ok w"
  by (simp add: wd_ok_def)

lemma found_after:
  assumes "auto_ok w" and "finishes st g" and "find (\<lambda>r. tn_id r = i) (tb_runs (wd_db w)) = Some r"
    and "tb_runs (wd_db w1) = sql_update (\<lambda>r. tn_id r = i) g (tb_runs (wd_db w))"
  shows "fetch_run i w1 = (Inr (g r), w1)"
proof -
  have d: "distinct (map tn_id (tb_runs (wd_db w)))" using assms(1) by (simp add: wd_ok_def auto_sound_def)
  have i: "tn_id r = i" using find_SomeD [OF assms(3)] by simp
  have "find (\<lambda>r. tn_id r = i) (tb_runs (wd_db w1)) = Some (g r)"
    using find_sql_update [OF d, of "\<lambda>r. tn_id r = i" g, OF _ assms(3)] assms(2,4) i by (simp add: finishes_def)
  then show ?thesis by (rule fetch_run_found)
qed

lemma record_denial_ended:
  assumes "auto_ok w" and "find (\<lambda>r. tn_id r = i) (tb_runs (wd_db w)) = Some r" and "st \<in> set final_statuses"
    and "record_denial env i tool st eff m pol e w = (out, w')"
  shows "run_ended w i st (\<lambda>_. Inl e) out w'"
proof -
  let ?w = "w\<lparr>wd_tick := Suc (wd_tick w)\<rparr>" and ?t = "en_now (ae_sys env) (wd_tick w)"
  let ?f = "run_patched st None (Some m) 0 ?t" and ?dec = "decision_payload eff (Some m) (Some pol)"
  let ?body = "act_bind (update_run_row i st None (Some m) 0 ?t) (\<lambda>_. act_bind (set_run_decision i ?dec)
    (\<lambda>_. act_bind (auto_record_event (ae_sys env) (tool_denied i tool m)) (\<lambda>_. tx_commit)))"
  obtain o1 w1 where b: "in_tx ?body ?w = (o1, w1)" by (cases "in_tx ?body ?w")
  have ok: "auto_ok ?w" and fd: "find (\<lambda>r. tn_id r = i) (tb_runs (wd_db ?w)) = Some r"
    using assms(1,2) by (simp_all add: auto_ok_tick)
  from update_run_at [OF runs_at_start [OF ok] assms(3) fd] obtain s1 where
    u: "update_run_row i st None (Some m) 0 ?t (tx_start ?w) = (Inr (Some (?f r)), s1)"
    and s1: "runs_at ?w (sql_update (\<lambda>r. tn_id r = i) ?f (tb_runs (wd_db ?w))) s1" by blast
  from set_decision_at [OF s1] obtain s2 where d: "set_run_decision i ?dec s1 = (Inr (), s2)"
    and s2: "runs_at ?w (sql_update (\<lambda>r. tn_id r = i) (\<lambda>r. r\<lparr>tn_decision := Some ?dec\<rparr>)
      (sql_update (\<lambda>r. tn_id r = i) ?f (tb_runs (wd_db ?w)))) s2" by blast
  let ?g = "\<lambda>r. (?f r)\<lparr>tn_decision := Some ?dec\<rparr>"
  from scope_committed [OF s2 run_events_plain(4) b] u d
  have l: "scope_left ?w (sql_update (\<lambda>r. tn_id r = i) ?g (tb_runs (wd_db ?w))) o1 w1"
    by (subst (asm) sql_update_twice) (simp_all add: act_bind_def)
  have x: "record_denial env i tool st eff m pol e w =
      act_bind (\<lambda>_. (o1, w1)) (\<lambda>_. act_bind (fetch_run i) (\<lambda>_. act_raise e)) w"
    using b by (simp add: record_denial_def wd_now_def act_bind_def)
  show ?thesis
  proof (cases o1)
    case (Inl y)
    with l x assms(4) show ?thesis by (auto simp: act_bind_def run_ended_def scope_left_def)
  next
    case (Inr y)
    with l have r1: "tb_runs (wd_db w1) = sql_update (\<lambda>r. tn_id r = i) ?g (tb_runs (wd_db w))" and sd: "wd_side w1 = wd_side w"
      by (simp_all add: scope_left_def)
    from found_after [OF assms(1) finishes_patch(2) assms(2) r1] Inr x assms(4)
    have "out = Inl e" "w' = w1" by (auto simp: act_bind_def act_raise_def)
    with r1 sd assms(2) finishes_patch(2) show ?thesis unfolding run_ended_def by blast
  qed
qed

lemma record_crash_ended:
  assumes "auto_ok w" and "find (\<lambda>r. tn_id r = i) (tb_runs (wd_db w)) = Some r"
    and "record_crash env i tool m e w = (out, w')"
  shows "run_ended w i ''failed'' (\<lambda>_. Inl e) out w'"
proof -
  let ?w = "w\<lparr>wd_tick := Suc (wd_tick w)\<rparr>" and ?t = "en_now (ae_sys env) (wd_tick w)"
  let ?f = "run_patched ''failed'' None (Some m) 0 ?t"
  let ?body = "act_bind (update_run_row i ''failed'' None (Some m) 0 ?t)
    (\<lambda>_. act_bind (auto_record_event (ae_sys env) (tool_failed i tool (Some m))) (\<lambda>_. tx_commit))"
  obtain o1 w1 where b: "in_tx ?body ?w = (o1, w1)" by (cases "in_tx ?body ?w")
  have ok: "auto_ok ?w" and fd: "find (\<lambda>r. tn_id r = i) (tb_runs (wd_db ?w)) = Some r"
    using assms(1,2) by (simp_all add: auto_ok_tick)
  have st: "''failed'' \<in> set final_statuses" by (simp add: final_statuses_def)
  from update_run_at [OF runs_at_start [OF ok] st fd] obtain s1 where
    u: "update_run_row i ''failed'' None (Some m) 0 ?t (tx_start ?w) = (Inr (Some (?f r)), s1)"
    and s1: "runs_at ?w (sql_update (\<lambda>r. tn_id r = i) ?f (tb_runs (wd_db ?w))) s1" by blast
  from scope_committed [OF s1 run_events_plain(3) b] u
  have l: "scope_left ?w (sql_update (\<lambda>r. tn_id r = i) ?f (tb_runs (wd_db ?w))) o1 w1" by (simp add: act_bind_def)
  have x: "record_crash env i tool m e w = act_bind (\<lambda>_. (o1, w1)) (\<lambda>_. act_raise e) w"
    using b by (simp add: record_crash_def wd_now_def act_bind_def)
  show ?thesis
  proof (cases o1)
    case (Inl y)
    with l x assms(3) show ?thesis by (auto simp: act_bind_def run_ended_def scope_left_def)
  next
    case (Inr y)
    with l have r1: "tb_runs (wd_db w1) = sql_update (\<lambda>r. tn_id r = i) ?f (tb_runs (wd_db w))" and sd: "wd_side w1 = wd_side w"
      by (simp_all add: scope_left_def)
    from Inr x assms(3) have "out = Inl e" "w' = w1" by (simp_all add: act_bind_def act_raise_def)
    with r1 sd assms(2) finishes_patch(1) show ?thesis unfolding run_ended_def by blast
  qed
qed

lemma run_ended_db: "wd_side w1 = wd_side w \<Longrightarrow> wd_db w1 = wd_db w \<Longrightarrow> run_ended w1 i st res out w' = run_ended w i st res out w'"
  by (simp add: run_ended_def)

text \<open>Whatever the executor said, the run ends in one of the four statuses.\<close>

definition status_of :: "exec_failure + tool_result \<times> policy_decision \<Rightarrow> string" where
  "status_of out = (case out of Inl (PolicyDenied m i) \<Rightarrow> ''denied'' | Inl (ApprovalRequired m i) \<Rightarrow> ''approval_required''
     | Inl (ExecRaised e m) \<Rightarrow> ''failed'' | Inr (res, p) \<Rightarrow> if tr_success res then ''succeeded'' else ''failed'')"

lemma settle_run_ended:
  assumes "auto_ok w" and "find (\<lambda>r. tn_id r = i) (tb_runs (wd_db w)) = Some r"
    and "settle_run env i tool started x w = (out, w')"
  shows "\<exists>st res. run_ended w i st res out w' \<and> (st = status_of x \<or> st = ''failed'')
    \<and> (\<forall>r v. res r = Inr v \<longrightarrow> v = r \<and> st = status_of x \<and> \<not> isl x)
    \<and> (st = ''denied'' \<longrightarrow> (\<forall>r. res r = Inl AUTO_DENIED)) \<and> (st = ''approval_required'' \<longrightarrow> (\<forall>r. res r = Inl AUTO_APPROVAL))
    \<and> (st = ''succeeded'' \<longrightarrow> (\<forall>r. res r = Inr r))"
proof (cases x)
  case (Inl f)
  show ?thesis
  proof (cases f)
    case (PolicyDenied m j)
    with assms(3) Inl have c: "record_denial env i tool ''denied'' ''deny'' m j AUTO_DENIED w = (out, w')" by (simp add: settle_run_def)
    have "''denied'' \<in> set final_statuses" by (simp add: final_statuses_def)
    from record_denial_ended [OF assms(1,2) this c] Inl PolicyDenied show ?thesis
      by (intro exI [of _ "''denied''"] exI [of _ "\<lambda>_. Inl AUTO_DENIED"]) (simp add: status_of_def)
  next
    case (ApprovalRequired m j)
    with assms(3) Inl have c: "record_denial env i tool ''approval_required'' ''require_approval'' m j AUTO_APPROVAL w = (out, w')"
      by (simp add: settle_run_def)
    have "''approval_required'' \<in> set final_statuses" by (simp add: final_statuses_def)
    from record_denial_ended [OF assms(1,2) this c] Inl ApprovalRequired show ?thesis
      by (intro exI [of _ "''approval_required''"] exI [of _ "\<lambda>_. Inl AUTO_APPROVAL"]) (simp add: status_of_def)
  next
    case (ExecRaised e m)
    with assms(3) Inl have c: "record_crash env i tool m e w = (out, w')" by (simp add: settle_run_def)
    from record_crash_ended [OF assms(1,2) c] Inl ExecRaised show ?thesis
      by (intro exI [of _ "''failed''"] exI [of _ "\<lambda>_. Inl e"]) (simp add: status_of_def)
  qed
next
  case (Inr q)
  obtain res p where q: "q = (res, p)" by (cases q)
  obtain o1 w1 where c: "conclude_run env i tool started res p w = (o1, w1)" by (cases "conclude_run env i tool started res p w")
  let ?w = "w\<lparr>wd_tick := Suc (wd_tick w)\<rparr>" and ?t = "en_now (ae_sys env) (wd_tick w)"
  let ?st = "if tr_success res then ''succeeded'' else ''failed''"
  have crash: "run_ended w i ''failed'' (\<lambda>_. Inl e) out w'"
    if "o1 = Inl e" "wd_db w1 = wd_db w" "wd_side w1 = wd_side w" for e
  proof -
    have "record_crash env i tool (ae_text env e) e w1 = (out, w')"
      using assms(3) Inr q c that(1) by (simp add: settle_run_def act_catch_def)
    moreover have "auto_ok w1" using assms(1) that(2,3) by (simp add: wd_ok_def)
    ultimately have "run_ended w1 i ''failed'' (\<lambda>_. Inl e) out w'" using assms(2) that(2) by (intro record_crash_ended) simp_all
    with run_ended_db [OF that(3,2)] show ?thesis by simp
  qed
  have stx: "status_of x = ?st" by (simp add: status_of_def Inr q)
  show ?thesis
  proof (cases "run_ms (tr_ms res) started ?t")
    case (Inl e)
    with c have o1: "o1 = Inl e" and w1: "w1 = ?w"
      by (auto simp: conclude_run_def act_bind_def wd_now_def act_lift_def act_raise_def)
    have "run_ended w i ''failed'' (\<lambda>_. Inl e) out w'" by (rule crash [OF o1]) (simp_all add: w1)
    then show ?thesis by (intro exI [of _ "''failed''"] exI [of _ "\<lambda>_. Inl e"]) simp
  next
    case ms: (Inr ms)
    obtain o2 w2 where s: "store_outcome env i tool res p ms ?t ?w = (o2, w2)" by (cases "store_outcome env i tool res p ms ?t ?w")
    have "auto_ok ?w" "find (\<lambda>r. tn_id r = i) (tb_runs (wd_db ?w)) = Some r" using assms(1,2) by (simp_all add: auto_ok_tick)
    from store_outcome_finished [OF this s] obtain g where g: "finishes ?st g"
      and l: "scope_left ?w (sql_update (\<lambda>r. tn_id r = i) g (tb_runs (wd_db ?w))) o2 w2" by (auto simp: finished_def)
    have c2: "conclude_run env i tool started res p w = act_bind (\<lambda>_. (o2, w2)) (\<lambda>_. fetch_run i) w"
      using ms s by (simp add: conclude_run_def act_bind_def wd_now_def act_lift_def act_return_def)
    show ?thesis
    proof (cases o2)
      case (Inl e)
      with c c2 have o1: "o1 = Inl e" and w1: "w1 = w2" by (simp_all add: act_bind_def)
      have "run_ended w i ''failed'' (\<lambda>_. Inl e) out w'"
        by (rule crash [OF o1]) (use l Inl in \<open>simp_all add: w1 scope_left_def\<close>)
      then show ?thesis by (intro exI [of _ "''failed''"] exI [of _ "\<lambda>_. Inl e"]) simp
    next
      case (Inr u)
      with l have r2: "tb_runs (wd_db w2) = sql_update (\<lambda>r. tn_id r = i) g (tb_runs (wd_db w))" and sd: "wd_side w2 = wd_side w"
        by (simp_all add: scope_left_def)
      from found_after [OF assms(1) g assms(2) r2] Inr c c2 have "o1 = Inr (g r)" "w1 = w2" by (simp_all add: act_bind_def)
      with assms(3) c \<open>x = Inr q\<close> q have o: "out = Inr (g r)" "w' = w2" by (simp_all add: settle_run_def act_catch_def)
      with g r2 sd assms(2) have "run_ended w i ?st Inr out w'" unfolding run_ended_def by blast
      then show ?thesis using stx \<open>x = Inr q\<close>
        by (intro exI [of _ ?st] exI [of _ Inr]) (simp split: if_splits)
    qed
  qed
qed

section \<open>A whole call\<close>

definition same_state :: "auto_world \<Rightarrow> auto_world \<Rightarrow> bool" where
  "same_state w w' \<longleftrightarrow> wd_db w' = wd_db w \<and> wd_side w' = wd_side w"

lemma find_tool_result:
  "find_tool n w = (case find (\<lambda>r. tl_name r = n) (tb_tools (wd_db w)) of
      None \<Rightarrow> (Inl AUTO_NOT_FOUND, w)
    | Some row \<Rightarrow> (Inr row, w\<lparr>wd_side := snd (hydrate row (wd_side w))\<rparr>))"
proof -
  have h: "fst (hydrate row x) = Inr ()" for row x by (simp add: hydrate_def swallow_register_def split: sum.split)
  show ?thesis
    by (cases "find (\<lambda>r. tl_name r = n) (tb_tools (wd_db w))")
      (auto simp: find_tool_def in_tx_def act_bind_def get_tool_row_by_name_def tx_query_def act_some_def act_raise_def
        act_return_def tx_outside_def tx_start_def tx_end_def split: prod.splits sum.splits dest: arg_cong [where f = fst] simp: h)
qed

lemma hydrate_files: "as_files (snd (hydrate row x)) = as_files x"
  by (simp add: hydrate_def swallow_register_def split: sum.split)

lemma call_identifier_result: "\<exists>call w'. call_identifier env v w = (Inr call, w') \<and> same_state w w'"
  by (auto simp: call_identifier_def act_return_def act_bind_def wd_uuid_def same_state_def split: option.splits)

text \<open>A call that found its tool either stops before a run exists, or starts one and lets the executor decide.\<close>

lemma execute_tool_parts:
  assumes "find_tool (tc_tool c) w = (Inr row, w1)" and "execute_tool env c w = (out, w')"
  shows "(isl out \<and> same_state w1 w')
    \<or> (\<exists>iv ctx k now started o2 w2 w3. same_state w1 w2 \<and> ti_tool iv = py_strip (tc_tool c)
        \<and> start_run env (pending_run (ae_render env) c row (en_uuid (ae_sys env) k) (ti_call iv) now) w2 = (o2, w3)
        \<and> (case o2 of Inl e \<Rightarrow> out = Inl e \<and> w' = w3
           | Inr _ \<Rightarrow> (\<exists>w4. same_state w3 w4
               \<and> act_bind (run_executor env iv ctx) (settle_run env (en_uuid (ae_sys env) k) (tc_tool c) started) w4 = (out, w'))))"
proof -
  obtain call w2 where call: "call_identifier env (tc_invocation c) w1 = (Inr call, w2)" and s2: "same_state w1 w2"
    using call_identifier_result by blast
  let ?iv = "make_invocation \<lparr>ti_tool = tc_tool c, ti_call = call, ti_params = tc_params c,
    ti_requested = en_now (ae_sys env) (wd_tick w2), ti_timeout = Some (Finite 30)\<rparr>"
  let ?ctx = "make_context \<lparr>cx_workspace = tc_workspace c, cx_actor = tc_actor c, cx_correlation = tc_correlation c,
    cx_causation = tc_causation c, cx_trace = tc_trace c, cx_session = None, cx_env = [], cx_approved = tc_approved c\<rparr>"
  have x: "execute_tool env c w = act_bind (wd_now (ae_sys env)) (\<lambda>requested.
     act_bind (act_lift (make_invocation \<lparr>ti_tool = tc_tool c, ti_call = call, ti_params = tc_params c,
       ti_requested = requested, ti_timeout = Some (Finite 30)\<rparr>)) (\<lambda>iv.
     act_bind (act_lift ?ctx) (\<lambda>ctx. act_bind (wd_uuid (ae_sys env)) (\<lambda>run_id. act_bind (wd_now (ae_sys env)) (\<lambda>now.
     act_bind (start_run env (pending_run (ae_render env) c row run_id (ti_call iv) now)) (\<lambda>_. act_bind (wd_now (ae_sys env)) (\<lambda>started.
     act_bind (run_executor env iv ctx) (\<lambda>out. settle_run env run_id (tc_tool c) started out)))))))) w2"
    using assms(1) call by (simp add: execute_tool_def act_bind_def)
  show ?thesis
  proof (cases ?iv)
    case (Inl e)
    with x s2 assms(2) have "out = Inl e" "same_state w1 w'"
      by (auto simp: act_bind_def wd_now_def act_lift_def act_raise_def same_state_def)
    then show ?thesis by simp
  next
    case iv: (Inr iv)
    show ?thesis
    proof (cases ?ctx)
      case (Inl e)
      with iv x s2 assms(2) have "out = Inl e" "same_state w1 w'"
        by (auto simp: act_bind_def wd_now_def act_lift_def act_raise_def act_return_def same_state_def)
      then show ?thesis by simp
    next
      case ctx: (Inr ctx)
      let ?w = "w2\<lparr>wd_tick := Suc (Suc (Suc (wd_tick w2)))\<rparr>"
      let ?k = "Suc (wd_tick w2)" and ?now = "en_now (ae_sys env) (Suc (Suc (wd_tick w2)))"
      have tool: "ti_tool iv = py_strip (tc_tool c)"
        using iv by (auto simp: make_invocation_def text_simps split: sum.splits if_splits)
      obtain o2 w3 where st: "start_run env (pending_run (ae_render env) c row (en_uuid (ae_sys env) ?k) (ti_call iv) ?now) ?w = (o2, w3)"
        by (cases "start_run env (pending_run (ae_render env) c row (en_uuid (ae_sys env) ?k) (ti_call iv) ?now) ?w")
      have y: "(out, w') = act_bind (\<lambda>_. (o2, w3)) (\<lambda>_. act_bind (wd_now (ae_sys env)) (\<lambda>started.
          act_bind (run_executor env iv ctx) (\<lambda>out. settle_run env (en_uuid (ae_sys env) ?k) (tc_tool c) started out))) ?w"
        using assms(2) x iv ctx st
        by (cases o2) (simp_all add: act_bind_def wd_now_def wd_uuid_def act_lift_def act_return_def)
      have s: "same_state w1 ?w" using s2 by (simp add: same_state_def)
      show ?thesis
      proof (cases o2)
        case (Inl e)
        with y have "out = Inl e \<and> w' = w3" by (simp add: act_bind_def)
        with s tool st Inl show ?thesis by fastforce
      next
        case (Inr u)
        let ?w4 = "w3\<lparr>wd_tick := Suc (wd_tick w3)\<rparr>"
        have "act_bind (run_executor env iv ctx)
            (settle_run env (en_uuid (ae_sys env) ?k) (tc_tool c) (en_now (ae_sys env) (wd_tick w3))) ?w4 = (out, w')"
          using y Inr by (simp add: act_bind_def wd_now_def)
        moreover have "same_state w3 ?w4" by (simp add: same_state_def)
        ultimately show ?thesis using s tool st Inr by fastforce
      qed
    qed
  qed
qed

text \<open>
  A whole call: either no run exists afterwards that was not there before and no file has changed, or there is one more
  run, which has ended as the executor decided, unless the outbox refused an event.
\<close>

definition run_settled_as ::
  "tool_run_row list \<Rightarrow> string \<Rightarrow> exec_failure + tool_result \<times> policy_decision \<Rightarrow> exn + tool_run_row \<Rightarrow> tool_run_row list \<Rightarrow> bool" where
  "run_settled_as rs tool x out rs' \<longleftrightarrow>
     (\<exists>r st. rs' = rs @ [r] \<and> tn_tool r = tool \<and> tn_status r = st \<and> tn_completed r \<noteq> None
        \<and> (st = status_of x \<or> st = ''failed'') \<and> (\<forall>v. out = Inr v \<longrightarrow> v = r \<and> st = status_of x \<and> \<not> isl x)
        \<and> (st = ''denied'' \<longrightarrow> out = Inl AUTO_DENIED) \<and> (st = ''approval_required'' \<longrightarrow> out = Inl AUTO_APPROVAL)
        \<and> (st = ''succeeded'' \<longrightarrow> out = Inr r))"

definition call_ended ::
  "auto_env \<Rightarrow> tool_call \<Rightarrow> auto_world \<Rightarrow> tool_row \<Rightarrow> exn + tool_run_row \<Rightarrow> auto_world \<Rightarrow> bool" where
  "call_ended env c w row out w' \<longleftrightarrow>
     (\<exists>av iv ctx x. ti_tool iv = py_strip (tc_tool c)
        \<and> execute (ae_engine env) (ae_runtimes env) av iv ctx (snd (hydrate row (wd_side w))) = (x, wd_side w')
        \<and> ((\<exists>t. out = Inl (IntegrityError t)) \<or> run_settled_as (tb_runs (wd_db w)) (tc_tool c) x out (tb_runs (wd_db w'))))"

lemma update_last:
  assumes "\<forall>r \<in> set rs. tn_id r \<noteq> i" and "tn_id r0 = i"
  shows "find (\<lambda>r. tn_id r = i) (rs @ [r0]) = Some r0" and "sql_update (\<lambda>r. tn_id r = i) g (rs @ [r0]) = rs @ [g r0]"
  using assms by (induction rs) auto

lemma execute_tool_ended:
  assumes ok: "auto_ok w" and fresh: "\<forall>k. en_uuid (ae_sys env) k \<notin> tn_id ` set (tb_runs (wd_db w))"
    and run: "execute_tool env c w = (out, w')"
  shows "(isl out \<and> tb_runs (wd_db w') = tb_runs (wd_db w) \<and> as_files (wd_side w') = as_files (wd_side w))
    \<or> (\<exists>row. find (\<lambda>r. tl_name r = tc_tool c) (tb_tools (wd_db w)) = Some row \<and> call_ended env c w row out w')"
proof (cases "find (\<lambda>r. tl_name r = tc_tool c) (tb_tools (wd_db w))")
  case None
  with run find_tool_result [of "tc_tool c" w] have "out = Inl AUTO_NOT_FOUND" "w' = w"
    by (auto simp: execute_tool_def act_bind_def)
  then show ?thesis by simp
next
  case (Some row)
  let ?w1 = "w\<lparr>wd_side := snd (hydrate row (wd_side w))\<rparr>"
  have found: "find_tool (tc_tool c) w = (Inr row, ?w1)" by (simp add: find_tool_result Some)
  have ok1: "auto_ok ?w1" using keeps_state [OF keeps_find_tool ok] found by (metis snd_conv)
  have files1: "as_files (wd_side ?w1) = as_files (wd_side w)" by (simp add: hydrate_files)
  from execute_tool_parts [OF found run] show ?thesis
  proof (elim disjE exE conjE)
    assume "isl out" "same_state ?w1 w'"
    with files1 show ?thesis by (auto simp: same_state_def)
  next
    fix iv :: tool_invocation and ctx k now started o2 w2 w3
    let ?i = "en_uuid (ae_sys env) k" and ?r0 = "pending_run (ae_render env) c row (en_uuid (ae_sys env) k) (ti_call iv) now"
    assume s12: "same_state ?w1 w2" and tool: "ti_tool iv = py_strip (tc_tool c)" and start: "start_run env ?r0 w2 = (o2, w3)"
      and rest: "case o2 of Inl e \<Rightarrow> out = Inl e \<and> w' = w3
        | Inr _ \<Rightarrow> \<exists>w4. same_state w3 w4 \<and> act_bind (run_executor env iv ctx) (settle_run env ?i (tc_tool c) started) w4 = (out, w')"
    have ok2: "auto_ok w2" using ok1 s12 by (simp add: wd_ok_def same_state_def)
    have runs2: "tb_runs (wd_db w2) = tb_runs (wd_db w)" using s12 by (simp add: same_state_def)
    have r0: "tn_id ?r0 = ?i" "tn_tool ?r0 = tc_tool c" by (simp_all add: pending_run_def)
    have "tn_id ?r0 \<notin> tn_id ` set (tb_runs (wd_db w2))" using fresh r0 runs2 by simp
    from start_run_outcome [OF ok2 pending_ok this start] have left: "scope_left w2 (tb_runs (wd_db w) @ [?r0]) o2 w3"
      by (simp add: runs2)
    have ok3: "auto_ok w3" using keeps_state [OF keeps_start_run [OF pending_ok] ok2] start by (metis snd_conv)
    show ?thesis
    proof (cases o2)
      case (Inl e)
      with rest left s12 files1 show ?thesis by (auto simp: scope_left_def same_state_def)
    next
      case (Inr u)
      with rest obtain w4 where s34: "same_state w3 w4"
        and b: "act_bind (run_executor env iv ctx) (settle_run env ?i (tc_tool c) started) w4 = (out, w')" by auto
      let ?av = "ae_adapters env (wd_tick w4)" and ?s4 = "snd (hydrate row (wd_side w))"
      have side4: "wd_side w4 = ?s4" and runs4: "tb_runs (wd_db w4) = tb_runs (wd_db w) @ [?r0]"
        using s34 left s12 Inr by (simp_all add: same_state_def scope_left_def)
      have ok4: "auto_ok w4" using ok3 s34 by (simp add: wd_ok_def same_state_def)
      obtain x s' where ex: "execute (ae_engine env) (ae_runtimes env) ?av iv ctx ?s4 = (x, s')"
        by (cases "execute (ae_engine env) (ae_runtimes env) ?av iv ctx ?s4")
      let ?w5 = "w4\<lparr>wd_side := s', wd_tick := Suc (wd_tick w4)\<rparr>"
      have r5: "run_executor env iv ctx w4 = (Inr x, ?w5)" using ex side4 by (simp add: run_executor_def)
      have ok5: "auto_ok ?w5" using keeps_state [OF keeps_run_executor ok4] r5 by (metis snd_conv)
      have st: "settle_run env ?i (tc_tool c) started x ?w5 = (out, w')" using b r5 by (simp add: act_bind_def)
      have others: "\<forall>r \<in> set (tb_runs (wd_db w)). tn_id r \<noteq> ?i" using fresh by (metis image_eqI)
      have f5: "find (\<lambda>r. tn_id r = ?i) (tb_runs (wd_db ?w5)) = Some ?r0"
        using update_last(1) [OF others r0(1)] runs4 by simp
      from settle_run_ended [OF ok5 f5 st] obtain status res where ended: "run_ended ?w5 ?i status res out w'"
        and h: "status = status_of x \<or> status = ''failed''" "\<forall>r v. res r = Inr v \<longrightarrow> v = r \<and> status = status_of x \<and> \<not> isl x"
          "status = ''denied'' \<longrightarrow> (\<forall>r. res r = Inl AUTO_DENIED)" "status = ''approval_required'' \<longrightarrow> (\<forall>r. res r = Inl AUTO_APPROVAL)"
          "status = ''succeeded'' \<longrightarrow> (\<forall>r. res r = Inr r)"
        by (elim exE conjE)
      have ex': "execute (ae_engine env) (ae_runtimes env) ?av iv ctx ?s4 = (x, wd_side w')"
        using ex ended by (simp add: run_ended_def)
      have "(\<exists>t. out = Inl (IntegrityError t)) \<or> run_settled_as (tb_runs (wd_db w)) (tc_tool c) x out (tb_runs (wd_db w'))"
      proof -
        have settled: "run_settled_as (tb_runs (wd_db w)) (tc_tool c) x out (tb_runs (wd_db w'))"
          if g: "finishes status g" and o: "out = res (g ?r0)"
            and rs: "tb_runs (wd_db w') = sql_update (\<lambda>r. tn_id r = ?i) g (tb_runs (wd_db w) @ [?r0])" for g
          unfolding run_settled_as_def
        proof (intro exI conjI)
          show "tb_runs (wd_db w') = tb_runs (wd_db w) @ [g ?r0]" using rs update_last(2) [OF others r0(1)] by simp
          show "tn_tool (g ?r0) = tc_tool c" "tn_status (g ?r0) = status" "tn_completed (g ?r0) \<noteq> None"
            using g r0(2) by (simp_all add: finishes_def)
          show "status = status_of x \<or> status = ''failed''" by (rule h(1))
          show "\<forall>v. out = Inr v \<longrightarrow> v = g ?r0 \<and> status = status_of x \<and> \<not> isl x" using h(2) o by auto
          show "status = ''denied'' \<longrightarrow> out = Inl AUTO_DENIED" using h(3) o by auto
          show "status = ''approval_required'' \<longrightarrow> out = Inl AUTO_APPROVAL" using h(4) o by auto
          show "status = ''succeeded'' \<longrightarrow> out = Inr (g ?r0)" using h(5) o by auto
        qed
        have "tb_runs (wd_db ?w5) = tb_runs (wd_db w) @ [?r0]" using runs4 by simp
        with ended f5 have "(\<exists>t. out = Inl (IntegrityError t)) \<or> (\<exists>g. finishes status g \<and> out = res (g ?r0)
            \<and> tb_runs (wd_db w') = sql_update (\<lambda>r. tn_id r = ?i) g (tb_runs (wd_db w) @ [?r0]))"
          unfolding run_ended_def by (elim conjE disjE exE) auto
        with settled show ?thesis by blast
      qed
      with tool ex' have "call_ended env c w row out w'" unfolding call_ended_def by (intro exI conjI)
      with Some show ?thesis by blast
    qed
  qed
qed

text \<open>A refusal by the gate has left everything outside of the tables alone.\<close>

lemma refused_untouched:
  assumes "execute engine rt av iv ctx s = (x, s')" and "status_of x \<in> {''denied'', ''approval_required''}"
  shows "s' = s"
  using assms
  by (auto simp: execute_def dispatch_def status_of_def runtime_error_def not_registered_def
      split: option.splits if_splits sum.splits policy_effect.splits prod.splits)

end
