(* ===== verification/Automation_Properties.thy ===== *)
theory Automation_Properties
  imports Automation_Outcomes "HOL-Library.Multiset"
begin

text \<open>
  The properties of the automation module: what the gate lets through, what tools can touch, how the rules of a policy
  decide, what is left of a call, and where the code does not do what its documents say.
\<close>

section \<open>An example\<close>

text \<open>A workspace \<^verbatim>\<open>/w\<close> next to a directory \<^verbatim>\<open>/etc\<close>, and a link \<^verbatim>\<open>/w/out\<close> that points to it.\<close>

definition atx_paths :: path_env where
  "atx_paths = \<lparr>pe_cwd = [], pe_links = [([''w'', ''out''], ''../etc'')]\<rparr>"

definition atx_gate :: gate_env where
  "atx_gate = \<lparr>gv_paths = atx_paths, gv_render = (\<lambda>_. ''?''), gv_uuid = (\<lambda>_. None)\<rparr>"

definition atx_adapter :: adapter_env where
  "atx_adapter = \<lparr>av_gate = atx_gate, av_now = 7, av_elapsed = Finite 2, av_fail = (\<lambda>_ _. None),
     av_os_error = (\<lambda>e _. e), av_temp = ''x'', av_kept = 1,
     av_shell = (\<lambda>cmd dir t fs. (ShellExit 0 cmd [], fs([''w'', ''log''] \<mapsto> Regular cmd))), av_text = (\<lambda>_. ''error'')\<rparr>"

definition atx_env :: auto_env where
  "atx_env = \<lparr>ae_sys = \<lparr>en_now = int, en_uuid = (\<lambda>n. ''u'' @ show_nat n)\<rparr>, ae_engine = None, ae_runtimes = default_runtimes,
     ae_adapters = (\<lambda>_. atx_adapter), ae_text = (\<lambda>_. ''error''), ae_render = (\<lambda>_. ''?'')\<rparr>"

definition atx_writer :: tool_definition where
  "atx_writer = simple_tool ''write_file'' ''Writes.'' WORKSPACE_WRITE ''filesystem'' IN_PROCESS ''filesystem'' ''path_sandbox''"

definition atx_context :: tool_context where
  "atx_context = \<lparr>cx_workspace = ''/w'', cx_actor = None, cx_correlation = None, cx_causation = None, cx_trace = None,
     cx_session = None, cx_env = [], cx_approved = False\<rparr>"

definition atx_write :: tool_invocation where
  "atx_write = \<lparr>ti_tool = ''write_file'', ti_call = ''c1'',
     ti_params = [text_field ''file_path'' ''sub/../a'', text_field ''content'' ''hi''], ti_requested = 0, ti_timeout = Some (Finite 30)\<rparr>"

definition atx_side :: auto_side where
  "atx_side = \<lparr>as_registry = \<lparr>rg_tools = [(''write_file'', atx_writer)], rg_index = [(''filesystem'', [''write_file''])], rg_audit = []\<rparr>,
     as_files = [[''w''] \<mapsto> Directory, [''etc''] \<mapsto> Directory]\<rparr>"

definition atx_done :: "(exec_failure + tool_result \<times> policy_decision) \<times> auto_side \<Rightarrow> bool \<times> file_node option" where
  "atx_done r = (\<not> isl (fst r), as_files (snd r) [''w'', ''a''])"

lemma atx_written: "atx_done (execute None default_runtimes atx_adapter atx_write atx_context atx_side) = (True, Some (Regular ''hi''))"
  by code_simp

lemma atx_registry_ok: "registry_ok (as_registry atx_side)"
proof -
  have "registry_register atx_writer False empty_registry = Inr (as_registry atx_side)"
    by (simp add: registry_register_def atx_side_def empty_registry_def atx_writer_def simple_tool_def index_name_def names_of_def)
  moreover have "definition_ok atx_writer"
    by (simp add: atx_writer_def simple_tool_ok stripped_plain py_space_def side_effect_classes_def sandbox_requirements_def)
  ultimately show ?thesis by (rule registry_ok_register [OF registry_ok_empty, rotated])
qed

lemma atx_physical: "physical (gv_paths (av_gate atx_adapter)) (pe_cwd (gv_paths (av_gate atx_adapter)))"
  by (simp add: atx_adapter_def atx_gate_def atx_paths_def)

section \<open>The gate\<close>



text \<open>C19: Behind a rule engine a tool runs only if, among the rules that match the call, the one of the highest priority
  (of several, the first by identifier) allows it; a call that no rule matches does not run.\<close>

theorem rules_permit_what_runs:
  assumes "registry_ok (as_registry s)" and "execute (Some (rules_decide rules)) rt av iv ctx s = (Inr r, s')"
  shows "\<exists>d q. registry_get (ti_tool iv) (as_registry s) = Some d \<and> build_policy_request (av_gate av) d iv ctx = Inr q
    \<and> (\<exists>rule \<in> set rules. policy_rule_matches rule q \<and> pr_effect rule = ALLOW
         \<and> (\<forall>other \<in> set rules. policy_rule_matches other q \<longrightarrow>
              pr_priority other < pr_priority rule \<or> pr_priority rule = pr_priority other \<and> pr_id rule \<le> pr_id other))"
proof -
  from execute_cleared [OF assms(2)] obtain d where c: "cleared (Some (rules_decide rules)) av iv ctx s d" by blast
  then obtain p where g: "registry_get (ti_tool iv) (as_registry s) = Some d"
    and p: "evaluate_policy (av_gate av) (Some (rules_decide rules)) d iv ctx = Inr p" "pd_effect p = ALLOW"
    by (auto simp: cleared_def)
  have "definition_ok d" using registry_get_ok [OF assms(1) g] by simp
  from rule_engine.gate_permits [OF this p] g show ?thesis by (auto simp: rules_permit_def outranks_def)
qed

definition atx_rules :: "policy_rule list" where
  "atx_rules = [\<lparr>pr_id = ''b'', pr_action = ''*'', pr_resource = ''*'', pr_effect = DENY, pr_priority = 0, pr_reason = None\<rparr>,
     \<lparr>pr_id = ''a'', pr_action = ''write_file'', pr_resource = ''filesystem'', pr_effect = ALLOW, pr_priority = 5, pr_reason = None\<rparr>]"

theorem rules_permit_what_runs_witness:
  "\<exists>d q. registry_get ''write_file'' (as_registry atx_side) = Some d \<and> build_policy_request atx_gate d atx_write atx_context = Inr q
    \<and> (\<exists>rule \<in> set atx_rules. policy_rule_matches rule q \<and> pr_effect rule = ALLOW)"
proof -
  obtain out s' where e: "execute (Some (rules_decide atx_rules)) default_runtimes atx_adapter atx_write atx_context atx_side = (out, s')"
    by fastforce
  have "atx_done (execute (Some (rules_decide atx_rules)) default_runtimes atx_adapter atx_write atx_context atx_side) = (True, Some (Regular ''hi''))"
    by code_simp
  with e obtain r where r: "out = Inr r" by (cases out) (simp_all add: atx_done_def)
  from rules_permit_what_runs [OF atx_registry_ok e [unfolded r]] show ?thesis
    by (fastforce simp: atx_adapter_def atx_write_def)
qed

text \<open>The order of the rules is the order of their keys, so nothing else of the order in which they are given is left.\<close>

definition rule_key :: "policy_rule \<Rightarrow> int \<times> string" where
  "rule_key r = (- pr_priority r, pr_id r)"

lemma engine_rules_perm:
  assumes "mset rules' = mset rules" and "inj_on rule_key (set rules)"
  shows "engine_rules rules' = engine_rules rules"
proof -
  have k: "(\<lambda>r. (- pr_priority r, pr_id r)) = rule_key" by (simp add: fun_eq_iff rule_key_def)
  have "set rules' = set rules" using assms(1) by (rule mset_eq_setD)
  with assms have "inj_on rule_key (set rules')" "mset rules' = mset (sort_key rule_key rules)" by simp_all
  then show ?thesis unfolding engine_rules_def k by (intro sort_key_inj_key_eq) simp_all
qed

text \<open>C22: The rule engine decides like this: a request that no rule matches is denied, any other gets the effect of a
  matching rule that no matching rule outranks; the order in which the rules are given does not matter if no two
  of them share priority and identifier.\<close>

theorem highest_rule_decides:
  "(case filter (\<lambda>r. policy_rule_matches r q) rules of
      [] \<Rightarrow> rules_decide rules q = Inr default_deny \<and> pd_effect default_deny = DENY
    | _ \<Rightarrow> (\<exists>r \<in> set rules. policy_rule_matches r q \<and> rules_decide rules q = Inr (rule_decision r)
           \<and> (\<forall>r' \<in> set rules. policy_rule_matches r' q \<longrightarrow>
                pr_priority r' < pr_priority r \<or> pr_priority r = pr_priority r' \<and> pr_id r \<le> pr_id r')))
   \<and> (mset rules' = mset rules \<and> inj_on (\<lambda>r. (pr_priority r, pr_id r)) (set rules) \<longrightarrow>
        rules_decide rules' q = rules_decide rules q)"
proof (intro conjI impI)
  let ?f = "find (\<lambda>r. policy_rule_matches r q) (engine_rules rules)"
  have none: "?f = None \<longleftrightarrow> filter (\<lambda>r. policy_rule_matches r q) rules = []"
    by (auto simp: find_None_iff filter_empty_conv engine_rules_def)
  show "case filter (\<lambda>r. policy_rule_matches r q) rules of
      [] \<Rightarrow> rules_decide rules q = Inr default_deny \<and> pd_effect default_deny = DENY
    | _ \<Rightarrow> (\<exists>r \<in> set rules. policy_rule_matches r q \<and> rules_decide rules q = Inr (rule_decision r)
           \<and> (\<forall>r' \<in> set rules. policy_rule_matches r' q \<longrightarrow>
                pr_priority r' < pr_priority r \<or> pr_priority r = pr_priority r' \<and> pr_id r \<le> pr_id r'))"
  proof (cases ?f)
    case None
    with none show ?thesis by (simp add: rules_decide_def first_decision_find default_deny_def decision_def)
  next
    case (Some r)
    then have d: "rules_decide rules q = Inr (rule_decision r)" by (simp add: rules_decide_def first_decision_find)
    from none Some obtain x xs where f: "filter (\<lambda>r. policy_rule_matches r q) rules = x # xs"
      by (cases "filter (\<lambda>r. policy_rule_matches r q) rules") auto
    from rule_decides [OF Some] d show ?thesis unfolding f list.case outranks_def by blast
  qed
next
  assume h: "mset rules' = mset rules \<and> inj_on (\<lambda>r. (pr_priority r, pr_id r)) (set rules)"
  then have "inj_on rule_key (set rules)" by (simp add: inj_on_def rule_key_def)
  with h have "engine_rules rules' = engine_rules rules" by (intro engine_rules_perm) simp_all
  then show "rules_decide rules' q = rules_decide rules q" by (simp only: rules_decide_def)
qed

theorem highest_rule_decides_witness:
  "rules_decide (rev atx_rules) = rules_decide atx_rules"
proof
  fix q
  have "mset (rev atx_rules) = mset atx_rules" "inj_on (\<lambda>r. (pr_priority r, pr_id r)) (set atx_rules)"
    by (simp_all add: atx_rules_def)
  with highest_rule_decides [where q = q and rules = atx_rules and rules' = "rev atx_rules"]
  show "rules_decide (rev atx_rules) q = rules_decide atx_rules q" by blast
qed


lemma atx_outward: "atx_done (execute None default_runtimes atx_adapter
    (atx_write\<lparr>ti_params := [text_field ''file_path'' ''out/passwd'', text_field ''content'' ''hi'']\<rparr>) atx_context atx_side) = (False, None)"
  by code_simp

text \<open>The second exception exists: the target \<^verbatim>\<open>.\<close> leaves a file next to the workspace.\<close>

lemma temp_file_outside: "(case execute None default_runtimes atx_adapter
    (atx_write\<lparr>ti_params := [text_field ''file_path'' ''.'', text_field ''content'' ''hi'']\<rparr>) atx_context atx_side of
      (Inr (res, _), s') \<Rightarrow> \<not> tr_success res \<and> tr_error res = Some ''is a directory''
        \<and> as_files s' [''tmpx''] = Some (Regular ''hi'') \<and> as_files s' [''w''] = Some Directory
    | _ \<Rightarrow> False)"
  by code_simp


section \<open>The built-in tools without a policy engine\<close>

definition free_tools :: "string list" where
  "free_tools = [''code_search'', ''ast_symbol'', ''lsp'', ''database_query'', ''github'', ''mcp_call'', ''remote_invoke'', ''git'']"

definition file_tools :: "string list" where
  "file_tools = [''read_file'', ''write_file'']"

definition hard_denied :: "tool_definition \<Rightarrow> bool" where
  "hard_denied d \<longleftrightarrow> List.member hard_deny_actions (py_lower (td_name d))"

text \<open>What decides about a tool in the gate, for each tool of the catalogue.\<close>

definition free_profile :: "tool_definition \<Rightarrow> bool" where
  "free_profile d \<longleftrightarrow> \<not> hard_denied d \<and> (gated d \<longrightarrow> \<not> high_risk (td_risk d) \<and> \<not> td_destructive d \<and> td_sandbox d \<noteq> ''path_sandbox'')"

definition file_profile :: "tool_definition \<Rightarrow> bool" where
  "file_profile d \<longleftrightarrow> \<not> hard_denied d \<and> gated d \<and> \<not> high_risk (td_risk d) \<and> \<not> td_destructive d \<and> td_sandbox d = ''path_sandbox''"

lemma builtin_profiles:
  "list_all (\<lambda>d. if List.member free_tools (td_name d) then free_profile d
     else if List.member file_tools (td_name d) then file_profile d else gated d \<and> high_risk (td_risk d)) builtin_catalog"
  by code_simp


definition atx_git :: tool_definition where
  "atx_git = simple_tool ''git'' ''Git operations scoped to workspace.'' WORKSPACE_WRITE ''vcs'' SUBPROCESS ''process'' ''subprocess_sandbox''"


section \<open>Storage\<close>

text \<open>C23: A definition can be stored; if its timeout is at least a second, what is read back is the definition with the
  whole seconds of the timeout and the schemas as JSON gives them back, and storing that gives the same row; with a shorter timeout
  the row is stored as well, but cannot be read back.\<close>

theorem definition_survives_storage:
  assumes "definition_ok d" and "td_timeout d = Finite x"
  shows "\<exists>r. definition_to_row render now i d = Inr r
    \<and> row_to_definition r = (if x < 1 then Inl (ValueError ''timeout_seconds must be positive'')
         else Inr (d\<lparr>td_timeout := Finite (of_int \<lfloor>x\<rfloor>), td_parameters := stored_fields render (td_parameters d),
           td_outputs := stored_fields render (td_outputs d)\<rparr>))
    \<and> (\<forall>d'. row_to_definition r = Inr d' \<longrightarrow> definition_to_row render now i d' = Inr r \<and> row_to_definition r = Inr d')"
proof -
  have "0 < x" using assms by (simp add: definition_ok_def not_positive_def)
  then have t: "truncate_float (td_timeout d) = Inr \<lfloor>x\<rfloor>" using assms(2) by (simp add: truncate_float_def)
  then obtain r where r: "definition_to_row render now i d = Inr r" and n: "tl_timeout r = \<lfloor>x\<rfloor>"
    by (auto simp: definition_to_row_def)
  have read: "row_to_definition r = (if x < 1 then Inl (ValueError ''timeout_seconds must be positive'')
      else Inr (stored_definition render d \<lfloor>x\<rfloor>))"
    using definition_row_back [OF assms(1) r] n by (simp add: floor_less_iff)
  have again: "definition_to_row render now i (stored_definition render d \<lfloor>x\<rfloor>) = Inr r" if "\<not> x < 1"
    using r t that by (simp add: definition_to_row_def stored_definition_def stored_twice truncate_float_def)
  show ?thesis
    using r read again by (intro exI [of _ r]) (auto simp: stored_definition_def split: if_splits)
qed

theorem definition_survives_storage_witness:
  "\<exists>r. definition_to_row (\<lambda>_. ''?'') 7 ''t1'' (atx_writer\<lparr>td_timeout := Finite (5/2)\<rparr>) = Inr r
    \<and> row_to_definition r = Inr (atx_writer\<lparr>td_timeout := Finite 2\<rparr>)"
proof -
  have "definition_ok (atx_writer\<lparr>td_timeout := Finite (5/2)\<rparr>)"
    by (simp add: atx_writer_def simple_tool_def definition_ok_def stripped_plain py_space_def side_effect_classes_def
      sandbox_requirements_def not_positive_def)
  moreover have "td_timeout (atx_writer\<lparr>td_timeout := Finite (5/2)\<rparr>) = Finite (5/2)" by simp
  moreover have "\<lfloor>5/2 :: rat\<rfloor> = 2" by (rule floor_unique) simp_all
  ultimately show ?thesis
    using definition_survives_storage [of "atx_writer\<lparr>td_timeout := Finite (5/2)\<rparr>" "5/2" "\<lambda>_. ''?''" 7 "''t1''"]
    by (auto simp: atx_writer_def simple_tool_def stored_fields_def)
qed

lemma short_row_unreadable:
  assumes "definition_ok d" and "td_timeout d = Finite x" and "x < 1" and "definition_to_row render now i d = Inr r"
  shows "row_to_definition r = Inl (ValueError ''timeout_seconds must be positive'')"
proof -
  have "0 < x" using assms by (simp add: definition_ok_def not_positive_def)
  with assms(2-4) have "tl_timeout r < 1" by (auto simp: definition_to_row_def truncate_float_def floor_less_iff)
  with definition_row_back [OF assms(1,4)] show ?thesis by simp
qed


definition atx_call :: "string \<Rightarrow> tool_call" where
  "atx_call path = \<lparr>tc_tool = ''write_file'', tc_params = [text_field ''file_path'' path, text_field ''content'' ''hi''],
     tc_workspace = ''/w'', tc_actor = None, tc_correlation = None, tc_causation = None, tc_trace = None, tc_approved = False,
     tc_invocation = Some ''c1''\<rparr>"


section \<open>What is left of a call\<close>

text \<open>C20: A call of a tool either raises before a run exists, with no file changed; or the outbox refuses an event; or
  exactly one run is added, which is completed in one of four statuses: succeeded and failed as the result says,
  denied and waiting for approval with the error that is raised and no file changed.\<close>

theorem run_settled:
  assumes "auto_ok w" and "\<forall>k. en_uuid (ae_sys env) k \<notin> tn_id ` set (tb_runs (wd_db w))"
    and "execute_tool env c w = (out, w')"
  shows "(isl out \<and> tb_runs (wd_db w') = tb_runs (wd_db w) \<and> as_files (wd_side w') = as_files (wd_side w))
    \<or> (\<exists>t. out = Inl (IntegrityError t))
    \<or> (\<exists>r. tb_runs (wd_db w') = tb_runs (wd_db w) @ [r] \<and> tn_tool r = tc_tool c \<and> tn_completed r \<noteq> None
        \<and> (tn_status r = ''succeeded'' \<and> out = Inr r
         \<or> tn_status r = ''failed'' \<and> (isl out \<or> out = Inr r)
         \<or> tn_status r = ''denied'' \<and> out = Inl AUTO_DENIED \<and> as_files (wd_side w') = as_files (wd_side w)
         \<or> tn_status r = ''approval_required'' \<and> out = Inl AUTO_APPROVAL \<and> as_files (wd_side w') = as_files (wd_side w)))"
  using execute_tool_ended [OF assms]
proof (elim disjE exE conjE)
  fix row assume "call_ended env c w row out w'"
  then obtain av ctx x and iv :: tool_invocation where
    ex: "execute (ae_engine env) (ae_runtimes env) av iv ctx (snd (hydrate row (wd_side w))) = (x, wd_side w')"
    and h: "(\<exists>t. out = Inl (IntegrityError t)) \<or> run_settled_as (tb_runs (wd_db w)) (tc_tool c) x out (tb_runs (wd_db w'))"
    by (auto simp: call_ended_def)
  have files: "as_files (wd_side w') = as_files (wd_side w)" if "status_of x \<in> {''denied'', ''approval_required''}"
    using refused_untouched [OF ex that] by (simp add: hydrate_files)
  from h show ?thesis
  proof
    assume "run_settled_as (tb_runs (wd_db w)) (tc_tool c) x out (tb_runs (wd_db w'))"
    then obtain r where r: "tb_runs (wd_db w') = tb_runs (wd_db w) @ [r]" "tn_tool r = tc_tool c" "tn_completed r \<noteq> None"
      and st: "tn_status r = status_of x \<or> tn_status r = ''failed''"
      and o: "\<forall>v. out = Inr v \<longrightarrow> v = r" "tn_status r = ''denied'' \<longrightarrow> out = Inl AUTO_DENIED"
        "tn_status r = ''approval_required'' \<longrightarrow> out = Inl AUTO_APPROVAL" "tn_status r = ''succeeded'' \<longrightarrow> out = Inr r"
      unfolding run_settled_as_def by blast
    have "status_of x \<in> {''succeeded'', ''failed'', ''denied'', ''approval_required''}"
      by (auto simp: status_of_def split: sum.split exec_failure.split)
    with st o(2-4) files have "tn_status r = ''succeeded'' \<and> out = Inr r \<or> tn_status r = ''failed''
       \<or> tn_status r = ''denied'' \<and> out = Inl AUTO_DENIED \<and> as_files (wd_side w') = as_files (wd_side w)
       \<or> tn_status r = ''approval_required'' \<and> out = Inl AUTO_APPROVAL \<and> as_files (wd_side w') = as_files (wd_side w)"
      by (elim disjE) auto
    moreover have "isl out \<or> out = Inr r" using o(1) by (cases out) auto
    ultimately show ?thesis using r by blast
  qed simp
qed simp

definition atx_world :: auto_world where
  "atx_world = snd (register_tool atx_env atx_writer (fresh_world empty_auto_db (\<lambda>_. None)))"

lemma atx_world_ok: "auto_ok atx_world"
proof -
  have "definition_ok atx_writer" using registry_get_ok [OF atx_registry_ok, of "''write_file''" atx_writer]
    by (simp add: atx_side_def registry_get_def)
  then show ?thesis unfolding atx_world_def by (rule keeps_state [OF keeps_register_tool fresh_world_ok])
qed

definition atx_seen :: "(exn + tool_run_row) \<times> auto_world \<Rightarrow> bool \<times> string list \<times> file_node option" where
  "atx_seen r = (isl (fst r), map tn_status (tb_runs (wd_db (snd r))), as_files (wd_side (snd r)) [''w'', ''a''])"

lemma atx_denied: "atx_seen (execute_tool atx_env (atx_call ''out/passwd'') atx_world) = (True, [''denied''], None)"
  by code_simp

lemma atx_succeeded: "atx_seen (execute_tool atx_env (atx_call ''a'') atx_world) = (False, [''succeeded''], Some (Regular ''hi''))"
  by code_simp

lemma atx_no_runs: "tb_runs (wd_db atx_world) = []"
  by code_simp

theorem run_settled_witness:
  "\<exists>r. tb_runs (wd_db (snd (execute_tool atx_env (atx_call ''out/passwd'') atx_world))) = [r] \<and> tn_status r = ''denied''
    \<and> fst (execute_tool atx_env (atx_call ''out/passwd'') atx_world) = Inl AUTO_DENIED"
proof -
  obtain out w' where e: "execute_tool atx_env (atx_call ''out/passwd'') atx_world = (out, w')" by fastforce
  have runs: "map tn_status (tb_runs (wd_db w')) = [''denied'']" using atx_denied e by (simp add: atx_seen_def)
  have "\<forall>k. en_uuid (ae_sys atx_env) k \<notin> tn_id ` set (tb_runs (wd_db atx_world))" by (simp add: atx_no_runs)
  note settled = run_settled [OF atx_world_ok this e, unfolded atx_no_runs append_Nil]
  have "\<not> (\<exists>t. out = Inl (IntegrityError t))"
  proof -
    have "fst (execute_tool atx_env (atx_call ''out/passwd'') atx_world) = Inl AUTO_DENIED" by code_simp
    with e show ?thesis by (simp add: AUTO_DENIED_def)
  qed
  with settled runs obtain r where r: "tb_runs (wd_db w') = [r]" and d: "tn_status r = ''denied'' \<longrightarrow> out = Inl AUTO_DENIED"
    by auto
  with runs e show ?thesis by simp
qed

section \<open>Any sequence of commands\<close>

text \<open>The commands of the module; \<open>Restart\<close> is a new process, whose registry is empty.\<close>

datatype auto_command = RegisterTool register_request | RegisterBuiltins | UpdateTool string tool_patch "int option"
  | DeregisterTool string | ExecuteTool tool_call | Restart

fun auto_step :: "auto_env \<Rightarrow> auto_command \<Rightarrow> auto_world \<Rightarrow> auto_world" where
  "auto_step env (RegisterTool q) w = snd (handle_register_tool env q w)"
| "auto_step env RegisterBuiltins w = snd (register_builtin_tools env w)"
| "auto_step env (UpdateTool i p v) w = snd (handle_update_tool env i p v w)"
| "auto_step env (DeregisterTool i) w = snd (handle_deregister_tool env i w)"
| "auto_step env (ExecuteTool c) w = snd (handle_execute_tool env c w)"
| "auto_step env Restart w = w\<lparr>wd_side := (wd_side w)\<lparr>as_registry := empty_registry\<rparr>\<rparr>"

lemma auto_step_ok: "auto_ok w \<Longrightarrow> auto_ok (auto_step env c w)"
  by (cases c) (simp_all add: keeps_state [OF keeps_handle_register] keeps_state [OF keeps_register_builtin_tools]
    keeps_state [OF keeps_handlers(1)] keeps_state [OF keeps_handlers(2)] keeps_state [OF keeps_handlers(3)],
    simp add: wd_ok_def auto_sound_def registry_ok_empty)

lemma auto_run_ok: "auto_ok w \<Longrightarrow> auto_ok (fold (auto_step env) cs w)"
  by (induction cs arbitrary: w) (simp_all add: auto_step_ok)

text \<open>C21: After any sequence of commands and restarts tools have distinct names and readable enumerations, a run is
  completed exactly when its status is final, and listing the tools of a capability from the registry in memory
  gives each registered tool of that capability once, without an error.\<close>

theorem automation_consistent:
  "let w = fold (auto_step env) cs (fresh_world empty_auto_db fs); reg = as_registry (wd_side w) in
     distinct (map tl_id (tb_tools (wd_db w))) \<and> distinct (map tl_name (tb_tools (wd_db w)))
   \<and> list_all (\<lambda>r. \<not> isl (risk_of (tl_risk r)) \<and> \<not> isl (runtime_of (tl_runtime r))) (tb_tools (wd_db w))
   \<and> list_all (\<lambda>r. tn_status r = ''pending'' \<and> tn_completed r = None \<or> tn_status r \<in> set final_statuses \<and> tn_completed r \<noteq> None)
       (tb_runs (wd_db w))
   \<and> distinct (map tn_id (tb_runs (wd_db w)))
   \<and> (\<exists>ds. list_by_capability cap reg = Inr ds \<and> distinct (map td_name ds)
        \<and> set ds = {d. \<exists>n. registry_get n reg = Some d \<and> td_capability d = cap})"
proof -
  have "auto_ok (fold (auto_step env) cs (fresh_world empty_auto_db fs))" by (rule auto_run_ok [OF fresh_world_ok])
  then have sound: "auto_sound (wd_side (fold (auto_step env) cs (fresh_world empty_auto_db fs)))
      (wd_db (fold (auto_step env) cs (fresh_world empty_auto_db fs)))" by (simp add: wd_ok_def)
  then have "registry_ok (as_registry (wd_side (fold (auto_step env) cs (fresh_world empty_auto_db fs))))"
    by (simp add: auto_sound_def)
  from listing_by_capability [OF this, of cap] sound show ?thesis
    unfolding Let_def auto_sound_def tool_row_ok_def run_ok_def by blast
qed

end
