(* ===== verification/Spec2Isabelle.thy ===== *)
theory Spec2Isabelle
  imports WA_Prelude Json_Values Unit_Of_Work Outbox_Properties Publisher Job_Properties Worker_System Agent_Properties Gateway_Properties Automation_Properties
begin

text \<open>
  WindAgent V2: the durable core of the backend, \<^verbatim>\<open>src/backend/src/windagent\<close>, and the worker
  process \<^verbatim>\<open>src/apps/worker\<close>. Paths below are relative to the first directory.

  The parts. Business modules change their aggregates inside a transaction scope (\<^verbatim>\<open>SqlUnitOfWork\<close>) and
  write their events into the outbox table of the same transaction. A publisher drains the outbox to the
  bus. Jobs are rows of a second table: clients submit them, workers claim them with a lease and a
  fencing token, run a handler, and finalize them together with an outbox event; a recovery pass cleans up
  after crashed workers. The agent runtime is the module that keeps sessions, runs, tasks, workflows,
  steps, checkpoints, approvals and delegations.

  Platform theories.
  \<open>WA_Prelude\<close>: exceptions as a datatype, results as sums, SQL statements on lists of rows, text helpers.
  \<open>Json_Values\<close>: \<^verbatim>\<open>kernel/types/json.py\<close> and \<^verbatim>\<open>platform/jobs/result.py\<close>; Python values as a datatype.
  \<open>Unit_Of_Work\<close>: \<^verbatim>\<open>platform/persistence/unit_of_work.py\<close> and \<^verbatim>\<open>postgres/cas.py\<close>; the scope as an object
  with a store and a working copy, and \<open>run_tx\<close>, the form in which later theories write transactions.
  \<open>Scopes\<close>: code in transaction scopes for any tables: checks, swallowed exceptions, and \<open>keeps\<close>, the rules by which
  composed code keeps an invariant.
  \<open>Fencing\<close>: the interface of a store that hands out claim tokens, as a locale; its client lemma is that
  a token is accepted at most once in every interleaving. Interpreted on the outbox and on the job queue.
  \<open>Outbox\<close>, \<open>Outbox_Properties\<close>: \<^verbatim>\<open>platform/events/outbox.py\<close>; the two tables, every statement of the writer
  and of the claim side, the invariant and what consumers may rely on.
  \<open>Publisher\<close>: \<^verbatim>\<open>platform/events/publisher.py\<close>; the drain cycle and its loop, with arbitrary operations of
  other processes between any two statements.

  Job theories.
  \<open>Job_Model\<close>: \<^verbatim>\<open>platform/jobs/contracts.py\<close>, \<^verbatim>\<open>envelope.py\<close>, \<^verbatim>\<open>registry.py\<close>; constructors with their checks.
  \<open>Job_Queue\<close>: \<^verbatim>\<open>platform/jobs/postgres/schema.py\<close> and \<^verbatim>\<open>queue.py\<close>, every operation of the queue.
  \<open>Job_Invariant\<close>, \<open>Job_System\<close>: the invariant of jobs, attempts and events, kept by every operation; the
  order in which rows move; the queue as a system of operations.
  \<open>Job_Properties\<close>: order and exclusivity of claims, one finalization per token, atomicity under a crash,
  bounded attempts, cancellation, recovery, idempotent submission.
  \<open>Worker\<close>, \<open>Worker_System\<close>: \<^verbatim>\<open>runtime.py\<close> and \<^verbatim>\<open>lease.py\<close> of the worker against a locale of the queue port,
  which is then interpreted on the SQL queue with other processes interleaved.

  Agent theories (\<^verbatim>\<open>modules/agent_runtime\<close>).
  \<open>Agent_Lifecycles\<close>: the state machines of \<^verbatim>\<open>domain/lifecycle.py\<close>, \<^verbatim>\<open>approvals.py\<close>, \<^verbatim>\<open>delegation.py\<close>, and the
  aggregates of \<^verbatim>\<open>tasks.py\<close> and \<^verbatim>\<open>sessions.py\<close>; a locale with what holds for any checked transition.
  \<open>Agent_Workflow\<close>: \<^verbatim>\<open>domain/workflow.py\<close>; validation and order of graphs by Kahn's algorithm, compared with
  acyclicity and the edges.
  \<open>Agent_Policies\<close>: \<^verbatim>\<open>domain/budget.py\<close>, \<^verbatim>\<open>retry.py\<close>, \<^verbatim>\<open>recovery.py\<close>.
  \<open>Agent_Store\<close>: rows (\<^verbatim>\<open>application/models.py\<close>), statements and transaction scope
  (\<^verbatim>\<open>infrastructure/repository.py\<close>), events (\<^verbatim>\<open>application/events.py\<close>).
  \<open>Agent_Service\<close>: the commands and queries of \<^verbatim>\<open>application/services.py\<close>.
  \<open>Agent_Spec\<close>: the abstract specification, one \<open>agent_step\<close> per allowed change, and the invariant it keeps.
  \<open>Agent_Refinement\<close>, \<open>Agent_Commands\<close>: every command that raises leaves the store alone, every command that
  returns has made steps of the specification only.
  \<open>Agent_System\<close>: sequences of commands, and what they do to one row (locale \<open>tracked_table\<close>).
  \<open>Agent_Outcomes\<close>, \<open>Agent_Properties\<close>: what the single commands achieve, and the properties.

  Model gateway theories (\<^verbatim>\<open>modules/model_gateway\<close>). Requests for a scope are served by one canonical model, which a
  routing rule chose and a route lock keeps; executions try the endpoints that serve exactly that model.
  \<open>Gateway_Policies\<close>, \<open>Gateway_Normalization\<close>: the pure modules of \<^verbatim>\<open>domain\<close>: rules and their matcher, cooldowns, circuit
  breaker, failures and failover decisions, endpoint filter; canonical names of models.
  \<open>Gateway_Store\<close>: rows, tables with their keys, statements and scope (\<^verbatim>\<open>infrastructure/repository.py\<close>), the secret store.
  \<open>Gateway_Registry\<close>, \<open>Gateway_Locks\<close>, \<open>Gateway_Invocation\<close>: the services \<^verbatim>\<open>registry.py\<close>, \<^verbatim>\<open>route_locks.py\<close>, and \<^verbatim>\<open>selector.py\<close>,
  \<^verbatim>\<open>coordinator.py\<close>, \<^verbatim>\<open>gateway.py\<close>. What an adapter answers is a parameter (\<open>providers_env\<close>), any function of the call.
  \<open>Gateway_Invariant\<close>, \<open>Gateway_Commands\<close>, \<open>Gateway_Credentials\<close>: the consistency of the tables, together with any further
  condition \<open>K\<close> on the lock table, kept by every statement (\<open>keeps\<close>) or because of what was read before (\<open>tri\<close>).
  \<open>Gateway_System\<close>: sequences of commands; the locale \<open>sticky_entries\<close> of entries that survive what others do,
  interpreted on the route locks.
  \<open>Gateway_Execution\<close>, \<open>Gateway_Properties\<close>: what an execution records and answers; the properties.

  Automation theories (\<^verbatim>\<open>modules/automation\<close>, \<^verbatim>\<open>platform/security/policy.py\<close>). Tools are declared, and every call of one
  passes a policy gate before an adapter runs it.
  \<open>Automation_Sandbox\<close>: \<^verbatim>\<open>domain/sandbox.py\<close> over an explicit file system with symbolic links.
  \<open>Automation_Policy\<close>: definitions, invocations, the gate of \<^verbatim>\<open>application/policy.py\<close>, the rule engine; the gate uses an
  engine through the locale \<open>policy_engine\<close>, interpreted on the rule engine.
  \<open>Automation_Runtime\<close>: results, adapters (\<^verbatim>\<open>infrastructure/adapters\<close>), registries (\<^verbatim>\<open>application/registry.py\<close>).
  \<open>Automation_Executor\<close>: \<^verbatim>\<open>application/executor.py\<close>; nothing runs that the gate did not allow, and every adapter but the
  subprocess changes files in the workspace only. What a shell command does is a parameter (\<open>av_shell\<close>).
  \<open>Automation_Store\<close>: rows (\<^verbatim>\<open>application/models.py\<close>), their conversion, statements (\<^verbatim>\<open>infrastructure/repository.py\<close>), events.
  \<open>Automation_Service\<close>: the commands and queries of \<^verbatim>\<open>application/services.py\<close>, the command handlers and the built-in tools of
  \<^verbatim>\<open>application/handlers.py\<close>. A command is a sequence of scopes; the registry and the files outside of them do not roll back.
  \<open>Automation_Invariant\<close>, \<open>Automation_Outcomes\<close>, \<open>Automation_Properties\<close>: the consistency every command keeps; what each scope
  of a tool call leaves behind, up to the whole call; the properties.

  Conventions. A table is a list of rows in the order of their insertion; a statement is a function on
  it. A transaction is serial: \<open>run_tx\<close> works on a copy that is kept on commit and dropped otherwise, and the
  interleaving of processes is the order of their transactions. Scans that skip rows locked by
  others take the set of locked rows as an argument, and compare-and-swap updates are evaluated again
  on the current row, so that a scan may be stale. An exception is the left side of a sum. Clock readings and random
  identifiers are streams that the operations draw from, and nothing is assumed of them except where a
  property says so (identifiers that are fresh and distinct). Instants are integers (microseconds), durations and
  other floats are rationals; where the range of floats matters (\<open>delay_for\<close>, \<open>backoff_seconds\<close>) overflow is
  an exception of the model. A column that holds the value of an enum holds its member, a JSON column the parsed value.

  Bounds. The loops of the worker and of the publisher run until they are told to stop; the model takes the
  number of cycles as fuel, and the properties hold for every number. All other recursion follows the data;
  Kahn's algorithm stops because each node enters the queue once. The failover loop runs over the attempts
  that are left, as the loop of the code does with its counter.

  Not modelled. HTTP routes, the handlers of commands and queries (except those of \<^verbatim>\<open>automation\<close>), dependency injection and manifests pass arguments
  on; in-memory stores are test doubles; telemetry does not change the state. The driver of the database and
  SQLAlchemy are represented by what the statements mean. The context pipeline of
  the agent runtime and the modules \<^verbatim>\<open>studio\<close>, \<^verbatim>\<open>production\<close>, \<^verbatim>\<open>quality\<close>, \<^verbatim>\<open>memory\<close>,
  \<^verbatim>\<open>workspace\<close> and \<^verbatim>\<open>live_record\<close> follow the same pattern of store, scope and service as
  the agent runtime and are left out, as are the job handler of \<^verbatim>\<open>automation\<close> and the provider adapters of the gateway, which talk to external services.
\<close>

end
